(* ===== verification/Ebpf.thy ===== *)
theory Ebpf
  imports Slop_Prelude
begin

text \<open>
  The eBPF subset of \<open>ebpf/src/lib.rs\<close>: instruction decoding, the two-pass verifier
  \<open>verify\<close> and the interpreter \<open>execute\<close>.

  The arrays \<open>wide_second\<close> and \<open>incoming\<close> of the verifier are total functions on the
  instruction index (every access of the code is below the program length, which is at most
  \<open>MAX_INSTRUCTIONS\<close>, the length of those arrays). The helper registry is a parameter: a state
  and a \<open>call\<close> function. Everything that would abort the kernel in the interpreter (an index out
  of bounds, \<open>unreachable!\<close>) is the outcome \<open>Panic\<close>.
\<close>

section \<open>Instructions\<close>

definition MAX_INSTRUCTIONS :: nat where "MAX_INSTRUCTIONS = 4096"
definition STACK_SIZE :: nat where "STACK_SIZE = 512"
definition REGISTER_COUNT :: nat where "REGISTER_COUNT = 11"
definition UNREACHED :: u16 where "UNREACHED = 0xffff"

record Instruction =
  opcode :: u8
  registers :: u8
  offset :: i16
  immediate :: i32

definition Instruction_new :: "u8 \<Rightarrow> u8 \<Rightarrow> u8 \<Rightarrow> i16 \<Rightarrow> i32 \<Rightarrow> Instruction" where
  "Instruction_new opc destination source off imm =
     \<lparr>opcode = opc, registers = push_bit 4 source OR (destination AND 0x0f),
      offset = off, immediate = imm\<rparr>"

definition destination :: "Instruction \<Rightarrow> nat" where
  "destination i = unat (registers i AND 0x0f)"

definition source :: "Instruction \<Rightarrow> nat" where
  "source i = unat (drop_bit 4 (registers i))"

text \<open>\<open>decode\<close> takes an array of exactly eight bytes.\<close>

definition decode :: "u8 list \<Rightarrow> Instruction" where
  "decode bytes =
     \<lparr>opcode = bytes ! 0, registers = bytes ! 1,
      offset = from_le_bytes [bytes ! 2, bytes ! 3],
      immediate = from_le_bytes [bytes ! 4, bytes ! 5, bytes ! 6, bytes ! 7]\<rparr>"

datatype VerifyError =
    EmptyProgram
  | ProgramTooLarge
  | InvalidOpcode nat u8
  | InvalidRegister nat nat
  | FramePointerWrite nat
  | UninitializedRegister nat nat
  | InvalidJump nat
  | BackwardJump nat
  | JumpIntoWideImmediate nat
  | TruncatedWideImmediate nat
  | InvalidWideImmediate nat
  | InvalidHelper nat i32
  | InvalidStackBase nat
  | StackOutOfBounds nat
  | ReachableFallthrough nat
  | MissingExit

datatype RuntimeError =
    DivisionByZero nat
  | RuntimeInvalidHelper nat i32
  | InvalidStackAccess nat
  | StepLimit

section \<open>Opcode classes\<close>

definition is_alu_immediate :: "u8 \<Rightarrow> bool" where
  "is_alu_immediate opc \<longleftrightarrow>
     opc \<in> set [0x07, 0x17, 0x27, 0x37, 0x47, 0x57, 0x67, 0x77, 0x97, 0xa7, 0xc7]"

definition is_alu_register :: "u8 \<Rightarrow> bool" where
  "is_alu_register opc \<longleftrightarrow>
     opc \<in> set [0x0f, 0x1f, 0x2f, 0x3f, 0x4f, 0x5f, 0x6f, 0x7f, 0x9f, 0xaf, 0xcf]"

definition is_conditional_jump_immediate :: "u8 \<Rightarrow> bool" where
  "is_conditional_jump_immediate opc \<longleftrightarrow>
     opc \<in> set [0x15, 0x25, 0x35, 0x45, 0x55, 0x65, 0x75, 0xa5, 0xb5, 0xc5, 0xd5]"

definition is_conditional_jump_register :: "u8 \<Rightarrow> bool" where
  "is_conditional_jump_register opc \<longleftrightarrow>
     opc \<in> set [0x1d, 0x2d, 0x3d, 0x4d, 0x5d, 0x6d, 0x7d, 0xad, 0xbd, 0xcd, 0xdd]"

definition is_stack_load :: "u8 \<Rightarrow> bool" where
  "is_stack_load opc \<longleftrightarrow> opc \<in> set [0x61, 0x69, 0x71, 0x79]"

definition is_stack_store_immediate :: "u8 \<Rightarrow> bool" where
  "is_stack_store_immediate opc \<longleftrightarrow> opc \<in> set [0x62, 0x6a, 0x72, 0x7a]"

definition is_stack_store_register :: "u8 \<Rightarrow> bool" where
  "is_stack_store_register opc \<longleftrightarrow> opc \<in> set [0x63, 0x6b, 0x73, 0x7b]"

definition is_supported_opcode :: "u8 \<Rightarrow> bool" where
  "is_supported_opcode opc \<longleftrightarrow>
     opc = 0x18 \<or> opc = 0xb7 \<or> opc = 0xbf \<or> opc = 0x87 \<or> opc = 0x05 \<or> opc = 0x85 \<or> opc = 0x95
     \<or> is_alu_immediate opc \<or> is_alu_register opc
     \<or> is_conditional_jump_immediate opc \<or> is_conditional_jump_register opc
     \<or> is_stack_load opc \<or> is_stack_store_immediate opc \<or> is_stack_store_register opc"

definition access_size :: "u8 \<Rightarrow> nat" where
  "access_size opc =
     (if opc AND 0x18 = 0x00 then 4
      else if opc AND 0x18 = 0x08 then 2
      else if opc AND 0x18 = 0x10 then 1
      else if opc AND 0x18 = 0x18 then 8
      else 0)"

lemmas opcode_class_defs =
  is_alu_immediate_def is_alu_register_def is_conditional_jump_immediate_def
  is_conditional_jump_register_def is_stack_load_def is_stack_store_immediate_def
  is_stack_store_register_def

section \<open>The verifier\<close>

definition validate_register_numbers :: "nat \<Rightarrow> Instruction \<Rightarrow> VerifyError + unit" where
  "validate_register_numbers pc i =
     (if REGISTER_COUNT \<le> destination i then Inl (InvalidRegister pc (destination i))
      else if REGISTER_COUNT \<le> source i then Inl (InvalidRegister pc (source i))
      else Inr ())"

definition ensure_writable_destination :: "nat \<Rightarrow> nat \<Rightarrow> VerifyError + unit" where
  "ensure_writable_destination pc dst = (if dst = 10 then Inl (FramePointerWrite pc) else Inr ())"

definition require_initialized :: "u16 \<Rightarrow> nat \<Rightarrow> nat \<Rightarrow> VerifyError + unit" where
  "require_initialized initialized pc reg =
     (if initialized AND push_bit reg 1 = 0 then Inl (UninitializedRegister pc reg) else Inr ())"

definition require_stack_access :: "nat \<Rightarrow> nat \<Rightarrow> i16 \<Rightarrow> nat \<Rightarrow> VerifyError + unit" where
  "require_stack_access pc base off sz =
     (if base \<noteq> 10 then Inl (InvalidStackBase pc)
      else let start = int STACK_SIZE + sint off in
        if start < 0 \<or> nat start + sz > STACK_SIZE then Inl (StackOutOfBounds pc) else Inr ())"

definition propagate ::
  "(nat \<Rightarrow> u16) \<Rightarrow> nat \<Rightarrow> nat \<Rightarrow> u16 \<Rightarrow> nat \<Rightarrow> VerifyError + (nat \<Rightarrow> u16)" where
  "propagate incoming len target state source_pc =
     (if len \<le> target then Inl (ReachableFallthrough source_pc)
      else Inr (incoming(target :=
        (if incoming target = UNREACHED then state else incoming target AND state))))"

definition propagate_next ::
  "(nat \<Rightarrow> u16) \<Rightarrow> nat \<Rightarrow> nat \<Rightarrow> u16 \<Rightarrow> VerifyError + (nat \<Rightarrow> u16)" where
  "propagate_next incoming len pc state = propagate incoming len (pc + 1) state pc"

definition jump_target :: "nat \<Rightarrow> nat \<Rightarrow> i16 \<Rightarrow> VerifyError + nat" where
  "jump_target len pc off =
     (if sint off < 0 then Inl (BackwardJump pc)
      else rbind (ok_or (InvalidJump pc)
             (Option.bind (usize_add pc 1) (\<lambda>nxt. usize_add nxt (nat (sint off)))))
        (\<lambda>target. if len \<le> target then Inl (InvalidJump pc) else Inr target))"

definition propagate_branch ::
  "(nat \<Rightarrow> u16) \<Rightarrow> (nat \<Rightarrow> bool) \<Rightarrow> nat \<Rightarrow> nat \<Rightarrow> i16 \<Rightarrow> u16 \<Rightarrow> VerifyError + (nat \<Rightarrow> u16)" where
  "propagate_branch incoming wide_second len pc off state =
     rbind (jump_target len pc off) (\<lambda>target.
       if wide_second target then Inl (JumpIntoWideImmediate pc)
       else rbind (propagate incoming len (pc + 1) state pc) (\<lambda>incoming.
         propagate incoming len target state pc))"

text \<open>First pass: register numbers, supported opcodes and the continuation slots of wide
  immediates (\<open>while pc < instructions.len()\<close>).\<close>

function scan_wide :: "Instruction list \<Rightarrow> nat \<Rightarrow> (nat \<Rightarrow> bool) \<Rightarrow> VerifyError + (nat \<Rightarrow> bool)" where
  "scan_wide instructions pc wide_second =
     (if pc < length instructions then
        rbind (validate_register_numbers pc (instructions ! pc)) (\<lambda>_.
          if opcode (instructions ! pc) = 0x18 then
            if length instructions \<le> pc + 1 then Inl (TruncatedWideImmediate pc)
            else if source (instructions ! pc) \<noteq> 0
                \<or> opcode (instructions ! (pc + 1)) \<noteq> 0
                \<or> registers (instructions ! (pc + 1)) \<noteq> 0
                \<or> offset (instructions ! (pc + 1)) \<noteq> 0
              then Inl (InvalidWideImmediate pc)
            else scan_wide instructions (pc + 2) (wide_second(pc + 1 := True))
          else if \<not> is_supported_opcode (opcode (instructions ! pc))
            then Inl (InvalidOpcode pc (opcode (instructions ! pc)))
          else scan_wide instructions (pc + 1) wide_second)
      else Inr wide_second)"
  by pat_completeness auto
termination
  by (relation "measure (\<lambda>(is, pc, w). length is - pc)") auto

declare scan_wide.simps [simp del]

text \<open>Second pass, the body of \<open>for pc in 0..instructions.len()\<close>: the match of the code, arm by
  arm. The state is the pair of \<open>incoming\<close> and \<open>saw_exit\<close>.\<close>

definition verify_instruction ::
  "Instruction list \<Rightarrow> i32 list \<Rightarrow> (nat \<Rightarrow> bool) \<Rightarrow> nat
   \<Rightarrow> (nat \<Rightarrow> u16) \<times> bool \<Rightarrow> VerifyError + ((nat \<Rightarrow> u16) \<times> bool)" where
  "verify_instruction instructions allowed_helpers wide_second pc st =
    (let incoming = fst st; saw_exit = snd st; initialized = incoming pc in
     if initialized = UNREACHED \<or> wide_second pc then Inr st
     else let
       i = instructions ! pc; len = length instructions;
       dst = destination i; src = source i; opc = opcode i;
       continue = (\<lambda>r. rbind r (\<lambda>inc. Inr (inc, saw_exit)));
       written = initialized OR push_bit dst 1
     in
     if opc = 0x18 then
       rbind (ensure_writable_destination pc dst) (\<lambda>_.
         continue (propagate incoming len (pc + 2) written pc))
     else if opc = 0xb7 then
       rbind (ensure_writable_destination pc dst) (\<lambda>_.
         continue (propagate_next incoming len pc written))
     else if opc = 0xbf then
       rbind (ensure_writable_destination pc dst) (\<lambda>_.
       rbind (require_initialized initialized pc src) (\<lambda>_.
         continue (propagate_next incoming len pc written)))
     else if is_alu_immediate opc then
       rbind (ensure_writable_destination pc dst) (\<lambda>_.
       rbind (require_initialized initialized pc dst) (\<lambda>_.
         continue (propagate_next incoming len pc written)))
     else if is_alu_register opc then
       rbind (ensure_writable_destination pc dst) (\<lambda>_.
       rbind (require_initialized initialized pc dst) (\<lambda>_.
       rbind (require_initialized initialized pc src) (\<lambda>_.
         continue (propagate_next incoming len pc written))))
     else if opc = 0x87 then
       rbind (ensure_writable_destination pc dst) (\<lambda>_.
       rbind (require_initialized initialized pc dst) (\<lambda>_.
         continue (propagate_next incoming len pc initialized)))
     else if is_stack_load opc then
       rbind (ensure_writable_destination pc dst) (\<lambda>_.
       rbind (require_stack_access pc src (offset i) (access_size opc)) (\<lambda>_.
         continue (propagate_next incoming len pc written)))
     else if is_stack_store_immediate opc then
       rbind (require_stack_access pc dst (offset i) (access_size opc)) (\<lambda>_.
         continue (propagate_next incoming len pc initialized))
     else if is_stack_store_register opc then
       rbind (require_stack_access pc dst (offset i) (access_size opc)) (\<lambda>_.
       rbind (require_initialized initialized pc src) (\<lambda>_.
         continue (propagate_next incoming len pc initialized)))
     else if opc = 0x05 then
       rbind (jump_target len pc (offset i)) (\<lambda>target.
         if wide_second target then Inl (JumpIntoWideImmediate pc)
         else continue (propagate incoming len target initialized pc))
     else if is_conditional_jump_immediate opc then
       rbind (require_initialized initialized pc dst) (\<lambda>_.
         continue (propagate_branch incoming wide_second len pc (offset i) initialized))
     else if is_conditional_jump_register opc then
       rbind (require_initialized initialized pc dst) (\<lambda>_.
       rbind (require_initialized initialized pc src) (\<lambda>_.
         continue (propagate_branch incoming wide_second len pc (offset i) initialized)))
     else if opc = 0x85 then
       if immediate i \<notin> set allowed_helpers then Inl (InvalidHelper pc (immediate i))
       else continue (propagate_next incoming len pc ((initialized AND NOT 0x3e) OR 1))
     else if opc = 0x95 then
       rbind (require_initialized initialized pc 0) (\<lambda>_. Inr (incoming, True))
     else Inl (InvalidOpcode pc opc))"

definition verify :: "Instruction list \<Rightarrow> i32 list \<Rightarrow> VerifyError + Instruction list" where
  "verify instructions allowed_helpers =
    (if instructions = [] then Inl EmptyProgram
     else if MAX_INSTRUCTIONS < length instructions then Inl ProgramTooLarge
     else rbind (scan_wide instructions 0 (\<lambda>_. False)) (\<lambda>wide_second.
       rbind (fold_result (verify_instruction instructions allowed_helpers wide_second)
                [0..<length instructions]
                ((\<lambda>_. UNREACHED)(0 := push_bit 1 1 OR push_bit 10 1), False))
         (\<lambda>(incoming, saw_exit).
            if \<not> saw_exit then Inl MissingExit else Inr instructions)))"

section \<open>The interpreter\<close>

record 'h vm =
  vm_regs :: "u64 list"
  vm_stack :: "u8 list"
  vm_pc :: nat
  vm_steps :: nat
  vm_helpers :: 'h

datatype 'h outcome = Continue "'h vm" | Return u64 | Fault RuntimeError | Panic

text \<open>\<open>HelperRegistry::call\<close>: the registry state, the helper number and the registers give an
  optional result and the new registry state. \<open>NoHelpers\<close> is the registry of the code that
  answers no call.\<close>

type_synonym 'h registry = "'h \<Rightarrow> i32 \<Rightarrow> u64 list \<Rightarrow> u64 option \<times> 'h"

definition NoHelpers :: "unit registry" where
  "NoHelpers h helper rs = (None, h)"

text \<open>\<open>pc + 1 + offset as usize\<close>: a negative offset is sign-extended, and the release build
  wraps at the width of \<open>usize\<close>.\<close>

definition branch_pc :: "nat \<Rightarrow> i16 \<Rightarrow> nat" where
  "branch_pc p off = (p + 1 + unat (scast off :: u64)) mod usize_limit"

text \<open>The result of \<open>apply_alu\<close>: \<open>None\<close> is its \<open>unreachable!\<close>, \<open>Some (Inl _)\<close> the division
  error, \<open>Some (Inr _)\<close> the value stored back.\<close>

definition apply_alu :: "u8 \<Rightarrow> u64 \<Rightarrow> u64 \<Rightarrow> nat \<Rightarrow> (RuntimeError + u64) option" where
  "apply_alu opc dst rhs p =
    (let k = opc AND 0xf0; sh = unat (rhs AND 63) in
     if k = 0x00 then Some (Inr (dst + rhs))
     else if k = 0x10 then Some (Inr (dst - rhs))
     else if k = 0x20 then Some (Inr (dst * rhs))
     else if k = 0x30 then (if rhs = 0 then Some (Inl (DivisionByZero p)) else Some (Inr (dst div rhs)))
     else if k = 0x40 then Some (Inr (dst OR rhs))
     else if k = 0x50 then Some (Inr (dst AND rhs))
     else if k = 0x60 then Some (Inr (push_bit sh dst))
     else if k = 0x70 then Some (Inr (drop_bit sh dst))
     else if k = 0x90 then (if rhs = 0 then Some (Inl (DivisionByZero p)) else Some (Inr (dst mod rhs)))
     else if k = 0xa0 then Some (Inr (dst XOR rhs))
     else if k = 0xc0 then Some (Inr (signed_drop_bit sh dst))
     else None)"

definition compare :: "u8 \<Rightarrow> u64 \<Rightarrow> u64 \<Rightarrow> bool" where
  "compare opc lhs rhs =
    (let k = opc AND 0xf0 in
     if k = 0x10 then lhs = rhs
     else if k = 0x20 then rhs < lhs
     else if k = 0x30 then rhs \<le> lhs
     else if k = 0x40 then lhs AND rhs \<noteq> 0
     else if k = 0x50 then lhs \<noteq> rhs
     else if k = 0x60 then sint rhs < sint lhs
     else if k = 0x70 then sint rhs \<le> sint lhs
     else if k = 0xa0 then lhs < rhs
     else if k = 0xb0 then lhs \<le> rhs
     else if k = 0xc0 then sint lhs < sint rhs
     else if k = 0xd0 then sint lhs \<le> sint rhs
     else False)"

definition stack_address :: "i16 \<Rightarrow> nat \<Rightarrow> nat \<Rightarrow> RuntimeError + nat" where
  "stack_address off sz p =
    (let start = int STACK_SIZE + sint off in
     if start < 0 \<or> nat start + sz > STACK_SIZE then Inl (InvalidStackAccess p)
     else Inr (nat start))"

definition load_stack :: "u8 list \<Rightarrow> nat \<Rightarrow> nat \<Rightarrow> u64" where
  "load_stack stk start sz =
     fold (\<lambda>index value. value OR push_bit (index * 8) (ucast (stk ! (start + index)))) [0..<sz] 0"

definition store_stack :: "u8 list \<Rightarrow> nat \<Rightarrow> nat \<Rightarrow> u64 \<Rightarrow> u8 list" where
  "store_stack stk start sz value =
     fold (\<lambda>index s. s[start + index := ucast (drop_bit (index * 8) value)]) [0..<sz] stk"

text \<open>One iteration of \<open>while pc < program.instructions.len()\<close>. An index of the register file out
  of bounds (\<open>REGISTER_COUNT\<close> slots) and a wide immediate without its continuation are panics.\<close>

definition execute_step :: "'h registry \<Rightarrow> Instruction list \<Rightarrow> 'h vm \<Rightarrow> 'h outcome" where
  "execute_step call instructions m =
    (if length instructions \<le> vm_pc m then Fault StepLimit
     else if MAX_INSTRUCTIONS \<le> vm_steps m then Fault StepLimit
     else let
       m1 = m\<lparr>vm_steps := vm_steps m + 1\<rparr>;
       p = vm_pc m; i = instructions ! p; opc = opcode i;
       dst = destination i; src = source i;
       imm = (scast (immediate i) :: u64);
       dst_ok = dst < length (vm_regs m); src_ok = src < length (vm_regs m);
       set_dst = (\<lambda>v. Continue (m1\<lparr>vm_regs := (vm_regs m)[dst := v], vm_pc := p + 1\<rparr>));
       alu = (\<lambda>rhs. case apply_alu opc (vm_regs m ! dst) rhs p of
                None \<Rightarrow> Panic | Some (Inl e) \<Rightarrow> Fault e | Some (Inr v) \<Rightarrow> set_dst v);
       goto = (\<lambda>b. Continue (m1\<lparr>vm_pc := (if b then branch_pc p (offset i) else p + 1)\<rparr>))
     in
     if opc = 0x18 then
       if length instructions \<le> p + 1 \<or> \<not> dst_ok then Panic
       else Continue (m1\<lparr>vm_regs := (vm_regs m)[dst :=
              ucast (immediate i) OR push_bit 32 (ucast (immediate (instructions ! (p + 1))))],
              vm_pc := p + 2\<rparr>)
     else if opc = 0xb7 then (if dst_ok then set_dst imm else Panic)
     else if opc = 0xbf then (if dst_ok \<and> src_ok then set_dst (vm_regs m ! src) else Panic)
     else if is_alu_immediate opc then (if dst_ok then alu imm else Panic)
     else if is_alu_register opc then (if dst_ok \<and> src_ok then alu (vm_regs m ! src) else Panic)
     else if opc = 0x87 then (if dst_ok then set_dst (- (vm_regs m ! dst)) else Panic)
     else if is_stack_load opc then
       (case stack_address (offset i) (access_size opc) p of
          Inl e \<Rightarrow> Fault e
        | Inr start \<Rightarrow> if dst_ok then set_dst (load_stack (vm_stack m) start (access_size opc)) else Panic)
     else if is_stack_store_immediate opc then
       (case stack_address (offset i) (access_size opc) p of
          Inl e \<Rightarrow> Fault e
        | Inr start \<Rightarrow> Continue (m1\<lparr>vm_stack := store_stack (vm_stack m) start (access_size opc) imm, vm_pc := p + 1\<rparr>))
     else if is_stack_store_register opc then
       (case stack_address (offset i) (access_size opc) p of
          Inl e \<Rightarrow> Fault e
        | Inr start \<Rightarrow>
            if src_ok then
              Continue (m1\<lparr>vm_stack := store_stack (vm_stack m) start (access_size opc) (vm_regs m ! src), vm_pc := p + 1\<rparr>)
            else Panic)
     else if opc = 0x05 then goto True
     else if is_conditional_jump_immediate opc then
       (if dst_ok then goto (compare opc (vm_regs m ! dst) imm) else Panic)
     else if is_conditional_jump_register opc then
       (if dst_ok \<and> src_ok then goto (compare opc (vm_regs m ! dst) (vm_regs m ! src)) else Panic)
     else if opc = 0x85 then
       (case call (vm_helpers m) (immediate i) (vm_regs m) of
          (None, h) \<Rightarrow> Fault (RuntimeInvalidHelper p (immediate i))
        | (Some v, h) \<Rightarrow> Continue (m1\<lparr>vm_regs := (vm_regs m)[0 := v], vm_helpers := h, vm_pc := p + 1\<rparr>))
     else if opc = 0x95 then Return (vm_regs m ! 0)
     else Panic)"

text \<open>The loop. Each iteration that continues raises \<open>steps\<close>, which the body bounds by
  \<open>MAX_INSTRUCTIONS\<close>: that is the measure.\<close>

lemma execute_step_steps:
  "execute_step call instructions m = Continue m' \<Longrightarrow>
     vm_steps m' = vm_steps m + 1 \<and> vm_steps m < MAX_INSTRUCTIONS"
  unfolding execute_step_def Let_def
  by (auto split: if_splits option.splits sum.splits prod.splits)

function execute_loop ::
  "'h registry \<Rightarrow> Instruction list \<Rightarrow> 'h vm \<Rightarrow> 'h outcome" where
  "execute_loop call instructions m =
     (case execute_step call instructions m of
        Continue m' \<Rightarrow> execute_loop call instructions m'
      | Return v \<Rightarrow> Return v
      | Fault e \<Rightarrow> Fault e
      | Panic \<Rightarrow> Panic)"
  by pat_completeness auto
termination
  by (relation "measure (\<lambda>(call, is, m). MAX_INSTRUCTIONS - vm_steps m)")
    (auto dest!: execute_step_steps)

declare execute_loop.simps [simp del]

definition initial_vm :: "u64 \<Rightarrow> 'h \<Rightarrow> 'h vm" where
  "initial_vm context h =
     \<lparr>vm_regs = (replicate REGISTER_COUNT 0)[1 := context, 10 := word_of_nat STACK_SIZE],
      vm_stack = replicate STACK_SIZE 0, vm_pc = 0, vm_steps = 0, vm_helpers = h\<rparr>"

definition execute :: "'h registry \<Rightarrow> Instruction list \<Rightarrow> 'h \<Rightarrow> u64 \<Rightarrow> 'h outcome" where
  "execute call instructions h context = execute_loop call instructions (initial_vm context h)"

section \<open>The boot self-test\<close>

text \<open>\<open>verify_ebpf_runtime\<close> of \<open>kernel/src/main.rs\<close>: the built-in program is verified and run
  with no helpers; each \<open>fatal\<close> is an error with its message, success is the instruction count
  and the result that the kernel prints.\<close>

definition PROGRAM :: "Instruction list" where
  "PROGRAM =
    [Instruction_new 0xb7 2 0 0 20,
     Instruction_new 0x07 2 0 0 22,
     Instruction_new 0x7b 10 2 (- 8) 0,
     Instruction_new 0x79 0 10 (- 8) 0,
     Instruction_new 0x95 0 0 0 0]"

definition verify_ebpf_runtime :: "string + nat \<times> u64" where
  "verify_ebpf_runtime =
    (case verify PROGRAM [] of
       Inl _ \<Rightarrow> Inl ''built-in eBPF program failed verification''
     | Inr verified \<Rightarrow>
         (case execute NoHelpers verified () 0 of
            Return result \<Rightarrow>
              if result \<noteq> 42 then Inl ''built-in eBPF program returned the wrong value''
              else Inr (length verified, result)
          | _ \<Rightarrow> Inl ''built-in eBPF program failed execution''))"

end
