(* ===== verification/Ebpf_Sound.thy ===== *)
theory Ebpf_Sound
  imports Ebpf
begin

text \<open>
  Soundness of the eBPF verifier with respect to the interpreter. The verifier's table
  \<open>incoming\<close> is read as a typing of program points by the set of initialised registers: every
  accepted instruction is locally safe at its type, and the type flows to each successor, which
  lies strictly later in the program. The interpreter then preserves the typing, so it cannot
  panic, leave the program, touch memory outside its stack or exhaust its step budget.
\<close>

section \<open>Register masks as sets\<close>

definition bits :: "u16 \<Rightarrow> nat set" where
  "bits w = {r. bit w r}"

lemma bits_and [simp]: "bits (a AND b) = bits a \<inter> bits b"
  by (auto simp: bits_def bit_simps)

lemma bits_or [simp]: "bits (a OR b) = bits a \<union> bits b"
  by (auto simp: bits_def bit_simps)

lemma bits_exp [simp]: "r < 16 \<Longrightarrow> bits (2 ^ r) = {r}"
  by (auto simp: bits_def bit_simps)

lemma mask_test_iff [simp]: "w AND 2 ^ r = 0 \<longleftrightarrow> r \<notin> bits (w :: u16)"
  by (simp add: bits_def and_exp_eq_0_iff_not_bit)

lemma bits_UNREACHED: "bits UNREACHED = {..<16}"
proof -
  have "UNREACHED = mask 16" by (simp add: UNREACHED_def mask_eq_exp_minus_1)
  then have "bits UNREACHED = bits (mask 16)" by (rule arg_cong)
  then show ?thesis by (simp add: bits_def bit_simps lessThan_def)
qed

lemma UNREACHED_minus_1: "UNREACHED = - 1"
  by (simp add: UNREACHED_def)

lemma bits_below_REGISTER_COUNT: "bits w \<subseteq> {..<REGISTER_COUNT} \<Longrightarrow> w \<noteq> UNREACHED"
  using bits_UNREACHED by (auto simp: REGISTER_COUNT_def)

lemma bits_call_mask: "bits ((w AND NOT 0x3e) OR 1) \<subseteq> insert 0 (bits w)"
  by (auto simp: bits_def bit_simps)

section \<open>What an accepted instruction guarantees\<close>

text \<open>The successors of an instruction, the mask it passes on, and the checks it went through, in
  the order of the arms of the verifier.\<close>

definition targets :: "Instruction \<Rightarrow> nat \<Rightarrow> nat list" where
  "targets i p =
    (let opc = opcode i; j = p + 1 + nat (sint (offset i)) in
     if opc = 0x18 then [p + 2]
     else if opc = 0xb7 then [p + 1]
     else if opc = 0xbf then [p + 1]
     else if is_alu_immediate opc then [p + 1]
     else if is_alu_register opc then [p + 1]
     else if opc = 0x87 then [p + 1]
     else if is_stack_load opc then [p + 1]
     else if is_stack_store_immediate opc then [p + 1]
     else if is_stack_store_register opc then [p + 1]
     else if opc = 0x05 then [j]
     else if is_conditional_jump_immediate opc then [p + 1, j]
     else if is_conditional_jump_register opc then [p + 1, j]
     else if opc = 0x85 then [p + 1]
     else [])"

definition out_mask :: "Instruction \<Rightarrow> u16 \<Rightarrow> u16" where
  "out_mask i w =
    (let opc = opcode i; written = w OR push_bit (destination i) 1 in
     if opc = 0x18 then written
     else if opc = 0xb7 then written
     else if opc = 0xbf then written
     else if is_alu_immediate opc then written
     else if is_alu_register opc then written
     else if opc = 0x87 then w
     else if is_stack_load opc then written
     else if is_stack_store_immediate opc then w
     else if is_stack_store_register opc then w
     else if opc = 0x05 then w
     else if is_conditional_jump_immediate opc then w
     else if is_conditional_jump_register opc then w
     else if opc = 0x85 then (w AND NOT 0x3e) OR 1
     else w)"

definition stack_in_bounds :: "Instruction \<Rightarrow> bool" where
  "stack_in_bounds i \<longleftrightarrow> 0 \<le> int STACK_SIZE + sint (offset i)
     \<and> nat (int STACK_SIZE + sint (offset i)) + access_size (opcode i) \<le> STACK_SIZE"

definition locally_safe :: "i32 list \<Rightarrow> Instruction \<Rightarrow> u16 \<Rightarrow> bool" where
  "locally_safe allowed i w =
    (let opc = opcode i; d = destination i; s = source i in
     if opc = 0x18 then d \<noteq> 10
     else if opc = 0xb7 then d \<noteq> 10
     else if opc = 0xbf then d \<noteq> 10 \<and> s \<in> bits w
     else if is_alu_immediate opc then d \<noteq> 10 \<and> d \<in> bits w
     else if is_alu_register opc then d \<noteq> 10 \<and> d \<in> bits w \<and> s \<in> bits w
     else if opc = 0x87 then d \<noteq> 10 \<and> d \<in> bits w
     else if is_stack_load opc then d \<noteq> 10 \<and> s = 10 \<and> stack_in_bounds i
     else if is_stack_store_immediate opc then d = 10 \<and> stack_in_bounds i
     else if is_stack_store_register opc then d = 10 \<and> stack_in_bounds i \<and> s \<in> bits w
     else if opc = 0x05 then 0 \<le> sint (offset i)
     else if is_conditional_jump_immediate opc then d \<in> bits w \<and> 0 \<le> sint (offset i)
     else if is_conditional_jump_register opc then
       d \<in> bits w \<and> s \<in> bits w \<and> 0 \<le> sint (offset i)
     else if opc = 0x85 then immediate i \<in> set allowed
     else if opc = 0x95 then 0 \<in> bits w
     else False)"

definition merge_mask :: "u16 \<Rightarrow> u16 \<Rightarrow> u16" where
  "merge_mask state w = (if w = UNREACHED then state else w AND state)"

definition merge_all :: "nat list \<Rightarrow> u16 \<Rightarrow> (nat \<Rightarrow> u16) \<Rightarrow> (nat \<Rightarrow> u16)" where
  "merge_all ts state incoming = fold (\<lambda>t inc. inc(t := merge_mask state (inc t))) ts incoming"

lemma merge_all_Nil [simp]: "merge_all [] w inc = inc"
  by (simp add: merge_all_def)

lemma ensure_writable_Inr: "ensure_writable_destination p d = Inr x \<longleftrightarrow> d \<noteq> 10"
  by (auto simp: ensure_writable_destination_def)

lemma require_initialized_Inr: "require_initialized w p r = Inr x \<longleftrightarrow> r \<in> bits w"
  by (auto simp: require_initialized_def)

lemma require_stack_access_Inr:
  "require_stack_access p base (offset i) (access_size (opcode i)) = Inr x
     \<longleftrightarrow> base = 10 \<and> stack_in_bounds i"
  by (auto simp: require_stack_access_def stack_in_bounds_def Let_def)

lemma propagate_Inr:
  "propagate incoming len t w p = Inr inc' \<longleftrightarrow> t < len \<and> inc' = merge_all [t] w incoming"
  by (auto simp: propagate_def merge_all_def merge_mask_def)

lemma jump_target_Inr:
  "jump_target len p off = Inr t \<Longrightarrow> 0 \<le> sint off \<and> t = p + 1 + nat (sint off) \<and> t < len"
  by (auto simp: jump_target_def result_simps checked_simps bind_eq_Some_conv split: if_splits)

lemma propagate_branch_Inr:
  assumes "propagate_branch incoming wide len p off w = Inr inc'"
  shows "0 \<le> sint off \<and> p + 1 + nat (sint off) < len \<and> \<not> wide (p + 1 + nat (sint off))
    \<and> p + 1 < len \<and> inc' = merge_all [p + 1, p + 1 + nat (sint off)] w incoming"
proof -
  from assms obtain t where t: "jump_target len p off = Inr t" "\<not> wide t"
    and p: "rbind (propagate incoming len (p + 1) w p) (\<lambda>inc. propagate inc len t w p) = Inr inc'"
    by (auto simp: propagate_branch_def result_simps split: if_splits)
  from p have "p + 1 < len \<and> inc' = merge_all [t] w (merge_all [p + 1] w incoming)"
    by (auto simp: result_simps propagate_Inr)
  with t(2) jump_target_Inr [OF t(1)] show ?thesis by (simp add: merge_all_def)
qed

lemmas verifier_check_simps =
  result_simps ensure_writable_Inr require_initialized_Inr require_stack_access_Inr
  propagate_next_def propagate_Inr

lemma verify_instruction_Inr:
  assumes ok: "verify_instruction instructions allowed wide p (inc, saw) = Inr (inc', saw')"
    and reached: "inc p \<noteq> UNREACHED" "\<not> wide p"
  defines "i \<equiv> instructions ! p"
  shows "locally_safe allowed i (inc p)
    \<and> inc' = merge_all (targets i p) (out_mask i (inc p)) inc
    \<and> (\<forall>t\<in>set (targets i p). t < length instructions)
    \<and> (\<forall>t\<in>set (targets i p). t \<noteq> p + 1 \<longrightarrow> opcode i \<noteq> 0x18 \<longrightarrow> \<not> wide t)"
proof -
  note defs = verify_instruction_def locally_safe_def targets_def out_mask_def Let_def
  show ?thesis
    using ok reached unfolding defs i_def [symmetric]
    by (simp only: fst_conv snd_conv split: if_split_asm)
      (auto simp: verifier_check_simps split: if_split_asm
        dest!: jump_target_Inr propagate_branch_Inr)
qed

section \<open>The first pass\<close>

text \<open>Every continuation slot follows a wide instruction that is not itself a continuation, and
  every other slot holds a supported instruction with valid register numbers.\<close>

definition scanned :: "Instruction list \<Rightarrow> nat \<Rightarrow> (nat \<Rightarrow> bool) \<Rightarrow> bool" where
  "scanned instructions n wide \<longleftrightarrow>
     (\<forall>t. wide t \<longrightarrow> 0 < t \<and> t < n \<and> opcode (instructions ! (t - 1)) = 0x18 \<and> \<not> wide (t - 1))
     \<and> (\<forall>p<n. \<not> wide p \<longrightarrow> destination (instructions ! p) < REGISTER_COUNT
          \<and> source (instructions ! p) < REGISTER_COUNT
          \<and> (opcode (instructions ! p) = 0x18 \<longrightarrow> p + 1 < length instructions \<and> wide (p + 1)))"

lemma scan_wide_scanned:
  assumes "scan_wide instructions p wide = Inr wide'" and "scanned instructions p wide"
    and "p \<le> length instructions"
  shows "scanned instructions (length instructions) wide'"
  using assms
proof (induction instructions p wide rule: scan_wide.induct)
  case (1 instructions p wide)
  show ?case
  proof (cases "p < length instructions")
    case False
    with "1.prems" show ?thesis by (simp add: scan_wide.simps)
  next
    case True
    note in_range = this
    let ?i = "instructions ! p"
    from "1.prems"(1) True have regs: "validate_register_numbers p ?i = Inr ()"
      by (subst (asm) scan_wide.simps) (auto simp: result_simps)
    then have regs': "destination ?i < REGISTER_COUNT" "source ?i < REGISTER_COUNT"
      by (auto simp: validate_register_numbers_def split: if_splits)
    show ?thesis
    proof (cases "opcode ?i = 0x18")
      case wide_op: True
      from "1.prems"(1) in_range regs wide_op have next_in: "p + 1 < length instructions"
        and step: "\<not> (source ?i \<noteq> 0 \<or> opcode (instructions ! (p + 1)) \<noteq> 0
              \<or> registers (instructions ! (p + 1)) \<noteq> 0 \<or> offset (instructions ! (p + 1)) \<noteq> 0)"
          "scan_wide instructions (p + 2) (wide(p + 1 := True)) = Inr wide'"
        by (subst (asm) scan_wide.simps, auto split: if_splits)+
      have "scanned instructions (p + 2) (wide(p + 1 := True))"
        using "1.prems"(2) next_in wide_op regs'
        by (auto simp: scanned_def less_Suc_eq)
      with "1.IH"(1) in_range regs wide_op next_in step show ?thesis by (simp add: fun_upd_def)
    next
      case False
      from "1.prems"(1) in_range regs False have step: "is_supported_opcode (opcode ?i)"
          "scan_wide instructions (p + 1) wide = Inr wide'"
        by (subst (asm) scan_wide.simps, auto split: if_splits)+
      have "scanned instructions (p + 1) wide"
        using "1.prems"(2) regs' False by (auto simp: scanned_def less_Suc_eq)
      with "1.IH"(2) in_range regs False step show ?thesis by simp
    qed
  qed
qed

lemma scanned_fallthrough:
  assumes "scanned instructions n wide" and "p < n" and "\<not> wide p"
  shows "opcode (instructions ! p) \<noteq> 0x18 \<Longrightarrow> \<not> wide (p + 1)"
    and "opcode (instructions ! p) = 0x18 \<Longrightarrow> \<not> wide (p + 2)"
  using assms by (fastforce simp: scanned_def)+

section \<open>The second pass as a typing\<close>

lemma merge_all_nth:
  "merge_all ts w inc t = (if t \<in> set ts then merge_mask w (inc t) else inc t)"
    if "w \<noteq> UNREACHED"
proof -
  have idem: "merge_mask w (merge_mask w v) = merge_mask w v" for v
    using that by (auto simp: merge_mask_def word_bw_assocs UNREACHED_minus_1 and_eq_minus_1_iff)
  have "fold (\<lambda>t inc. inc(t := merge_mask w (inc t))) ts inc t
      = (if t \<in> set ts then merge_mask w (inc t) else inc t)" for inc
    by (induction ts arbitrary: inc) (auto simp: idem)
  then show ?thesis by (simp add: merge_all_def)
qed

definition typed_at :: "Instruction list \<Rightarrow> i32 list \<Rightarrow> (nat \<Rightarrow> bool) \<Rightarrow> (nat \<Rightarrow> u16) \<Rightarrow> nat \<Rightarrow> bool" where
  "typed_at instructions allowed wide inc p \<longleftrightarrow>
     locally_safe allowed (instructions ! p) (inc p)
     \<and> (\<forall>t\<in>set (targets (instructions ! p) p).
          p < t \<and> t < length instructions \<and> \<not> wide t \<and> inc t \<noteq> UNREACHED
          \<and> bits (inc t) \<subseteq> bits (out_mask (instructions ! p) (inc p)))"

definition typing_upto :: "Instruction list \<Rightarrow> i32 list \<Rightarrow> (nat \<Rightarrow> bool) \<Rightarrow> nat \<Rightarrow> (nat \<Rightarrow> u16) \<Rightarrow> bool" where
  "typing_upto instructions allowed wide n inc \<longleftrightarrow>
     (\<forall>p<n. inc p \<noteq> UNREACHED \<and> \<not> wide p \<longrightarrow> typed_at instructions allowed wide inc p)
     \<and> (\<forall>p. inc p \<noteq> UNREACHED \<longrightarrow> bits (inc p) \<subseteq> {..<REGISTER_COUNT})
     \<and> inc 0 \<noteq> UNREACHED \<and> bits (inc 0) \<subseteq> {1, 10}"

lemma targets_forward: "t \<in> set (targets i p) \<Longrightarrow> p < t"
  by (auto simp: targets_def Let_def split: if_splits)

lemma out_mask_bits:
  assumes "destination i < REGISTER_COUNT" and "bits w \<subseteq> {..<REGISTER_COUNT}"
  shows "bits (out_mask i w) \<subseteq> {..<REGISTER_COUNT}"
proof -
  have "destination i < 16" "(0 :: nat) < REGISTER_COUNT"
    using assms(1) by (simp_all add: REGISTER_COUNT_def)
  with assms bits_call_mask [of w] show ?thesis
    by (auto simp: out_mask_def Let_def split: if_splits)
qed

lemma bits_merge_mask: "v \<noteq> UNREACHED \<Longrightarrow> bits (merge_mask w v) = bits v \<inter> bits w"
  by (simp add: merge_mask_def)

lemma typing_step:
  assumes ty: "typing_upto instructions allowed wide p inc"
    and sc: "scanned instructions (length instructions) wide"
    and p: "p < length instructions"
    and ok: "verify_instruction instructions allowed wide p (inc, saw) = Inr (inc', saw')"
  shows "typing_upto instructions allowed wide (Suc p) inc'"
proof (cases "inc p = UNREACHED \<or> wide p")
  case True
  with ok have "inc' = inc" by (auto simp: verify_instruction_def)
  with ty True show ?thesis by (auto simp: typing_upto_def less_Suc_eq)
next
  case False
  let ?i = "instructions ! p"
  let ?w = "out_mask ?i (inc p)"
  from False ok have safe: "locally_safe allowed ?i (inc p)"
    and inc': "inc' = merge_all (targets ?i p) ?w inc"
    and len: "\<forall>t\<in>set (targets ?i p). t < length instructions"
    and jmp: "\<forall>t\<in>set (targets ?i p). t \<noteq> p + 1 \<longrightarrow> opcode ?i \<noteq> 0x18 \<longrightarrow> \<not> wide t"
    using verify_instruction_Inr [of instructions allowed wide p inc saw inc' saw'] by auto
  have regs: "destination ?i < REGISTER_COUNT" using sc p False by (auto simp: scanned_def)
  have w_bits: "bits ?w \<subseteq> {..<REGISTER_COUNT}"
    using ty False regs by (intro out_mask_bits) (auto simp: typing_upto_def)
  then have w_reached: "?w \<noteq> UNREACHED" by (rule bits_below_REGISTER_COUNT)
  have at: "inc' t = (if t \<in> set (targets ?i p) then merge_mask ?w (inc t) else inc t)" for t
    by (simp add: inc' merge_all_nth w_reached)
  have at_target: "bits (inc' t) \<subseteq> bits ?w" if "t \<in> set (targets ?i p)" for t
    using that by (auto simp: at merge_mask_def)
  have small: "bits (inc' t) \<subseteq> {..<REGISTER_COUNT}" if "inc' t \<noteq> UNREACHED" for t
    using that ty at_target w_bits by (cases "t \<in> set (targets ?i p)") (auto simp: at typing_upto_def)
  have stays: "inc' t \<noteq> UNREACHED \<and> bits (inc' t) \<subseteq> bits (inc t)" if "inc t \<noteq> UNREACHED" for t
  proof -
    have "bits (inc' t) \<subseteq> bits (inc t)" using that by (auto simp: at bits_merge_mask)
    moreover have "bits (inc t) \<subseteq> {..<REGISTER_COUNT}" using that ty by (auto simp: typing_upto_def)
    ultimately show ?thesis using bits_below_REGISTER_COUNT [of "inc' t"] by blast
  qed
  have reached': "inc' t \<noteq> UNREACHED" if "t \<in> set (targets ?i p)" for t
    using at_target [OF that] w_bits bits_below_REGISTER_COUNT [of "inc' t"] by blast
  have old: "inc' q = inc q" if "q \<le> p" for q
    using that targets_forward [of q ?i p] by (auto simp: at)
  have narrow: "\<not> wide t" if "t \<in> set (targets ?i p)" for t
    using that jmp scanned_fallthrough [OF sc p] False
    by (cases "opcode ?i = 0x18") (auto simp: targets_def)
  have here: "typed_at instructions allowed wide inc' p"
    using safe len narrow reached' at_target targets_forward [of _ ?i p]
    by (auto simp: typed_at_def old)
  have before: "typed_at instructions allowed wide inc' q" if "q < p" "inc' q \<noteq> UNREACHED" "\<not> wide q" for q
  proof -
    have "typed_at instructions allowed wide inc q" using ty that old [of q] by (auto simp: typing_upto_def)
    then show ?thesis using stays that(1) old [of q] by (fastforce simp: typed_at_def)
  qed
  show ?thesis
    using here before small ty old [of 0] by (auto simp: typing_upto_def less_Suc_eq)
qed

lemma typing_fold:
  assumes sc: "scanned instructions (length instructions) wide" and "n \<le> length instructions"
    and "fold_result (verify_instruction instructions allowed wide) [0..<n] (inc0, saw0) = Inr (inc, saw)"
    and "typing_upto instructions allowed wide 0 inc0"
  shows "typing_upto instructions allowed wide n inc"
  using assms(2,3)
proof (induction n arbitrary: inc saw)
  case 0
  with assms(4) show ?case by simp
next
  case (Suc n)
  from Suc.prems(2) obtain inc1 saw1
    where pre: "fold_result (verify_instruction instructions allowed wide) [0..<n] (inc0, saw0) = Inr (inc1, saw1)"
    and one: "verify_instruction instructions allowed wide n (inc1, saw1) = Inr (inc, saw)"
    by (auto simp: fold_result_append result_simps)
  from Suc.IH [OF _ pre] Suc.prems(1) have "typing_upto instructions allowed wide n inc1" by simp
  from typing_step [OF this sc _ one] Suc.prems(1) show ?case by simp
qed

lemma verify_typing:
  assumes "verify instructions allowed = Inr prog"
  obtains wide inc where "prog = instructions" "instructions \<noteq> []"
    "length instructions \<le> MAX_INSTRUCTIONS"
    "scanned instructions (length instructions) wide"
    "typing_upto instructions allowed wide (length instructions) inc"
proof -
  let ?start = "(\<lambda>_. UNREACHED)(0 := push_bit 1 1 OR push_bit 10 1)"
  from assms obtain wide inc saw where
    ne: "prog = instructions" "instructions \<noteq> []" "length instructions \<le> MAX_INSTRUCTIONS"
    and sc: "scan_wide instructions 0 (\<lambda>_. False) = Inr wide"
    and fr: "fold_result (verify_instruction instructions allowed wide) [0..<length instructions]
        (?start, False) = Inr (inc, saw)"
    by (auto simp: verify_def result_simps split: if_splits)
  have scd: "scanned instructions (length instructions) wide"
    by (rule scan_wide_scanned [OF sc]) (simp_all add: scanned_def)
  have "bits (2 ^ 1) \<union> bits (2 ^ 10) = {1, 10}"
    using bits_exp [of 1] bits_exp [of 10] by auto
  then have b0: "bits (?start 0) = {1, 10}"
    by (simp only: bits_or [symmetric] push_bit_of_1 fun_upd_same)
  have "typing_upto instructions allowed wide 0 ?start"
    unfolding typing_upto_def
    using b0 bits_below_REGISTER_COUNT [of "?start 0"] by (auto simp: REGISTER_COUNT_def)
  from typing_fold [OF scd _ fr this] have "typing_upto instructions allowed wide (length instructions) inc"
    by simp
  with ne scd that show thesis by blast
qed

section \<open>The interpreter preserves the typing\<close>

definition vm_ok :: "Instruction list \<Rightarrow> (nat \<Rightarrow> bool) \<Rightarrow> (nat \<Rightarrow> u16) \<Rightarrow> 'h vm \<Rightarrow> bool" where
  "vm_ok instructions wide inc m \<longleftrightarrow>
     vm_pc m < length instructions \<and> \<not> wide (vm_pc m) \<and> inc (vm_pc m) \<noteq> UNREACHED
     \<and> length (vm_regs m) = REGISTER_COUNT \<and> length (vm_stack m) = STACK_SIZE
     \<and> vm_regs m ! 10 = word_of_nat STACK_SIZE \<and> vm_steps m \<le> vm_pc m"

definition safe_fault :: "Instruction list \<Rightarrow> i32 list \<Rightarrow> RuntimeError \<Rightarrow> bool" where
  "safe_fault instructions allowed e \<longleftrightarrow>
     (\<exists>p<length instructions. e = DivisionByZero p)
     \<or> (\<exists>p<length instructions. \<exists>n\<in>set allowed. e = RuntimeInvalidHelper p n)"

lemma length_store_stack [simp]: "length (store_stack s a n v) = length s"
proof -
  have "length (fold (\<lambda>index s. s[a + index := ucast (drop_bit (index * 8) v)]) xs s) = length s"
    for xs and s :: "u8 list"
    by (induction xs arbitrary: s) auto
  then show ?thesis by (simp add: store_stack_def)
qed

lemma stack_address_safe:
  "stack_in_bounds i \<Longrightarrow>
     stack_address (offset i) (access_size (opcode i)) p = Inr (nat (int STACK_SIZE + sint (offset i)))"
  by (simp add: stack_in_bounds_def stack_address_def Let_def)

lemma unat_scast_nonneg:
  assumes "0 \<le> sint (off :: i16)"
  shows "unat (scast off :: u64) = nat (sint off)"
proof -
  have "sint off < 2 ^ 15" using sint_lt [of off] by simp
  then have "sint off < 2 ^ 64" by (rule less_trans) simp
  with assms have "take_bit 64 (sint off) = sint off" by (intro take_bit_int_eq_self)
  moreover have "uint (scast off :: u64) = take_bit 64 (sint off)"
    by (subst scast_eq, subst uint_word_of_int_eq) simp
  ultimately show ?thesis by (simp only: unat_eq_nat_uint)
qed

lemma branch_pc_forward:
  assumes "0 \<le> sint off" and "p + 1 + nat (sint off) < usize_limit"
  shows "branch_pc p off = p + 1 + nat (sint off)"
  using assms by (simp add: branch_pc_def unat_scast_nonneg)

lemma apply_alu_not_unreachable:
  "is_alu_immediate opc \<or> is_alu_register opc \<Longrightarrow>
     (\<exists>v. apply_alu opc d r p = Some (Inr v)) \<or> apply_alu opc d r p = Some (Inl (DivisionByZero p))"
  by (auto simp: opcode_class_defs apply_alu_def)

fun good_outcome ::
  "Instruction list \<Rightarrow> i32 list \<Rightarrow> (nat \<Rightarrow> bool) \<Rightarrow> (nat \<Rightarrow> u16) \<Rightarrow> nat \<Rightarrow> 'h outcome \<Rightarrow> bool" where
  "good_outcome instructions allowed wide inc p (Continue m) \<longleftrightarrow>
     vm_ok instructions wide inc m \<and> vm_pc m \<in> set (targets (instructions ! p) p)"
| "good_outcome instructions allowed wide inc p (Return v) \<longleftrightarrow> True"
| "good_outcome instructions allowed wide inc p (Fault e) \<longleftrightarrow> safe_fault instructions allowed e"
| "good_outcome instructions allowed wide inc p Panic \<longleftrightarrow> False"

lemma execute_step_sound:
  assumes ok: "vm_ok instructions wide inc m"
    and ty: "typing_upto instructions allowed wide (length instructions) inc"
    and sc: "scanned instructions (length instructions) wide"
    and len: "length instructions \<le> MAX_INSTRUCTIONS"
  shows "good_outcome instructions allowed wide inc (vm_pc m) (execute_step call instructions m)"
proof -
  define p where "p = vm_pc m"
  define i where "i = instructions ! p"
  let ?good = "good_outcome instructions allowed wide inc p"
  have p: "p < length instructions" "\<not> MAX_INSTRUCTIONS \<le> vm_steps m"
    using ok len by (auto simp: vm_ok_def p_def)
  have typed: "typed_at instructions allowed wide inc p"
    using ok ty by (auto simp: vm_ok_def typing_upto_def p_def)
  then have safe: "locally_safe allowed i (inc p)" by (simp add: typed_at_def i_def)
  have rn: "destination i < REGISTER_COUNT" "source i < REGISTER_COUNT"
    "opcode i = 0x18 \<Longrightarrow> \<not> length instructions \<le> p + 1"
    using ok sc by (auto simp: vm_ok_def scanned_def p_def i_def)
  have regs: "length (vm_regs m) = REGISTER_COUNT" "length (vm_stack m) = STACK_SIZE"
    using ok by (simp_all add: vm_ok_def)
  have cont: "?good (Continue m')"
    if "vm_pc m' \<in> set (targets i p)" "vm_steps m' = vm_steps m + 1"
      "length (vm_regs m') = REGISTER_COUNT" "length (vm_stack m') = STACK_SIZE"
      "vm_regs m' ! 10 = vm_regs m ! 10" for m'
  proof -
    from typed that(1) have "p < vm_pc m'" "vm_pc m' < length instructions"
      "\<not> wide (vm_pc m')" "inc (vm_pc m') \<noteq> UNREACHED"
      unfolding typed_at_def i_def by blast+
    with that ok show ?thesis by (simp add: vm_ok_def p_def i_def)
  qed
  have br: "branch_pc p (offset i) = p + 1 + nat (sint (offset i))"
    if "p + 1 + nat (sint (offset i)) \<in> set (targets i p)" "0 \<le> sint (offset i)"
  proof -
    from typed that(1) have "p + 1 + nat (sint (offset i)) < length instructions"
      unfolding typed_at_def i_def by blast
    with len have "p + 1 + nat (sint (offset i)) < usize_limit"
      by (simp add: usize_limit_def MAX_INSTRUCTIONS_def)
    with that(2) show ?thesis by (rule branch_pc_forward)
  qed
  have zero: "safe_fault instructions allowed (DivisionByZero p)"
    using p by (auto simp: safe_fault_def)
  have helper: "safe_fault instructions allowed (RuntimeInvalidHelper p (immediate i))"
    if "immediate i \<in> set allowed"
    using that p by (auto simp: safe_fault_def)
  have alu: "?good (case apply_alu (opcode i) (vm_regs m ! destination i) rhs p of
      None \<Rightarrow> Panic | Some (Inl e) \<Rightarrow> Fault e
    | Some (Inr v) \<Rightarrow> Continue (m\<lparr>vm_steps := vm_steps m + 1, vm_regs := (vm_regs m)[destination i := v],
        vm_pc := p + 1\<rparr>))"
    if "is_alu_immediate (opcode i) \<or> is_alu_register (opcode i)" "p + 1 \<in> set (targets i p)"
      "destination i \<noteq> 10" for rhs
    using apply_alu_not_unreachable [OF that(1), of "vm_regs m ! destination i" rhs p] that zero regs
    by (auto intro!: cont simp del: good_outcome.simps(1))
  have call: "?good (case call (vm_helpers m) (immediate i) (vm_regs m) of
          (None, h) \<Rightarrow> Fault (RuntimeInvalidHelper p (immediate i))
        | (Some v, h) \<Rightarrow> Continue (m\<lparr>vm_steps := vm_steps m + 1, vm_regs := (vm_regs m)[0 := v],
            vm_helpers := h, vm_pc := p + 1\<rparr>))"
    if "p + 1 \<in> set (targets i p)" "immediate i \<in> set allowed"
    using that regs helper
    by (auto split: prod.split option.split intro!: cont simp del: good_outcome.simps(1))
  have "?good (execute_step call instructions m)"
    using safe p rn regs
    unfolding execute_step_def locally_safe_def Let_def p_def [symmetric] i_def [symmetric]
    by (simp only: split: if_split_asm)
      (auto simp: stack_address_safe br targets_def Let_def
        simp del: good_outcome.simps(1) intro!: cont alu [simplified] call [simplified])
  then show ?thesis by (simp add: p_def)
qed

lemma execute_loop_sound:
  assumes "vm_ok instructions wide inc m"
    and "typing_upto instructions allowed wide (length instructions) inc"
    and "scanned instructions (length instructions) wide"
    and "length instructions \<le> MAX_INSTRUCTIONS"
  shows "(\<exists>v. execute_loop call instructions m = Return v)
    \<or> (\<exists>e. execute_loop call instructions m = Fault e \<and> safe_fault instructions allowed e)"
  using assms
proof (induction call instructions m rule: execute_loop.induct)
  case (1 call instructions m)
  note step = execute_step_sound [OF "1.prems", of call]
  show ?case
  proof (cases "execute_step call instructions m")
    case (Continue m')
    with step have "vm_ok instructions wide inc m'" by simp
    with Continue "1.IH" "1.prems" show ?thesis by (subst (1 2) execute_loop.simps) simp
  qed (use step in \<open>auto simp: execute_loop.simps [of call instructions m]\<close>)
qed

lemma initial_vm_ok:
  "instructions \<noteq> [] \<Longrightarrow> scanned instructions (length instructions) wide \<Longrightarrow>
   typing_upto instructions allowed wide (length instructions) inc \<Longrightarrow>
   vm_ok instructions wide inc (initial_vm context h)"
  by (auto simp: vm_ok_def initial_vm_def typing_upto_def scanned_def REGISTER_COUNT_def)

text \<open>\<^bold>\<open>C1\<close>. A program the verifier accepts runs safely under any helper registry and any context:
  the interpreter returns a value, or stops with a division by zero at an instruction of the
  program, or stops because the registry refuses a helper that the verifier had allowed. It
  never panics (no unknown opcode, no register or instruction index out of bounds), never
  accesses memory outside its stack and never runs out of its step budget.\<close>

theorem verified_program_runs_safely:
  assumes "verify instructions allowed = Inr prog"
  shows "(\<exists>v. execute call prog h context = Return v)
    \<or> (\<exists>p<length instructions. execute call prog h context = Fault (DivisionByZero p))
    \<or> (\<exists>p<length instructions. \<exists>n\<in>set allowed.
         execute call prog h context = Fault (RuntimeInvalidHelper p n))"
proof -
  obtain wide inc where prog: "prog = instructions" "instructions \<noteq> []"
    and ty: "length instructions \<le> MAX_INSTRUCTIONS" "scanned instructions (length instructions) wide"
      "typing_upto instructions allowed wide (length instructions) inc"
    using assms by (rule verify_typing)
  have "vm_ok instructions wide inc (initial_vm context h)"
    using prog(2) ty(2,3) by (rule initial_vm_ok)
  from execute_loop_sound [OF this ty(3,2,1), of call] show ?thesis
    by (auto simp: execute_def prog(1) safe_fault_def)
qed

theorem verified_program_runs_safely_witness:
  "verify PROGRAM [] = Inr PROGRAM
   \<and> ((\<exists>v. execute NoHelpers PROGRAM () 7 = Return v)
     \<or> (\<exists>p<length PROGRAM. execute NoHelpers PROGRAM () 7 = Fault (DivisionByZero p)))"
proof -
  have ok: "verify PROGRAM [] = Inr PROGRAM" by code_simp
  show ?thesis using ok verified_program_runs_safely [OF ok, of NoHelpers "()" 7] by simp
qed

text \<open>The kernel's boot self-test succeeds: the built-in program passes the verifier, the
  interpreter returns 42 through a register, an addition, an eight-byte stack store and the
  matching load, and no \<open>fatal\<close> branch is taken.\<close>

lemma boot_self_test_succeeds: "verify_ebpf_runtime = Inr (5, 42)"
  by code_simp

section \<open>Helpers and uninitialised registers\<close>

lemma execute_step_registry:
  assumes ok: "vm_ok instructions wide inc m"
    and ty: "typing_upto instructions allowed wide (length instructions) inc"
    and agree: "\<And>h n rs. n \<in> set allowed \<Longrightarrow> call h n rs = call' h n rs"
  shows "execute_step call instructions m = execute_step call' instructions m"
proof -
  let ?i = "instructions ! vm_pc m"
  have "typed_at instructions allowed wide inc (vm_pc m)"
    using ok ty by (auto simp: vm_ok_def typing_upto_def)
  then have "locally_safe allowed ?i (inc (vm_pc m))" by (simp add: typed_at_def)
  then show ?thesis
    unfolding execute_step_def locally_safe_def Let_def
    by (simp only: split: if_split_asm) (simp_all add: agree)
qed

lemma execute_loop_registry:
  assumes "vm_ok instructions wide inc m"
    and "typing_upto instructions allowed wide (length instructions) inc"
    and "scanned instructions (length instructions) wide"
    and "length instructions \<le> MAX_INSTRUCTIONS"
    and "\<And>h n rs. n \<in> set allowed \<Longrightarrow> call h n rs = call' h n rs"
  shows "execute_loop call instructions m = execute_loop call' instructions m"
  using assms
proof (induction call instructions m rule: execute_loop.induct)
  case (1 call instructions m)
  have eq: "execute_step call' instructions m = execute_step call instructions m"
    using "1.prems"(1,2,5) by (rule execute_step_registry [symmetric])
  have unfold: "execute_loop call instructions m =
      (case execute_step call instructions m of Continue m' \<Rightarrow> execute_loop call instructions m'
       | Return v \<Rightarrow> Return v | Fault e \<Rightarrow> Fault e | Panic \<Rightarrow> Panic)"
    "execute_loop call' instructions m =
      (case execute_step call instructions m of Continue m' \<Rightarrow> execute_loop call' instructions m'
       | Return v \<Rightarrow> Return v | Fault e \<Rightarrow> Fault e | Panic \<Rightarrow> Panic)"
    using eq by (simp_all add: execute_loop.simps [of _ instructions m])
  show ?case
  proof (cases "execute_step call instructions m")
    case (Continue m')
    with execute_step_sound [OF "1.prems"(1-4), of call] have "vm_ok instructions wide inc m'" by simp
    from "1.IH" [OF Continue this "1.prems"(2-5)] Continue show ?thesis by (simp add: unfold)
  qed (simp_all add: unfold)
qed

text \<open>\<^bold>\<open>C2\<close>. An accepted program reaches the kernel only through the helpers it was granted: two
  registries that answer the allowed helper numbers alike give the same execution, whatever they
  do for every other number.\<close>

theorem verified_program_uses_allowed_helpers_only:
  assumes "verify instructions allowed = Inr prog"
    and "\<And>h n rs. n \<in> set allowed \<Longrightarrow> call h n rs = call' h n rs"
  shows "execute call prog h context = execute call' prog h context"
proof -
  obtain wide inc where prog: "prog = instructions" "instructions \<noteq> []"
    and ty: "length instructions \<le> MAX_INSTRUCTIONS" "scanned instructions (length instructions) wide"
      "typing_upto instructions allowed wide (length instructions) inc"
    using assms(1) by (rule verify_typing)
  have "vm_ok instructions wide inc (initial_vm context h)"
    using prog(2) ty(2,3) by (rule initial_vm_ok)
  from execute_loop_registry [OF this ty(3,2,1) assms(2)] show ?thesis
    by (simp add: execute_def prog(1))
qed

theorem verified_program_uses_allowed_helpers_only_witness:
  "verify [Instruction_new 0x85 0 0 0 7, Instruction_new 0x95 0 0 0 0] [7]
     = Inr [Instruction_new 0x85 0 0 0 7, Instruction_new 0x95 0 0 0 0]
   \<and> execute (\<lambda>h n rs. (if n = 7 then Some 1 else None, h + 1))
       [Instruction_new 0x85 0 0 0 7, Instruction_new 0x95 0 0 0 0] (0 :: nat) 0
     = execute (\<lambda>h n rs. (Some 1, h + 1))
       [Instruction_new 0x85 0 0 0 7, Instruction_new 0x95 0 0 0 0] 0 0"
proof -
  let ?prog = "[Instruction_new 0x85 0 0 0 7, Instruction_new 0x95 0 0 0 0]"
  have ok: "verify ?prog [7] = Inr ?prog" by code_simp
  show ?thesis
    using ok verified_program_uses_allowed_helpers_only [OF ok,
        of "\<lambda>h n rs. (if n = 7 then Some 1 else None, h + 1)" "\<lambda>h n rs. (Some 1, h + 1)" "0 :: nat" 0]
    by simp
qed

text \<open>Two machine states that agree on a set of registers and on everything else.\<close>

definition agree_on :: "nat set \<Rightarrow> 'h vm \<Rightarrow> 'h vm \<Rightarrow> bool" where
  "agree_on R m n \<longleftrightarrow> vm_pc n = vm_pc m \<and> vm_steps n = vm_steps m \<and> vm_stack n = vm_stack m
     \<and> vm_helpers n = vm_helpers m \<and> length (vm_regs n) = length (vm_regs m)
     \<and> (\<forall>r\<in>R. vm_regs n ! r = vm_regs m ! r)"

fun outcomes_agree :: "nat set \<Rightarrow> 'h outcome \<Rightarrow> 'h outcome \<Rightarrow> bool" where
  "outcomes_agree R (Continue m) (Continue n) \<longleftrightarrow> agree_on R m n"
| "outcomes_agree R (Return v) out \<longleftrightarrow> out = Return v"
| "outcomes_agree R (Fault e) out \<longleftrightarrow> out = Fault e"
| "outcomes_agree R Panic out \<longleftrightarrow> out = Panic"
| "outcomes_agree R (Continue m) out \<longleftrightarrow> False"

lemma agree_on_mono: "agree_on R m n \<Longrightarrow> S \<subseteq> R \<Longrightarrow> agree_on S m n"
  by (auto simp: agree_on_def)

lemma execute_step_agree:
  assumes ok: "vm_ok instructions wide inc m"
    and agree: "agree_on (bits (inc (vm_pc m))) m n"
    and ty: "typing_upto instructions allowed wide (length instructions) inc"
    and sc: "scanned instructions (length instructions) wide"
    and call: "\<And>h k rs rs'. k \<in> set allowed \<Longrightarrow> call h k rs = call h k rs'"
  shows "outcomes_agree (bits (out_mask (instructions ! vm_pc m) (inc (vm_pc m))))
    (execute_step call instructions m) (execute_step call instructions n)"
proof -
  define p where "p = vm_pc m"
  define i where "i = instructions ! p"
  have "typed_at instructions allowed wide inc p"
    using ok ty by (auto simp: vm_ok_def typing_upto_def p_def)
  then have safe: "locally_safe allowed i (inc p)" by (simp add: typed_at_def i_def)
  have rn: "destination i < 16" "destination i < REGISTER_COUNT"
    using ok sc by (auto simp: vm_ok_def scanned_def p_def i_def REGISTER_COUNT_def)
  have same: "vm_pc n = p" "vm_steps n = vm_steps m" "vm_stack n = vm_stack m"
    "vm_helpers n = vm_helpers m" "length (vm_regs n) = REGISTER_COUNT"
    "length (vm_regs m) = REGISTER_COUNT"
    and reg: "\<And>r. r \<in> bits (inc p) \<Longrightarrow> vm_regs n ! r = vm_regs m ! r"
    using agree ok by (auto simp: agree_on_def p_def vm_ok_def)
  have call_mask: "vm_regs n ! r = vm_regs m ! r" if "r \<in> bits ((inc p AND - 63) OR 1)" "0 < r" for r
    using that bits_call_mask [of "inc p"] reg by auto
  have written: "vm_regs n ! r = vm_regs m ! r"
    if "r \<in> bits (inc p OR 2 ^ destination i)" "destination i \<noteq> r" for r
    using that rn reg by auto
  have called: "call (vm_helpers m) (immediate i) (vm_regs n) = call (vm_helpers m) (immediate i) (vm_regs m)"
    if "immediate i \<in> set allowed" using that by (rule call)
  have "outcomes_agree (bits (out_mask i (inc p)))
      (execute_step call instructions m) (execute_step call instructions n)"
    using safe rn
    unfolding execute_step_def locally_safe_def out_mask_def Let_def same p_def [symmetric]
      i_def [symmetric]
    by (simp only: split: if_split_asm)
      (auto simp: agree_on_def same reg nth_list_update call_mask written called simp del: bits_or bits_and
        split: option.split sum.split prod.split)
  then show ?thesis by (simp add: p_def i_def)
qed

lemma execute_loop_agree:
  assumes "vm_ok instructions wide inc m" and "agree_on (bits (inc (vm_pc m))) m n"
    and "typing_upto instructions allowed wide (length instructions) inc"
    and "scanned instructions (length instructions) wide"
    and "length instructions \<le> MAX_INSTRUCTIONS"
    and "\<And>h k rs rs'. k \<in> set allowed \<Longrightarrow> call h k rs = call h k rs'"
  shows "execute_loop call instructions n = execute_loop call instructions m"
  using assms
proof (induction call instructions m arbitrary: n rule: execute_loop.induct)
  case (1 call instructions m)
  note agree = execute_step_agree [where call = call, OF "1.prems"(1-4,6)]
  show ?case
  proof (cases "execute_step call instructions m")
    case (Continue m')
    with agree obtain n' where n': "execute_step call instructions n = Continue n'"
      and ag: "agree_on (bits (out_mask (instructions ! vm_pc m) (inc (vm_pc m)))) m' n'"
      by (cases "execute_step call instructions n") auto
    have good: "vm_ok instructions wide inc m'" "vm_pc m' \<in> set (targets (instructions ! vm_pc m) (vm_pc m))"
      using execute_step_sound [OF "1.prems"(1,3-5), of call] Continue by auto
    have "typed_at instructions allowed wide inc (vm_pc m)"
      using "1.prems"(1,3) by (auto simp: vm_ok_def typing_upto_def)
    with good(2) have "bits (inc (vm_pc m')) \<subseteq> bits (out_mask (instructions ! vm_pc m) (inc (vm_pc m)))"
      by (auto simp: typed_at_def)
    with ag have "agree_on (bits (inc (vm_pc m'))) m' n'" by (rule agree_on_mono)
    from "1.IH" [OF Continue good(1) this "1.prems"(3-6)] Continue n' show ?thesis
      by (simp add: execute_loop.simps [of call instructions m] execute_loop.simps [of call instructions n])
  qed (use agree in \<open>auto simp: execute_loop.simps [of call instructions m]
        execute_loop.simps [of call instructions n]\<close>)
qed

text \<open>\<^bold>\<open>C3\<close>. The instructions of an accepted program never read a register that has not been initialised:
  provided that the helpers it was granted do not inspect the register file they are handed (as
  \<open>NoHelpers\<close>, and nothing is required of a program that was granted no helper), the run from any register
  file that holds the context in register 1 and the frame pointer in register 10 gives the outcome of
  the run from the zeroed file that \<open>execute\<close> starts with. The condition on the helpers is needed: the verifier asks
  nothing of the registers at a call (\<open>helpers_see_every_register\<close> below).\<close>

theorem verified_program_ignores_uninitialized_registers:
  assumes "verify instructions allowed = Inr prog"
    and "\<And>h n rs rs'. n \<in> set allowed \<Longrightarrow> call h n rs = call h n rs'"
    and "length rs = REGISTER_COUNT" and "rs ! 1 = context" and "rs ! 10 = word_of_nat STACK_SIZE"
  shows "execute_loop call prog ((initial_vm context h)\<lparr>vm_regs := rs\<rparr>) = execute call prog h context"
proof -
  obtain wide inc where prog: "prog = instructions" "instructions \<noteq> []"
    and ty: "length instructions \<le> MAX_INSTRUCTIONS" "scanned instructions (length instructions) wide"
      "typing_upto instructions allowed wide (length instructions) inc"
    using assms(1) by (rule verify_typing)
  let ?m = "initial_vm context h"
  have ok: "vm_ok instructions wide inc ?m" using prog(2) ty(2,3) by (rule initial_vm_ok)
  have "bits (inc 0) \<subseteq> {1, 10}" using ty(3) by (simp add: typing_upto_def)
  with assms(3-5) have "agree_on (bits (inc (vm_pc ?m))) ?m (?m\<lparr>vm_regs := rs\<rparr>)"
    by (auto simp: agree_on_def initial_vm_def REGISTER_COUNT_def)
  from execute_loop_agree [where call = call, OF ok this ty(3,2,1) assms(2)] show ?thesis
    by (simp add: execute_def prog(1))
qed

theorem verified_program_ignores_uninitialized_registers_witness:
  "verify PROGRAM [] = Inr PROGRAM
   \<and> execute_loop NoHelpers PROGRAM ((initial_vm 5 ())\<lparr>vm_regs := [9, 5, 9, 9, 9, 9, 9, 9, 9, 9, 512]\<rparr>)
     = execute NoHelpers PROGRAM () 5
   \<and> verify [Instruction_new 0x85 0 0 0 7, Instruction_new 0x95 0 0 0 0] [7]
     = Inr [Instruction_new 0x85 0 0 0 7, Instruction_new 0x95 0 0 0 0]
   \<and> execute_loop (\<lambda>h n rs. (if n = 7 then Some 42 else None, h)) [Instruction_new 0x85 0 0 0 7, Instruction_new 0x95 0 0 0 0]
       ((initial_vm 5 ())\<lparr>vm_regs := [9, 5, 9, 9, 9, 9, 9, 9, 9, 9, 512]\<rparr>)
     = execute (\<lambda>h n rs. (if n = 7 then Some 42 else None, h)) [Instruction_new 0x85 0 0 0 7, Instruction_new 0x95 0 0 0 0] () 5"
proof (intro conjI)
  show plain: "verify PROGRAM [] = Inr PROGRAM" by code_simp
  show granted: "verify [Instruction_new 0x85 0 0 0 7, Instruction_new 0x95 0 0 0 0] [7]
      = Inr [Instruction_new 0x85 0 0 0 7, Instruction_new 0x95 0 0 0 0]" by code_simp
  show "execute_loop NoHelpers PROGRAM ((initial_vm 5 ())\<lparr>vm_regs := [9, 5, 9, 9, 9, 9, 9, 9, 9, 9, 512]\<rparr>)
      = execute NoHelpers PROGRAM () 5"
    by (rule verified_program_ignores_uninitialized_registers [OF plain])
      (simp_all add: REGISTER_COUNT_def STACK_SIZE_def)
  show "execute_loop (\<lambda>h n rs. (if n = 7 then Some 42 else None, h)) [Instruction_new 0x85 0 0 0 7, Instruction_new 0x95 0 0 0 0]
       ((initial_vm 5 ())\<lparr>vm_regs := [9, 5, 9, 9, 9, 9, 9, 9, 9, 9, 512]\<rparr>)
     = execute (\<lambda>h n rs. (if n = 7 then Some 42 else None, h)) [Instruction_new 0x85 0 0 0 7, Instruction_new 0x95 0 0 0 0] () 5"
    by (rule verified_program_ignores_uninitialized_registers [OF granted])
      (simp_all add: REGISTER_COUNT_def STACK_SIZE_def)
qed

text \<open>A granted helper that does inspect them is handed registers the program never initialised: here one that
  returns register 5.\<close>

lemma helpers_see_every_register:
  defines "prog \<equiv> [Instruction_new 0x85 0 0 0 7, Instruction_new 0x95 0 0 0 0]"
    and "call \<equiv> \<lambda>h n rs. (Some (rs ! 5), h)"
  shows "verify prog [7] = Inr prog"
    and "execute_loop call prog ((initial_vm 5 ())\<lparr>vm_regs := [9, 5, 9, 9, 9, 9, 9, 9, 9, 9, 512]\<rparr>) = Return 9"
    and "execute call prog () 5 = Return 0"
  unfolding prog_def call_def by code_simp+

section \<open>Stack memory\<close>

lemma nth_store_stack:
  assumes "j < length s"
  shows "store_stack s a n v ! j
    = (if a \<le> j \<and> j < a + n then ucast (drop_bit ((j - a) * 8) v) else s ! j)"
proof (induction n)
  case 0
  then show ?case by (auto simp: store_stack_def)
next
  case (Suc n)
  have "store_stack s a (Suc n) v = (store_stack s a n v)[a + n := ucast (drop_bit (n * 8) v)]"
    by (simp add: store_stack_def)
  with Suc assms show ?case by (cases "j = a + n") auto
qed

lemma bit_load_stack:
  "bit (load_stack s a n) k \<longleftrightarrow> k < 64 \<and> k < 8 * n \<and> bit (s ! (a + k div 8)) (k mod 8)"
proof (induction n)
  case 0
  then show ?case by (simp add: load_stack_def)
next
  case (Suc n)
  have "load_stack s a (Suc n) = load_stack s a n OR push_bit (n * 8) (ucast (s ! (a + n)))"
    by (simp add: load_stack_def)
  then have "bit (load_stack s a (Suc n)) k \<longleftrightarrow> bit (load_stack s a n) k
      \<or> (n * 8 \<le> k \<and> k < 64 \<and> bit (s ! (a + n)) (k - n * 8))"
    by (auto simp: bit_simps)
  also have "(n * 8 \<le> k \<and> k < 64 \<and> bit (s ! (a + n)) (k - n * 8))
      \<longleftrightarrow> k < 64 \<and> k div 8 = n \<and> bit (s ! (a + k div 8)) (k mod 8)"
  proof -
    have "k div 8 = n \<and> k mod 8 = k - n * 8" if "n * 8 \<le> k" "k - n * 8 < 8"
    proof -
      have "k div 8 = n" using that by (intro div_nat_eqI) auto
      then show ?thesis by (simp add: minus_div_mult_eq_mod [symmetric])
    qed
    moreover have "bit (s ! (a + n)) (k - n * 8) \<Longrightarrow> k - n * 8 < 8"
      by (drule bit_imp_le_length) simp
    moreover have "k div 8 = n \<Longrightarrow> n * 8 \<le> k \<and> k mod 8 = k - n * 8"
      by (auto simp: minus_div_mult_eq_mod [symmetric])
    ultimately show ?thesis by metis
  qed
  finally show ?case unfolding Suc.IH by auto
qed

text \<open>Stack memory is faithful at every access width the instruction set has: a load of
  \<open>n\<close> bytes from where \<open>n\<close> bytes were just stored gives the stored value truncated to those
  bytes, and every byte outside the accessed range keeps its value.\<close>

lemma stack_store_load_roundtrip:
  assumes "a + n \<le> length s" and "n \<le> 8"
  shows "load_stack (store_stack s a n v) a n = take_bit (8 * n) v
    \<and> (\<forall>j<length s. j < a \<or> a + n \<le> j \<longrightarrow> store_stack s a n v ! j = s ! j)"
proof
  show "load_stack (store_stack s a n v) a n = take_bit (8 * n) v"
  proof (rule bit_word_eqI)
    fix k :: nat
    assume "k < LENGTH(64)"
    then have k: "k < 64" by simp
    show "bit (load_stack (store_stack s a n v) a n) k \<longleftrightarrow> bit (take_bit (8 * n) v) k"
    proof (cases "k < 8 * n")
      case True
      then have byte: "k div 8 < n" by (simp add: less_mult_imp_div_less mult.commute)
      then have "a + k div 8 < length s" using assms(1) by linarith
      then have "bit (store_stack s a n v ! (a + k div 8)) (k mod 8) \<longleftrightarrow> bit v (k div 8 * 8 + k mod 8)"
        using byte by (simp add: nth_store_stack bit_simps)
      with True k show ?thesis by (simp add: bit_load_stack bit_simps)
    next
      case False
      then show ?thesis by (simp add: bit_load_stack bit_simps)
    qed
  qed
qed (auto simp: nth_store_stack)

end
