(* ===== verification/Ipc.thy ===== *)
theory Ipc
  imports Slop_Prelude
begin

text \<open>
  The local stream-socket namespace of \<open>crates/ipc/src/lib.rs\<close>: the byte ring of an endpoint,
  the socket slots with their generations, and every operation of \<open>LocalSocketTable\<close>.

  The const generics \<open>BACKLOG\<close> and \<open>BYTES\<close> are fields of the table record that no operation
  writes; \<open>SOCKETS\<close> is the length of the slot list. An operation returns its result and the
  table it leaves behind, and \<open>recv\<close> also the output buffer.
\<close>

section \<open>Data\<close>

definition LOCAL_PATH_MAX :: nat where "LOCAL_PATH_MAX = 108"

record SocketHandle =
  sh_index :: u16
  sh_generation :: u16

record AncillaryRights =
  ar_object :: u16
  ar_generation :: u16

datatype SocketError =
    TableFull
  | InvalidHandle
  | InvalidPath
  | AddressInUse
  | AddressNotFound
  | InvalidState
  | BacklogFull
  | WouldBlock
  | BrokenPipe
  | CounterOverflow

record Readiness =
  readable :: bool
  writable :: bool
  rd_peer_closed :: bool

datatype SocketState = Free | Created | Bound | Listening | Connected

record ByteRing =
  ring_bytes :: "u8 list"
  ring_head :: nat
  ring_length :: nat

record SocketSlot =
  generation :: u16
  state :: SocketState
  path :: "u8 list"
  path_length :: nat
  peer_of :: "nat option"
  peer_closed :: bool
  receive :: ByteRing
  rights :: "AncillaryRights option"
  pending :: "nat option list"
  pending_head :: nat
  pending_length :: nat

record LocalSocketTable =
  slots :: "SocketSlot list"
  BACKLOG :: nat
  BYTES :: nat

section \<open>The byte ring\<close>

definition ring_EMPTY :: "nat \<Rightarrow> ByteRing" where
  "ring_EMPTY n = \<lparr>ring_bytes = replicate n 0, ring_head = 0, ring_length = 0\<rparr>"

definition ring_available :: "ByteRing \<Rightarrow> nat" where
  "ring_available r = length (ring_bytes r) - ring_length r"

definition ring_push :: "u8 list \<Rightarrow> ByteRing \<Rightarrow> nat \<times> ByteRing" where
  "ring_push input r =
    (let count = min (length input) (ring_available r);
         bytes = fold (\<lambda>(off, byte) bs.
             bs[(ring_head r + ring_length r + off) mod length (ring_bytes r) := byte])
           (enumerate 0 (take count input)) (ring_bytes r)
     in (count, r\<lparr>ring_bytes := bytes, ring_length := ring_length r + count\<rparr>))"

definition ring_pop :: "u8 list \<Rightarrow> ByteRing \<Rightarrow> nat \<times> u8 list \<times> ByteRing" where
  "ring_pop out r =
    (let count = min (length out) (ring_length r);
         out' = fold (\<lambda>off o1. o1[off := ring_bytes r ! ((ring_head r + off) mod length (ring_bytes r))])
           [0..<count] out
     in (count, out',
         r\<lparr>ring_head := (if length (ring_bytes r) \<noteq> 0
                           then (ring_head r + count) mod length (ring_bytes r) else ring_head r),
           ring_length := ring_length r - count\<rparr>))"

section \<open>Slots and handles\<close>

definition slot_EMPTY :: "nat \<Rightarrow> nat \<Rightarrow> SocketSlot" where
  "slot_EMPTY backlog bytes =
    \<lparr>generation = 0, state = Free, path = replicate LOCAL_PATH_MAX 0, path_length = 0,
     peer_of = None, peer_closed = False, receive = ring_EMPTY bytes, rights = None,
     pending = replicate backlog None, pending_head = 0, pending_length = 0\<rparr>"

definition reset_for_allocation :: "nat \<Rightarrow> nat \<Rightarrow> u16 \<Rightarrow> SocketSlot" where
  "reset_for_allocation backlog bytes gen =
     (slot_EMPTY backlog bytes)\<lparr>generation := gen, state := Created\<rparr>"

definition slot_handle :: "SocketSlot \<Rightarrow> nat \<Rightarrow> SocketError + SocketHandle" where
  "slot_handle s index =
    (if index < 2 ^ 16 then Inr \<lparr>sh_index = word_of_nat index, sh_generation = generation s\<rparr>
     else Inl TableFull)"

definition validate_path :: "u8 list \<Rightarrow> SocketError + unit" where
  "validate_path p =
    (if p = [] \<or> LOCAL_PATH_MAX < length p \<or> p ! 0 \<noteq> 0x2f \<or> 0 \<in> set p then Inl InvalidPath else Inr ())"

definition bound_path :: "SocketSlot \<Rightarrow> u8 list" where
  "bound_path s = take (path_length s) (path s)"

definition table_new :: "nat \<Rightarrow> nat \<Rightarrow> nat \<Rightarrow> LocalSocketTable" where
  "table_new sockets backlog bytes =
    \<lparr>slots = replicate sockets (slot_EMPTY backlog bytes), BACKLOG = backlog, BYTES = bytes\<rparr>"

definition index :: "LocalSocketTable \<Rightarrow> SocketHandle \<Rightarrow> SocketError + nat" where
  "index t handle =
    (let i = unat (sh_index handle) in
     if i < length (slots t) \<and> state (slots t ! i) \<noteq> Free
        \<and> generation (slots t ! i) = sh_generation handle
     then Inr i else Inl InvalidHandle)"

definition put_slot :: "nat \<Rightarrow> SocketSlot \<Rightarrow> LocalSocketTable \<Rightarrow> LocalSocketTable" where
  "put_slot i s t = t\<lparr>slots := (slots t)[i := s]\<rparr>"

section \<open>Operations of the table\<close>

definition socket :: "LocalSocketTable \<Rightarrow> (SocketError + SocketHandle) \<times> LocalSocketTable" where
  "socket t =
    (if 2 ^ 16 - 1 < length (slots t) \<or> BACKLOG t = 0 \<or> BYTES t = 0 then (Inl TableFull, t)
     else case position (\<lambda>s. state s = Free) (slots t) of
       None \<Rightarrow> (Inl TableFull, t)
     | Some i \<Rightarrow>
         (case checked_add (generation (slots t ! i)) 1 of
            None \<Rightarrow> (Inl CounterOverflow, t)
          | Some gen \<Rightarrow>
              let s = reset_for_allocation (BACKLOG t) (BYTES t) gen
              in (slot_handle s i, put_slot i s t)))"

definition bind :: "SocketHandle \<Rightarrow> u8 list \<Rightarrow> LocalSocketTable \<Rightarrow> (SocketError + unit) \<times> LocalSocketTable" where
  "bind handle p t =
    (case validate_path p of
       Inl e \<Rightarrow> (Inl e, t)
     | Inr _ \<Rightarrow>
         if \<exists>s\<in>set (slots t). (state s = Bound \<or> state s = Listening) \<and> bound_path s = p
         then (Inl AddressInUse, t)
         else case index t handle of
           Inl e \<Rightarrow> (Inl e, t)
         | Inr i \<Rightarrow>
             let s = slots t ! i in
             if state s \<noteq> Created then (Inl InvalidState, t)
             else (Inr (), put_slot i
                    (s\<lparr>path := copy_at (path s) 0 p, path_length := length p, state := Bound\<rparr>) t))"

definition listen :: "SocketHandle \<Rightarrow> LocalSocketTable \<Rightarrow> (SocketError + unit) \<times> LocalSocketTable" where
  "listen handle t =
    (case index t handle of
       Inl e \<Rightarrow> (Inl e, t)
     | Inr i \<Rightarrow>
         if state (slots t ! i) \<noteq> Bound then (Inl InvalidState, t)
         else (Inr (), put_slot i ((slots t ! i)\<lparr>state := Listening\<rparr>) t))"

definition connect :: "SocketHandle \<Rightarrow> u8 list \<Rightarrow> LocalSocketTable \<Rightarrow> (SocketError + unit) \<times> LocalSocketTable" where
  "connect handle p t =
    (case validate_path p of
       Inl e \<Rightarrow> (Inl e, t)
     | Inr _ \<Rightarrow>
     (case index t handle of
       Inl e \<Rightarrow> (Inl e, t)
     | Inr client \<Rightarrow>
      if state (slots t ! client) \<noteq> Created then (Inl InvalidState, t)
      else
     (case position (\<lambda>s. state s = Listening \<and> bound_path s = p) (slots t) of
       None \<Rightarrow> (Inl AddressNotFound, t)
     | Some listener \<Rightarrow>
      if pending_length (slots t ! listener) = BACKLOG t then (Inl BacklogFull, t)
      else
     (case position (\<lambda>(i, s). i \<noteq> client \<and> i \<noteq> listener \<and> state s = Free)
             (enumerate 0 (slots t)) of
       None \<Rightarrow> (Inl TableFull, t)
     | Some server \<Rightarrow>
     (case checked_add (generation (slots t ! server)) 1 of
       None \<Rightarrow> (Inl CounterOverflow, t)
     | Some gen \<Rightarrow>
        let t1 = put_slot server ((reset_for_allocation (BACKLOG t) (BYTES t) gen)
                   \<lparr>state := Connected, peer_of := Some client\<rparr>) t;
            t2 = put_slot client ((slots t1 ! client)
                   \<lparr>state := Connected, peer_of := Some server\<rparr>) t1;
            l = slots t2 ! listener;
            tail = (pending_head l + pending_length l) mod BACKLOG t
        in (Inr (), put_slot listener (l\<lparr>pending := (pending l)[tail := Some server],
                                         pending_length := pending_length l + 1\<rparr>) t2))))))"

definition accept :: "SocketHandle \<Rightarrow> LocalSocketTable \<Rightarrow> (SocketError + SocketHandle) \<times> LocalSocketTable" where
  "accept handle t =
    (case index t handle of
       Inl e \<Rightarrow> (Inl e, t)
     | Inr i \<Rightarrow>
         let l = slots t ! i in
         if state l \<noteq> Listening then (Inl InvalidState, t)
         else if pending_length l = 0 then (Inl WouldBlock, t)
         else case pending l ! pending_head l of
           None \<Rightarrow> (Inl InvalidState, t)
         | Some server \<Rightarrow>
             let t' = put_slot i (l\<lparr>pending := (pending l)[pending_head l := None],
                        pending_head := (pending_head l + 1) mod BACKLOG t,
                        pending_length := pending_length l - 1\<rparr>) t
             in (slot_handle (slots t' ! server) server, t'))"

definition pending_connections :: "SocketHandle \<Rightarrow> LocalSocketTable \<Rightarrow> SocketError + nat" where
  "pending_connections handle t =
     rbind (index t handle) (\<lambda>i.
       if state (slots t ! i) \<noteq> Listening then Inl InvalidState else Inr (pending_length (slots t ! i)))"

definition peer :: "SocketHandle \<Rightarrow> LocalSocketTable \<Rightarrow> SocketError + SocketHandle" where
  "peer handle t =
     rbind (index t handle) (\<lambda>i.
       let s = slots t ! i in
       if state s \<noteq> Connected \<or> peer_closed s then Inl InvalidState
       else rbind (ok_or BrokenPipe (peer_of s)) (\<lambda>j. slot_handle (slots t ! j) j))"

text \<open>The endpoint checks the three send operations share: the index of the peer.\<close>

definition send_peer :: "SocketHandle \<Rightarrow> bool \<Rightarrow> LocalSocketTable \<Rightarrow> SocketError + nat" where
  "send_peer handle refused t =
     rbind (index t handle) (\<lambda>i.
       if state (slots t ! i) \<noteq> Connected \<or> refused then Inl InvalidState
       else rbind (ok_or BrokenPipe (peer_of (slots t ! i))) (\<lambda>j.
         if peer_closed (slots t ! i) \<or> state (slots t ! j) \<noteq> Connected then Inl BrokenPipe
         else Inr j))"

definition send :: "SocketHandle \<Rightarrow> u8 list \<Rightarrow> LocalSocketTable \<Rightarrow> (SocketError + nat) \<times> LocalSocketTable" where
  "send handle input t =
    (case send_peer handle False t of
       Inl e \<Rightarrow> (Inl e, t)
     | Inr j \<Rightarrow>
         let (count, r) = ring_push input (receive (slots t ! j));
             t' = put_slot j ((slots t ! j)\<lparr>receive := r\<rparr>) t
         in if count = 0 \<and> input \<noteq> [] then (Inl WouldBlock, t') else (Inr count, t'))"

definition send_exact :: "SocketHandle \<Rightarrow> u8 list \<Rightarrow> LocalSocketTable \<Rightarrow> (SocketError + nat) \<times> LocalSocketTable" where
  "send_exact handle input t =
    (case send_peer handle False t of
       Inl e \<Rightarrow> (Inl e, t)
     | Inr j \<Rightarrow>
         if ring_available (receive (slots t ! j)) < length input then (Inl WouldBlock, t)
         else let (count, r) = ring_push input (receive (slots t ! j))
              in (Inr count, put_slot j ((slots t ! j)\<lparr>receive := r\<rparr>) t))"

definition send_with_rights ::
  "SocketHandle \<Rightarrow> u8 list \<Rightarrow> AncillaryRights \<Rightarrow> LocalSocketTable \<Rightarrow> (SocketError + nat) \<times> LocalSocketTable" where
  "send_with_rights handle input ar t =
    (case send_peer handle (input = []) t of
       Inl e \<Rightarrow> (Inl e, t)
     | Inr j \<Rightarrow>
         let s = slots t ! j in
         if rights s \<noteq> None \<or> ring_length (receive s) \<noteq> 0 \<or> ring_available (receive s) < length input
         then (Inl WouldBlock, t)
         else let (count, r) = ring_push input (receive s) in
           if count \<noteq> length input then (Inl WouldBlock, put_slot j (s\<lparr>receive := r\<rparr>) t)
           else (Inr count, put_slot j (s\<lparr>receive := r, rights := Some ar\<rparr>) t))"

definition recv ::
  "SocketHandle \<Rightarrow> u8 list \<Rightarrow> LocalSocketTable \<Rightarrow> (SocketError + nat) \<times> u8 list \<times> LocalSocketTable" where
  "recv handle out t =
    (case index t handle of
       Inl e \<Rightarrow> (Inl e, out, t)
     | Inr i \<Rightarrow>
         let s = slots t ! i in
         if state s \<noteq> Connected then (Inl InvalidState, out, t)
         else if rights s \<noteq> None then (Inl InvalidState, out, t)
         else let (count, out', r) = ring_pop out (receive s);
                  t' = put_slot i (s\<lparr>receive := r\<rparr>) t
              in if count = 0 \<and> out \<noteq> [] \<and> \<not> peer_closed s then (Inl WouldBlock, out', t')
                 else (Inr count, out', t'))"

definition recv_with_rights ::
  "SocketHandle \<Rightarrow> u8 list \<Rightarrow> LocalSocketTable
   \<Rightarrow> (SocketError + nat \<times> AncillaryRights option) \<times> u8 list \<times> LocalSocketTable" where
  "recv_with_rights handle out t =
    (case index t handle of
       Inl e \<Rightarrow> (Inl e, out, t)
     | Inr i \<Rightarrow>
         let s = slots t ! i in
         if state s \<noteq> Connected then (Inl InvalidState, out, t)
         else let (count, out', r) = ring_pop out (receive s) in
           if count = 0 \<and> out \<noteq> [] \<and> \<not> peer_closed s
           then (Inl WouldBlock, out', put_slot i (s\<lparr>receive := r\<rparr>) t)
           else if count \<noteq> 0
           then (Inr (count, rights s), out', put_slot i (s\<lparr>receive := r, rights := None\<rparr>) t)
           else (Inr (count, None), out', put_slot i (s\<lparr>receive := r\<rparr>) t))"

definition take_rights ::
  "SocketHandle \<Rightarrow> LocalSocketTable \<Rightarrow> (SocketError + AncillaryRights option) \<times> LocalSocketTable" where
  "take_rights handle t =
    (case index t handle of
       Inl e \<Rightarrow> (Inl e, t)
     | Inr i \<Rightarrow> (Inr (rights (slots t ! i)), put_slot i ((slots t ! i)\<lparr>rights := None\<rparr>) t))"

definition readiness :: "SocketHandle \<Rightarrow> LocalSocketTable \<Rightarrow> SocketError + Readiness" where
  "readiness handle t =
     rbind (index t handle) (\<lambda>i.
       let s = slots t ! i in
       if state s \<noteq> Connected then Inl InvalidState
       else Inr \<lparr>readable = (ring_length (receive s) \<noteq> 0 \<or> peer_closed s),
         writable = ((case peer_of s of None \<Rightarrow> False
            | Some j \<Rightarrow> state (slots t ! j) = Connected \<and> ring_available (receive (slots t ! j)) \<noteq> 0)
            \<and> \<not> peer_closed s),
         rd_peer_closed = peer_closed s\<rparr>)"

definition close :: "SocketHandle \<Rightarrow> LocalSocketTable \<Rightarrow> (SocketError + unit) \<times> LocalSocketTable" where
  "close handle t =
    (case index t handle of
       Inl e \<Rightarrow> (Inl e, t)
     | Inr i \<Rightarrow>
         let t1 = (case peer_of (slots t ! i) of
                     None \<Rightarrow> t
                   | Some j \<Rightarrow>
                       if state (slots t ! j) = Connected
                       then put_slot j ((slots t ! j)\<lparr>peer_of := None, peer_closed := True\<rparr>) t
                       else t)
         in (Inr (), put_slot i ((slot_EMPTY (BACKLOG t) (BYTES t))\<lparr>generation := generation (slots t1 ! i)\<rparr>) t1))"

end
