(* ===== verification/Byte_Stream.thy ===== *)
theory Byte_Stream
  imports Slop_Prelude
begin

text \<open>
  The contract of a bounded byte stream, as a client of a ring or of a connected socket pair
  sees it: a push appends the prefix that fits, a pop removes from the front into a buffer. The
  client facts (a stream loses, repeats and reorders nothing) are proved once from the contract,
  for any run of pushes and pops.
\<close>

datatype stream_event = Push "u8 list" | Pop "u8 list"

text \<open>A run collects the bytes the pushes accepted and the bytes the pops delivered.\<close>

fun stream_run ::
  "(u8 list \<Rightarrow> 'q \<Rightarrow> nat \<times> 'q) \<Rightarrow> (u8 list \<Rightarrow> 'q \<Rightarrow> nat \<times> u8 list \<times> 'q)
   \<Rightarrow> stream_event list \<Rightarrow> 'q \<Rightarrow> u8 list \<times> u8 list \<times> 'q" where
  "stream_run push pop [] q = ([], [], q)"
| "stream_run push pop (Push input # es) q =
     (case push input q of (n, q') \<Rightarrow>
      case stream_run push pop es q' of (accepted, delivered, r) \<Rightarrow>
        (take n input @ accepted, delivered, r))"
| "stream_run push pop (Pop out # es) q =
     (case pop out q of (n, out', q') \<Rightarrow>
      case stream_run push pop es q' of (accepted, delivered, r) \<Rightarrow>
        (accepted, take n out' @ delivered, r))"

locale byte_stream =
  fixes contents :: "'q \<Rightarrow> u8 list"
    and capacity :: "'q \<Rightarrow> nat"
    and push :: "u8 list \<Rightarrow> 'q \<Rightarrow> nat \<times> 'q"
    and pop :: "u8 list \<Rightarrow> 'q \<Rightarrow> nat \<times> u8 list \<times> 'q"
    and ok :: "'q \<Rightarrow> bool"
  assumes bounded: "ok q \<Longrightarrow> length (contents q) \<le> capacity q"
    and push_accepts: "ok q \<Longrightarrow> push input q = (n, q') \<Longrightarrow>
      n = min (length input) (capacity q - length (contents q))
      \<and> contents q' = contents q @ take n input \<and> capacity q' = capacity q \<and> ok q'"
    and pop_delivers: "ok q \<Longrightarrow> pop out q = (n, out', q') \<Longrightarrow>
      n = min (length out) (length (contents q))
      \<and> out' = take n (contents q) @ drop n out
      \<and> contents q' = drop n (contents q) \<and> capacity q' = capacity q \<and> ok q'"
begin

lemma run_fifo:
  "ok q \<Longrightarrow> stream_run push pop es q = (accepted, delivered, q') \<Longrightarrow>
     delivered @ contents q' = contents q @ accepted \<and> ok q' \<and> capacity q' = capacity q"
proof (induction es arbitrary: q accepted delivered)
  case Nil
  then show ?case by simp
next
  case (Cons e es)
  show ?case
  proof (cases e)
    case (Push input)
    obtain n q1 where n: "push input q = (n, q1)" by force
    obtain a d where rest: "stream_run push pop es q1 = (a, d, q')"
      and ad: "accepted = take n input @ a" "delivered = d"
      using Cons.prems(2) n by (auto simp: Push split: prod.splits)
    from push_accepts [OF Cons.prems(1) n]
    have q1: "contents q1 = contents q @ take n input" "capacity q1 = capacity q" "ok q1" by auto
    from Cons.IH [OF q1(3) rest] show ?thesis by (simp add: ad q1)
  next
    case (Pop out)
    obtain n out1 q1 where n: "pop out q = (n, out1, q1)" by (metis prod_cases3)
    obtain a d where rest: "stream_run push pop es q1 = (a, d, q')"
      and ad: "accepted = a" "delivered = take n out1 @ d"
      using Cons.prems(2) n by (auto simp: Pop split: prod.splits)
    from pop_delivers [OF Cons.prems(1) n]
    have q1: "n \<le> length (contents q)" "out1 = take n (contents q) @ drop n out"
      "contents q1 = drop n (contents q)" "capacity q1 = capacity q" "ok q1" by auto
    from Cons.IH [OF q1(5) rest] have "d @ contents q' = drop n (contents q) @ a"
      and "ok q'" "capacity q' = capacity q"
      using q1 by auto
    moreover have "take n out1 = take n (contents q)" using q1(1,2) by simp
    moreover have "take n (contents q) @ drop n (contents q) @ a = contents q @ a"
      by (simp only: append.assoc [symmetric] append_take_drop_id)
    ultimately show ?thesis by (simp add: ad)
  qed
qed

lemma push_all_when_room:
  "ok q \<Longrightarrow> length input \<le> capacity q - length (contents q) \<Longrightarrow>
     fst (push input q) = length input \<and> contents (snd (push input q)) = contents q @ input"
  using push_accepts [of q input "fst (push input q)" "snd (push input q)"] by simp

lemma push_then_pop:
  assumes "ok q" and "contents q = []" and "length input \<le> capacity q" and "length input \<le> length out"
    and "push input q = (n, q1)" and "pop out q1 = (k, out', q2)"
  shows "k = length input \<and> take k out' = input \<and> contents q2 = []"
proof -
  from push_accepts [OF assms(1,5)] assms(2,3)
  have q1: "contents q1 = input" "ok q1" by auto
  from pop_delivers [OF q1(2) assms(6)] q1(1) assms(4) show ?thesis by auto
qed

end

end
