(* ===== verification/Ipc_Proofs.thy ===== *)
theory Ipc_Proofs
  imports Ipc Byte_Stream
begin

text \<open>
  Correctness of the local socket table: the ring implements a bounded byte stream, the
  well-formedness of the table is kept by every operation in every reachable state, closed
  handles stay invalid, and a connected pair carries a lossless first-in first-out stream.
\<close>

section \<open>The ring implements a byte stream\<close>

definition ring_ok :: "ByteRing \<Rightarrow> bool" where
  "ring_ok r \<longleftrightarrow> ring_length r \<le> length (ring_bytes r)
     \<and> (ring_bytes r \<noteq> [] \<longrightarrow> ring_head r < length (ring_bytes r))"

definition ring_contents :: "ByteRing \<Rightarrow> u8 list" where
  "ring_contents r =
     map (\<lambda>k. ring_bytes r ! ((ring_head r + k) mod length (ring_bytes r))) [0..<ring_length r]"

lemma length_ring_contents [simp]: "length (ring_contents r) = ring_length r"
  by (simp add: ring_contents_def)

lemma mod_add_inj:
  fixes i j n :: nat
  assumes "(b + i) mod n = (b + j) mod n" and "i < n" and "j < n"
  shows "i = j"
proof -
  have le: "i = j" if "(b + j) mod n = (b + i) mod n" "i \<le> j" "j < n" for i j :: nat
  proof -
    have "n dvd (b + j) - (b + i)" using that mod_eq_dvd_iff_nat [of "b + i" "b + j" n] by simp
    then have "n dvd j - i" by simp
    moreover have "j - i < n" using that(3) by simp
    ultimately have "j - i = 0" by (metis dvd_imp_le neq0_conv not_le)
    with that(2) show ?thesis by simp
  qed
  show ?thesis using le [of i j] le [of j i] assms by (cases "i \<le> j") auto
qed

abbreviation ring_write :: "nat \<Rightarrow> nat \<Rightarrow> u8 list \<Rightarrow> u8 list \<Rightarrow> u8 list" where
  "ring_write b n xs bs \<equiv> fold (\<lambda>(off, byte) bs. bs[(b + off) mod n := byte]) (enumerate 0 xs) bs"

lemma ring_write_spec:
  assumes "length bs = n" and "length xs \<le> n"
  shows "length (ring_write b n xs bs) = n
    \<and> (\<forall>k<length xs. ring_write b n xs bs ! ((b + k) mod n) = xs ! k)
    \<and> (\<forall>j<n. (\<forall>k<length xs. j \<noteq> (b + k) mod n) \<longrightarrow> ring_write b n xs bs ! j = bs ! j)"
  using assms(2)
proof (induction xs rule: rev_induct)
  case Nil
  then show ?case by (simp add: assms)
next
  case (snoc x xs)
  let ?w = "ring_write b n xs bs"
  have w: "length ?w = n" "\<forall>k<length xs. ?w ! ((b + k) mod n) = xs ! k"
    "\<forall>j<n. (\<forall>k<length xs. j \<noteq> (b + k) mod n) \<longrightarrow> ?w ! j = bs ! j"
    using snoc by auto
  have n: "0 < n" using snoc by auto
  have ne: "(b + length xs) mod n \<noteq> (b + k) mod n" if "k < length xs" for k
    using that snoc.prems mod_add_inj [of b "length xs" n k] by auto
  have step: "ring_write b n (xs @ [x]) bs = ?w[(b + length xs) mod n := x]"
    by (simp add: enumerate_append_eq)
  show ?case
    unfolding step
  proof (intro conjI allI impI)
    show "length (?w[(b + length xs) mod n := x]) = n" using w(1) by simp
    show "?w[(b + length xs) mod n := x] ! ((b + k) mod n) = (xs @ [x]) ! k"
      if "k < length (xs @ [x])" for k
      using that w n ne [of k] by (cases "k = length xs") (auto simp: nth_append)
    show "?w[(b + length xs) mod n := x] ! j = bs ! j"
      if "j < n" and other: "\<forall>k<length (xs @ [x]). j \<noteq> (b + k) mod n" for j
    proof -
      have "j \<noteq> (b + length xs) mod n" "\<forall>k<length xs. j \<noteq> (b + k) mod n"
        using other by auto
      then show ?thesis using w(3) \<open>j < n\<close> by simp
    qed
  qed
qed

lemma ring_push_count: "fst (ring_push input r) = min (length input) (ring_available r)"
  by (simp add: ring_push_def Let_def)

lemma ring_push_spec:
  assumes ok: "ring_ok r" and push: "ring_push input r = (n, r')"
  shows "n = min (length input) (ring_available r) \<and> ring_contents r' = ring_contents r @ take n input
    \<and> length (ring_bytes r') = length (ring_bytes r) \<and> ring_length r' = ring_length r + n \<and> ring_ok r'"
proof -
  let ?B = "length (ring_bytes r)"
  let ?b = "ring_head r + ring_length r"
  let ?w = "ring_write ?b ?B (take n input) (ring_bytes r)"
  from push have n: "n = min (length input) (ring_available r)"
    and r': "r' = r\<lparr>ring_bytes := ?w, ring_length := ring_length r + n\<rparr>"
    by (auto simp: ring_push_def Let_def)
  have le: "ring_length r + n \<le> ?B" using ok n unfolding ring_ok_def ring_available_def by linarith
  have len: "length (take n input) = n" using n by simp
  have w: "length ?w = ?B" "\<And>k. k < n \<Longrightarrow> ?w ! ((?b + k) mod ?B) = take n input ! k"
    "\<And>j. j < ?B \<Longrightarrow> (\<And>k. k < n \<Longrightarrow> j \<noteq> (?b + k) mod ?B) \<Longrightarrow> ?w ! j = ring_bytes r ! j"
    using ring_write_spec [of "ring_bytes r" ?B "take n input" ?b] le len by auto
  have old: "?w ! ((ring_head r + k) mod ?B) = ring_bytes r ! ((ring_head r + k) mod ?B)"
    if k: "k < ring_length r" for k
  proof (rule w(3))
    show "(ring_head r + k) mod ?B < ?B" using k le by (intro mod_less_divisor) linarith
    show "(ring_head r + k) mod ?B \<noteq> (?b + l) mod ?B" if "l < n" for l
      using that k le mod_add_inj [of "ring_head r" k ?B "ring_length r + l"]
      by (auto simp: add.assoc)
  qed
  have "ring_contents r' ! k = (ring_contents r @ take n input) ! k" if "k < ring_length r + n" for k
  proof (cases "k < ring_length r")
    case True
    then show ?thesis using old that by (simp add: r' ring_contents_def nth_append w(1))
  next
    case False
    then have idx: "(ring_head r + k) mod ?B = (?b + (k - ring_length r)) mod ?B" by simp
    have "ring_contents r' ! k = ?w ! ((ring_head r + k) mod ?B)"
      using that by (simp add: r' ring_contents_def w(1))
    also have "\<dots> = take n input ! (k - ring_length r)"
      unfolding idx using False that by (intro w(2)) linarith
    finally show ?thesis using False by (simp add: nth_append)
  qed
  then have "ring_contents r' = ring_contents r @ take n input"
    by (intro nth_equalityI) (simp_all add: r' len del: length_take)
  with n r' w(1) le ok show ?thesis by (auto simp: ring_ok_def)
qed

lemma fold_update_prefix:
  "n \<le> length xs \<Longrightarrow> fold (\<lambda>k ys. ys[k := f k]) [0..<n] xs = map f [0..<n] @ drop n xs"
proof (induction n)
  case 0
  then show ?case by simp
next
  case (Suc n)
  then show ?case
    by (simp add: list_update_append Cons_nth_drop_Suc [symmetric] del: Cons_nth_drop_Suc)
qed

lemma ring_pop_spec:
  assumes ok: "ring_ok r" and pop: "ring_pop out r = (n, out', r')"
  shows "n = min (length out) (ring_length r) \<and> out' = take n (ring_contents r) @ drop n out
    \<and> ring_contents r' = drop n (ring_contents r) \<and> length (ring_bytes r') = length (ring_bytes r)
    \<and> ring_length r' = ring_length r - n \<and> ring_ok r'"
proof -
  let ?B = "length (ring_bytes r)"
  from pop have n: "n = min (length out) (ring_length r)"
    and out: "out' = fold (\<lambda>k ys. ys[k := ring_bytes r ! ((ring_head r + k) mod ?B)]) [0..<n] out"
    and r': "r' = r\<lparr>ring_head := (if ?B \<noteq> 0 then (ring_head r + n) mod ?B else ring_head r),
      ring_length := ring_length r - n\<rparr>"
    by (auto simp: ring_pop_def Let_def)
  have "out' = map (\<lambda>k. ring_bytes r ! ((ring_head r + k) mod ?B)) [0..<n] @ drop n out"
    unfolding out using n by (intro fold_update_prefix) simp
  moreover have "take n (ring_contents r) = map (\<lambda>k. ring_bytes r ! ((ring_head r + k) mod ?B)) [0..<n]"
    using n by (simp add: ring_contents_def take_map)
  moreover have "ring_contents r' = drop n (ring_contents r)"
  proof (cases "?B = 0")
    case True
    with ok have "ring_length r = 0" by (simp add: ring_ok_def)
    then show ?thesis by (simp add: r' ring_contents_def)
  next
    case False
    then show ?thesis
      by (intro nth_equalityI)
        (simp_all add: r' ring_contents_def mod_add_left_eq mod_add_right_eq less_diff_conv ac_simps)
  qed
  ultimately show ?thesis using n ok by (auto simp: r' ring_ok_def)
qed

interpretation ring: byte_stream ring_contents "\<lambda>r. length (ring_bytes r)" ring_push ring_pop ring_ok
proof
  show "length (ring_contents r) \<le> length (ring_bytes r)" if "ring_ok r" for r
    using that by (simp add: ring_ok_def)
next
  fix r input n r' assume "ring_ok r" "ring_push input r = (n, r')"
  from ring_push_spec [OF this]
  show "n = min (length input) (length (ring_bytes r) - length (ring_contents r))
      \<and> ring_contents r' = ring_contents r @ take n input
      \<and> length (ring_bytes r') = length (ring_bytes r) \<and> ring_ok r'"
    by (simp add: ring_available_def)
next
  fix r out n out' r' assume "ring_ok r" "ring_pop out r = (n, out', r')"
  from ring_pop_spec [OF this]
  show "n = min (length out) (length (ring_contents r)) \<and> out' = take n (ring_contents r) @ drop n out
      \<and> ring_contents r' = drop n (ring_contents r)
      \<and> length (ring_bytes r') = length (ring_bytes r) \<and> ring_ok r'"
    by simp
qed

section \<open>Well-formed tables\<close>

definition pending_queue :: "SocketSlot \<Rightarrow> nat option list" where
  "pending_queue s =
     map (\<lambda>k. pending s ! ((pending_head s + k) mod length (pending s))) [0..<pending_length s]"

definition has_address :: "SocketSlot \<Rightarrow> bool" where
  "has_address s \<longleftrightarrow> state s = Bound \<or> state s = Listening"

definition slot_ok :: "nat \<Rightarrow> nat \<Rightarrow> nat \<Rightarrow> SocketSlot \<Rightarrow> bool" where
  "slot_ok sockets backlog bytes s \<longleftrightarrow>
     ring_ok (receive s) \<and> length (ring_bytes (receive s)) = bytes
     \<and> length (path s) = LOCAL_PATH_MAX \<and> path_length s \<le> LOCAL_PATH_MAX
     \<and> (has_address s \<longrightarrow> is_ok (validate_path (bound_path s)))
     \<and> length (pending s) = backlog \<and> pending_length s \<le> backlog
     \<and> (backlog \<noteq> 0 \<longrightarrow> pending_head s < backlog)
     \<and> (\<forall>p\<in>set (pending_queue s). \<exists>j < sockets. p = Some j)
     \<and> (pending_length s \<noteq> 0 \<longrightarrow> state s = Listening)
     \<and> (state s \<noteq> Connected \<longrightarrow> peer_of s = None \<and> \<not> peer_closed s \<and> rights s = None
          \<and> ring_length (receive s) = 0)
     \<and> (state s = Connected \<longrightarrow> (peer_of s = None \<longleftrightarrow> peer_closed s))
     \<and> (rights s \<noteq> None \<longrightarrow> ring_length (receive s) \<noteq> 0)"

definition links_ok :: "SocketSlot list \<Rightarrow> bool" where
  "links_ok xs \<longleftrightarrow> (\<forall>i<length xs. \<forall>j. peer_of (xs ! i) = Some j \<longrightarrow>
     j < length xs \<and> j \<noteq> i \<and> state (xs ! j) = Connected \<and> peer_of (xs ! j) = Some i)"

definition addresses_ok :: "SocketSlot list \<Rightarrow> bool" where
  "addresses_ok xs \<longleftrightarrow> (\<forall>i<length xs. \<forall>j<length xs. i \<noteq> j \<longrightarrow>
     has_address (xs ! i) \<longrightarrow> has_address (xs ! j) \<longrightarrow> bound_path (xs ! i) \<noteq> bound_path (xs ! j))"

definition table_inv :: "LocalSocketTable \<Rightarrow> bool" where
  "table_inv t \<longleftrightarrow> (\<forall>s\<in>set (slots t). slot_ok (length (slots t)) (BACKLOG t) (BYTES t) s)
     \<and> links_ok (slots t) \<and> addresses_ok (slots t)"

lemma links_okD:
  "links_ok xs \<Longrightarrow> i < length xs \<Longrightarrow> peer_of (xs ! i) = Some j \<Longrightarrow>
     j < length xs \<and> j \<noteq> i \<and> state (xs ! j) = Connected \<and> peer_of (xs ! j) = Some i"
  unfolding links_ok_def by blast

lemma links_okI:
  "(\<And>i j. i < length xs \<Longrightarrow> peer_of (xs ! i) = Some j \<Longrightarrow>
     j < length xs \<and> j \<noteq> i \<and> state (xs ! j) = Connected \<and> peer_of (xs ! j) = Some i) \<Longrightarrow> links_ok xs"
  unfolding links_ok_def by blast

lemma put_slot_simps [simp]:
  "slots (put_slot i s t) = (slots t)[i := s]"
  "BACKLOG (put_slot i s t) = BACKLOG t"
  "BYTES (put_slot i s t) = BYTES t"
  by (simp_all add: put_slot_def)

lemma index_ok:
  "index t h = Inr i \<longleftrightarrow> i = unat (sh_index h) \<and> i < length (slots t) \<and> state (slots t ! i) \<noteq> Free
     \<and> generation (slots t ! i) = sh_generation h"
  by (auto simp: index_def Let_def)

lemma index_error: "index t h = Inl e \<Longrightarrow> e = InvalidHandle"
  by (auto simp: index_def Let_def split: if_splits)

lemma table_inv_slot:
  "table_inv t \<Longrightarrow> i < length (slots t) \<Longrightarrow> slot_ok (length (slots t)) (BACKLOG t) (BYTES t) (slots t ! i)"
  by (simp add: table_inv_def)

lemma table_inv_peer:
  "table_inv t \<Longrightarrow> i < length (slots t) \<Longrightarrow> peer_of (slots t ! i) = Some j \<Longrightarrow>
     j < length (slots t) \<and> j \<noteq> i \<and> state (slots t ! j) = Connected \<and> peer_of (slots t ! j) = Some i"
  unfolding table_inv_def using links_okD by blast

lemma ring_EMPTY_ok [simp]: "ring_ok (ring_EMPTY n)" "length (ring_bytes (ring_EMPTY n)) = n"
  "ring_length (ring_EMPTY n) = 0"
  by (auto simp: ring_ok_def ring_EMPTY_def)

lemma slot_EMPTY_ok [simp]: "slot_ok n b y ((slot_EMPTY b y)\<lparr>generation := g\<rparr>)"
  by (simp add: slot_ok_def slot_EMPTY_def pending_queue_def has_address_def)

lemma reset_ok [simp]: "slot_ok n b y (reset_for_allocation b y g)"
  by (simp add: slot_ok_def reset_for_allocation_def slot_EMPTY_def pending_queue_def has_address_def)

lemma table_new_inv: "table_inv (table_new n b y)"
proof -
  have "slot_EMPTY b y = (slot_EMPTY b y)\<lparr>generation := 0\<rparr>" by (simp add: slot_EMPTY_def)
  then have "slot_ok n b y (slot_EMPTY b y)" by (metis slot_EMPTY_ok)
  then show ?thesis
    by (auto simp: table_inv_def table_new_def links_ok_def addresses_ok_def slot_EMPTY_def has_address_def)
qed

subsection \<open>Replacing a slot\<close>

definition same_link :: "SocketSlot \<Rightarrow> SocketSlot \<Rightarrow> bool" where
  "same_link s s' \<longleftrightarrow> peer_of s' = peer_of s \<and> (state s = Connected \<longrightarrow> state s' = Connected)"

definition same_address :: "SocketSlot \<Rightarrow> SocketSlot \<Rightarrow> bool" where
  "same_address s s' \<longleftrightarrow> (has_address s' \<longrightarrow> has_address s \<and> bound_path s' = bound_path s)"

lemma links_ok_update:
  assumes "links_ok xs" and "same_link (xs ! i) s"
  shows "links_ok (xs[i := s])"
proof (rule links_okI)
  fix k j assume k: "k < length (xs[i := s])" and "peer_of (xs[i := s] ! k) = Some j"
  with assms(2) have "peer_of (xs ! k) = Some j" by (cases "k = i") (auto simp: same_link_def)
  from links_okD [OF assms(1) _ this] k assms(2)
  show "j < length (xs[i := s]) \<and> j \<noteq> k \<and> state (xs[i := s] ! j) = Connected \<and> peer_of (xs[i := s] ! j) = Some k"
    by (cases "j = i") (auto simp: same_link_def)
qed

lemma addresses_ok_update:
  "addresses_ok xs \<Longrightarrow> same_address (xs ! i) s \<Longrightarrow> addresses_ok (xs[i := s])"
  by (cases "i < length xs") (auto simp: addresses_ok_def same_address_def nth_list_update)

lemma addresses_ok_bind:
  "addresses_ok xs \<Longrightarrow> \<forall>x\<in>set xs. has_address x \<longrightarrow> bound_path x \<noteq> bound_path s \<Longrightarrow> addresses_ok (xs[i := s])"
  by (cases "i < length xs") (auto simp: addresses_ok_def nth_list_update)

lemma links_ok_join:
  assumes "links_ok xs" and "a < length xs" and "b < length xs" and "a \<noteq> b"
    and none: "peer_of (xs ! a) = None" "peer_of (xs ! b) = None"
    and new: "state sa = Connected" "peer_of sa = Some b" "state sb = Connected" "peer_of sb = Some a"
  shows "links_ok (xs[a := sa, b := sb])"
proof (rule links_okI)
  fix k j assume k: "k < length (xs[a := sa, b := sb])" and j: "peer_of (xs[a := sa, b := sb] ! k) = Some j"
  show "j < length (xs[a := sa, b := sb]) \<and> j \<noteq> k \<and> state (xs[a := sa, b := sb] ! j) = Connected
    \<and> peer_of (xs[a := sa, b := sb] ! j) = Some k"
  proof (cases "k = a \<or> k = b")
    case True
    then show ?thesis using j assms by auto
  next
    case False
    then have "peer_of (xs ! k) = Some j" using j by simp
    from links_okD [OF assms(1) _ this] k none have "j \<noteq> a" "j \<noteq> b"
      "j < length xs \<and> j \<noteq> k \<and> state (xs ! j) = Connected \<and> peer_of (xs ! j) = Some k" by auto
    then show ?thesis by simp
  qed
qed

lemma links_ok_unlink:
  assumes "links_ok xs" and "i < length xs" and ij: "peer_of (xs ! i) = Some j"
    and none: "peer_of si = None" "peer_of sj = None"
  shows "links_ok (xs[j := sj, i := si])"
proof (rule links_okI)
  fix k l assume k: "k < length (xs[j := sj, i := si])" and l: "peer_of (xs[j := sj, i := si] ! k) = Some l"
  have ji: "j < length xs" "j \<noteq> i" "peer_of (xs ! j) = Some i" using links_okD [OF assms(1-3)] by auto
  have ki: "k \<noteq> i" "k \<noteq> j" using k l none ji assms(2) by auto
  then have "peer_of (xs ! k) = Some l" using l by simp
  from links_okD [OF assms(1) _ this] k ki ij ji have "l \<noteq> i" "l \<noteq> j"
    "l < length xs \<and> l \<noteq> k \<and> state (xs ! l) = Connected \<and> peer_of (xs ! l) = Some k" by auto
  then show "l < length (xs[j := sj, i := si]) \<and> l \<noteq> k \<and> state (xs[j := sj, i := si] ! l) = Connected
    \<and> peer_of (xs[j := sj, i := si] ! l) = Some k" by simp
qed

lemma links_ok_clear:
  assumes "links_ok xs" and none: "peer_of (xs ! i) = None" "peer_of s = None"
  shows "links_ok (xs[i := s])"
proof (rule links_okI)
  fix k l assume k: "k < length (xs[i := s])" and l: "peer_of (xs[i := s] ! k) = Some l"
  have "k \<noteq> i" using k l none by auto
  with l have "peer_of (xs ! k) = Some l" by simp
  from links_okD [OF assms(1) _ this] k none \<open>k \<noteq> i\<close> have "l \<noteq> i"
    "l < length xs \<and> l \<noteq> k \<and> state (xs ! l) = Connected \<and> peer_of (xs ! l) = Some k" by auto
  then show "l < length (xs[i := s]) \<and> l \<noteq> k \<and> state (xs[i := s] ! l) = Connected
    \<and> peer_of (xs[i := s] ! l) = Some k" by simp
qed

lemma ball_update: "\<forall>x\<in>set xs. P x \<Longrightarrow> P a \<Longrightarrow> \<forall>x\<in>set (xs[i := a]). P x"
  using set_update_subset_insert [of xs i a] by auto

lemma put_two_inv:
  assumes "table_inv t" and "slot_ok (length (slots t)) (BACKLOG t) (BYTES t) a"
    and "slot_ok (length (slots t)) (BACKLOG t) (BYTES t) b"
    and "links_ok ((slots t)[i := a, j := b])" and "addresses_ok ((slots t)[i := a, j := b])"
  shows "table_inv (put_slot j b (put_slot i a t))"
proof -
  have "\<forall>s\<in>set ((slots t)[i := a, j := b]). slot_ok (length (slots t)) (BACKLOG t) (BYTES t) s"
    using assms(1-3) by (intro ball_update) (auto simp: table_inv_def)
  with assms(4,5) show ?thesis by (simp add: table_inv_def)
qed

lemma put_slot_inv:
  assumes "table_inv t" and "slot_ok (length (slots t)) (BACKLOG t) (BYTES t) s"
    and "same_link (slots t ! i) s" and "same_address (slots t ! i) s"
  shows "table_inv (put_slot i s t)"
proof -
  have "links_ok ((slots t)[i := s])" "addresses_ok ((slots t)[i := s])"
    using assms links_ok_update addresses_ok_update by (auto simp only: table_inv_def)
  then show ?thesis
    using assms(1,2) set_update_subset_insert [of "slots t" i s] by (auto simp only: table_inv_def put_slot_simps length_list_update)
qed

subsection \<open>Every operation keeps the table well formed\<close>

lemma view_simps [simp]:
  "pending_queue (s\<lparr>receive := r\<rparr>) = pending_queue s"
  "pending_queue (s\<lparr>rights := a\<rparr>) = pending_queue s"
  "pending_queue (s\<lparr>peer_of := p\<rparr>) = pending_queue s"
  "pending_queue (s\<lparr>peer_closed := c\<rparr>) = pending_queue s"
  "pending_queue (s\<lparr>state := st\<rparr>) = pending_queue s"
  "pending_queue (s\<lparr>path := q\<rparr>) = pending_queue s"
  "pending_queue (s\<lparr>path_length := n\<rparr>) = pending_queue s"
  "bound_path (s\<lparr>receive := r\<rparr>) = bound_path s"
  "bound_path (s\<lparr>rights := a\<rparr>) = bound_path s"
  "bound_path (s\<lparr>state := st\<rparr>) = bound_path s"
  "bound_path (s\<lparr>pending := ps\<rparr>) = bound_path s"
  "bound_path (s\<lparr>pending_head := n\<rparr>) = bound_path s"
  "bound_path (s\<lparr>pending_length := n\<rparr>) = bound_path s"
  by (simp_all add: pending_queue_def bound_path_def)

lemma receive_update_ok:
  assumes "slot_ok n b y s" and "state s = Connected" and "ring_ok r" and "length (ring_bytes r) = y"
    and "a \<noteq> None \<longrightarrow> ring_length r \<noteq> 0"
  shows "slot_ok n b y (s\<lparr>receive := r, rights := a\<rparr>)"
  using assms by (auto simp: slot_ok_def has_address_def)

lemma receive_update_inv:
  assumes "table_inv t" and "i < length (slots t)" and "state (slots t ! i) = Connected"
    and "ring_ok r" and "length (ring_bytes r) = BYTES t" and "a \<noteq> None \<longrightarrow> ring_length r \<noteq> 0"
  shows "table_inv (put_slot i ((slots t ! i)\<lparr>receive := r, rights := a\<rparr>) t)"
  using assms(3)
  by (intro put_slot_inv receive_update_ok table_inv_slot assms)
    (auto simp: same_link_def same_address_def has_address_def)

lemma receive_update_inv':
  assumes "table_inv t" and "i < length (slots t)" and "state (slots t ! i) = Connected"
    and "ring_ok r" and "length (ring_bytes r) = BYTES t"
    and "rights (slots t ! i) \<noteq> None \<longrightarrow> ring_length r \<noteq> 0"
  shows "table_inv (put_slot i ((slots t ! i)\<lparr>receive := r\<rparr>) t)"
  using receive_update_inv [OF assms] by simp

lemma table_ring:
  "table_inv t \<Longrightarrow> i < length (slots t) \<Longrightarrow>
     ring_ok (receive (slots t ! i)) \<and> length (ring_bytes (receive (slots t ! i))) = BYTES t"
  using table_inv_slot by (auto simp: slot_ok_def)

lemma table_rights:
  "table_inv t \<Longrightarrow> i < length (slots t) \<Longrightarrow> rights (slots t ! i) \<noteq> None \<Longrightarrow>
     ring_length (receive (slots t ! i)) \<noteq> 0"
  using table_inv_slot [of t i] by (simp add: slot_ok_def)

lemma send_peerD:
  assumes "table_inv t" and "send_peer h refused t = Inr j"
  shows "\<exists>i. index t h = Inr i \<and> \<not> refused \<and> state (slots t ! i) = Connected \<and> peer_of (slots t ! i) = Some j
    \<and> \<not> peer_closed (slots t ! i) \<and> j < length (slots t) \<and> j \<noteq> i \<and> state (slots t ! j) = Connected"
proof -
  obtain i where i: "index t h = Inr i" using assms(2) by (cases "index t h") (auto simp: send_peer_def)
  then have "peer_of (slots t ! i) = Some j" and "state (slots t ! i) = Connected \<and> \<not> refused
     \<and> \<not> peer_closed (slots t ! i)"
    using assms(2) by (auto simp: send_peer_def result_simps split: if_splits)
  with table_inv_peer [OF assms(1) _ this(1)] i show ?thesis by (auto simp: index_ok)
qed

lemma push_inv:
  assumes inv: "table_inv t" and j: "j < length (slots t)" "state (slots t ! j) = Connected"
    and push: "ring_push input (receive (slots t ! j)) = (n, r)"
  shows "table_inv (put_slot j ((slots t ! j)\<lparr>receive := r\<rparr>) t)"
  using ring_push_spec [OF _ push] table_ring [OF inv j(1)] table_rights [OF inv j(1)]
  by (intro receive_update_inv' inv j) auto

lemma send_inv: "table_inv t \<Longrightarrow> table_inv (snd (send h input t))"
  using send_peerD [of t h False] push_inv
  by (auto simp: send_def Let_def split: sum.splits prod.splits)

lemma send_exact_inv: "table_inv t \<Longrightarrow> table_inv (snd (send_exact h input t))"
  using send_peerD [of t h False] push_inv
  by (auto simp: send_exact_def Let_def split: sum.splits prod.splits)

lemma send_with_rights_inv:
  assumes inv: "table_inv t"
  shows "table_inv (snd (send_with_rights h input ar t))"
proof (cases "send_peer h (input = []) t")
  case (Inl e)
  then show ?thesis using inv by (simp add: send_with_rights_def)
next
  case (Inr j)
  from send_peerD [OF inv Inr] have j: "j < length (slots t)" "state (slots t ! j) = Connected"
    and ne: "input \<noteq> []" by auto
  obtain n r where push: "ring_push input (receive (slots t ! j)) = (n, r)" by force
  from ring_push_spec [OF _ push] table_ring [OF inv j(1)]
  have r: "ring_ok r" "length (ring_bytes r) = BYTES t" "ring_length r = ring_length (receive (slots t ! j)) + n"
    by auto
  have "n = length input \<Longrightarrow> table_inv (put_slot j ((slots t ! j)\<lparr>receive := r, rights := Some ar\<rparr>) t)"
    using r ne by (intro receive_update_inv inv j) auto
  with push_inv [OF inv j push] inv Inr push show ?thesis
    by (simp add: send_with_rights_def Let_def)
qed

lemma recv_inv:
  assumes inv: "table_inv t"
  shows "table_inv (snd (snd (recv h out t)))"
proof (cases "index t h")
  case (Inl e)
  then show ?thesis using inv by (simp add: recv_def)
next
  case (Inr i)
  then have i: "i < length (slots t)" by (simp add: index_ok)
  obtain n out' r where pop: "ring_pop out (receive (slots t ! i)) = (n, out', r)" by (metis prod_cases3)
  have "table_inv (put_slot i ((slots t ! i)\<lparr>receive := r\<rparr>) t)"
    if "state (slots t ! i) = Connected" and "rights (slots t ! i) = None"
    using ring_pop_spec [OF _ pop] table_ring [OF inv i] that
    by (intro receive_update_inv' inv i) auto
  then show ?thesis using inv Inr pop by (simp add: recv_def Let_def)
qed

lemma recv_with_rights_inv:
  assumes inv: "table_inv t"
  shows "table_inv (snd (snd (recv_with_rights h out t)))"
proof (cases "index t h")
  case (Inl e)
  then show ?thesis using inv by (simp add: recv_with_rights_def)
next
  case (Inr i)
  then have i: "i < length (slots t)" by (simp add: index_ok)
  obtain n out' r where pop: "ring_pop out (receive (slots t ! i)) = (n, out', r)" by (metis prod_cases3)
  from ring_pop_spec [OF _ pop] table_ring [OF inv i]
  have r: "ring_ok r" "length (ring_bytes r) = BYTES t" "ring_length r = ring_length (receive (slots t ! i)) - n"
    by auto
  have "table_inv (put_slot i ((slots t ! i)\<lparr>receive := r, rights := None\<rparr>) t)"
    if "state (slots t ! i) = Connected"
    using r that by (intro receive_update_inv inv i) auto
  moreover have "table_inv (put_slot i ((slots t ! i)\<lparr>receive := r\<rparr>) t)"
    if "state (slots t ! i) = Connected" and "n = 0"
    using r that table_rights [OF inv i] by (intro receive_update_inv' inv i) auto
  ultimately show ?thesis using inv Inr pop by (auto simp: recv_with_rights_def Let_def)
qed

lemma take_rights_inv:
  assumes inv: "table_inv t"
  shows "table_inv (snd (take_rights h t))"
proof (cases "index t h")
  case (Inl e)
  then show ?thesis using inv by (simp add: take_rights_def)
next
  case (Inr i)
  then have "slot_ok (length (slots t)) (BACKLOG t) (BYTES t) (slots t ! i)"
    using inv by (simp add: index_ok table_inv_slot)
  then have "table_inv (put_slot i ((slots t ! i)\<lparr>rights := None\<rparr>) t)"
    by (intro put_slot_inv inv)
      (auto simp: slot_ok_def same_link_def same_address_def has_address_def)
  then show ?thesis by (simp add: take_rights_def Inr)
qed

lemma reset_simps [simp]:
  "peer_of (reset_for_allocation b y g) = None" "state (reset_for_allocation b y g) = Created"
  "generation (reset_for_allocation b y g) = g"
  "rights (reset_for_allocation b y g) = None" "receive (reset_for_allocation b y g) = ring_EMPTY y"
  "peer_closed (reset_for_allocation b y g) = False"
  by (simp_all add: reset_for_allocation_def slot_EMPTY_def)

lemma table_inv_unlinked:
  "table_inv t \<Longrightarrow> i < length (slots t) \<Longrightarrow> state (slots t ! i) \<noteq> Connected \<Longrightarrow> peer_of (slots t ! i) = None"
  using table_inv_slot [of t i] by (simp add: slot_ok_def)

lemma socket_inv: "table_inv t \<Longrightarrow> table_inv (snd (socket t))"
  using table_inv_unlinked [of t]
  by (auto simp: socket_def Let_def same_link_def same_address_def has_address_def
      position_Some split: option.splits intro!: put_slot_inv)

lemma bind_inv:
  assumes inv: "table_inv t"
  shows "table_inv (snd (bind h p t))"
proof -
  let ?s = "\<lambda>s. s\<lparr>path := copy_at (path s) 0 p, path_length := length p, state := Bound\<rparr>"
  have "table_inv (put_slot i (?s (slots t ! i)) t)"
    if p: "validate_path p = Inr ()" and i: "index t h = Inr i" and st: "state (slots t ! i) = Created"
      and free: "\<forall>s\<in>set (slots t). has_address s \<longrightarrow> bound_path s \<noteq> p" for i
  proof -
    have len: "length p \<le> LOCAL_PATH_MAX" using p by (auto simp: validate_path_def split: if_splits)
    have ok: "slot_ok (length (slots t)) (BACKLOG t) (BYTES t) (slots t ! i)"
      using inv i by (simp add: index_ok table_inv_slot)
    then have path: "bound_path (?s (slots t ! i)) = p"
      using len by (simp add: bound_path_def slot_ok_def copy_at_def)
    then have "slot_ok (length (slots t)) (BACKLOG t) (BYTES t) (?s (slots t ! i))"
      using ok st len p by (auto simp: slot_ok_def copy_at_def)
    moreover have "links_ok ((slots t)[i := ?s (slots t ! i)])"
      using inv st by (intro links_ok_update) (auto simp: table_inv_def same_link_def)
    moreover have "addresses_ok ((slots t)[i := ?s (slots t ! i)])"
      using inv free path by (intro addresses_ok_bind) (auto simp: table_inv_def)
    ultimately show ?thesis
      using inv set_update_subset_insert [of "slots t" i "?s (slots t ! i)"]
      by (auto simp only: table_inv_def put_slot_simps length_list_update)
  qed
  then show ?thesis
    using inv by (auto simp: bind_def Let_def has_address_def split: sum.splits)
qed

lemma listen_inv:
  assumes inv: "table_inv t"
  shows "table_inv (snd (listen h t))"
proof -
  have "table_inv (put_slot i ((slots t ! i)\<lparr>state := Listening\<rparr>) t)"
    if i: "index t h = Inr i" and st: "state (slots t ! i) = Bound" for i
  proof -
    have "slot_ok (length (slots t)) (BACKLOG t) (BYTES t) (slots t ! i)"
      using inv i by (simp add: index_ok table_inv_slot)
    with st show ?thesis
      by (intro put_slot_inv inv) (auto simp: slot_ok_def same_link_def same_address_def has_address_def)
  qed
  then show ?thesis using inv by (auto simp: listen_def split: sum.splits)
qed

subsection \<open>The queue of pending connections\<close>

lemma pending_push:
  assumes "length (pending s) = n" and "pending_length s < n"
  shows "pending_queue (s\<lparr>pending := (pending s)[(pending_head s + pending_length s) mod n := x],
      pending_length := pending_length s + 1\<rparr>) = pending_queue s @ [x]"
proof -
  have "(pending_head s + pending_length s) mod n \<noteq> (pending_head s + k) mod n" if "k < pending_length s" for k
    using that assms(2) mod_add_inj [of "pending_head s" k n "pending_length s"] by auto
  then show ?thesis using assms by (auto simp: pending_queue_def)
qed

lemma pending_pop:
  assumes "length (pending s) = n" and "pending_length s \<noteq> 0" and "pending_length s \<le> n" and "pending_head s < n"
  shows "pending_queue s = pending s ! pending_head s # pending_queue (s\<lparr>
      pending := (pending s)[pending_head s := None], pending_head := (pending_head s + 1) mod n,
      pending_length := pending_length s - 1\<rparr>)"
proof (rule nth_equalityI)
  show "length (pending_queue s) = length (pending s ! pending_head s # pending_queue (s\<lparr>
      pending := (pending s)[pending_head s := None], pending_head := (pending_head s + 1) mod n,
      pending_length := pending_length s - 1\<rparr>))"
    using assms by (simp add: pending_queue_def)
next
  fix k assume "k < length (pending_queue s)"
  then have k: "k < pending_length s" by (simp add: pending_queue_def)
  have "(pending_head s + k) mod n \<noteq> pending_head s" if "k \<noteq> 0"
    using that k assms mod_add_inj [of "pending_head s" k n 0] by auto
  then show "pending_queue s ! k = (pending s ! pending_head s # pending_queue (s\<lparr>
      pending := (pending s)[pending_head s := None], pending_head := (pending_head s + 1) mod n,
      pending_length := pending_length s - 1\<rparr>)) ! k"
    using k assms by (cases k) (auto simp: pending_queue_def mod_Suc_eq mod_add_left_eq)
qed

definition server_slot :: "LocalSocketTable \<Rightarrow> u16 \<Rightarrow> nat \<Rightarrow> SocketSlot" where
  "server_slot t gen client =
     (reset_for_allocation (BACKLOG t) (BYTES t) gen)\<lparr>state := Connected, peer_of := Some client\<rparr>"

definition queue_server :: "LocalSocketTable \<Rightarrow> nat \<Rightarrow> SocketSlot \<Rightarrow> SocketSlot" where
  "queue_server t server l =
     l\<lparr>pending := (pending l)[(pending_head l + pending_length l) mod BACKLOG t := Some server],
       pending_length := pending_length l + 1\<rparr>"

lemma connect_cases:
  obtains (error) e where "connect h p t = (Inl e, t)"
  | (ok) client listener server gen where
      "connect h p t = (Inr (), put_slot listener (queue_server t server (slots t ! listener))
         (put_slot client ((slots t ! client)\<lparr>state := Connected, peer_of := Some server\<rparr>)
           (put_slot server (server_slot t gen client) t)))"
      "index t h = Inr client" "state (slots t ! client) = Created"
      "listener < length (slots t)" "state (slots t ! listener) = Listening" "bound_path (slots t ! listener) = p"
      "pending_length (slots t ! listener) \<noteq> BACKLOG t"
      "server < length (slots t)" "state (slots t ! server) = Free"
      "server \<noteq> client" "server \<noteq> listener" "client \<noteq> listener"
      "checked_add (generation (slots t ! server)) 1 = Some gen"
proof (cases "\<exists>e. connect h p t = (Inl e, t)")
  case True
  then show ?thesis using error by blast
next
  case False
  from False obtain client where client: "validate_path p = Inr ()" "index t h = Inr client"
    "state (slots t ! client) = Created"
    by (cases "validate_path p"; cases "index t h") (auto simp: connect_def split: if_splits)
  from False client obtain listener where listener:
    "position (\<lambda>s. state s = Listening \<and> bound_path s = p) (slots t) = Some listener"
    "pending_length (slots t ! listener) \<noteq> BACKLOG t"
    by (cases "position (\<lambda>s. state s = Listening \<and> bound_path s = p) (slots t)")
      (auto simp: connect_def split: if_splits)
  from False client listener obtain server gen where server:
    "position (\<lambda>(i, s). i \<noteq> client \<and> i \<noteq> listener \<and> state s = Free) (enumerate 0 (slots t)) = Some server"
    "checked_add (generation (slots t ! server)) 1 = Some gen"
    by (auto simp: connect_def split: option.splits)
  from listener have l: "listener < length (slots t)" "state (slots t ! listener) = Listening"
    "bound_path (slots t ! listener) = p" by (auto simp: position_Some)
  from server have s: "server < length (slots t)" "server \<noteq> client" "server \<noteq> listener"
    "state (slots t ! server) = Free"
    by (auto simp: position_Some nth_enumerate_eq)
  have "client \<noteq> listener" using client l by auto
  with client l listener(2) s server(2) show ?thesis
    by (intro ok [of listener server client gen])
      (auto simp: connect_def listener server Let_def queue_server_def server_slot_def)
qed

lemma connect_inv:
  assumes inv: "table_inv t"
  shows "table_inv (snd (connect h p t))"
proof (cases rule: connect_cases [of h p t])
  case (error e)
  then show ?thesis using inv by simp
next
  case (ok client listener server gen)
  let ?n = "length (slots t)"
  let ?c = "(slots t ! client)\<lparr>state := Connected, peer_of := Some server\<rparr>"
  let ?t2 = "put_slot client ?c (put_slot server (server_slot t gen client) t)"
  have client: "client < ?n" using ok by (simp add: index_ok)
  have slot: "slot_ok ?n (BACKLOG t) (BYTES t) (slots t ! i)" if "i < ?n" for i
    using inv that by (rule table_inv_slot)
  have "slot_ok ?n (BACKLOG t) (BYTES t) (server_slot t gen client)"
    by (simp add: server_slot_def slot_ok_def has_address_def reset_for_allocation_def slot_EMPTY_def
        pending_queue_def)
  moreover have "slot_ok ?n (BACKLOG t) (BYTES t) ?c"
    using slot [OF client] ok by (auto simp: slot_ok_def has_address_def)
  moreover have "links_ok ((slots t)[server := server_slot t gen client, client := ?c])"
    using inv client ok table_inv_unlinked [OF inv]
    by (intro links_ok_join) (auto simp: table_inv_def server_slot_def)
  moreover have "addresses_ok ((slots t)[server := server_slot t gen client, client := ?c])"
    using inv by (intro addresses_ok_update)
      (auto simp: table_inv_def same_address_def has_address_def server_slot_def)
  ultimately have inv2: "table_inv ?t2"
    using inv by (intro put_two_inv)
  have l2: "slots ?t2 ! listener = slots t ! listener" using ok by simp
  have q: "pending_queue (queue_server t server (slots t ! listener)) = pending_queue (slots t ! listener) @ [Some server]"
    unfolding queue_server_def using slot [OF ok(4)] ok(7)
    by (intro pending_push) (auto simp: slot_ok_def)
  then have "slot_ok ?n (BACKLOG t) (BYTES t) (queue_server t server (slots t ! listener))"
    using slot [OF ok(4)] ok by (auto simp: slot_ok_def has_address_def queue_server_def)
  then show ?thesis unfolding ok(1) snd_conv
    by (intro put_slot_inv inv2)
      (unfold l2, simp_all add: same_link_def same_address_def has_address_def queue_server_def)
qed

lemma accept_cases:
  obtains (error) e where "accept h t = (Inl e, t)"
  | (ok) i server where
      "index t h = Inr i" "state (slots t ! i) = Listening" "pending_length (slots t ! i) \<noteq> 0"
      "pending (slots t ! i) ! pending_head (slots t ! i) = Some server"
      "snd (accept h t) = put_slot i ((slots t ! i)\<lparr>
         pending := (pending (slots t ! i))[pending_head (slots t ! i) := None],
         pending_head := (pending_head (slots t ! i) + 1) mod BACKLOG t,
         pending_length := pending_length (slots t ! i) - 1\<rparr>) t"
      "fst (accept h t) = slot_handle (slots (snd (accept h t)) ! server) server"
proof (cases "\<exists>e. accept h t = (Inl e, t)")
  case True
  then show ?thesis using error by blast
next
  case False
  from False obtain i where i: "index t h = Inr i" by (cases "index t h") (auto simp: accept_def)
  with False obtain server where
    "state (slots t ! i) = Listening" "pending_length (slots t ! i) \<noteq> 0"
    "pending (slots t ! i) ! pending_head (slots t ! i) = Some server"
    by (auto simp: accept_def Let_def split: option.splits if_splits)
  with i show ?thesis by (intro ok [of i server]) (simp_all add: accept_def Let_def)
qed

lemma accept_queue:
  assumes inv: "table_inv t" and i: "index t h = Inr i" and "pending_length (slots t ! i) \<noteq> 0"
  shows "pending_queue (slots t ! i) = pending (slots t ! i) ! pending_head (slots t ! i) #
    pending_queue ((slots t ! i)\<lparr>
         pending := (pending (slots t ! i))[pending_head (slots t ! i) := None],
         pending_head := (pending_head (slots t ! i) + 1) mod BACKLOG t,
         pending_length := pending_length (slots t ! i) - 1\<rparr>)"
  using table_inv_slot [OF inv, of i] i assms(3)
  by (intro pending_pop) (auto simp: index_ok slot_ok_def)

lemma accept_inv:
  assumes inv: "table_inv t"
  shows "table_inv (snd (accept h t))"
proof (cases rule: accept_cases [of h t])
  case (error e)
  then show ?thesis using inv by simp
next
  case (ok i server)
  have "slot_ok (length (slots t)) (BACKLOG t) (BYTES t) (slots t ! i)"
    using inv ok by (simp add: index_ok table_inv_slot)
  then show ?thesis
    unfolding ok(5) using accept_queue [OF inv ok(1,3)] ok(2)
    by (intro put_slot_inv inv)
      (auto simp: slot_ok_def same_link_def same_address_def has_address_def)
qed

lemma close_inv:
  assumes inv: "table_inv t"
  shows "table_inv (snd (close h t))"
proof (cases "index t h")
  case (Inl e)
  then show ?thesis using inv by (simp add: close_def)
next
  case (Inr i)
  then have i: "i < length (slots t)" by (simp add: index_ok)
  let ?e = "(slot_EMPTY (BACKLOG t) (BYTES t))\<lparr>generation := generation (slots t ! i)\<rparr>"
  have e: "peer_of ?e = None" "\<not> has_address ?e" by (simp_all add: slot_EMPTY_def has_address_def)
  show ?thesis
  proof (cases "peer_of (slots t ! i)")
    case None
    have "links_ok ((slots t)[i := ?e])" "addresses_ok ((slots t)[i := ?e])"
      using inv None e by (auto simp: table_inv_def same_address_def intro!: links_ok_clear addresses_ok_update)
    then have "table_inv (put_slot i ?e t)"
      using inv set_update_subset_insert [of "slots t" i ?e] slot_EMPTY_ok
      by (auto simp only: table_inv_def put_slot_simps length_list_update)
    then show ?thesis by (simp add: close_def Inr None Let_def)
  next
    case (Some j)
    let ?j = "(slots t ! j)\<lparr>peer_of := None, peer_closed := True\<rparr>"
    from table_inv_peer [OF inv i Some] have j: "j < length (slots t)" "j \<noteq> i" "state (slots t ! j) = Connected"
      by auto
    have "links_ok ((slots t)[j := ?j, i := ?e])"
      using inv i Some e by (intro links_ok_unlink) (auto simp: table_inv_def)
    moreover have "addresses_ok ((slots t)[j := ?j, i := ?e])"
      using inv j e by (intro addresses_ok_update) (auto simp: table_inv_def same_address_def has_address_def)
    moreover have "slot_ok (length (slots t)) (BACKLOG t) (BYTES t) ?j"
      using table_inv_slot [OF inv j(1)] j(3) by (auto simp: slot_ok_def has_address_def)
    ultimately have "table_inv (put_slot i ?e (put_slot j ?j t))"
      using inv slot_EMPTY_ok by (intro put_two_inv)
    then show ?thesis using j by (simp add: close_def Inr Some Let_def)
  qed
qed

end
