(* ===== verification/Handle_Table.thy ===== *)
theory Handle_Table
  imports Slop_Prelude
begin

text \<open>
  The contract behind generation-checked handles, which the socket table and the shared-memory
  arena both use: a slot's generation never decreases, and a free slot is taken into use only
  under a larger one. From it: a handle that no longer resolves never resolves again, whatever
  operations follow.
\<close>

locale generation_table =
  fixes gen_of :: "'t \<Rightarrow> nat \<Rightarrow> nat"
    and live :: "'t \<Rightarrow> nat \<Rightarrow> bool"
    and step :: "'t \<Rightarrow> 't \<Rightarrow> bool"
  assumes gen_mono: "step t t' \<Longrightarrow> gen_of t i \<le> gen_of t' i"
    and reuse_is_newer: "step t t' \<Longrightarrow> \<not> live t i \<Longrightarrow> live t' i \<Longrightarrow> gen_of t i < gen_of t' i"
begin

definition retired :: "'t \<Rightarrow> nat \<Rightarrow> nat \<Rightarrow> bool" where
  "retired t i g \<longleftrightarrow> g < gen_of t i \<or> g = gen_of t i \<and> \<not> live t i"

lemma retired_step: "step t t' \<Longrightarrow> retired t i g \<Longrightarrow> retired t' i g"
  using gen_mono [of t t' i] reuse_is_newer [of t t' i] by (auto simp: retired_def)

lemma retired_steps: "step\<^sup>*\<^sup>* t t' \<Longrightarrow> retired t i g \<Longrightarrow> retired t' i g"
  by (induction rule: rtranclp_induct) (auto intro: retired_step)

lemma gen_steps_mono: "step\<^sup>*\<^sup>* t t' \<Longrightarrow> gen_of t i \<le> gen_of t' i"
  by (induction rule: rtranclp_induct) (auto intro: gen_mono order_trans)

lemma retired_never_resolves:
  assumes "step\<^sup>*\<^sup>* t t'" and "\<not> live t i" and "g \<le> gen_of t i"
  shows "\<not> (live t' i \<and> gen_of t' i = g)"
proof -
  have "retired t i g" using assms(2,3) by (auto simp: retired_def)
  from retired_steps [OF assms(1) this] show ?thesis by (auto simp: retired_def)
qed

end

end
