(* ===== verification/Ipc_Properties.thy ===== *)
theory Ipc_Properties
  imports Ipc_Proofs Handle_Table "HOL-Library.Code_Target_Nat"
begin

text \<open>
  The local socket table as a state machine, and what its clients rely on: well-formedness of
  every reachable table, permanence of a close, first-in first-out byte delivery over a connected
  pair, all-or-nothing sends, delivery of ancillary rights, and the order of accepted connections.
\<close>

section \<open>The table as a state machine\<close>

inductive ipc_step :: "LocalSocketTable \<Rightarrow> LocalSocketTable \<Rightarrow> bool" where
  step_socket: "ipc_step t (snd (socket t))"
| step_bind: "ipc_step t (snd (bind h p t))"
| step_listen: "ipc_step t (snd (listen h t))"
| step_connect: "ipc_step t (snd (connect h p t))"
| step_accept: "ipc_step t (snd (accept h t))"
| step_send: "ipc_step t (snd (send h input t))"
| step_send_exact: "ipc_step t (snd (send_exact h input t))"
| step_send_with_rights: "ipc_step t (snd (send_with_rights h input ar t))"
| step_recv: "ipc_step t (snd (snd (recv h out t)))"
| step_recv_with_rights: "ipc_step t (snd (snd (recv_with_rights h out t)))"
| step_take_rights: "ipc_step t (snd (take_rights h t))"
| step_close: "ipc_step t (snd (close h t))"

lemmas ipc_operations_inv = socket_inv bind_inv listen_inv connect_inv accept_inv send_inv send_exact_inv
  send_with_rights_inv recv_inv recv_with_rights_inv take_rights_inv close_inv

lemma ipc_step_inv: "ipc_step t t' \<Longrightarrow> table_inv t \<Longrightarrow> table_inv t'"
  by (induction rule: ipc_step.induct) (simp_all add: ipc_operations_inv)

lemma ipc_steps_inv: "ipc_step\<^sup>*\<^sup>* t t' \<Longrightarrow> table_inv t \<Longrightarrow> table_inv t'"
  by (induction rule: rtranclp_induct) (auto intro: ipc_step_inv)

section \<open>Generations\<close>

definition ages :: "LocalSocketTable \<Rightarrow> LocalSocketTable \<Rightarrow> bool" where
  "ages t t' \<longleftrightarrow> length (slots t') = length (slots t) \<and> BACKLOG t' = BACKLOG t \<and> BYTES t' = BYTES t \<and>
     (\<forall>i<length (slots t).
        generation (slots t ! i) < generation (slots t' ! i)
        \<or> generation (slots t ! i) = generation (slots t' ! i)
          \<and> (state (slots t ! i) = Free \<longrightarrow> state (slots t' ! i) = Free))"

lemma ages_refl [simp]: "ages t t"
  by (simp add: ages_def)

lemma ages_put:
  assumes "ages t t'"
    and "generation (slots t' ! i) < generation s
      \<or> generation (slots t' ! i) = generation s \<and> (state (slots t' ! i) = Free \<longrightarrow> state s = Free)"
  shows "ages t (put_slot i s t')"
  unfolding ages_def
proof (intro conjI allI impI)
  fix k assume "k < length (slots t)"
  then have k: "k < length (slots t')"
    "generation (slots t ! k) < generation (slots t' ! k)
      \<or> generation (slots t ! k) = generation (slots t' ! k)
        \<and> (state (slots t ! k) = Free \<longrightarrow> state (slots t' ! k) = Free)"
    using assms(1) by (simp_all add: ages_def)
  then show "generation (slots t ! k) < generation (slots (put_slot i s t') ! k)
      \<or> generation (slots t ! k) = generation (slots (put_slot i s t') ! k)
        \<and> (state (slots t ! k) = Free \<longrightarrow> state (slots (put_slot i s t') ! k) = Free)"
    using assms(2) by (cases "k = i") auto
qed (use assms(1) in \<open>simp_all add: ages_def\<close>)

lemma checked_add_greater: "checked_add (g :: u16) 1 = Some g' \<Longrightarrow> g < g'"
  using checked_add_unat [of g 1 g'] by (simp add: word_less_nat_alt)

lemma ipc_step_ages:
  assumes "ipc_step t t'"
  shows "ages t t'"
  using assms
proof cases
  case (step_socket)
  then show ?thesis
    by (auto simp: socket_def Let_def split: option.splits intro!: ages_put dest: checked_add_greater)
next
  case (step_connect h p)
  then show ?thesis
    by (cases rule: connect_cases [of h p t])
      (auto simp: queue_server_def server_slot_def index_ok intro!: ages_put dest: checked_add_greater)
next
  case (step_accept h)
  then show ?thesis by (cases rule: accept_cases [of h t]) (auto intro!: ages_put)
next
  case (step_close h)
  then show ?thesis
    by (cases "index t h") (auto simp: close_def Let_def index_ok slot_EMPTY_def split: option.splits intro!: ages_put)
qed (auto simp: bind_def listen_def send_def send_exact_def send_with_rights_def recv_def
    recv_with_rights_def take_rights_def Let_def index_ok split: sum.splits prod.splits intro!: ages_put)

definition slot_generation :: "LocalSocketTable \<Rightarrow> nat \<Rightarrow> nat" where
  "slot_generation t i = (if i < length (slots t) then unat (generation (slots t ! i)) else 0)"

definition slot_live :: "LocalSocketTable \<Rightarrow> nat \<Rightarrow> bool" where
  "slot_live t i \<longleftrightarrow> i < length (slots t) \<and> state (slots t ! i) \<noteq> Free"

interpretation sockets: generation_table slot_generation slot_live ipc_step
proof
  fix t t' :: LocalSocketTable and i
  assume "ipc_step t t'"
  then have "ages t t'" by (rule ipc_step_ages)
  then show "slot_generation t i \<le> slot_generation t' i"
    by (auto simp: ages_def slot_generation_def word_less_nat_alt less_imp_le)
next
  fix t t' :: LocalSocketTable and i
  assume "ipc_step t t'" and free: "\<not> slot_live t i" and live: "slot_live t' i"
  then have "ages t t'" by (intro ipc_step_ages)
  with free live show "slot_generation t i < slot_generation t' i"
    by (auto simp: ages_def slot_generation_def slot_live_def word_less_nat_alt)
qed

section \<open>Handles across steps\<close>

lemma index_unat: "index t h = Inr i \<Longrightarrow> unat (sh_index h) = i"
  by (simp add: index_ok)

lemma handle_unique: "index t h = Inr i \<Longrightarrow> index t h' = Inr i \<Longrightarrow> h' = h"
  by (cases h; cases h') (auto simp: index_ok word_unat_eq_iff)

lemma ipc_step_keeps_handle:
  assumes step: "ipc_step t t'" and valid: "index t h = Inr i"
  shows "index t' h = Inr i \<or> t' = snd (close h t)"
  using step
proof cases
  case step_socket
  then show ?thesis using valid
    by (auto simp: socket_def Let_def index_ok position_Some nth_update_if split: option.splits)
next
  case (step_connect h' p)
  then show ?thesis using valid
    by (cases rule: connect_cases [of h' p t])
      (auto simp: queue_server_def server_slot_def index_ok nth_update_if)
next
  case (step_accept h')
  then show ?thesis using valid
    by (cases rule: accept_cases [of h' t]) (auto simp: index_ok nth_update_if)
next
  case (step_close h')
  show ?thesis
  proof (cases "index t h'")
    case (Inl e)
    then show ?thesis using valid step_close by (simp add: close_def)
  next
    case (Inr k)
    show ?thesis
    proof (cases "k = i")
      case True
      then have "h' = h" using Inr valid by (intro handle_unique) auto
      then show ?thesis using step_close by simp
    next
      case False
      then show ?thesis using valid step_close Inr
        by (auto simp: close_def Let_def index_ok nth_update_if split: option.splits)
    qed
  qed
qed (use valid in \<open>auto simp: bind_def listen_def send_def send_exact_def send_with_rights_def recv_def
    recv_with_rights_def take_rights_def Let_def index_ok nth_update_if
    split: sum.splits prod.splits\<close>)

lemma close_retires:
  assumes i: "index t h = Inr i"
  shows "\<not> slot_live (snd (close h t)) i \<and> slot_generation (snd (close h t)) i = unat (sh_generation h)"
proof -
  have "i < length (slots t)" "generation (slots t ! i) = sh_generation h" using i by (auto simp: index_ok)
  moreover have "generation ((slots t)[j := (slots t ! j)\<lparr>peer_of := None, peer_closed := True\<rparr>] ! i)
      = generation (slots t ! i)" for j
    using calculation by (cases "j = i") auto
  ultimately show ?thesis
    by (cases "peer_of (slots t ! i)")
      (auto simp: close_def i Let_def slot_live_def slot_generation_def slot_EMPTY_def)
qed

section \<open>A connected pair is a byte stream\<close>

definition linked :: "SocketHandle \<Rightarrow> SocketHandle \<Rightarrow> LocalSocketTable \<Rightarrow> bool" where
  "linked a b t \<longleftrightarrow> table_inv t \<and> (case (index t a, index t b) of
     (Inr i, Inr j) \<Rightarrow> peer_of (slots t ! i) = Some j
   | _ \<Rightarrow> False)"

definition inbox :: "SocketHandle \<Rightarrow> LocalSocketTable \<Rightarrow> SocketSlot" where
  "inbox b t = slots t ! unat (sh_index b)"

definition pair_ok :: "SocketHandle \<Rightarrow> SocketHandle \<Rightarrow> LocalSocketTable \<Rightarrow> bool" where
  "pair_ok a b t \<longleftrightarrow> linked a b t \<and> rights (inbox b t) = None"

definition pair_contents :: "SocketHandle \<Rightarrow> LocalSocketTable \<Rightarrow> u8 list" where
  "pair_contents b t = ring_contents (receive (inbox b t))"

definition pair_push :: "SocketHandle \<Rightarrow> u8 list \<Rightarrow> LocalSocketTable \<Rightarrow> nat \<times> LocalSocketTable" where
  "pair_push a input t = (case send a input t of
     (Inr n, t') \<Rightarrow> (n, t') | (Inl _, t') \<Rightarrow> (0, t'))"

definition pair_pop :: "SocketHandle \<Rightarrow> u8 list \<Rightarrow> LocalSocketTable \<Rightarrow> nat \<times> u8 list \<times> LocalSocketTable" where
  "pair_pop b out t = (case recv b out t of
     (Inr n, r) \<Rightarrow> (n, r) | (Inl _, r) \<Rightarrow> (0, r))"

lemma linkedE:
  assumes "linked a b t"
  obtains i j where "table_inv t" "index t a = Inr i" "index t b = Inr j" "peer_of (slots t ! i) = Some j"
    "peer_of (slots t ! j) = Some i" "state (slots t ! i) = Connected" "state (slots t ! j) = Connected"
    "\<not> peer_closed (slots t ! i)" "\<not> peer_closed (slots t ! j)" "i < length (slots t)" "j < length (slots t)"
    "i \<noteq> j" "inbox b t = slots t ! j" "inbox a t = slots t ! i"
proof -
  from assms obtain i j where ij: "table_inv t" "index t a = Inr i" "index t b = Inr j"
    "peer_of (slots t ! i) = Some j"
    by (auto simp: linked_def split: sum.splits)
  then have i: "i < length (slots t)" "inbox a t = slots t ! i" "inbox b t = slots t ! j"
    by (simp_all add: index_ok inbox_def)
  from table_inv_peer [OF ij(1) i(1) ij(4)] have j: "j < length (slots t)" "j \<noteq> i" "state (slots t ! j) = Connected"
    "peer_of (slots t ! j) = Some i" by auto
  have "state (slots t ! i) = Connected" using table_inv_unlinked [OF ij(1) i(1)] ij(4) by auto
  moreover from this have "\<not> peer_closed (slots t ! i)" "\<not> peer_closed (slots t ! j)"
    using table_inv_slot [OF ij(1) i(1)] table_inv_slot [OF ij(1) j(1)] ij(4) j by (auto simp: slot_ok_def)
  ultimately show ?thesis using that ij i j by auto
qed

lemma linked_sym: "linked a b t \<Longrightarrow> linked b a t"
  by (elim linkedE) (simp add: linked_def)

lemma linked_send_peer: "linked a b t \<Longrightarrow> \<not> refused \<Longrightarrow> send_peer a refused t = Inr (unat (sh_index b))"
  by (elim linkedE) (simp add: send_peer_def index_unat)

lemma linked_put:
  assumes "linked a b t" and inv: "table_inv (put_slot j s t)"
    and "generation s = generation (slots t ! j)" "state s = state (slots t ! j)" "peer_of s = peer_of (slots t ! j)"
  shows "linked a b (put_slot j s t)"
  using assms(1)
proof (rule linkedE)
  fix i k assume "index t a = Inr i" "index t b = Inr k" "peer_of (slots t ! i) = Some k"
  then have "index (put_slot j s t) a = Inr i" "index (put_slot j s t) b = Inr k"
    "peer_of (slots (put_slot j s t) ! i) = Some k"
    using assms(3-5) by (auto simp: index_ok nth_update_if)
  then show ?thesis using inv by (simp add: linked_def)
qed

lemma send_linked:
  assumes link: "linked a b t" and push: "ring_push input (receive (inbox b t)) = (n, r)"
  shows "send a input t = ((if n = 0 \<and> input \<noteq> [] then Inl WouldBlock else Inr n),
      put_slot (unat (sh_index b)) ((inbox b t)\<lparr>receive := r\<rparr>) t)
    \<and> linked a b (put_slot (unat (sh_index b)) ((inbox b t)\<lparr>receive := r\<rparr>) t)
    \<and> inbox b (put_slot (unat (sh_index b)) ((inbox b t)\<lparr>receive := r\<rparr>) t) = (inbox b t)\<lparr>receive := r\<rparr>"
  using link
proof (rule linkedE)
  fix i j assume inv: "table_inv t" and j: "index t b = Inr j" "j < length (slots t)" "inbox b t = slots t ! j"
    "state (slots t ! j) = Connected"
  then have sj: "unat (sh_index b) = j" by (simp add: index_ok)
  have "table_inv (put_slot j ((slots t ! j)\<lparr>receive := r\<rparr>) t)"
    using push_inv [OF inv j(2,4)] push j(3) by simp
  then have "linked a b (put_slot j ((slots t ! j)\<lparr>receive := r\<rparr>) t)" using link by (intro linked_put) simp_all
  with push j sj linked_send_peer [OF link, of False] show ?thesis
    by (simp add: send_def Let_def inbox_def)
qed

lemma recv_linked:
  assumes link: "linked a b t" and none: "rights (inbox b t) = None"
    and pop: "ring_pop out (receive (inbox b t)) = (n, out', r)"
  shows "recv b out t = ((if n = 0 \<and> out \<noteq> [] then Inl WouldBlock else Inr n), out',
      put_slot (unat (sh_index b)) ((inbox b t)\<lparr>receive := r\<rparr>) t)
    \<and> linked a b (put_slot (unat (sh_index b)) ((inbox b t)\<lparr>receive := r\<rparr>) t)
    \<and> inbox b (put_slot (unat (sh_index b)) ((inbox b t)\<lparr>receive := r\<rparr>) t) = (inbox b t)\<lparr>receive := r\<rparr>"
  using link
proof (rule linkedE)
  fix i j assume inv: "table_inv t" and j: "index t b = Inr j" "j < length (slots t)" "inbox b t = slots t ! j"
    "state (slots t ! j) = Connected" "\<not> peer_closed (slots t ! j)"
  then have sj: "unat (sh_index b) = j" by (simp add: index_ok)
  have eq: "recv b out t = ((if n = 0 \<and> out \<noteq> [] then Inl WouldBlock else Inr n), out',
      put_slot j ((slots t ! j)\<lparr>receive := r\<rparr>) t)"
    using pop none j by (simp add: recv_def Let_def)
  then have "table_inv (put_slot j ((slots t ! j)\<lparr>receive := r\<rparr>) t)"
    using recv_inv [OF inv, of b out] by simp
  then have "linked a b (put_slot j ((slots t ! j)\<lparr>receive := r\<rparr>) t)" using link by (intro linked_put) simp_all
  with eq j sj show ?thesis by (simp add: inbox_def)
qed

lemma linked_ring: "linked a b t \<Longrightarrow>
    ring_ok (receive (inbox b t)) \<and> length (ring_bytes (receive (inbox b t))) = BYTES t"
  by (elim linkedE) (simp add: table_ring)

interpretation pair: byte_stream "pair_contents b" BYTES "pair_push a" "pair_pop b" "pair_ok a b" for a b
proof
  fix t assume "pair_ok a b t"
  then show "length (pair_contents b t) \<le> BYTES t"
    using linked_ring [of a b t] by (auto simp: pair_ok_def pair_contents_def ring_ok_def)
next
  fix t input n t' assume ok: "pair_ok a b t" and push: "pair_push a input t = (n, t')"
  obtain k r where kr: "ring_push input (receive (inbox b t)) = (k, r)" by force
  from ok have l: "linked a b t" by (simp add: pair_ok_def)
  from send_linked [OF l kr] push have "n = k" "pair_ok a b t'" "receive (inbox b t') = r" "BYTES t' = BYTES t"
    using ok by (auto simp: pair_push_def pair_ok_def split: if_splits)
  with ring_push_spec [OF _ kr] linked_ring [OF l]
  show "n = min (length input) (BYTES t - length (pair_contents b t))
      \<and> pair_contents b t' = pair_contents b t @ take n input \<and> BYTES t' = BYTES t \<and> pair_ok a b t'"
    by (auto simp: pair_contents_def ring_available_def)
next
  fix t out n out' t' assume ok: "pair_ok a b t" and pop: "pair_pop b out t = (n, out', t')"
  obtain k o1 r where kr: "ring_pop out (receive (inbox b t)) = (k, o1, r)" by (metis prod_cases3)
  from ok have l: "linked a b t" "rights (inbox b t) = None" by (simp_all add: pair_ok_def)
  from recv_linked [OF l kr] pop have "n = k" "out' = o1" "pair_ok a b t'" "receive (inbox b t') = r" "BYTES t' = BYTES t"
    using ok by (auto simp: pair_pop_def pair_ok_def split: if_splits)
  with ring_pop_spec [OF _ kr] linked_ring [OF l(1)]
  show "n = min (length out) (length (pair_contents b t)) \<and> out' = take n (pair_contents b t) @ drop n out
      \<and> pair_contents b t' = drop n (pair_contents b t) \<and> BYTES t' = BYTES t \<and> pair_ok a b t'"
    by (auto simp: pair_contents_def)
qed

section \<open>An example table\<close>

text \<open>A listener on \<open>/a\<close> (slot 0) and a client (slot 1); after the connect, its server endpoint
  is slot 2.\<close>

definition sock :: "nat \<Rightarrow> SocketHandle" where
  "sock i = \<lparr>sh_index = word_of_nat i, sh_generation = 1\<rparr>"

definition example_path :: "u8 list" where
  "example_path = [0x2f, 0x61]"

definition example_listening :: LocalSocketTable where
  "example_listening = snd (socket (snd (listen (sock 0) (snd (bind (sock 0) example_path
     (snd (socket (table_new 4 2 8))))))))"

definition example_connected :: LocalSocketTable where
  "example_connected = snd (connect (sock 1) example_path example_listening)"

lemma example_listening_inv: "table_inv example_listening"
  by (simp add: example_listening_def ipc_operations_inv table_new_inv)

lemma example_connected_inv: "table_inv example_connected"
  by (simp add: example_connected_def ipc_operations_inv example_listening_inv)

lemma example_linked: "linked (sock 1) (sock 2) example_connected"
proof -
  have "(case (index example_connected (sock 1), index example_connected (sock 2)) of
     (Inr i, Inr j) \<Rightarrow> peer_of (slots example_connected ! i) = Some j | _ \<Rightarrow> False) = True"
    by code_simp
  then show ?thesis by (simp add: linked_def example_connected_inv)
qed

section \<open>Properties\<close>

text \<open>\<^bold>\<open>C4\<close>. Every table reachable from \<open>LocalSocketTable::new\<close> by any sequence of operations,
  with any arguments and any errors on the way, is well formed: rings and queues stay within
  their arrays, peer links are mutual, an endpoint lost its peer exactly when it is marked
  \<open>peer_closed\<close>, only connected endpoints hold bytes or rights, no two sockets own the same
  address, and every queued connection names a slot of the table. So no slot index the operations
  follow is out of range.\<close>

theorem reachable_tables_well_formed:
  assumes "ipc_step\<^sup>*\<^sup>* (table_new sockets backlog bytes) t"
  shows "table_inv t \<and> length (slots t) = sockets \<and> BACKLOG t = backlog \<and> BYTES t = bytes"
proof -
  have "length (slots t) = sockets \<and> BACKLOG t = backlog \<and> BYTES t = bytes"
    using assms
    by (induction rule: rtranclp_induct) (auto simp: table_new_def ages_def dest!: ipc_step_ages)
  with ipc_steps_inv [OF assms table_new_inv] show ?thesis by blast
qed

theorem reachable_tables_well_formed_witness:
  "table_inv (snd (socket (table_new 2 1 4))) \<and> length (slots (snd (socket (table_new 2 1 4)))) = 2"
  using reachable_tables_well_formed [of 2 1 4 "snd (socket (table_new 2 1 4))"] step_socket [of "table_new 2 1 4"]
  by blast

text \<open>\<^bold>\<open>C5\<close>. Once a handle is closed it never resolves again: after any further operations,
  including ones that reuse its slot, every lookup of it is \<open>InvalidHandle\<close>.\<close>

theorem closed_handle_never_resolves:
  assumes "index t h = Inr i" and "ipc_step\<^sup>*\<^sup>* (snd (close h t)) t'"
  shows "index t' h = Inl InvalidHandle"
proof -
  have "\<not> (slot_live t' i \<and> slot_generation t' i = unat (sh_generation h))"
    using sockets.retired_never_resolves [OF assms(2)] close_retires [OF assms(1)] by auto
  moreover have "unat (sh_index h) = i" using assms(1) by (rule index_unat)
  ultimately have "\<not> (\<exists>j. index t' h = Inr j)"
    by (auto simp: index_ok slot_live_def slot_generation_def)
  then show ?thesis using index_error by (cases "index t' h") auto
qed

theorem closed_handle_never_resolves_witness:
  "index example_connected (sock 1) = Inr 1
   \<and> index (snd (socket (snd (close (sock 1) example_connected)))) (sock 1) = Inl InvalidHandle"
proof -
  have "index example_connected (sock 1) = Inr 1" by code_simp
  from this closed_handle_never_resolves [OF this r_into_rtranclp [where r = ipc_step, OF step_socket]] show ?thesis by blast
qed

text \<open>Only its own close invalidates a handle: an operation on any other handle, and any
  other operation on this one, leaves a live handle resolving to the same slot.\<close>

lemma only_close_invalidates_a_handle:
  assumes "index t h = Inr i" and "ipc_step t t'" and "t' \<noteq> snd (close h t)"
  shows "index t' h = Inr i"
  using ipc_step_keeps_handle [OF assms(2,1)] assms(3) by blast

text \<open>\<^bold>\<open>C6\<close>. A connected pair with no transferred right pending at its receiving end is a reliable stream: over any interleaving of \<open>send\<close> on one end and
  \<open>recv\<close> on the other, the bytes delivered so far followed by the bytes still buffered are
  exactly the bytes buffered at the start followed by the bytes accepted, in order; nothing is
  lost, repeated or reordered, and the pair stays connected.\<close>

theorem connected_pair_is_fifo:
  assumes "linked a b t" and "rights (inbox b t) = None"
    and "stream_run (pair_push a) (pair_pop b) events t = (accepted, delivered, t')"
  shows "delivered @ pair_contents b t' = pair_contents b t @ accepted \<and> linked a b t'"
proof -
  have "pair_ok a b t" using assms(1,2) by (simp add: pair_ok_def)
  from pair.run_fifo [OF this assms(3)] show ?thesis by (simp add: pair_ok_def)
qed

theorem connected_pair_is_fifo_witness:
  "stream_run (pair_push (sock 1)) (pair_pop (sock 2))
     [Push [1, 2, 3], Pop [0, 0], Push [4, 5, 6, 7, 8, 9, 10, 11, 12], Pop (replicate 8 0)] example_connected
   = ([1, 2, 3, 4, 5, 6, 7, 8, 9, 10], [1, 2, 3, 4, 5, 6, 7, 8, 9, 10],
      snd (snd (stream_run (pair_push (sock 1)) (pair_pop (sock 2))
     [Push [1, 2, 3], Pop [0, 0], Push [4, 5, 6, 7, 8, 9, 10, 11, 12], Pop (replicate 8 0)] example_connected)))
   \<and> pair_contents (sock 2) (snd (snd (stream_run (pair_push (sock 1)) (pair_pop (sock 2))
     [Push [1, 2, 3], Pop [0, 0], Push [4, 5, 6, 7, 8, 9, 10, 11, 12], Pop (replicate 8 0)] example_connected))) = []"
proof -
  let ?run = "stream_run (pair_push (sock 1)) (pair_pop (sock 2))
     [Push [1, 2, 3], Pop [0, 0], Push [4, 5, 6, 7, 8, 9, 10, 11, 12], Pop (replicate 8 0)] example_connected"
  have none: "rights (inbox (sock 2) example_connected) = None" by code_simp
  have empty: "pair_contents (sock 2) example_connected = []" by code_simp
  have "fst ?run = [1, 2, 3, 4, 5, 6, 7, 8, 9, 10] \<and> fst (snd ?run) = [1, 2, 3, 4, 5, 6, 7, 8, 9, 10]"
    by code_simp
  then have run: "?run = ([1, 2, 3, 4, 5, 6, 7, 8, 9, 10], [1, 2, 3, 4, 5, 6, 7, 8, 9, 10], snd (snd ?run))"
    by (metis prod.collapse)
  from connected_pair_is_fifo [OF example_linked none run] run empty show ?thesis by simp
qed

text \<open>\<open>send_exact\<close> is all or nothing: it either accepts the whole input, which then stands at
  the end of the peer's receive queue, or fails and leaves the table as it was.\<close>

lemma send_exact_all_or_nothing:
  assumes "table_inv t" and "send_exact h input t = (result, t')"
  shows "(\<exists>e. result = Inl e \<and> t' = t) \<or>
    (\<exists>j. send_peer h False t = Inr j \<and> result = Inr (length input)
      \<and> ring_contents (receive (slots t' ! j)) = ring_contents (receive (slots t ! j)) @ input
      \<and> (\<forall>k. k \<noteq> j \<longrightarrow> slots t' ! k = slots t ! k))"
proof (cases "send_peer h False t")
  case (Inl e)
  with assms(2) have "result = Inl e \<and> t' = t" by (auto simp: send_exact_def)
  then show ?thesis by blast
next
  case (Inr j)
  from send_peerD [OF assms(1) Inr] have j: "j < length (slots t)" by auto
  obtain n r where push: "ring_push input (receive (slots t ! j)) = (n, r)" by force
  from ring_push_spec [OF _ push] table_ring [OF assms(1) j]
  have "n = min (length input) (ring_available (receive (slots t ! j)))"
    "ring_contents r = ring_contents (receive (slots t ! j)) @ take n input" by auto
  with assms(2) Inr j push show ?thesis
    by (auto simp: send_exact_def split: if_splits)
qed

text \<open>Ancillary rights travel with the first byte of their batch and are delivered exactly
  once. After \<open>send_with_rights\<close> succeeded, plain \<open>recv\<close> refuses to consume the batch, a second
  batch with rights has to wait, the next \<open>recv_with_rights\<close> with a non-empty buffer returns the
  rights together with a prefix of the batch, and none are left behind.\<close>

lemma rights_delivered_once_with_first_byte:
  assumes link: "linked a b t" and sent: "send_with_rights a input ar t = (Inr n, t1)" and "out \<noteq> []"
  shows "n = length input \<and> linked a b t1
    \<and> recv b out t1 = (Inl InvalidState, out, t1)
    \<and> (\<forall>input' ar'. input' \<noteq> [] \<longrightarrow> send_with_rights a input' ar' t1 = (Inl WouldBlock, t1))
    \<and> (\<exists>k out' t2. recv_with_rights b out t1 = (Inr (k, Some ar), out', t2)
         \<and> k = min (length out) (length input) \<and> take k out' = take k input
         \<and> rights (inbox b t2) = None \<and> pair_contents b t2 = drop k input)"
  using link
proof (rule linkedE)
  fix i j
  assume inv: "table_inv t" and j: "index t b = Inr j" "j < length (slots t)" "inbox b t = slots t ! j"
    "state (slots t ! j) = Connected" "\<not> peer_closed (slots t ! j)"
  from sent have ne: "input \<noteq> []"
    by (auto simp: send_with_rights_def send_peer_def result_simps split: sum.splits prod.splits if_splits)
  then have sp: "send_peer a (input = []) t = Inr j"
    using linked_send_peer [OF link, of "input = []"] j(1) by (simp add: index_unat)
  obtain m r where push: "ring_push input (receive (slots t ! j)) = (m, r)" by force
  let ?s = "(slots t ! j)\<lparr>receive := r, rights := Some ar\<rparr>"
  from sent sp push ne have empty: "ring_length (receive (slots t ! j)) = 0"
    and m: "m = length input" "n = m" and t1: "t1 = put_slot j ?s t"
    by (auto simp: send_with_rights_def Let_def split: if_splits)
  from ring_push_spec [OF _ push] table_ring [OF inv j(2)] empty m
  have r: "ring_ok r" "ring_contents r = input" "ring_length r = length input"
    by (auto simp: ring_contents_def)
  have inv1: "table_inv t1" using send_with_rights_inv [OF inv, of a input ar] sent by simp
  have link1: "linked a b t1" using link inv1 unfolding t1 by (intro linked_put) simp_all
  have idx: "index t1 b = Inr j" using j by (auto simp: t1 index_ok)
  have sj: "slots t1 ! j = ?s" using j by (simp add: t1)
  have "recv b out t1 = (Inl InvalidState, out, t1)" using idx sj j by (simp add: recv_def)
  moreover have "send_with_rights a input' ar' t1 = (Inl WouldBlock, t1)" if "input' \<noteq> []" for input' ar'
    using that linked_send_peer [OF link1, of "input' = []"] idx sj by (simp add: send_with_rights_def index_unat)
  moreover obtain k out' r' where pop: "ring_pop out r = (k, out', r')" by (metis prod_cases3)
  from ring_pop_spec [OF r(1) pop] r
  have k: "k = min (length out) (length input)" "take k out' = take k input" "ring_contents r' = drop k input"
    by auto
  moreover have "k \<noteq> 0" using k ne \<open>out \<noteq> []\<close> by simp
  moreover from this have "recv_with_rights b out t1
      = (Inr (k, Some ar), out', put_slot j (?s\<lparr>receive := r', rights := None\<rparr>) t1)"
    using idx sj j pop by (simp add: recv_with_rights_def Let_def)
  moreover have "inbox b (put_slot j (?s\<lparr>receive := r', rights := None\<rparr>) t1) = ?s\<lparr>receive := r', rights := None\<rparr>"
    using idx by (simp add: inbox_def index_ok)
  ultimately show ?thesis using m link1 by (simp add: pair_contents_def)
qed

text \<open>End of stream: after one end is closed, the other keeps every buffered byte, its sends
  fail with \<open>BrokenPipe\<close> and change nothing, and its \<open>recv\<close> never blocks: it drains the buffer and
  then reports zero bytes.\<close>

lemma close_is_end_of_stream:
  assumes link: "linked a b t" and none: "rights (inbox b t) = None"
  shows "(let t1 = snd (close a t) in
     fst (close a t) = Inr () \<and> pair_contents b t1 = pair_contents b t
     \<and> send b input t1 = (Inl BrokenPipe, t1)
     \<and> (\<exists>out' t2. recv b out t1 = (Inr (min (length out) (length (pair_contents b t))), out', t2)
          \<and> take (length out) (pair_contents b t) = take (length (pair_contents b t)) out'
          \<and> pair_contents b t2 = drop (length out) (pair_contents b t)))"
  using link
proof (rule linkedE)
  fix i j
  assume inv: "table_inv t" and i: "index t a = Inr i" "i < length (slots t)" "i \<noteq> j" "peer_of (slots t ! i) = Some j"
    and j: "index t b = Inr j" "j < length (slots t)" "inbox b t = slots t ! j" "state (slots t ! j) = Connected"
  let ?s = "(slots t ! j)\<lparr>peer_of := None, peer_closed := True\<rparr>"
  let ?t1 = "snd (close a t)"
  have c: "fst (close a t) = Inr ()" using i by (simp add: close_def Let_def)
  have t1: "slots ?t1 ! j = ?s" "length (slots ?t1) = length (slots t)"
    using i j by (simp_all add: close_def Let_def)
  have idx: "index ?t1 b = Inr j" using j t1 by (auto simp: index_ok)
  have box: "inbox b ?t1 = ?s" using idx t1 by (simp add: inbox_def index_ok)
  have "send b input ?t1 = (Inl BrokenPipe, ?t1)" using idx t1 j by (simp add: send_def send_peer_def)
  moreover obtain k out' r where pop: "ring_pop out (receive (slots t ! j)) = (k, out', r)" by (metis prod_cases3)
  from ring_pop_spec [OF _ pop] table_ring [OF inv j(2)]
  have k: "k = min (length out) (ring_length (receive (slots t ! j)))"
    "out' = take k (ring_contents (receive (slots t ! j))) @ drop k out"
    "ring_contents r = drop k (ring_contents (receive (slots t ! j)))" by auto
  moreover have "recv b out ?t1 = (Inr k, out', put_slot j (?s\<lparr>receive := r\<rparr>) ?t1)"
    using idx t1 j pop none by (simp add: recv_def Let_def)
  moreover have "pair_contents b (put_slot j (?s\<lparr>receive := r\<rparr>) ?t1) = ring_contents r"
    using idx by (simp add: pair_contents_def inbox_def index_ok)
  ultimately show ?thesis using c box j by (auto simp: Let_def pair_contents_def min_def)
qed

section \<open>The order of accepted connections\<close>

fun connect_all :: "SocketHandle list \<Rightarrow> u8 list \<Rightarrow> LocalSocketTable \<Rightarrow> LocalSocketTable option" where
  "connect_all [] p t = Some t"
| "connect_all (c # cs) p t = (case connect c p t of
     (Inr _, t') \<Rightarrow> connect_all cs p t' | (Inl _, _) \<Rightarrow> None)"

fun accept_all :: "nat \<Rightarrow> SocketHandle \<Rightarrow> LocalSocketTable \<Rightarrow> (SocketHandle list \<times> LocalSocketTable) option" where
  "accept_all 0 l t = Some ([], t)"
| "accept_all (Suc n) l t = (case accept l t of
     (Inr h, t') \<Rightarrow> map_option (\<lambda>(hs, u). (h # hs, u)) (accept_all n l t') | (Inl _, _) \<Rightarrow> None)"

text \<open>The client \<open>c\<close> waits behind the server endpoint in slot \<open>s\<close>.\<close>

definition waits :: "LocalSocketTable \<Rightarrow> nat \<times> SocketHandle \<Rightarrow> bool" where
  "waits t = (\<lambda>(s, c). s < length (slots t) \<and>
     (\<exists>i. index t c = Inr i \<and> peer_of (slots t ! s) = Some i))"

definition queue_of :: "LocalSocketTable \<Rightarrow> SocketHandle \<Rightarrow> u8 list \<Rightarrow> (nat \<times> SocketHandle) list \<Rightarrow> bool" where
  "queue_of t l p q \<longleftrightarrow> table_inv t \<and> (\<exists>i. index t l = Inr i \<and> state (slots t ! i) = Listening
     \<and> bound_path (slots t ! i) = p \<and> pending_queue (slots t ! i) = map (Some \<circ> fst) q)
     \<and> (\<forall>w\<in>set q. waits t w)"

lemma waits_state: "table_inv t \<Longrightarrow> waits t (s, c) \<Longrightarrow> state (slots t ! s) = Connected"
  using table_inv_unlinked [of t s] unfolding waits_def by fastforce

lemma pending_queue_server:
  assumes "table_inv t" and "i < length (slots t)" and "pending_length (slots t ! i) \<noteq> BACKLOG t"
  shows "pending_queue (queue_server t server (slots t ! i)) = pending_queue (slots t ! i) @ [Some server]"
  using table_inv_slot [OF assms(1,2)] assms(3) unfolding queue_server_def
  by (intro pending_push) (auto simp: slot_ok_def)

lemma connect_queues:
  assumes q: "queue_of t l p q" and ok: "connect c p t = (Inr u, t')"
  shows "\<exists>s. queue_of t' l p (q @ [(s, c)])"
proof (cases rule: connect_cases [of c p t])
  case (error e)
  then show ?thesis using ok by simp
next
  case (ok client listener server gen)
  from q obtain i where inv: "table_inv t" and i: "index t l = Inr i" "state (slots t ! i) = Listening"
    "bound_path (slots t ! i) = p" "pending_queue (slots t ! i) = map (Some \<circ> fst) q"
    and w: "\<forall>x\<in>set q. waits t x" by (auto simp: queue_of_def)
  have il: "listener = i"
    using inv i ok(4-6) by (auto simp: table_inv_def addresses_ok_def has_address_def index_ok)
  have t': "t' = snd (connect c p t)" using assms(2) by simp
  then have inv': "table_inv t'" using inv connect_inv by simp
  have s': "slots t' = (slots t)[server := server_slot t gen client,
      client := (slots t ! client)\<lparr>state := Connected, peer_of := Some server\<rparr>,
      i := queue_server t server (slots t ! i)]"
    unfolding t' ok(1) il by simp
  have "index t' l = Inr i" "state (slots t' ! i) = Listening" "bound_path (slots t' ! i) = p"
    using i ok(8-12) il by (auto simp: s' index_ok queue_server_def)
  moreover have "pending_queue (slots t' ! i) = map (Some \<circ> fst) (q @ [(server, c)])"
    using pending_queue_server [OF inv, of i server] i ok(4,7) il by (simp add: s')
  moreover have "waits t' (server, c)"
    using ok(2,8,10,11,12) il by (auto simp: waits_def s' index_ok server_slot_def)
  moreover have "waits t' x" if "x \<in> set q" for x
  proof -
    obtain s d where x: "x = (s, d)" by force
    then have "waits t (s, d)" "state (slots t ! s) = Connected"
      using that w waits_state [OF inv] by auto
    then show ?thesis unfolding x
      using ok(2,3,8,9,10,11,12) i il by (auto simp: waits_def s' index_ok queue_server_def nth_update_if)
  qed
  ultimately show ?thesis using inv' unfolding queue_of_def by (intro exI [of _ server]) auto
qed

lemma connect_all_queues:
  "queue_of t l p q \<Longrightarrow> connect_all cs p t = Some t' \<Longrightarrow>
     \<exists>q'. queue_of t' l p (q @ q') \<and> map snd q' = cs"
proof (induction cs arbitrary: t q)
  case Nil
  then show ?case by auto
next
  case (Cons c cs)
  from Cons.prems(2) obtain u t1 where c: "connect c p t = (Inr u, t1)" "connect_all cs p t1 = Some t'"
    by (auto split: prod.splits sum.splits)
  obtain s where "queue_of t1 l p (q @ [(s, c)])" using connect_queues [OF Cons.prems(1) c(1)] by blast
  from Cons.IH [OF this c(2)] obtain q' where "queue_of t' l p ((q @ [(s, c)]) @ q')" "map snd q' = cs" by blast
  then show ?case by (intro exI [of _ "(s, c) # q'"]) simp
qed

lemma connect_all_length: "connect_all cs p t = Some t' \<Longrightarrow> length (slots t') = length (slots t)"
proof (induction cs arbitrary: t)
  case (Cons c cs)
  then obtain u t1 where "connect c p t = (Inr u, t1)" "connect_all cs p t1 = Some t'"
    by (auto split: prod.splits sum.splits)
  with Cons.IH ipc_step_ages [OF step_connect [of t c p]] show ?case by (simp add: ages_def)
qed simp

lemma accept_dequeues:
  assumes q: "queue_of t l p ((s, c) # q)" and small: "length (slots t) \<le> 2 ^ 16"
  shows "\<exists>h t'. accept l t = (Inr h, t') \<and> queue_of t' l p q \<and> length (slots t') = length (slots t)
    \<and> peer h t' = Inr c \<and> (\<forall>h' c'. peer h' t = Inr c' \<longrightarrow> peer h' t' = Inr c')"
proof -
  from q obtain i where inv: "table_inv t" and i: "index t l = Inr i" "state (slots t ! i) = Listening"
    "bound_path (slots t ! i) = p" "pending_queue (slots t ! i) = Some s # map (Some \<circ> fst) q"
    and w: "\<forall>x\<in>set q. waits t x" "waits t (s, c)" by (auto simp: queue_of_def)
  have ne: "pending_length (slots t ! i) \<noteq> 0" using i(4) by (intro notI) (simp add: pending_queue_def)
  let ?l = "(slots t ! i)\<lparr>pending := (pending (slots t ! i))[pending_head (slots t ! i) := None],
         pending_head := (pending_head (slots t ! i) + 1) mod BACKLOG t,
         pending_length := pending_length (slots t ! i) - 1\<rparr>"
  have head: "pending (slots t ! i) ! pending_head (slots t ! i) = Some s"
    and rest: "pending_queue ?l = map (Some \<circ> fst) q"
    using accept_queue [OF inv i(1) ne] i(4) by auto
  let ?t = "put_slot i ?l t"
  have acc: "accept l t = (slot_handle (slots ?t ! s) s, ?t)"
    using i(1,2) ne head by (simp add: accept_def Let_def)
  have inv': "table_inv ?t" using accept_inv [OF inv, of l] acc by simp
  have same: "index ?t h' = index t h'" for h'
    using i by (auto simp: index_def Let_def nth_update_if index_ok)
  from w(2) obtain ci where ci: "index t c = Inr ci" "peer_of (slots t ! s) = Some ci" "s < length (slots t)"
    by (auto simp: waits_def)
  have st: "state (slots t ! s) = Connected" using waits_state [OF inv w(2)] .
  then have si: "s \<noteq> i" using i(2) by auto
  have cl: "\<not> peer_closed (slots t ! s)" using table_inv_slot [OF inv ci(3)] ci st by (auto simp: slot_ok_def)
  have s16: "s < 2 ^ 16" using ci(3) small by simp
  then have h: "slot_handle (slots ?t ! s) s = Inr \<lparr>sh_index = word_of_nat s, sh_generation = generation (slots t ! s)\<rparr>"
    using si by (simp add: slot_handle_def)
  let ?h = "\<lparr>sh_index = word_of_nat s, sh_generation = generation (slots t ! s)\<rparr> :: SocketHandle"
  have hi: "index t ?h = Inr s" using ci(3) st s16 by (auto simp: index_ok unat_of_nat take_bit_nat_eq_self)
  have fields: "state (slots ?t ! k) = state (slots t ! k)" "peer_of (slots ?t ! k) = peer_of (slots t ! k)"
    "peer_closed (slots ?t ! k) = peer_closed (slots t ! k)"
    "generation (slots ?t ! k) = generation (slots t ! k)" for k
    using i(1) by (cases "k = i"; simp add: index_ok)+
  have peers: "peer h' ?t = peer h' t" for h'
    unfolding peer_def same Let_def slot_handle_def fields ..
  have "slot_handle (slots t ! ci) ci = Inr c"
    using ci(1) small by (cases c) (auto simp: index_ok slot_handle_def)
  then have "peer ?h t = Inr c" using hi ci st cl by (simp add: peer_def)
  moreover have "queue_of ?t l p q"
    using inv' i rest w(1) same by (auto simp: queue_of_def index_ok waits_def nth_update_if split: prod.splits)
  ultimately have "peer ?h ?t = Inr c \<and> queue_of ?t l p q \<and> (\<forall>h' c'. peer h' t = Inr c' \<longrightarrow> peer h' ?t = Inr c')"
    unfolding peers by blast
  moreover have "length (slots ?t) = length (slots t)" by simp
  ultimately show ?thesis unfolding acc h by blast
qed

lemma accept_all_dequeues:
  "queue_of t l p q \<Longrightarrow> length (slots t) \<le> 2 ^ 16 \<Longrightarrow>
     \<exists>hs t'. accept_all (length q) l t = Some (hs, t') \<and> map (\<lambda>h. peer h t') hs = map (Inr \<circ> snd) q
       \<and> (\<forall>h c. peer h t = Inr c \<longrightarrow> peer h t' = Inr c)"
proof (induction q arbitrary: t)
  case Nil
  then show ?case by auto
next
  case (Cons w q)
  obtain s c where w: "w = (s, c)" by force
  obtain h t1 where 1: "accept l t = (Inr h, t1)" "queue_of t1 l p q" "length (slots t1) = length (slots t)"
    "peer h t1 = Inr c" "\<forall>h' c'. peer h' t = Inr c' \<longrightarrow> peer h' t1 = Inr c'"
    using accept_dequeues Cons.prems unfolding w by blast
  from Cons.IH [OF 1(2)] 1(3) Cons.prems(2) obtain hs t' where
    "accept_all (length q) l t1 = Some (hs, t')" "map (\<lambda>h. peer h t') hs = map (Inr \<circ> snd) q"
    "\<forall>h c. peer h t1 = Inr c \<longrightarrow> peer h t' = Inr c" by auto
  then show ?case using 1 by (intro exI [of _ "h # hs"] exI [of _ t']) (simp add: w)
qed

text \<open>Connections are accepted in the order they were made: when a listener has an empty
  queue and a sequence of clients connects to its address, accepting as many times succeeds every
  time, and the endpoint the k-th accept returns has the k-th client as its peer.\<close>

lemma connections_accepted_in_order:
  assumes "table_inv t" and "length (slots t) \<le> 2 ^ 16"
    and "index t l = Inr i" and "state (slots t ! i) = Listening" and "pending_length (slots t ! i) = 0"
    and "connect_all clients (bound_path (slots t ! i)) t = Some t1"
  shows "\<exists>servers t2. accept_all (length clients) l t1 = Some (servers, t2)
    \<and> map (\<lambda>h. peer h t2) servers = map Inr clients"
proof -
  have "queue_of t l (bound_path (slots t ! i)) []"
    using assms by (auto simp: queue_of_def pending_queue_def)
  from connect_all_queues [OF this assms(6)] obtain q where
    q: "queue_of t1 l (bound_path (slots t ! i)) q" "map snd q = clients" by auto
  have len: "length (slots t1) = length (slots t)" using assms(6) by (rule connect_all_length)
  from accept_all_dequeues [OF q(1)] len assms(2) q(2) show ?thesis
    by (metis (no_types, lifting) length_map map_map)
qed

end
