(* ===== verification/Vfs.thy ===== *)
theory Vfs
  imports Slop_Prelude
begin

text \<open>
  The virtual file system layer of \<open>crates/vfs/src/lib.rs\<close>: parsing and normalising absolute
  paths, the mount table with its longest-prefix resolution, and the per-process table of open
  descriptors. The const generic \<open>N\<close> of the two tables is the length of their slot list.
\<close>

section \<open>Errors and constants\<close>

definition MAX_PATH_COMPONENTS :: nat where "MAX_PATH_COMPONENTS = 16"
definition MAX_MOUNT_PATH_BYTES :: nat where "MAX_MOUNT_PATH_BYTES = 256"
definition FIRST_FILE_DESCRIPTOR :: u32 where "FIRST_FILE_DESCRIPTOR = 3"

datatype VfsError =
    InvalidPath
  | TooManyComponents
  | MountPathTooLong
  | MountTableFull
  | DuplicateMount
  | MountNotFound
  | FileTableFull
  | BadFileDescriptor
  | InvalidOffset
  | NotReadable
  | NotWritable

section \<open>Absolute paths\<close>

record AbsolutePath =
  ap_array :: "u8 list list"
  component_count :: nat

definition components :: "AbsolutePath \<Rightarrow> u8 list list" where
  "components p = take (component_count p) (ap_array p)"

text \<open>\<open>slice::split\<close>: the pieces between the separators, empty ones included.\<close>

fun split_on :: "('a \<Rightarrow> bool) \<Rightarrow> 'a list \<Rightarrow> 'a list list" where
  "split_on p [] = [[]]"
| "split_on p (x # xs) =
     (if p x then [] # split_on p xs
      else case split_on p xs of [] \<Rightarrow> [[x]] | y # ys \<Rightarrow> (x # y) # ys)"

definition parse_component :: "u8 list \<Rightarrow> u8 list list \<times> nat \<Rightarrow> VfsError + u8 list list \<times> nat" where
  "parse_component c = (\<lambda>(array, count).
     if c = [] \<or> c = [0x2e] then Inr (array, count)
     else if c = [0x2e, 0x2e] then Inr (array, count - 1)
     else if 255 < length c then Inl InvalidPath
     else if count = MAX_PATH_COMPONENTS then Inl TooManyComponents
     else Inr (array[count := c], count + 1))"

definition parse :: "u8 list \<Rightarrow> VfsError + AbsolutePath" where
  "parse path =
    (if get_at path 0 \<noteq> Some 0x2f \<or> 0 \<in> set path then Inl InvalidPath
     else rbind (fold_result parse_component (split_on (\<lambda>b. b = 0x2f) path)
                  (replicate MAX_PATH_COMPONENTS [], 0))
            (\<lambda>(array, count). Inr \<lparr>ap_array = array, component_count = count\<rparr>))"

section \<open>The mount table\<close>

record MountEntry =
  me_path :: "u8 list"
  me_path_length :: nat
  me_component_count :: nat
  me_filesystem_id :: u16

record MountTable =
  entries :: "MountEntry option list"
  mount_count :: nat

record MountResolution =
  mr_filesystem_id :: u16
  matched_components :: nat

definition MountTable_new :: "nat \<Rightarrow> MountTable" where
  "MountTable_new n = \<lparr>entries = replicate n None, mount_count = 0\<rparr>"

definition canonical_step :: "nat \<times> u8 list \<Rightarrow> u8 list \<times> nat \<Rightarrow> VfsError + u8 list \<times> nat" where
  "canonical_step = (\<lambda>(i, c) (out, len).
     rbind (if i = 0 then Inr (out, len)
            else if len = length out then Inl MountPathTooLong
            else Inr (out[len := 0x2f], len + 1)) (\<lambda>(out, len).
     rbind (ok_or MountPathTooLong (usize_add len (length c))) (\<lambda>fin.
     if length out < fin then Inl MountPathTooLong else Inr (copy_at out len c, fin))))"

definition canonical_path :: "AbsolutePath \<Rightarrow> VfsError + u8 list \<times> nat" where
  "canonical_path p =
     fold_result canonical_step (enumerate 0 (components p))
       ((replicate MAX_MOUNT_PATH_BYTES 0)[0 := 0x2f], 1)"

text \<open>The comparison loop: the next cursor, or nothing where the code returns \<open>false\<close>.\<close>

definition match_step :: "MountEntry \<Rightarrow> nat \<times> u8 list \<Rightarrow> nat \<Rightarrow> unit + nat" where
  "match_step e = (\<lambda>(i, c) cursor.
     rbind (if i = 0 then Inr cursor
            else if get_at (me_path e) cursor \<noteq> Some 0x2f then Inl ()
            else Inr (cursor + 1)) (\<lambda>cursor.
     let fin = cursor + length c in
     if me_path_length e < fin \<or> take (length c) (drop cursor (me_path e)) \<noteq> c then Inl ()
     else Inr fin))"

definition mount_matches :: "MountEntry \<Rightarrow> AbsolutePath \<Rightarrow> bool" where
  "mount_matches e p =
    (if me_component_count e = 0 then me_path_length e = 1 \<and> me_path e ! 0 = 0x2f
     else fold_result (match_step e) (enumerate 0 (take (me_component_count e) (components p))) 1
            = Inr (me_path_length e))"

definition flatten :: "'a option list \<Rightarrow> 'a list" where
  "flatten xs = concat (map (\<lambda>x. case x of None \<Rightarrow> [] | Some y \<Rightarrow> [y]) xs)"

definition mount :: "AbsolutePath \<Rightarrow> u16 \<Rightarrow> MountTable \<Rightarrow> (VfsError + unit) \<times> MountTable" where
  "mount p fs t =
    (case canonical_path p of
       Inl e \<Rightarrow> (Inl e, t)
     | Inr (canonical, len) \<Rightarrow>
         if \<exists>e\<in>set (flatten (entries t)). take (me_path_length e) (me_path e) = take len canonical
         then (Inl DuplicateMount, t)
         else case position (\<lambda>e. e = None) (entries t) of
           None \<Rightarrow> (Inl MountTableFull, t)
         | Some slot \<Rightarrow>
             (Inr (), t\<lparr>entries := (entries t)[slot := Some \<lparr>me_path = canonical, me_path_length = len,
                          me_component_count = component_count p, me_filesystem_id = fs\<rparr>],
                        mount_count := mount_count t + 1\<rparr>))"

text \<open>\<open>Iterator::max_by_key\<close>: of several maximal elements the last.\<close>

fun max_by_key :: "('a \<Rightarrow> nat) \<Rightarrow> 'a list \<Rightarrow> 'a option" where
  "max_by_key f [] = None"
| "max_by_key f (x # xs) = (case max_by_key f xs of
     None \<Rightarrow> Some x | Some y \<Rightarrow> if f x \<le> f y then Some y else Some x)"

definition resolve :: "AbsolutePath \<Rightarrow> MountTable \<Rightarrow> VfsError + MountResolution" where
  "resolve p t =
     ok_or MountNotFound (map_option
       (\<lambda>e. \<lparr>mr_filesystem_id = me_filesystem_id e, matched_components = me_component_count e\<rparr>)
       (max_by_key me_component_count
         (filter (\<lambda>e. mount_matches e p)
           (filter (\<lambda>e. me_component_count e \<le> component_count p) (flatten (entries t))))))"

section \<open>File descriptors\<close>

record FileNode =
  fn_filesystem_id :: u16
  node_id :: u64
  node_size :: u64

datatype DescriptorObject =
    File FileNode
  | LocalSocket u16 u16
  | SharedMemory u16 u16
  | DesktopEvents

datatype AccessMode = ReadOnly | WriteOnly | ReadWrite

definition mode_readable :: "AccessMode \<Rightarrow> bool" where
  "mode_readable m \<longleftrightarrow> m = ReadOnly \<or> m = ReadWrite"

definition mode_writable :: "AccessMode \<Rightarrow> bool" where
  "mode_writable m \<longleftrightarrow> m = WriteOnly \<or> m = ReadWrite"

record Descriptor =
  d_object :: DescriptorObject
  d_offset :: u64
  d_access_mode :: AccessMode
  d_open :: bool

definition Descriptor_EMPTY :: Descriptor where
  "Descriptor_EMPTY = \<lparr>d_object = File \<lparr>fn_filesystem_id = 0, node_id = 0, node_size = 0\<rparr>,
     d_offset = 0, d_access_mode = ReadOnly, d_open = False\<rparr>"

record FileDescriptorTable =
  descriptors :: "Descriptor list"

record ReadWindow =
  rw_node :: FileNode
  rw_offset :: u64
  rw_length :: nat

record WriteWindow =
  ww_node :: FileNode
  ww_offset :: u64
  ww_length :: nat

definition FileDescriptorTable_new :: "nat \<Rightarrow> FileDescriptorTable" where
  "FileDescriptorTable_new n = \<lparr>descriptors = replicate n Descriptor_EMPTY\<rparr>"

definition descriptor_index :: "u32 \<Rightarrow> VfsError + nat" where
  "descriptor_index fd =
     rbind (ok_or BadFileDescriptor (checked_sub fd FIRST_FILE_DESCRIPTOR)) (\<lambda>i. Inr (unat i))"

text \<open>The index of an open descriptor: what \<open>descriptor\<close> and \<open>descriptor_mut\<close> look up.\<close>

definition descriptor :: "u32 \<Rightarrow> FileDescriptorTable \<Rightarrow> VfsError + nat" where
  "descriptor fd t = rbind (descriptor_index fd) (\<lambda>i.
     if i < length (descriptors t) \<and> d_open (descriptors t ! i) then Inr i else Inl BadFileDescriptor)"

definition put_descriptor :: "nat \<Rightarrow> Descriptor \<Rightarrow> FileDescriptorTable \<Rightarrow> FileDescriptorTable" where
  "put_descriptor i d t = t\<lparr>descriptors := (descriptors t)[i := d]\<rparr>"

definition open_object ::
  "DescriptorObject \<Rightarrow> AccessMode \<Rightarrow> FileDescriptorTable \<Rightarrow> (VfsError + u32) \<times> FileDescriptorTable" where
  "open_object obj mode t =
    (case position (\<lambda>d. \<not> d_open d) (descriptors t) of
       None \<Rightarrow> (Inl FileTableFull, t)
     | Some i \<Rightarrow>
         if 2 ^ 32 \<le> i then (Inl FileTableFull, t)
         else case checked_add FIRST_FILE_DESCRIPTOR (word_of_nat i) of
           None \<Rightarrow> (Inl FileTableFull, t)
         | Some fd \<Rightarrow> (Inr fd, put_descriptor i
             \<lparr>d_object = obj, d_offset = 0, d_access_mode = mode, d_open = True\<rparr> t))"

definition open_with_mode ::
  "FileNode \<Rightarrow> AccessMode \<Rightarrow> FileDescriptorTable \<Rightarrow> (VfsError + u32) \<times> FileDescriptorTable" where
  "open_with_mode node mode t = open_object (File node) mode t"

definition fd_open :: "FileNode \<Rightarrow> FileDescriptorTable \<Rightarrow> (VfsError + u32) \<times> FileDescriptorTable" where
  "fd_open node t = open_with_mode node ReadOnly t"

definition open_local_socket ::
  "u16 \<Rightarrow> u16 \<Rightarrow> FileDescriptorTable \<Rightarrow> (VfsError + u32) \<times> FileDescriptorTable" where
  "open_local_socket i g t = open_object (LocalSocket i g) ReadWrite t"

definition open_shared_memory ::
  "u16 \<Rightarrow> u16 \<Rightarrow> FileDescriptorTable \<Rightarrow> (VfsError + u32) \<times> FileDescriptorTable" where
  "open_shared_memory i g t = open_object (SharedMemory i g) ReadWrite t"

definition open_shared_memory_read_only ::
  "u16 \<Rightarrow> u16 \<Rightarrow> FileDescriptorTable \<Rightarrow> (VfsError + u32) \<times> FileDescriptorTable" where
  "open_shared_memory_read_only i g t = open_object (SharedMemory i g) ReadOnly t"

definition open_desktop_events ::
  "u64 \<Rightarrow> FileDescriptorTable \<Rightarrow> (VfsError + u32) \<times> FileDescriptorTable" where
  "open_desktop_events gen t =
    (case open_object DesktopEvents ReadOnly t of
       (Inl e, t1) \<Rightarrow> (Inl e, t1)
     | (Inr fd, t1) \<Rightarrow>
         (case descriptor fd t1 of
            Inl e \<Rightarrow> (Inl e, t1)
          | Inr i \<Rightarrow> (Inr fd, put_descriptor i ((descriptors t1 ! i)\<lparr>d_offset := gen\<rparr>) t1)))"

definition read_window :: "u32 \<Rightarrow> nat \<Rightarrow> FileDescriptorTable \<Rightarrow> VfsError + ReadWindow" where
  "read_window fd requested t = rbind (descriptor fd t) (\<lambda>i.
     let d = descriptors t ! i in
     if \<not> mode_readable (d_access_mode d) then Inl NotReadable
     else case d_object d of
       File node \<Rightarrow> Inr \<lparr>rw_node = node, rw_offset = d_offset d,
         rw_length = min requested (unat (saturating_sub (node_size node) (d_offset d)))\<rparr>
     | _ \<Rightarrow> Inl BadFileDescriptor)"

definition write_window :: "u32 \<Rightarrow> nat \<Rightarrow> FileDescriptorTable \<Rightarrow> VfsError + WriteWindow" where
  "write_window fd requested t = rbind (descriptor fd t) (\<lambda>i.
     let d = descriptors t ! i in
     if \<not> mode_writable (d_access_mode d) then Inl NotWritable
     else case d_object d of
       File node \<Rightarrow> Inr \<lparr>ww_node = node, ww_offset = d_offset d,
         ww_length = min requested (unat (saturating_sub (node_size node) (d_offset d)))\<rparr>
     | _ \<Rightarrow> Inl BadFileDescriptor)"

definition append_window :: "u32 \<Rightarrow> nat \<Rightarrow> FileDescriptorTable \<Rightarrow> VfsError + WriteWindow" where
  "append_window fd requested t = rbind (descriptor fd t) (\<lambda>i.
     let d = descriptors t ! i in
     if \<not> mode_writable (d_access_mode d) then Inl NotWritable
     else case d_object d of
       File node \<Rightarrow>
         if d_offset d \<noteq> node_size node then Inl InvalidOffset
         else if 2 ^ 64 \<le> requested then Inl InvalidOffset
         else if checked_add (d_offset d) (word_of_nat requested) = None then Inl InvalidOffset
         else Inr \<lparr>ww_node = node, ww_offset = d_offset d, ww_length = requested\<rparr>
     | _ \<Rightarrow> Inl BadFileDescriptor)"

definition set_size ::
  "u32 \<Rightarrow> u64 \<Rightarrow> FileDescriptorTable \<Rightarrow> (VfsError + unit) \<times> FileDescriptorTable" where
  "set_size fd sz t =
    (case descriptor fd t of
       Inl e \<Rightarrow> (Inl e, t)
     | Inr i \<Rightarrow>
         let d = descriptors t ! i in
         if \<not> mode_writable (d_access_mode d) then (Inl NotWritable, t)
         else if sz < d_offset d then (Inl InvalidOffset, t)
         else case d_object d of
           File node \<Rightarrow> (Inr (), put_descriptor i (d\<lparr>d_object := File (node\<lparr>node_size := sz\<rparr>)\<rparr>) t)
         | _ \<Rightarrow> (Inl BadFileDescriptor, t))"

text \<open>The new offset of the two advancing operations: the length as \<open>u64\<close>, added without overflow.\<close>

definition advanced_offset :: "u64 \<Rightarrow> nat \<Rightarrow> VfsError + u64" where
  "advanced_offset off n =
     (if 2 ^ 64 \<le> n then Inl InvalidOffset else ok_or InvalidOffset (checked_add off (word_of_nat n)))"

definition advance ::
  "u32 \<Rightarrow> nat \<Rightarrow> FileDescriptorTable \<Rightarrow> (VfsError + unit) \<times> FileDescriptorTable" where
  "advance fd n t =
    (case descriptor fd t of
       Inl e \<Rightarrow> (Inl e, t)
     | Inr i \<Rightarrow>
         let d = descriptors t ! i in
         case advanced_offset (d_offset d) n of
           Inl e \<Rightarrow> (Inl e, t)
         | Inr off \<Rightarrow>
             (case d_object d of
                File node \<Rightarrow>
                  if node_size node < off then (Inl InvalidOffset, t)
                  else (Inr (), put_descriptor i (d\<lparr>d_offset := off\<rparr>) t)
              | _ \<Rightarrow> (Inl BadFileDescriptor, t)))"

definition seek ::
  "u32 \<Rightarrow> u64 \<Rightarrow> FileDescriptorTable \<Rightarrow> (VfsError + unit) \<times> FileDescriptorTable" where
  "seek fd off t =
    (case descriptor fd t of
       Inl e \<Rightarrow> (Inl e, t)
     | Inr i \<Rightarrow>
         let d = descriptors t ! i in
         case d_object d of
           File node \<Rightarrow>
             if node_size node < off then (Inl InvalidOffset, t)
             else (Inr (), put_descriptor i (d\<lparr>d_offset := off\<rparr>) t)
         | _ \<Rightarrow> (Inl BadFileDescriptor, t))"

definition fd_close :: "u32 \<Rightarrow> FileDescriptorTable \<Rightarrow> (VfsError + unit) \<times> FileDescriptorTable" where
  "fd_close fd t =
    (case descriptor fd t of
       Inl e \<Rightarrow> (Inl e, t)
     | Inr i \<Rightarrow> (Inr (), put_descriptor i Descriptor_EMPTY t))"

definition fd_object :: "u32 \<Rightarrow> FileDescriptorTable \<Rightarrow> VfsError + DescriptorObject" where
  "fd_object fd t = rbind (descriptor fd t) (\<lambda>i. Inr (d_object (descriptors t ! i)))"

definition readable_object :: "u32 \<Rightarrow> FileDescriptorTable \<Rightarrow> VfsError + DescriptorObject \<times> u64" where
  "readable_object fd t = rbind (descriptor fd t) (\<lambda>i.
     let d = descriptors t ! i in
     if \<not> mode_readable (d_access_mode d) then Inl NotReadable else Inr (d_object d, d_offset d))"

definition advance_object ::
  "u32 \<Rightarrow> nat \<Rightarrow> u64 \<Rightarrow> FileDescriptorTable \<Rightarrow> (VfsError + unit) \<times> FileDescriptorTable" where
  "advance_object fd n object_size t =
    (case descriptor fd t of
       Inl e \<Rightarrow> (Inl e, t)
     | Inr i \<Rightarrow>
         let d = descriptors t ! i in
         case advanced_offset (d_offset d) n of
           Inl e \<Rightarrow> (Inl e, t)
         | Inr off \<Rightarrow>
             if object_size < off then (Inl InvalidOffset, t)
             else (Inr (), put_descriptor i (d\<lparr>d_offset := off\<rparr>) t))"

definition is_file :: "DescriptorObject \<Rightarrow> bool" where
  "is_file obj = (case obj of File _ \<Rightarrow> True | _ \<Rightarrow> False)"

definition set_object_offset ::
  "u32 \<Rightarrow> u64 \<Rightarrow> FileDescriptorTable \<Rightarrow> (VfsError + unit) \<times> FileDescriptorTable" where
  "set_object_offset fd off t =
    (case descriptor fd t of
       Inl e \<Rightarrow> (Inl e, t)
     | Inr i \<Rightarrow>
         let d = descriptors t ! i in
         if \<not> mode_readable (d_access_mode d) \<or> is_file (d_object d) then (Inl BadFileDescriptor, t)
         else (Inr (), put_descriptor i (d\<lparr>d_offset := off\<rparr>) t))"

text \<open>The copy loop of \<open>snapshot_objects\<close> stops when the output is full.\<close>

fun snapshot_loop ::
  "Descriptor list \<Rightarrow> DescriptorObject option list \<Rightarrow> nat \<Rightarrow> nat \<times> DescriptorObject option list" where
  "snapshot_loop [] out copied = (copied, out)"
| "snapshot_loop (d # ds) out copied =
     (if copied < length out then snapshot_loop ds (out[copied := Some (d_object d)]) (copied + 1)
      else (copied, out))"

definition snapshot_objects ::
  "DescriptorObject option list \<Rightarrow> FileDescriptorTable \<Rightarrow> nat \<times> DescriptorObject option list" where
  "snapshot_objects out t =
     snapshot_loop (filter d_open (descriptors t)) (replicate (length out) None) 0"

definition close_all :: "FileDescriptorTable \<Rightarrow> nat \<times> FileDescriptorTable" where
  "close_all t = (length (filter d_open (descriptors t)),
     t\<lparr>descriptors := map (\<lambda>d. if d_open d then Descriptor_EMPTY else d) (descriptors t)\<rparr>)"

end
