(* ===== verification/Process.thy ===== *)
theory Process
  imports Vfs
begin

text \<open>
  Processes of \<open>crates/process/src/lib.rs\<close>: the process table with its life cycle, scheduling order
  and per-process descriptor tables, and the builder of the initial Linux user stack. The const
  generic \<open>N\<close> is the length of the slot list, \<open>FDS\<close> a field of the table that no operation
  writes.
\<close>

section \<open>Data\<close>

type_synonym ProcessId = u32

definition MAX_INITIAL_ARGUMENTS :: nat where "MAX_INITIAL_ARGUMENTS = 16"
definition MAX_INITIAL_ENVIRONMENT :: nat where "MAX_INITIAL_ENVIRONMENT = 16"
definition LINUX_AUXV_PAIRS :: nat where "LINUX_AUXV_PAIRS = 9"
definition LINUX_AT_NULL :: u64 where "LINUX_AT_NULL = 0"
definition LINUX_AT_PAGESZ :: u64 where "LINUX_AT_PAGESZ = 6"
definition LINUX_AT_ENTRY :: u64 where "LINUX_AT_ENTRY = 9"
definition LINUX_AT_UID :: u64 where "LINUX_AT_UID = 11"
definition LINUX_AT_EUID :: u64 where "LINUX_AT_EUID = 12"
definition LINUX_AT_GID :: u64 where "LINUX_AT_GID = 13"
definition LINUX_AT_EGID :: u64 where "LINUX_AT_EGID = 14"
definition LINUX_AT_SECURE :: u64 where "LINUX_AT_SECURE = 23"
definition LINUX_AT_EXECFN :: u64 where "LINUX_AT_EXECFN = 31"
definition INITIAL_STACK_ALIGNMENT :: nat where "INITIAL_STACK_ALIGNMENT = 16"

datatype ProcessState = Ready | Running | Blocked | Runnable | Exited

record ProcessImage =
  address_space_root :: u64
  image_entry :: u64
  image_stack_pointer :: u64
  image_stack_top :: u64
  user_memory_start :: u64
  user_memory_end :: u64

record InitialStackLayout =
  layout_stack_pointer :: u64
  argument_count :: nat
  environment_count :: nat
  auxiliary_pairs :: nat
  used_bytes :: nat

datatype InitialStackError =
    MissingExecutableName
  | TooManyArguments
  | TooManyEnvironmentEntries
  | EmptyString
  | EmbeddedNull
  | AddressOverflow
  | StackTooSmall

record ProcessSnapshot =
  snap_pid :: ProcessId
  snap_parent :: "ProcessId option"
  snap_state :: ProcessState
  snap_image :: ProcessImage
  snap_exit_status :: "i32 option"
  snap_syscall_count :: u64

datatype ProcessError =
    InvalidImage
  | TableFull
  | PidExhausted
  | NotFound
  | InvalidState
  | CounterOverflow
  | VfsE VfsError

record ProcessSlot =
  ps_pid :: ProcessId
  ps_parent :: "ProcessId option"
  ps_state :: "ProcessState option"
  ps_image :: ProcessImage
  ps_exit_status :: "i32 option"
  ps_syscall_count :: u64
  ps_descriptors :: FileDescriptorTable

record ProcessTable =
  pslots :: "ProcessSlot list"
  next_pid :: ProcessId
  pcount :: nat
  FDS :: nat

definition slot_empty :: "nat \<Rightarrow> ProcessSlot" where
  "slot_empty fds =
    \<lparr>ps_pid = 0, ps_parent = None, ps_state = None,
     ps_image = \<lparr>address_space_root = 0, image_entry = 0, image_stack_pointer = 0, image_stack_top = 0,
       user_memory_start = 0, user_memory_end = 0\<rparr>,
     ps_exit_status = None, ps_syscall_count = 0, ps_descriptors = FileDescriptorTable_new fds\<rparr>"

definition slot_snapshot :: "ProcessSlot \<Rightarrow> ProcessSnapshot option" where
  "slot_snapshot s = (case ps_state s of
     None \<Rightarrow> None
   | Some st \<Rightarrow> Some \<lparr>snap_pid = ps_pid s, snap_parent = ps_parent s, snap_state = st,
       snap_image = ps_image s, snap_exit_status = ps_exit_status s, snap_syscall_count = ps_syscall_count s\<rparr>)"

definition ProcessTable_new :: "nat \<Rightarrow> nat \<Rightarrow> ProcessTable" where
  "ProcessTable_new n fds = \<lparr>pslots = replicate n (slot_empty fds), next_pid = 1, pcount = 0, FDS = fds\<rparr>"

section \<open>Looking up processes\<close>

text \<open>The index of the slot that \<open>slot\<close> and \<open>slot_mut\<close> find, and the checks on top of it.\<close>

definition pslot :: "ProcessId \<Rightarrow> ProcessTable \<Rightarrow> nat option" where
  "pslot pid t = position (\<lambda>s. ps_state s \<noteq> None \<and> ps_pid s = pid) (pslots t)"

definition running_slot :: "ProcessId \<Rightarrow> ProcessTable \<Rightarrow> ProcessError + nat" where
  "running_slot pid t = rbind (ok_or NotFound (pslot pid t)) (\<lambda>i.
     if ps_state (pslots t ! i) \<noteq> Some Running then Inl InvalidState else Inr i)"

definition live_slot :: "ProcessId \<Rightarrow> ProcessTable \<Rightarrow> ProcessError + nat" where
  "live_slot pid t = rbind (ok_or NotFound (pslot pid t)) (\<lambda>i.
     if ps_state (pslots t ! i) = Some Exited then Inl InvalidState else Inr i)"

definition put_process :: "nat \<Rightarrow> ProcessSlot \<Rightarrow> ProcessTable \<Rightarrow> ProcessTable" where
  "put_process i s t = t\<lparr>pslots := (pslots t)[i := s]\<rparr>"

definition validate_image :: "ProcessImage \<Rightarrow> ProcessError + unit" where
  "validate_image im =
    (if address_space_root im = 0
        \<or> address_space_root im AND 0xfff \<noteq> 0
        \<or> user_memory_end im \<le> user_memory_start im
        \<or> image_entry im < user_memory_start im
        \<or> user_memory_end im \<le> image_entry im
        \<or> image_stack_pointer im \<le> user_memory_end im
        \<or> image_stack_top im < image_stack_pointer im
        \<or> image_stack_top im \<le> user_memory_end im
     then Inl InvalidImage else Inr ())"

section \<open>Life cycle\<close>

definition spawn ::
  "ProcessId option \<Rightarrow> ProcessImage \<Rightarrow> ProcessTable \<Rightarrow> (ProcessError + ProcessId) \<times> ProcessTable" where
  "spawn parent im t =
    (case validate_image im of
       Inl e \<Rightarrow> (Inl e, t)
     | Inr _ \<Rightarrow>
         if (case parent of None \<Rightarrow> False | Some p \<Rightarrow> pslot p t = None) then (Inl NotFound, t)
         else case position (\<lambda>s. ps_state s = None) (pslots t) of
           None \<Rightarrow> (Inl TableFull, t)
         | Some i \<Rightarrow>
             (case checked_add (next_pid t) 1 of
                None \<Rightarrow> (Inl PidExhausted, t)
              | Some nxt \<Rightarrow>
                  (Inr (next_pid t),
                   (put_process i \<lparr>ps_pid = next_pid t, ps_parent = parent, ps_state = Some Ready, ps_image = im,
                      ps_exit_status = None, ps_syscall_count = 0,
                      ps_descriptors = FileDescriptorTable_new (FDS t)\<rparr> t)
                   \<lparr>next_pid := nxt, pcount := pcount t + 1\<rparr>)))"

definition mark_running :: "ProcessId \<Rightarrow> ProcessTable \<Rightarrow> (ProcessError + unit) \<times> ProcessTable" where
  "mark_running pid t =
    (case pslot pid t of
       None \<Rightarrow> (Inl NotFound, t)
     | Some i \<Rightarrow>
         let s = pslots t ! i in
         if ps_state s \<noteq> Some Ready \<and> ps_state s \<noteq> Some Runnable then (Inl InvalidState, t)
         else (Inr (), put_process i (s\<lparr>ps_state := Some Running\<rparr>) t))"

definition mark_runnable :: "ProcessId \<Rightarrow> ProcessTable \<Rightarrow> (ProcessError + unit) \<times> ProcessTable" where
  "mark_runnable pid t =
    (case pslot pid t of
       None \<Rightarrow> (Inl NotFound, t)
     | Some i \<Rightarrow>
         let s = pslots t ! i in
         if ps_state s \<noteq> Some Running \<and> ps_state s \<noteq> Some Blocked then (Inl InvalidState, t)
         else (Inr (), put_process i (s\<lparr>ps_state := Some Runnable\<rparr>) t))"

definition mark_blocked :: "ProcessId \<Rightarrow> ProcessTable \<Rightarrow> (ProcessError + unit) \<times> ProcessTable" where
  "mark_blocked pid t =
    (case running_slot pid t of
       Inl e \<Rightarrow> (Inl e, t)
     | Inr i \<Rightarrow> (Inr (), put_process i ((pslots t ! i)\<lparr>ps_state := Some Blocked\<rparr>) t))"

definition record_syscall :: "ProcessId \<Rightarrow> ProcessTable \<Rightarrow> (ProcessError + u64) \<times> ProcessTable" where
  "record_syscall pid t =
    (case running_slot pid t of
       Inl e \<Rightarrow> (Inl e, t)
     | Inr i \<Rightarrow>
         (case checked_add (ps_syscall_count (pslots t ! i)) 1 of
            None \<Rightarrow> (Inl CounterOverflow, t)
          | Some n \<Rightarrow> (Inr n, put_process i ((pslots t ! i)\<lparr>ps_syscall_count := n\<rparr>) t)))"

definition exit_process :: "ProcessId \<Rightarrow> i32 \<Rightarrow> ProcessTable \<Rightarrow> (ProcessError + unit) \<times> ProcessTable" where
  "exit_process pid status t =
    (case running_slot pid t of
       Inl e \<Rightarrow> (Inl e, t)
     | Inr i \<Rightarrow> (Inr (), put_process i
         ((pslots t ! i)\<lparr>ps_state := Some Exited, ps_exit_status := Some status\<rparr>) t))"

definition reap :: "ProcessId \<Rightarrow> ProcessTable \<Rightarrow> (ProcessError + ProcessSnapshot) \<times> ProcessTable" where
  "reap pid t =
    (case pslot pid t of
       None \<Rightarrow> (Inl NotFound, t)
     | Some i \<Rightarrow>
         if ps_state (pslots t ! i) \<noteq> Some Exited then (Inl InvalidState, t)
         else case slot_snapshot (pslots t ! i) of
           None \<Rightarrow> (Inl NotFound, t)
         | Some snap \<Rightarrow> (Inr snap, (put_process i (slot_empty (FDS t)) t)\<lparr>pcount := pcount t - 1\<rparr>))"

definition snapshot :: "ProcessId \<Rightarrow> ProcessTable \<Rightarrow> ProcessError + ProcessSnapshot" where
  "snapshot pid t = ok_or NotFound (Option.bind (pslot pid t) (\<lambda>i. slot_snapshot (pslots t ! i)))"

section \<open>Descriptors of a process\<close>

text \<open>Running a descriptor-table operation on the table of a live process: the shape of every
  operation below that changes a descriptor.\<close>

definition on_descriptors ::
  "ProcessId \<Rightarrow> (FileDescriptorTable \<Rightarrow> (VfsError + 'a) \<times> FileDescriptorTable)
   \<Rightarrow> ProcessTable \<Rightarrow> (ProcessError + 'a) \<times> ProcessTable" where
  "on_descriptors pid f t =
    (case live_slot pid t of
       Inl e \<Rightarrow> (Inl e, t)
     | Inr i \<Rightarrow>
         (case f (ps_descriptors (pslots t ! i)) of
            (r, d) \<Rightarrow> (map_err VfsE r, put_process i ((pslots t ! i)\<lparr>ps_descriptors := d\<rparr>) t)))"

definition query_descriptors ::
  "ProcessId \<Rightarrow> (FileDescriptorTable \<Rightarrow> VfsError + 'a) \<Rightarrow> ProcessTable \<Rightarrow> ProcessError + 'a" where
  "query_descriptors pid f t =
     rbind (live_slot pid t) (\<lambda>i. map_err VfsE (f (ps_descriptors (pslots t ! i))))"

definition process_open_file ::
  "ProcessId \<Rightarrow> FileNode \<Rightarrow> AccessMode \<Rightarrow> ProcessTable \<Rightarrow> (ProcessError + u32) \<times> ProcessTable" where
  "process_open_file pid node mode = on_descriptors pid (open_with_mode node mode)"

definition process_open_local_socket ::
  "ProcessId \<Rightarrow> u16 \<Rightarrow> u16 \<Rightarrow> ProcessTable \<Rightarrow> (ProcessError + u32) \<times> ProcessTable" where
  "process_open_local_socket pid i g = on_descriptors pid (open_local_socket i g)"

definition process_open_shared_memory ::
  "ProcessId \<Rightarrow> u16 \<Rightarrow> u16 \<Rightarrow> ProcessTable \<Rightarrow> (ProcessError + u32) \<times> ProcessTable" where
  "process_open_shared_memory pid i g = on_descriptors pid (open_shared_memory i g)"

definition process_open_shared_memory_read_only ::
  "ProcessId \<Rightarrow> u16 \<Rightarrow> u16 \<Rightarrow> ProcessTable \<Rightarrow> (ProcessError + u32) \<times> ProcessTable" where
  "process_open_shared_memory_read_only pid i g = on_descriptors pid (open_shared_memory_read_only i g)"

definition process_open_desktop_events ::
  "ProcessId \<Rightarrow> u64 \<Rightarrow> ProcessTable \<Rightarrow> (ProcessError + u32) \<times> ProcessTable" where
  "process_open_desktop_events pid g = on_descriptors pid (open_desktop_events g)"

definition descriptor_object :: "ProcessId \<Rightarrow> u32 \<Rightarrow> ProcessTable \<Rightarrow> ProcessError + DescriptorObject" where
  "descriptor_object pid fd = query_descriptors pid (fd_object fd)"

definition readable_descriptor_object ::
  "ProcessId \<Rightarrow> u32 \<Rightarrow> ProcessTable \<Rightarrow> ProcessError + DescriptorObject \<times> u64" where
  "readable_descriptor_object pid fd = query_descriptors pid (readable_object fd)"

definition set_descriptor_object_offset ::
  "ProcessId \<Rightarrow> u32 \<Rightarrow> u64 \<Rightarrow> ProcessTable \<Rightarrow> (ProcessError + unit) \<times> ProcessTable" where
  "set_descriptor_object_offset pid fd off = on_descriptors pid (set_object_offset fd off)"

definition descriptor_objects ::
  "ProcessId \<Rightarrow> DescriptorObject option list \<Rightarrow> ProcessTable \<Rightarrow> ProcessError + nat \<times> DescriptorObject option list" where
  "descriptor_objects pid out t = rbind (ok_or NotFound (pslot pid t)) (\<lambda>i.
     Inr (snapshot_objects out (ps_descriptors (pslots t ! i))))"

definition process_read_window :: "ProcessId \<Rightarrow> u32 \<Rightarrow> nat \<Rightarrow> ProcessTable \<Rightarrow> ProcessError + ReadWindow" where
  "process_read_window pid fd n = query_descriptors pid (read_window fd n)"

definition process_write_window :: "ProcessId \<Rightarrow> u32 \<Rightarrow> nat \<Rightarrow> ProcessTable \<Rightarrow> ProcessError + WriteWindow" where
  "process_write_window pid fd n = query_descriptors pid (write_window fd n)"

definition advance_fd :: "ProcessId \<Rightarrow> u32 \<Rightarrow> nat \<Rightarrow> ProcessTable \<Rightarrow> (ProcessError + unit) \<times> ProcessTable" where
  "advance_fd pid fd n = on_descriptors pid (advance fd n)"

definition advance_descriptor_object ::
  "ProcessId \<Rightarrow> u32 \<Rightarrow> nat \<Rightarrow> u64 \<Rightarrow> ProcessTable \<Rightarrow> (ProcessError + unit) \<times> ProcessTable" where
  "advance_descriptor_object pid fd n sz = on_descriptors pid (advance_object fd n sz)"

definition seek_fd :: "ProcessId \<Rightarrow> u32 \<Rightarrow> u64 \<Rightarrow> ProcessTable \<Rightarrow> (ProcessError + unit) \<times> ProcessTable" where
  "seek_fd pid fd off = on_descriptors pid (seek fd off)"

definition close_fd :: "ProcessId \<Rightarrow> u32 \<Rightarrow> ProcessTable \<Rightarrow> (ProcessError + unit) \<times> ProcessTable" where
  "close_fd pid fd = on_descriptors pid (fd_close fd)"

definition close_all_files :: "ProcessId \<Rightarrow> ProcessTable \<Rightarrow> (ProcessError + nat) \<times> ProcessTable" where
  "close_all_files pid t =
    (case pslot pid t of
       None \<Rightarrow> (Inl NotFound, t)
     | Some i \<Rightarrow>
         if ps_state (pslots t ! i) \<noteq> Some Exited then (Inl InvalidState, t)
         else case close_all (ps_descriptors (pslots t ! i)) of
           (n, d) \<Rightarrow> (Inr n, put_process i ((pslots t ! i)\<lparr>ps_descriptors := d\<rparr>) t))"

section \<open>Scheduling and children\<close>

definition schedulable :: "ProcessSlot \<Rightarrow> bool" where
  "schedulable s \<longleftrightarrow> ps_state s = Some Ready \<or> ps_state s = Some Runnable"

fun list_min :: "'a::linorder list \<Rightarrow> 'a option" where
  "list_min [] = None"
| "list_min (x # xs) = Some (fold min xs x)"

definition next_schedulable_after :: "ProcessId \<Rightarrow> ProcessTable \<Rightarrow> ProcessId option" where
  "next_schedulable_after pid t =
    (case list_min (map ps_pid (filter (\<lambda>s. pid < ps_pid s) (filter schedulable (pslots t)))) of
       Some p \<Rightarrow> Some p
     | None \<Rightarrow> list_min (map ps_pid (filter schedulable (pslots t))))"

definition child_count :: "ProcessId \<Rightarrow> ProcessTable \<Rightarrow> nat" where
  "child_count parent t = length (filter (\<lambda>s. ps_state s \<noteq> None \<and> ps_parent s = Some parent) (pslots t))"

text \<open>\<open>Iterator::min_by_key\<close>: of several minimal elements the first.\<close>

fun min_by_key :: "('a \<Rightarrow> 'k::linorder) \<Rightarrow> 'a list \<Rightarrow> 'a option" where
  "min_by_key f [] = None"
| "min_by_key f (x # xs) = (case min_by_key f xs of
     None \<Rightarrow> Some x | Some y \<Rightarrow> if f x \<le> f y then Some x else Some y)"

definition first_exited_child :: "ProcessId \<Rightarrow> ProcessTable \<Rightarrow> ProcessSnapshot option" where
  "first_exited_child parent t =
     min_by_key snap_pid (List.map_filter slot_snapshot
       (filter (\<lambda>s. ps_parent s = Some parent \<and> ps_state s = Some Exited) (pslots t)))"

section \<open>The initial user stack\<close>

text \<open>The two cursor-advancing writers return the stack with their result; the buffer left behind by
  a failing call is not represented, as every caller discards it.\<close>

definition push_initial_string ::
  "u64 \<Rightarrow> u8 list \<Rightarrow> u8 list \<times> nat \<Rightarrow> InitialStackError + u64 \<times> u8 list \<times> nat" where
  "push_initial_string stack_base v = (\<lambda>(stack, cursor).
     if v = [] then Inl EmptyString
     else if 0 \<in> set v then Inl EmbeddedNull
     else rbind (ok_or StackTooSmall (usize_add (length v) 1)) (\<lambda>len.
       rbind (ok_or StackTooSmall (usize_sub cursor len)) (\<lambda>cursor.
       rbind (ok_or StackTooSmall (usize_add cursor (length v))) (\<lambda>fin.
       rbind (ok_or StackTooSmall (get_range stack cursor fin)) (\<lambda>_.
       let stack = copy_at stack cursor v in
       if length stack \<le> fin then Inl StackTooSmall
       else let stack = stack[fin := 0] in
         if 2 ^ 64 \<le> cursor then Inl AddressOverflow
         else rbind (ok_or AddressOverflow (checked_add stack_base (word_of_nat cursor))) (\<lambda>ptr.
           Inr (ptr, stack, cursor)))))))"

definition write_initial_word ::
  "nat \<Rightarrow> u64 \<Rightarrow> u8 list \<times> nat \<Rightarrow> InitialStackError + u8 list \<times> nat" where
  "write_initial_word table_start v = (\<lambda>(stack, word).
     rbind (ok_or StackTooSmall (Option.bind (usize_mul word 8) (usize_add table_start))) (\<lambda>off.
     rbind (ok_or StackTooSmall (usize_add off 8)) (\<lambda>fin.
     rbind (ok_or StackTooSmall (get_range stack off fin)) (\<lambda>_.
     Inr (copy_at stack off (to_le_bytes v), word + 1)))))"

text \<open>The loops that push the strings, from the last to the first, recording their addresses.\<close>

definition push_strings ::
  "u64 \<Rightarrow> u8 list list \<Rightarrow> nat \<Rightarrow> u8 list \<times> nat \<Rightarrow> InitialStackError + u64 list \<times> u8 list \<times> nat" where
  "push_strings stack_base values capacity s =
     fold_result (\<lambda>i (pointers, stack, cursor).
         rbind (push_initial_string stack_base (values ! i) (stack, cursor)) (\<lambda>(ptr, stack, cursor).
         Inr (pointers[i := ptr], stack, cursor)))
       (rev [0..<length values]) (replicate capacity 0, s)"

definition initial_table_words :: "u8 list list \<Rightarrow> u8 list list \<Rightarrow> nat option" where
  "initial_table_words arguments environment =
     Option.bind (usize_add 1 (length arguments)) (\<lambda>w.
     Option.bind (usize_add w 1) (\<lambda>w.
     Option.bind (usize_add w (length environment)) (\<lambda>w.
     Option.bind (usize_add w 1) (\<lambda>w.
     usize_add w (LINUX_AUXV_PAIRS * 2)))))"

definition auxiliary :: "u64 \<Rightarrow> u64 \<Rightarrow> u64 \<Rightarrow> (u64 \<times> u64) list" where
  "auxiliary page_size entry execfn =
     [(LINUX_AT_PAGESZ, page_size), (LINUX_AT_ENTRY, entry), (LINUX_AT_UID, 0),
      (LINUX_AT_EUID, 0), (LINUX_AT_GID, 0), (LINUX_AT_EGID, 0), (LINUX_AT_SECURE, 0),
      (LINUX_AT_EXECFN, execfn), (LINUX_AT_NULL, 0)]"

definition write_initial_table ::
  "nat \<Rightarrow> u64 \<Rightarrow> u64 list \<Rightarrow> u64 list \<Rightarrow> (u64 \<times> u64) list \<Rightarrow> u8 list \<Rightarrow> InitialStackError + u8 list \<times> nat" where
  "write_initial_table table_start argc argument_pointers environment_pointers aux stack =
     rbind (write_initial_word table_start argc (stack, 0)) (\<lambda>s.
     rbind (fold_result (write_initial_word table_start) argument_pointers s) (\<lambda>s.
     rbind (write_initial_word table_start 0 s) (\<lambda>s.
     rbind (fold_result (write_initial_word table_start) environment_pointers s) (\<lambda>s.
     rbind (write_initial_word table_start 0 s) (\<lambda>s.
     fold_result (\<lambda>(kind, v) s. rbind (write_initial_word table_start kind s) (write_initial_word table_start v))
       aux s)))))"

definition build_linux_initial_stack ::
  "u8 list \<Rightarrow> u64 \<Rightarrow> u8 list list \<Rightarrow> u8 list list \<Rightarrow> u64 \<Rightarrow> u64
   \<Rightarrow> InitialStackError + InitialStackLayout \<times> u8 list" where
  "build_linux_initial_stack stack stack_base arguments environment entry page_size =
    (if arguments = [] then Inl MissingExecutableName
     else if MAX_INITIAL_ARGUMENTS < length arguments then Inl TooManyArguments
     else if MAX_INITIAL_ENVIRONMENT < length environment then Inl TooManyEnvironmentEntries
     else if 2 ^ 64 \<le> length stack then Inl AddressOverflow
     else rbind (ok_or AddressOverflow (checked_add stack_base (word_of_nat (length stack)))) (\<lambda>stack_top.
     rbind (push_strings stack_base environment MAX_INITIAL_ENVIRONMENT (stack, length stack))
       (\<lambda>(environment_pointers, stack, cursor).
     rbind (push_strings stack_base arguments MAX_INITIAL_ARGUMENTS (stack, cursor))
       (\<lambda>(argument_pointers, stack, cursor).
     rbind (ok_or StackTooSmall (initial_table_words arguments environment)) (\<lambda>table_words.
     rbind (ok_or StackTooSmall (usize_mul table_words 8)) (\<lambda>table_bytes.
     rbind (ok_or StackTooSmall (usize_sub cursor table_bytes)) (\<lambda>table_unaligned.
     let table_start = unat ((word_of_nat table_unaligned :: u64) AND NOT (word_of_nat (INITIAL_STACK_ALIGNMENT - 1))) in
     rbind (ok_or AddressOverflow (checked_add stack_base (word_of_nat table_start))) (\<lambda>stack_pointer.
     if stack_pointer AND (word_of_nat INITIAL_STACK_ALIGNMENT - 1) \<noteq> 0 \<or> stack_top \<le> stack_pointer
     then Inl StackTooSmall
     else
     rbind (write_initial_table table_start (word_of_nat (length arguments))
         (take (length arguments) argument_pointers) (take (length environment) environment_pointers)
         (auxiliary page_size entry (argument_pointers ! 0)) stack) (\<lambda>(stack, word).
     if word \<noteq> table_words then Inl StackTooSmall
     else Inr (\<lparr>layout_stack_pointer = stack_pointer, argument_count = length arguments,
            environment_count = length environment, auxiliary_pairs = LINUX_AUXV_PAIRS,
            used_bytes = length stack - table_start\<rparr>, stack))))))))))"

end
