(* ===== verification/Handle_Map.thy ===== *)
theory Handle_Map
  imports Slop_Prelude
begin

text \<open>
  The contract of a table that hands out small handles for objects, as the descriptor table
  of a process does: allocation binds a fresh handle and nothing else, release unbinds one handle
  and nothing else, and a refused request changes nothing. The facts a client needs (handles in
  use are distinct, an object is found under its handle until that handle is released, release
  undoes allocation) follow once and for all.
\<close>

locale handle_map =
  fixes find :: "'t \<Rightarrow> 'h \<Rightarrow> 'v option"
    and alloc :: "'v \<Rightarrow> 't \<Rightarrow> ('e + 'h) \<times> 't"
    and release :: "'h \<Rightarrow> 't \<Rightarrow> ('e + unit) \<times> 't"
    and admissible :: "'v \<Rightarrow> bool"
  assumes alloc_binds: "admissible v \<Longrightarrow> alloc v t = (Inr h, t') \<Longrightarrow>
      find t h = None \<and> find t' = (find t)(h \<mapsto> v)"
    and alloc_refused: "alloc v t = (Inl e, t') \<Longrightarrow> find t' = find t"
    and release_unbinds: "release h t = (Inr u, t') \<Longrightarrow> find t h \<noteq> None \<and> find t' = (find t)(h := None)"
    and release_refused: "release h t = (Inl e, t') \<Longrightarrow> find t h = None \<and> find t' = find t"
begin

fun alloc_all :: "'v list \<Rightarrow> 't \<Rightarrow> ('h list \<times> 't) option" where
  "alloc_all [] t = Some ([], t)"
| "alloc_all (v # vs) t = (case alloc v t of
     (Inl _, _) \<Rightarrow> None
   | (Inr h, t') \<Rightarrow> map_option (\<lambda>(hs, u). (h # hs, u)) (alloc_all vs t'))"

lemma alloc_all_distinct:
  assumes "\<forall>v\<in>set vs. admissible v" and "alloc_all vs t = Some (hs, t')"
  shows "distinct hs \<and> length hs = length vs \<and> (\<forall>h\<in>set hs. find t h = None)
    \<and> (\<forall>i<length vs. find t' (hs ! i) = Some (vs ! i))
    \<and> (\<forall>h. h \<notin> set hs \<longrightarrow> find t' h = find t h)"
  using assms
proof (induction vs arbitrary: t hs)
  case Nil
  then show ?case by simp
next
  case (Cons v vs)
  from Cons.prems(2) obtain h t1 hs' where a: "alloc v t = (Inr h, t1)"
    and rest: "alloc_all vs t1 = Some (hs', t')" and hs: "hs = h # hs'"
    by (auto split: prod.splits sum.splits)
  from alloc_binds [OF _ a] Cons.prems(1) have f: "find t h = None" "find t1 = (find t)(h \<mapsto> v)" by auto
  from Cons.IH [OF _ rest] Cons.prems(1)
  have ih: "distinct hs'" "length hs' = length vs" "\<forall>x\<in>set hs'. find t1 x = None"
    "\<forall>i<length vs. find t' (hs' ! i) = Some (vs ! i)" "\<forall>x. x \<notin> set hs' \<longrightarrow> find t' x = find t1 x"
    by auto
  have "h \<notin> set hs'" using ih(3) f(2) by auto
  moreover have "\<forall>x\<in>set hs'. find t x = None" using ih(3) f(2) calculation by (auto simp: fun_upd_def split: if_splits)
  ultimately show ?case using ih f by (auto simp: hs nth_Cons split: nat.splits)
qed

lemma release_undoes_alloc:
  assumes "admissible v" and "alloc v t = (Inr h, t1)"
  shows "\<exists>u t2. release h t1 = (Inr u, t2) \<and> find t2 = find t"
proof -
  from alloc_binds [OF assms] have f: "find t h = None" "find t1 = (find t)(h \<mapsto> v)" by auto
  obtain r t2 where r: "release h t1 = (r, t2)" by force
  show ?thesis
  proof (cases r)
    case (Inl e)
    then show ?thesis using release_refused [of h t1 e t2] r f by auto
  next
    case (Inr u)
    then show ?thesis using release_unbinds [of h t1 u t2] r f by (auto simp: fun_upd_idem)
  qed
qed

lemma release_twice_fails:
  assumes "release h t = (Inr u, t1)" and "release h t1 = (r, t2)"
  shows "\<exists>e. r = Inl e"
  using release_unbinds [OF assms(1)] release_unbinds [of h t1 _ t2] assms(2) by (cases r) auto

end

end
