(* ===== verification/Vfs_Proofs.thy ===== *)
theory Vfs_Proofs
  imports Vfs Handle_Map
begin

text \<open>
  Correctness of the virtual file system layer: paths are normalised, the canonical byte form of a
  path is faithful, the mount table is a finite map resolved by longest prefix, and the
  descriptor table keeps descriptors apart and offsets within their files.
\<close>

section \<open>Paths\<close>

abbreviation slash :: u8 where "slash \<equiv> 0x2f"

definition component_ok :: "u8 list \<Rightarrow> bool" where
  "component_ok c \<longleftrightarrow> c \<noteq> [] \<and> slash \<notin> set c \<and> 0 \<notin> set c \<and> c \<noteq> [0x2e] \<and> c \<noteq> [0x2e, 0x2e] \<and> length c \<le> 255"

definition path_ok :: "AbsolutePath \<Rightarrow> bool" where
  "path_ok p \<longleftrightarrow> length (ap_array p) = MAX_PATH_COMPONENTS \<and> component_count p \<le> MAX_PATH_COMPONENTS
     \<and> (\<forall>c\<in>set (components p). component_ok c)"

text \<open>The reference normalisation: empty and dot pieces are dropped, dot-dot removes the last
  component and stays at the root there.\<close>

definition normal_step :: "u8 list \<Rightarrow> u8 list list \<Rightarrow> u8 list list" where
  "normal_step c cs = (if c = [] \<or> c = [0x2e] then cs else if c = [0x2e, 0x2e] then butlast cs else cs @ [c])"

definition normal :: "u8 list list \<Rightarrow> u8 list list" where
  "normal pieces = fold normal_step pieces []"

lemma split_on_not_Nil [simp]: "split_on p xs \<noteq> []"
  by (induction xs) (auto split: list.splits)

lemma split_on_pieces: "c \<in> set (split_on p xs) \<Longrightarrow> x \<in> set c \<Longrightarrow> x \<in> set xs \<and> \<not> p x"
  by (induction xs arbitrary: c) (fastforce split: list.splits if_splits)+

lemma split_on_clean: "\<forall>x\<in>set xs. \<not> p x \<Longrightarrow> split_on p xs = [xs]"
  by (induction xs) auto

lemma split_on_append: "p s \<Longrightarrow> split_on p (xs @ s # ys) = split_on p xs @ split_on p ys"
  by (induction xs) (auto split: list.splits)

lemma parse_component_normal:
  assumes "parse_component c (array, count) = Inr (array', count')"
    and "length array = MAX_PATH_COMPONENTS" and "count \<le> MAX_PATH_COMPONENTS"
  shows "length array' = MAX_PATH_COMPONENTS \<and> count' \<le> MAX_PATH_COMPONENTS
    \<and> take count' array' = normal_step c (take count array)"
  using assms
  by (auto simp: parse_component_def normal_step_def butlast_take take_Suc_conv_app_nth split: if_splits)

lemma parse_loop_normal:
  assumes "fold_result parse_component pieces (array, count) = Inr (array', count')"
    and "length array = MAX_PATH_COMPONENTS" and "count \<le> MAX_PATH_COMPONENTS"
  shows "length array' = MAX_PATH_COMPONENTS \<and> count' \<le> MAX_PATH_COMPONENTS
    \<and> take count' array' = fold normal_step pieces (take count array)"
  using assms
proof (induction pieces arbitrary: array count)
  case (Cons c pieces)
  then obtain a n where c: "parse_component c (array, count) = Inr (a, n)"
    and rest: "fold_result parse_component pieces (a, n) = Inr (array', count')"
    by (auto simp: result_simps)
  from parse_component_normal [OF c Cons.prems(2,3)] Cons.IH [OF rest] show ?case by auto
qed auto

lemma parse_component_accepts:
  "parse_component c s = Inr s' \<Longrightarrow> c = [] \<or> c = [0x2e] \<or> c = [0x2e, 0x2e] \<or> length c \<le> 255"
  by (auto simp: parse_component_def split: if_splits prod.splits)

lemma fold_result_all_accepted:
  "fold_result f xs s = Inr s' \<Longrightarrow> (\<And>x s s'. x \<in> set xs \<Longrightarrow> f x s = Inr s' \<Longrightarrow> P x) \<Longrightarrow> \<forall>x\<in>set xs. P x"
  by (induction xs arbitrary: s) (auto simp: result_simps)

lemma normal_components:
  assumes "\<forall>c\<in>set pieces. c = [] \<or> c = [0x2e] \<or> c = [0x2e, 0x2e] \<or> component_ok c"
    and "\<forall>c\<in>set cs. component_ok c"
  shows "\<forall>c\<in>set (fold normal_step pieces cs). component_ok c"
  using assms
proof (induction pieces arbitrary: cs)
  case (Cons c pieces)
  have c: "\<forall>x\<in>set (normal_step c cs). component_ok x"
    using Cons.prems by (auto simp: normal_step_def dest: in_set_butlastD)
  have "\<forall>x\<in>set pieces. x = [] \<or> x = [0x2e] \<or> x = [0x2e, 0x2e] \<or> component_ok x"
    using Cons.prems(1) by (blast intro: list.set_intros(2))
  from Cons.IH [OF this c] show ?case by simp
qed simp

lemma parse_ok:
  assumes "parse path = Inr p"
  shows "path_ok p \<and> components p = normal (split_on (\<lambda>b. b = slash) path)"
proof -
  let ?pieces = "split_on (\<lambda>b. b = slash) path"
  from assms obtain array count where
    loop: "fold_result parse_component ?pieces (replicate MAX_PATH_COMPONENTS [], 0) = Inr (array, count)"
    and p: "p = \<lparr>ap_array = array, component_count = count\<rparr>" and nul: "0 \<notin> set path"
    by (auto simp: parse_def result_simps split: if_splits)
  from parse_loop_normal [OF loop] have n: "length array = MAX_PATH_COMPONENTS" "count \<le> MAX_PATH_COMPONENTS"
    "components p = normal ?pieces"
    by (auto simp: components_def p normal_def)
  have "\<forall>c\<in>set ?pieces. c = [] \<or> c = [0x2e] \<or> c = [0x2e, 0x2e] \<or> length c \<le> 255"
    using loop by (rule fold_result_all_accepted) (rule parse_component_accepts)
  moreover have "slash \<notin> set c \<and> 0 \<notin> set c" if "c \<in> set ?pieces" for c
    using that nul split_on_pieces [of c "\<lambda>b. b = slash" path] by blast
  ultimately have "\<forall>c\<in>set ?pieces. c = [] \<or> c = [0x2e] \<or> c = [0x2e, 0x2e] \<or> component_ok c"
    by (auto simp: component_ok_def)
  from normal_components [OF this, of "[]"] n show ?thesis by (simp add: path_ok_def normal_def p)
qed

subsection \<open>The canonical form\<close>

definition render :: "u8 list list \<Rightarrow> u8 list" where
  "render cs = (if cs = [] then [slash] else concat (map (\<lambda>c. slash # c) cs))"

lemma render_snoc: "render (cs @ [c]) = render cs @ (if cs = [] then [] else [slash]) @ c"
  by (auto simp: render_def)

lemma render_simps [simp]: "render [] = [slash]" "render [c] = slash # c"
  by (simp_all add: render_def)

lemma replicate_update_0: "0 < n \<Longrightarrow> (replicate n x)[0 := y] = y # replicate (n - 1) x"
  by (cases n) auto

lemma length_render [simp]: "0 < length (render cs)" "render cs \<noteq> []"
  by (cases cs; simp add: render_def)+

lemma split_on_render:
  "\<forall>c\<in>set cs. component_ok c \<Longrightarrow> split_on (\<lambda>b. b = slash) (render cs) = (if cs = [] then [[], []] else [] # cs)"
proof (induction cs rule: rev_induct)
  case Nil
  then show ?case by (simp add: render_def)
next
  case (snoc c cs)
  then have c: "split_on (\<lambda>b. b = slash) c = [c]" by (intro split_on_clean) (auto simp: component_ok_def)
  show ?case
  proof (cases "cs = []")
    case True
    with c show ?thesis by (simp add: render_def)
  next
    case False
    have "split_on (\<lambda>b. b = slash) (render (cs @ [c]))
        = split_on (\<lambda>b. b = slash) (render cs) @ split_on (\<lambda>b. b = slash) c"
      using False by (simp add: render_snoc split_on_append)
    with snoc False c show ?thesis by simp
  qed
qed

lemma render_inj:
  assumes "\<forall>c\<in>set cs. component_ok c" and "\<forall>c\<in>set ds. component_ok c" and "render cs = render ds"
  shows "cs = ds"
proof -
  have "(if cs = [] then [[], []] else [] # cs) = (if ds = [] then [[], []] else [] # ds)"
    using split_on_render [OF assms(1)] split_on_render [OF assms(2)] assms(3) by simp
  moreover have "[] \<notin> set cs" "[] \<notin> set ds" using assms(1,2) by (auto simp: component_ok_def)
  ultimately show ?thesis by (cases cs; cases ds) auto
qed

lemma normal_id:
  assumes "\<forall>c\<in>set cs. component_ok c"
  shows "fold normal_step cs ds = ds @ cs"
  using assms by (induction cs arbitrary: ds) (auto simp: normal_step_def component_ok_def)

lemma canonical_step_ok:
  assumes "length out = MAX_MOUNT_PATH_BYTES" and "out = render cs @ replicate (MAX_MOUNT_PATH_BYTES - length (render cs)) 0"
    and "length (render cs) \<le> MAX_MOUNT_PATH_BYTES"
  shows "canonical_step (length cs, c) (out, length (render cs)) =
    (if length (render (cs @ [c])) \<le> MAX_MOUNT_PATH_BYTES
     then Inr (render (cs @ [c]) @ replicate (MAX_MOUNT_PATH_BYTES - length (render (cs @ [c]))) 0, length (render (cs @ [c])))
     else Inl MountPathTooLong)"
proof (cases "cs = []")
  case True
  then show ?thesis
    using assms
    by (auto simp: canonical_step_def render_def usize_add_def usize_limit_def copy_at_def MAX_MOUNT_PATH_BYTES_def)
next
  case False
  then show ?thesis
    using assms
    by (auto simp: canonical_step_def render_snoc usize_add_def usize_limit_def copy_at_def MAX_MOUNT_PATH_BYTES_def
        list_update_append replicate_update_0)
qed


lemma canonical_loop:
  "fold_result canonical_step (enumerate 0 cs) ((replicate MAX_MOUNT_PATH_BYTES 0)[0 := slash], 1) =
    (if length (render cs) \<le> MAX_MOUNT_PATH_BYTES
     then Inr (render cs @ replicate (MAX_MOUNT_PATH_BYTES - length (render cs)) 0, length (render cs))
     else Inl MountPathTooLong)"
proof (induction cs rule: rev_induct)
  case Nil
  have "(replicate 256 0)[0 := slash] = slash # replicate 255 (0 :: u8)"
    by (simp add: eval_nat_numeral)
  then show ?case by (simp add: render_def MAX_MOUNT_PATH_BYTES_def)
next
  case (snoc c cs)
  show ?case
  proof (cases "length (render cs) \<le> MAX_MOUNT_PATH_BYTES")
    case True
    then show ?thesis
      using snoc canonical_step_ok [of "render cs @ replicate (MAX_MOUNT_PATH_BYTES - length (render cs)) 0" cs c]
      by (simp add: enumerate_append_eq fold_result_append)
  next
    case False
    then show ?thesis using snoc by (simp add: enumerate_append_eq fold_result_append render_snoc)
  qed
qed

lemma canonical_path_ok:
  "canonical_path p =
    (if length (render (components p)) \<le> MAX_MOUNT_PATH_BYTES
     then Inr (render (components p) @ replicate (MAX_MOUNT_PATH_BYTES - length (render (components p))) 0,
               length (render (components p)))
     else Inl MountPathTooLong)"
  unfolding canonical_path_def by (rule canonical_loop)

lemma parse_accepts_components:
  assumes "\<forall>c\<in>set cs. component_ok c" and "count + length cs \<le> MAX_PATH_COMPONENTS"
    and "length array = MAX_PATH_COMPONENTS"
  shows "\<exists>array'. fold_result parse_component cs (array, count) = Inr (array', count + length cs)"
  using assms
proof (induction cs arbitrary: array count)
  case (Cons c cs)
  then have "parse_component c (array, count) = Inr (array[count := c], count + 1)"
    by (auto simp: parse_component_def component_ok_def)
  with Cons.IH [of "count + 1" "array[count := c]"] Cons.prems show ?case by auto
qed simp

lemma parse_render:
  assumes "\<forall>c\<in>set cs. component_ok c" and "length cs \<le> MAX_PATH_COMPONENTS"
  shows "\<exists>p. parse (render cs) = Inr p \<and> components p = cs"
proof -
  let ?pieces = "split_on (\<lambda>b. b = slash) (render cs)"
  have start: "get_at (render cs) 0 = Some slash" "0 \<notin> set (render cs)"
    using assms(1) by (cases cs; auto simp: render_def get_at_def component_ok_def)+
  have skip: "parse_component [] s = Inr s" for s by (cases s) (simp add: parse_component_def)
  have "\<exists>array count. fold_result parse_component ?pieces (replicate MAX_PATH_COMPONENTS [], 0) = Inr (array, count)"
    using parse_accepts_components [OF assms(1), of 0 "replicate MAX_PATH_COMPONENTS []"] assms(2)
      split_on_render [OF assms(1)] by (auto simp: skip)
  then obtain p where p: "parse (render cs) = Inr p" using start by (auto simp: parse_def)
  have "normal ?pieces = cs"
    using split_on_render [OF assms(1)] normal_id [OF assms(1), of "[]"]
    by (simp add: normal_def normal_step_def)
  with parse_ok [OF p] p show ?thesis by auto
qed

section \<open>The mount table\<close>

definition entry_for :: "MountEntry \<Rightarrow> u8 list list \<Rightarrow> bool" where
  "entry_for e cs \<longleftrightarrow> (\<forall>c\<in>set cs. component_ok c) \<and> me_component_count e = length cs
     \<and> me_path_length e = length (render cs) \<and> me_path_length e \<le> length (me_path e)
     \<and> take (me_path_length e) (me_path e) = render cs"

lemma entry_for_inj: "entry_for e cs \<Longrightarrow> entry_for e ds \<Longrightarrow> cs = ds"
  unfolding entry_for_def using render_inj by metis

lemma take_take_prefix: "take n xs = ys \<Longrightarrow> m \<le> n \<Longrightarrow> take m xs = take m ys"
  by (metis min.absorb1 take_take)

lemma match_step_iff:
  assumes "take k path = render ds" and "k = length (render ds)" and "length path = n" and "k \<le> n"
    and "me_path e = path" and "me_path_length e \<le> n"
  shows "match_step e (length ds, d) k = Inr k' \<longleftrightarrow>
    k' = length (render (ds @ [d])) \<and> k' \<le> me_path_length e \<and> take k' path = render (ds @ [d])"
proof -
  have split: "take (k + j) path = render ds @ take j (drop k path)" for j
    using assms(1) by (simp add: take_add)
  have sep: "take (k + Suc j) path = render ds @ slash # take j (drop (Suc k) path)"
    if "k < n" "path ! k = slash" for j
    using that split [of "Suc j"] assms(3) by (simp add: Cons_nth_drop_Suc [symmetric])
  have sep': "take (k + Suc j) path = render ds @ path ! k # take j (drop (Suc k) path)" if "k < n" for j
    using that split [of "Suc j"] assms(3) by (simp add: Cons_nth_drop_Suc [symmetric])
  show ?thesis
  proof (cases "ds = []")
    case True
    then show ?thesis
      using assms split [of "length d"] by (auto simp: match_step_def Let_def render_snoc)
  next
    case False
    then show ?thesis
      using assms sep' [of "length d"]
      by (auto simp: match_step_def Let_def render_snoc get_at_def split: if_splits)
  qed
qed

lemma match_loop_iff:
  assumes "length (me_path e) = n" and "0 < n" and "me_path e ! 0 = slash" and "me_path_length e \<le> n"
  shows "fold_result (match_step e) (enumerate 0 ds) 1 = Inr k \<longleftrightarrow>
    k = length (render ds) \<and> (ds \<noteq> [] \<longrightarrow> k \<le> me_path_length e) \<and> take k (me_path e) = render ds"
proof (induction ds arbitrary: k rule: rev_induct)
  case Nil
  then show ?case using assms by (auto simp: take_Suc_conv_app_nth)
next
  case (snoc d ds)
  have "fold_result (match_step e) (enumerate 0 (ds @ [d])) 1 = Inr k \<longleftrightarrow>
      (\<exists>j. fold_result (match_step e) (enumerate 0 ds) 1 = Inr j \<and> match_step e (length ds, d) j = Inr k)"
    by (simp add: enumerate_append_eq fold_result_append result_simps)
  also have "\<dots> \<longleftrightarrow> (\<exists>j. j = length (render ds) \<and> (ds \<noteq> [] \<longrightarrow> j \<le> me_path_length e)
      \<and> take j (me_path e) = render ds \<and> match_step e (length ds, d) j = Inr k)"
    by (simp only: snoc conj_assoc)
  also have "\<dots> \<longleftrightarrow> k = length (render (ds @ [d])) \<and> k \<le> me_path_length e \<and> take k (me_path e) = render (ds @ [d])"
    (is "?l \<longleftrightarrow> ?r")
  proof
    assume ?l
    then obtain j where j: "j = length (render ds)" "take j (me_path e) = render ds"
      "match_step e (length ds, d) j = Inr k" by auto
    have "j \<le> n" using arg_cong [OF j(2), of length] j(1) assms(1) by (simp add: min_def split: if_splits)
    from match_step_iff [OF j(2,1) assms(1) this refl assms(4)] j(3) show ?r by auto
  next
    assume r: ?r
    let ?j = "length (render ds)"
    have le: "?j \<le> k" using r by (simp add: render_snoc)
    have "take ?j (me_path e) = render ds"
      using take_take_prefix [of k "me_path e" "render (ds @ [d])" ?j] r le by (auto simp: render_snoc)
    moreover have "?j \<le> n" using le r assms(4) by simp
    ultimately show ?l using match_step_iff [OF _ refl assms(1) _ refl assms(4), of ds d k] r le by auto
  qed
  finally show ?case by simp
qed

lemma mount_matches_iff:
  assumes "entry_for e cs" and "path_ok p" and "length cs \<le> component_count p"
  shows "mount_matches e p \<longleftrightarrow> take (length cs) (components p) = cs"
proof -
  let ?ds = "take (length cs) (components p)"
  have n: "0 < length (me_path e)" "me_path e ! 0 = slash" "me_path_length e \<le> length (me_path e)"
  proof -
    have r: "take (me_path_length e) (me_path e) = render cs" "me_path_length e = length (render cs)"
      using assms(1) by (auto simp: entry_for_def)
    show le: "me_path_length e \<le> length (me_path e)" using assms(1) by (simp add: entry_for_def)
    show "0 < length (me_path e)" using le r(2) length_render(1) [of cs] by linarith
    have "render cs ! 0 = slash" by (cases cs) (auto simp: render_def)
    then show "me_path e ! 0 = slash" using r length_render(1) [of cs] by (metis nth_take)
  qed
  have ds: "\<forall>c\<in>set ?ds. component_ok c" using assms(2) by (auto simp: path_ok_def dest: in_set_takeD)
  have len: "length ?ds = length cs" using assms(2,3) by (simp add: components_def path_ok_def)
  show ?thesis
  proof (cases "cs = []")
    case True
    then show ?thesis using assms(1) n by (simp add: mount_matches_def entry_for_def)
  next
    case False
    then have "mount_matches e p \<longleftrightarrow> me_path_length e = length (render ?ds)
        \<and> take (me_path_length e) (me_path e) = render ?ds"
    proof -
      have "me_component_count e = length cs" using assms(1) by (simp add: entry_for_def)
      with False have "mount_matches e p \<longleftrightarrow>
          fold_result (match_step e) (enumerate 0 ?ds) 1 = Inr (me_path_length e)"
        by (simp add: mount_matches_def)
      then show ?thesis unfolding match_loop_iff [OF refl n] by auto
    qed
    also have "\<dots> \<longleftrightarrow> render cs = render ?ds" using assms(1) unfolding entry_for_def by metis
    also have "\<dots> \<longleftrightarrow> ?ds = cs"
    proof -
      have "\<forall>c\<in>set cs. component_ok c" using assms(1) by (simp add: entry_for_def)
      from render_inj [OF this ds] show ?thesis by auto
    qed
    finally show ?thesis .
  qed
qed

lemma max_by_key_None [simp]: "max_by_key f xs = None \<longleftrightarrow> xs = []"
  by (cases xs) (auto split: option.splits)

lemma max_by_key_Some: "max_by_key f xs = Some x \<Longrightarrow> x \<in> set xs \<and> (\<forall>y\<in>set xs. f y \<le> f x)"
  by (induction xs arbitrary: x) (force split: option.splits if_splits)+

lemma set_flatten [simp]: "x \<in> set (flatten xs) \<longleftrightarrow> Some x \<in> set xs"
  by (force simp: flatten_def split: option.splits)

lemma flatten_append [simp]: "flatten (xs @ ys) = flatten xs @ flatten ys"
  by (simp add: flatten_def)

lemma flatten_Cons [simp]: "flatten (None # xs) = flatten xs" "flatten (Some x # xs) = x # flatten xs"
  by (simp_all add: flatten_def)

text \<open>The table represents a finite map from mount points to file systems.\<close>

definition mounts :: "MountTable \<Rightarrow> (u8 list list \<Rightarrow> u16 option) \<Rightarrow> bool" where
  "mounts t f \<longleftrightarrow>
     (\<forall>e. Some e \<in> set (entries t) \<longrightarrow> (\<exists>cs. entry_for e cs \<and> f cs = Some (me_filesystem_id e)))
     \<and> (\<forall>cs fs. f cs = Some fs \<longrightarrow> (\<exists>e. Some e \<in> set (entries t) \<and> entry_for e cs \<and> me_filesystem_id e = fs))
     \<and> mount_count t = length (flatten (entries t))"

lemma mounts_new: "mounts (MountTable_new n) (\<lambda>_. None)"
  by (auto simp: mounts_def MountTable_new_def) (induction n, auto simp: flatten_def)

lemma flatten_update_None:
  "i < length xs \<Longrightarrow> xs ! i = None \<Longrightarrow> length (flatten (xs[i := Some x])) = Suc (length (flatten xs))"
  by (subst (2) id_take_nth_drop [of i xs], simp, simp only: upd_conv_take_nth_drop) simp

lemma set_update_None:
  "i < length xs \<Longrightarrow> xs ! i = None \<Longrightarrow> Some x \<in> set (xs[i := Some e]) \<longleftrightarrow> x = e \<or> Some x \<in> set xs"
  by (subst (2) id_take_nth_drop [of i xs], simp, simp only: upd_conv_take_nth_drop) auto

lemma mounts_same_bytes:
  assumes "mounts t f" and "path_ok p"
  shows "(\<exists>e\<in>set (flatten (entries t)). take (me_path_length e) (me_path e) = render (components p))
    \<longleftrightarrow> f (components p) \<noteq> None"
proof
  assume "\<exists>e\<in>set (flatten (entries t)). take (me_path_length e) (me_path e) = render (components p)"
  then obtain e where e: "Some e \<in> set (entries t)" "take (me_path_length e) (me_path e) = render (components p)"
    by auto
  obtain cs where "entry_for e cs" "f cs = Some (me_filesystem_id e)"
    using assms(1) e(1) unfolding mounts_def by blast
  moreover from this e(2) have "cs = components p"
    using assms(2) by (intro render_inj) (auto simp: entry_for_def path_ok_def)
  ultimately show "f (components p) \<noteq> None" by simp
next
  assume "f (components p) \<noteq> None"
  then obtain e where "Some e \<in> set (entries t)" "entry_for e (components p)"
    using assms(1) unfolding mounts_def by blast
  then show "\<exists>e\<in>set (flatten (entries t)). take (me_path_length e) (me_path e) = render (components p)"
    by (intro bexI [of _ e]) (auto simp: entry_for_def)
qed

lemma mount_extends:
  assumes rep: "mounts t f" and ok: "path_ok p" and new: "f (components p) = None"
    and slot: "position (\<lambda>e. e = None) (entries t) = Some i" and fits: "length (render (components p)) \<le> MAX_MOUNT_PATH_BYTES"
  shows "mounts (t\<lparr>entries := (entries t)[i := Some \<lparr>me_path = render (components p) @
        replicate (MAX_MOUNT_PATH_BYTES - length (render (components p))) 0,
        me_path_length = length (render (components p)),
        me_component_count = component_count p, me_filesystem_id = fs\<rparr>],
      mount_count := mount_count t + 1\<rparr>) (f(components p \<mapsto> fs))"
    (is "mounts (t\<lparr>entries := (entries t)[i := Some ?e], mount_count := _\<rparr>) _")
proof -
  have i: "i < length (entries t)" "entries t ! i = None" using slot by (auto simp: position_Some)
  have e: "entry_for ?e (components p)"
    using ok fits by (simp add: entry_for_def path_ok_def components_def)
  have new': "Some x \<in> set ((entries t)[i := Some ?e]) \<longleftrightarrow> x = ?e \<or> Some x \<in> set (entries t)" for x
    using i by (rule set_update_None)
  have other: "cs \<noteq> components p" if "f cs \<noteq> None" for cs using that new by auto
  show ?thesis
    unfolding mounts_def
  proof (intro conjI allI impI)
    fix x assume "Some x \<in> set (entries (t\<lparr>entries := (entries t)[i := Some ?e], mount_count := mount_count t + 1\<rparr>))"
    then have "x = ?e \<or> Some x \<in> set (entries t)" using new' by simp
    then show "\<exists>cs. entry_for x cs \<and> (f(components p \<mapsto> fs)) cs = Some (me_filesystem_id x)"
    proof
      assume "x = ?e" with e show ?thesis by (intro exI [of _ "components p"]) simp
    next
      assume "Some x \<in> set (entries t)"
      then obtain cs where "entry_for x cs" "f cs = Some (me_filesystem_id x)"
        using rep unfolding mounts_def by blast
      then show ?thesis using other [of cs] by (intro exI [of _ cs]) simp
    qed
  next
    fix cs g assume g: "(f(components p \<mapsto> fs)) cs = Some g"
    show "\<exists>x. Some x \<in> set (entries (t\<lparr>entries := (entries t)[i := Some ?e], mount_count := mount_count t + 1\<rparr>))
        \<and> entry_for x cs \<and> me_filesystem_id x = g"
    proof (cases "cs = components p")
      case True
      then show ?thesis using e g new' by (intro exI [of _ ?e]) simp
    next
      case False
      then have "f cs = Some g" using g by simp
      then obtain x where "Some x \<in> set (entries t)" "entry_for x cs" "me_filesystem_id x = g"
        using rep unfolding mounts_def by blast
      then show ?thesis using new' by (intro exI [of _ x]) simp
    qed
  next
    show "mount_count (t\<lparr>entries := (entries t)[i := Some ?e], mount_count := mount_count t + 1\<rparr>)
        = length (flatten (entries (t\<lparr>entries := (entries t)[i := Some ?e], mount_count := mount_count t + 1\<rparr>)))"
      using rep i flatten_update_None [of i "entries t" ?e] by (simp add: mounts_def)
  qed
qed

section \<open>Properties of paths and mounts\<close>

text \<open>\<^bold>\<open>C7\<close>. \<open>AbsolutePath::parse\<close> normalises: what it accepts has at most sixteen components, each
  non-empty, at most 255 bytes, free of separators and NUL and different from dot and dot-dot, and
  they are the components of the reference normalisation of the input, in which dot-dot at the
  root stays at the root.\<close>

theorem parse_normalises:
  assumes "parse path = Inr p"
  shows "path_ok p \<and> components p = normal (split_on (\<lambda>b. b = slash) path)"
  using assms by (rule parse_ok)

theorem parse_normalises_witness:
  "\<exists>p. parse [0x2f, 0x61, 0x2f, 0x2e, 0x2f, 0x2e, 0x2e, 0x2f, 0x2e, 0x2e, 0x2f, 0x2f, 0x62] = Inr p
    \<and> components p = [[0x62]]"
proof -
  let ?path = "[0x2f, 0x61, 0x2f, 0x2e, 0x2f, 0x2e, 0x2e, 0x2f, 0x2e, 0x2e, 0x2f, 0x2f, 0x62] :: u8 list"
  have "parse ?path = Inr \<lparr>ap_array = [0x62] # replicate 15 [], component_count = 1\<rparr>" by code_simp
  moreover have "normal (split_on (\<lambda>b. b = slash) ?path) = [[0x62]]" by code_simp
  ultimately show ?thesis using parse_normalises [of ?path] by auto
qed

text \<open>The canonical byte form of a path is faithful: when it fits the buffer, parsing it again
  succeeds and gives the same components, and two accepted paths have the same canonical bytes
  only when they have the same components.\<close>

lemma canonical_path_roundtrip:
  assumes "path_ok p" and "canonical_path p = Inr (bytes, len)"
  shows "(\<exists>q. parse (take len bytes) = Inr q \<and> components q = components p)
    \<and> (\<forall>q bytes' len'. path_ok q \<longrightarrow> canonical_path q = Inr (bytes', len') \<longrightarrow>
         take len' bytes' = take len bytes \<longrightarrow> components q = components p)"
proof -
  have comps: "\<forall>c\<in>set (components p). component_ok c" "length (components p) \<le> MAX_PATH_COMPONENTS"
    using assms(1) by (auto simp: path_ok_def components_def)
  have bytes: "take l b = render (components r)" if "canonical_path r = Inr (b, l)" for r b l
    using that by (auto simp: canonical_path_ok split: if_splits)
  have "components q = components p"
    if "path_ok q" "canonical_path q = Inr (b, l)" "take l b = take len bytes" for q b l
  proof (rule render_inj)
    show "\<forall>c\<in>set (components q). component_ok c" using that(1) by (simp add: path_ok_def)
    show "render (components q) = render (components p)"
      using bytes [OF that(2)] bytes [OF assms(2)] that(3) by simp
  qed (rule comps(1))
  moreover have "\<exists>q. parse (take len bytes) = Inr q \<and> components q = components p"
    using parse_render [OF comps] bytes [OF assms(2)] by simp
  ultimately show ?thesis by blast
qed

definition example_dev :: AbsolutePath where
  "example_dev = \<lparr>ap_array = [0x64] # [0x65] # replicate 14 [], component_count = 2\<rparr>"

lemma example_dev_ok: "path_ok example_dev"
  by (simp add: path_ok_def example_dev_def components_def component_ok_def MAX_PATH_COMPONENTS_def)

text \<open>\<^bold>\<open>C8\<close>. The mount table implements a finite map from mount points to file systems. Mounting a
  fresh path adds exactly one binding; a path already mounted is refused as \<open>DuplicateMount\<close>, a
  path longer than the buffer as \<open>MountPathTooLong\<close>, a full table as \<open>MountTableFull\<close>, and a
  refused mount changes nothing.\<close>

theorem mount_refines_map_update:
  assumes "mounts t f" and "path_ok p" and "mount p fs t = (result, t')"
  shows "(result = Inr () \<and> f (components p) = None \<and> mounts t' (f(components p \<mapsto> fs)))
    \<or> (t' = t \<and> result = Inl MountPathTooLong \<and> MAX_MOUNT_PATH_BYTES < length (render (components p)))
    \<or> (t' = t \<and> result = Inl DuplicateMount \<and> f (components p) \<noteq> None)
    \<or> (t' = t \<and> result = Inl MountTableFull \<and> f (components p) = None \<and> None \<notin> set (entries t))"
proof (cases "length (render (components p)) \<le> MAX_MOUNT_PATH_BYTES")
  case False
  then show ?thesis using assms(3) by (auto simp: mount_def canonical_path_ok)
next
  case True
  let ?dup = "\<exists>e\<in>set (flatten (entries t)). take (me_path_length e) (me_path e) = render (components p)"
  have dup: "?dup \<longleftrightarrow> f (components p) \<noteq> None" using assms(1,2) by (rule mounts_same_bytes)
  show ?thesis
  proof (cases "f (components p)")
    case (Some g)
    then show ?thesis using True assms(3) dup by (simp add: mount_def canonical_path_ok)
  next
    case None
    note new = this
    show ?thesis
    proof (cases "position (\<lambda>e. e = None) (entries t)")
      case None
      then have "None \<notin> set (entries t)" by (auto simp: position_None)
      then show ?thesis using True assms(3) dup new None by (auto simp: mount_def canonical_path_ok)
    next
      case (Some i)
      from mount_extends [OF assms(1,2) new Some True, of fs] show ?thesis
        using True assms(3) dup new Some by (auto simp: mount_def canonical_path_ok)
    qed
  qed
qed

theorem mount_refines_map_update_witness:
  "fst (mount example_dev 7 (MountTable_new 2)) = Inr ()
   \<and> mounts (snd (mount example_dev 7 (MountTable_new 2))) [[[0x64], [0x65]] \<mapsto> 7]"
proof -
  have c: "components example_dev = [[0x64], [0x65]]" by (simp add: components_def example_dev_def)
  have full: "None \<in> set (entries (MountTable_new 2))" by (simp add: MountTable_new_def)
  have short: "\<not> MAX_MOUNT_PATH_BYTES < length (render (components example_dev))"
    by (simp add: c render_def MAX_MOUNT_PATH_BYTES_def)
  from mount_refines_map_update [OF mounts_new [of 2] example_dev_ok, of 7
      "fst (mount example_dev 7 (MountTable_new 2))" "snd (mount example_dev 7 (MountTable_new 2))"]
    full short c show ?thesis by simp
qed

text \<open>The entries that resolution chooses from.\<close>

definition candidates :: "AbsolutePath \<Rightarrow> MountTable \<Rightarrow> MountEntry list" where
  "candidates p t =
     filter (\<lambda>e. mount_matches e p) (filter (\<lambda>e. me_component_count e \<le> component_count p) (flatten (entries t)))"

lemma candidates_iff:
  assumes rep: "mounts t f" and ok: "path_ok p"
  shows "e \<in> set (candidates p t) \<longleftrightarrow> Some e \<in> set (entries t) \<and>
      me_component_count e \<le> component_count p \<and> entry_for e (take (me_component_count e) (components p))"
proof -
  have "mount_matches e p \<longleftrightarrow> entry_for e (take (me_component_count e) (components p))"
    if mem: "Some e \<in> set (entries t)" and le: "me_component_count e \<le> component_count p"
  proof -
    obtain cs where cs: "entry_for e cs" using rep mem unfolding mounts_def by blast
    then have n: "length cs = me_component_count e" by (simp add: entry_for_def)
    have "mount_matches e p \<longleftrightarrow> take (length cs) (components p) = cs"
      using cs ok by (rule mount_matches_iff) (simp add: n le)
    then show ?thesis unfolding n using cs entry_for_inj by metis
  qed
  then show ?thesis by (auto simp: candidates_def)
qed

lemma candidate_exists:
  assumes rep: "mounts t f" and ok: "path_ok p"
    and le: "n \<le> component_count p" and some: "f (take n (components p)) \<noteq> None"
  shows "\<exists>e\<in>set (candidates p t). me_component_count e = n"
proof -
  from some obtain e where e: "Some e \<in> set (entries t)" "entry_for e (take n (components p))"
    using rep unfolding mounts_def by blast
  moreover have "me_component_count e = n"
    using e(2) le ok by (simp add: entry_for_def components_def path_ok_def)
  ultimately show ?thesis using le by (intro bexI [of _ e]) (simp_all only: candidates_iff [OF rep ok])
qed

text \<open>\<^bold>\<open>C9\<close>. Resolution is by longest prefix: the answer names the file system mounted at a prefix of
  the path and no longer prefix of the path is mounted; \<open>MountNotFound\<close> is returned exactly when no
  prefix, the root included, is mounted.\<close>

theorem resolve_finds_longest_prefix:
  assumes rep: "mounts t f" and ok: "path_ok p"
  shows "case resolve p t of
      Inr r \<Rightarrow> matched_components r \<le> component_count p
        \<and> f (take (matched_components r) (components p)) = Some (mr_filesystem_id r)
        \<and> (\<forall>n. matched_components r < n \<and> n \<le> component_count p \<longrightarrow> f (take n (components p)) = None)
    | Inl e \<Rightarrow> e = MountNotFound \<and> (\<forall>n \<le> component_count p. f (take n (components p)) = None)"
proof -
  note found = candidate_exists [OF assms] and mem = candidates_iff [OF assms]
  show ?thesis
  proof (cases "max_by_key me_component_count (candidates p t)")
    case None
    then have "candidates p t = []" by simp
    then show ?thesis using found None by (fastforce simp: resolve_def candidates_def)
  next
    case (Some e)
    from max_by_key_Some [OF Some] have e: "e \<in> set (candidates p t)"
      "\<forall>x\<in>set (candidates p t). me_component_count x \<le> me_component_count e"
      by auto
    let ?cs = "take (me_component_count e) (components p)"
    from e(1) have e': "Some e \<in> set (entries t)" "me_component_count e \<le> component_count p" "entry_for e ?cs"
      unfolding mem by auto
    obtain cs where "entry_for e cs" "f cs = Some (me_filesystem_id e)"
      using rep e'(1) unfolding mounts_def by blast
    then have "f ?cs = Some (me_filesystem_id e)" using entry_for_inj e'(3) by blast
    moreover have "f (take n (components p)) = None" if "me_component_count e < n" "n \<le> component_count p" for n
      using found [OF that(2)] e(2) that(1) by fastforce
    ultimately show ?thesis using Some e'(2) by (simp add: resolve_def candidates_def)
  qed
qed

theorem resolve_finds_longest_prefix_witness:
  "case resolve example_dev (snd (mount example_dev 7 (MountTable_new 2))) of
      Inr r \<Rightarrow> [[[0x64], [0x65]] \<mapsto> 7] (take (matched_components r) [[0x64], [0x65]]) = Some (mr_filesystem_id r)
    | Inl e \<Rightarrow> False"
proof -
  let ?f = "[[[0x64], [0x65]] \<mapsto> 7] :: u8 list list \<Rightarrow> u16 option"
  have c: "components example_dev = [[0x64], [0x65]]" "component_count example_dev = 2"
    by (simp_all add: components_def example_dev_def)
  have "mounts (MountTable_new 2) (\<lambda>_. None)" by (rule mounts_new)
  then have "mounts (snd (mount example_dev 7 (MountTable_new 2))) ?f"
    using mount_extends [OF mounts_new example_dev_ok, of 2 0 7] c
    by (simp add: mount_def canonical_path_ok MountTable_new_def numeral_2_eq_2 render_def
        MAX_MOUNT_PATH_BYTES_def flatten_def)
  from resolve_finds_longest_prefix [OF this example_dev_ok] c show ?thesis
    by (auto split: sum.splits)
qed

section \<open>Descriptor tables\<close>

definition lookup :: "FileDescriptorTable \<Rightarrow> u32 \<Rightarrow> Descriptor option" where
  "lookup t fd = (case descriptor fd t of Inl _ \<Rightarrow> None | Inr i \<Rightarrow> Some (descriptors t ! i))"

lemma descriptor_eq:
  "descriptor fd t = (if 3 \<le> fd \<and> unat fd - 3 < length (descriptors t) \<and> d_open (descriptors t ! (unat fd - 3))
     then Inr (unat fd - 3) else Inl BadFileDescriptor)"
  by (auto simp: descriptor_def descriptor_index_def checked_sub_def FIRST_FILE_DESCRIPTOR_def unat_sub)

lemma put_descriptor_simps [simp]: "descriptors (put_descriptor i d t) = (descriptors t)[i := d]"
  by (simp add: put_descriptor_def)

lemma lookup_eq:
  "lookup t fd = (if 3 \<le> fd \<and> unat fd - 3 < length (descriptors t) \<and> d_open (descriptors t ! (unat fd - 3))
     then Some (descriptors t ! (unat fd - 3)) else None)"
  by (simp add: lookup_def descriptor_eq)

lemma descriptor_lookup:
  "descriptor fd t = Inr i \<Longrightarrow> lookup t fd = Some (descriptors t ! i) \<and> i = unat fd - 3 \<and> 3 \<le> fd
     \<and> i < length (descriptors t) \<and> d_open (descriptors t ! i)"
  by (auto simp: lookup_eq descriptor_eq split: if_splits)

lemma unat_ge_3: "3 \<le> (fd :: u32) \<longleftrightarrow> 3 \<le> unat fd"
  by (simp add: word_le_nat_alt)

lemma fd_index_eq: "3 \<le> x \<Longrightarrow> 3 \<le> fd \<Longrightarrow> unat x - 3 = unat fd - 3 \<longleftrightarrow> x = (fd :: u32)"
  unfolding unat_ge_3 word_unat_eq_iff by arith

lemma lookup_put:
  assumes "descriptor fd t = Inr i"
  shows "lookup (put_descriptor i d t) = (lookup t)(fd := if d_open d then Some d else None)"
proof (rule ext)
  fix x
  have i: "i = unat fd - 3" "3 \<le> fd" "i < length (descriptors t)" using descriptor_lookup [OF assms] by auto
  have "unat x - 3 = i \<longleftrightarrow> x = fd" if "3 \<le> x"
    using that i(1,2) fd_index_eq by blast
  then show "lookup (put_descriptor i d t) x = ((lookup t)(fd := if d_open d then Some d else None)) x"
    using i by (cases "3 \<le> x"; cases "x = fd") (auto simp: lookup_eq nth_update_if)
qed

lemma open_object_cases:
  obtains (full) "open_object obj mode t = (Inl FileTableFull, t)"
    "position (\<lambda>d. \<not> d_open d) (descriptors t) = None \<or> 2 ^ 32 - 3 \<le> length (descriptors t)"
  | (ok) i fd where "position (\<lambda>d. \<not> d_open d) (descriptors t) = Some i" "unat fd = i + 3"
    "open_object obj mode t = (Inr fd, put_descriptor i
       \<lparr>d_object = obj, d_offset = 0, d_access_mode = mode, d_open = True\<rparr> t)"
proof (cases "position (\<lambda>d. \<not> d_open d) (descriptors t)")
  case None
  then show ?thesis by (intro full) (simp_all add: open_object_def)
next
  case (Some i)
  then have i: "i < length (descriptors t)" by (simp add: position_less)
  show ?thesis
  proof (cases "2 ^ 32 \<le> i \<or> checked_add FIRST_FILE_DESCRIPTOR (word_of_nat i) = None")
    case True
    then have "2 ^ 32 - 3 \<le> length (descriptors t)"
      using i by (auto simp: checked_add_def FIRST_FILE_DESCRIPTOR_def unat_of_nat take_bit_nat_eq_self split: if_splits)
    then show ?thesis using True Some by (intro full) (auto simp: open_object_def)
  next
    case False
    then obtain fd where fd: "checked_add FIRST_FILE_DESCRIPTOR (word_of_nat i) = Some fd" and "i < 2 ^ 32" by auto
    then have "unat fd = i + 3"
      using checked_add_unat [OF fd] by (simp add: FIRST_FILE_DESCRIPTOR_def unat_of_nat take_bit_nat_eq_self)
    then show ?thesis using Some fd False by (intro ok [of i fd]) (simp_all add: open_object_def)
  qed
qed

lemma lookup_open:
  assumes "open_object obj mode t = (Inr fd, t')"
  shows "lookup t fd = None \<and> lookup t' = (lookup t)(fd \<mapsto> \<lparr>d_object = obj, d_offset = 0, d_access_mode = mode, d_open = True\<rparr>)"
proof (cases rule: open_object_cases [of obj mode t])
  case full
  then show ?thesis using assms by simp
next
  case (ok i fd')
  then have fd: "fd' = fd" "unat fd = i + 3" "t' = put_descriptor i \<lparr>d_object = obj, d_offset = 0, d_access_mode = mode, d_open = True\<rparr> t"
    using assms by auto
  have i: "i < length (descriptors t)" "\<not> d_open (descriptors t ! i)" using ok(1) by (auto simp: position_Some)
  have "unat x - 3 = i \<longleftrightarrow> x = fd" if "3 \<le> x" for x
    using that fd_index_eq [OF that, of fd] fd(2) unat_ge_3 [of fd] by simp
  then show ?thesis
    using i fd unat_ge_3 [of fd] by (auto simp: lookup_eq fun_eq_iff nth_update_if)
qed

definition fresh_descriptor :: "Descriptor \<Rightarrow> bool" where
  "fresh_descriptor d \<longleftrightarrow> d_open d \<and> d_offset d = 0"

definition open_descriptor :: "Descriptor \<Rightarrow> FileDescriptorTable \<Rightarrow> (VfsError + u32) \<times> FileDescriptorTable" where
  "open_descriptor d t = open_object (d_object d) (d_access_mode d) t"

interpretation fds: handle_map lookup open_descriptor fd_close fresh_descriptor
proof
  fix d t fd t' assume "fresh_descriptor d" and "open_descriptor d t = (Inr fd, t')"
  with lookup_open [of "d_object d" "d_access_mode d" t fd t']
  show "lookup t fd = None \<and> lookup t' = (lookup t)(fd \<mapsto> d)"
    by (cases d) (simp add: open_descriptor_def fresh_descriptor_def)
next
  fix d t e t' assume "open_descriptor d t = (Inl e, t')"
  then show "lookup t' = lookup t"
    by (cases rule: open_object_cases [of "d_object d" "d_access_mode d" t]) (simp_all add: open_descriptor_def)
next
  fix fd t u t' assume "fd_close fd t = (Inr u, t')"
  then show "lookup t fd \<noteq> None \<and> lookup t' = (lookup t)(fd := None)"
    by (cases "descriptor fd t")
      (auto simp: fd_close_def lookup_put Descriptor_EMPTY_def dest: descriptor_lookup)
next
  fix fd t e t' assume "fd_close fd t = (Inl e, t')"
  then show "lookup t fd = None \<and> lookup t' = lookup t"
    by (cases "descriptor fd t") (auto simp: fd_close_def lookup_def)
qed

subsection \<open>Offsets\<close>

definition offset_ok :: "Descriptor \<Rightarrow> bool" where
  "offset_ok d \<longleftrightarrow> (case d_object d of File node \<Rightarrow> d_offset d \<le> node_size node | _ \<Rightarrow> True)"

definition offsets_ok :: "FileDescriptorTable \<Rightarrow> bool" where
  "offsets_ok t \<longleftrightarrow> (\<forall>d\<in>set (descriptors t). offset_ok d)"

text \<open>The operations of the table; \<open>advance_object\<close> is for objects whose size the caller knows,
  that is, for anything but a file.\<close>

inductive fd_step :: "FileDescriptorTable \<Rightarrow> FileDescriptorTable \<Rightarrow> bool" where
  step_open: "fd_step t (snd (open_object obj mode t))"
| step_open_events: "fd_step t (snd (open_desktop_events gen t))"
| step_set_size: "fd_step t (snd (set_size fd sz t))"
| step_advance: "fd_step t (snd (advance fd n t))"
| step_seek: "fd_step t (snd (seek fd off t))"
| step_close: "fd_step t (snd (fd_close fd t))"
| step_set_object_offset: "fd_step t (snd (set_object_offset fd off t))"
| step_advance_object: "(\<forall>d. lookup t fd = Some d \<longrightarrow> \<not> is_file (d_object d)) \<Longrightarrow>
    fd_step t (snd (advance_object fd n sz t))"
| step_close_all: "fd_step t (snd (close_all t))"

lemma offsets_ok_put: "offsets_ok t \<Longrightarrow> offset_ok d \<Longrightarrow> offsets_ok (put_descriptor i d t)"
  using set_update_subset_insert [of "descriptors t" i d] by (auto simp: offsets_ok_def)

lemma offset_ok_EMPTY [simp]: "offset_ok Descriptor_EMPTY"
  by (simp add: offset_ok_def Descriptor_EMPTY_def)

lemma offsets_ok_nth: "offsets_ok t \<Longrightarrow> descriptor fd t = Inr i \<Longrightarrow> offset_ok (descriptors t ! i)"
  by (auto simp: offsets_ok_def dest: descriptor_lookup)

lemma open_object_offsets: "offsets_ok t \<Longrightarrow> offsets_ok (snd (open_object obj mode t))"
  by (cases rule: open_object_cases [of obj mode t])
    (auto intro!: offsets_ok_put simp: offset_ok_def split: DescriptorObject.splits)

lemma open_desktop_events_eq:
  "open_desktop_events gen t = (case open_object DesktopEvents ReadOnly t of
     (Inl e, t1) \<Rightarrow> (Inl e, t1)
   | (Inr fd, t1) \<Rightarrow> (Inr fd, put_descriptor (unat fd - 3)
       \<lparr>d_object = DesktopEvents, d_offset = gen, d_access_mode = ReadOnly, d_open = True\<rparr> t1))"
proof (cases rule: open_object_cases [of DesktopEvents ReadOnly t])
  case full
  then show ?thesis by (simp add: open_desktop_events_def)
next
  case (ok i fd)
  then have "i < length (descriptors t)" by (simp add: position_less)
  then show ?thesis using ok(2,3) unat_ge_3 [of fd] by (simp add: open_desktop_events_def descriptor_eq)
qed

lemma fd_step_offsets:
  assumes "fd_step t t'" and ok: "offsets_ok t"
  shows "offsets_ok t'"
  using assms(1)
proof cases
  case (step_open obj mode)
  then show ?thesis using open_object_offsets ok by simp
next
  case (step_open_events gen)
  then show ?thesis using open_object_offsets [OF ok, of DesktopEvents ReadOnly]
    by (auto simp: open_desktop_events_eq offset_ok_def split: prod.splits sum.splits intro!: offsets_ok_put)
next
  case (step_set_object_offset fd off)
  then show ?thesis using ok
    by (cases "descriptor fd t")
      (auto simp: set_object_offset_def Let_def is_file_def offset_ok_def
        split: DescriptorObject.splits intro!: offsets_ok_put)
next
  case (step_advance_object fd n sz)
  have "\<not> is_file (d_object (descriptors t ! i))" if "descriptor fd t = Inr i" for i
    using step_advance_object(2) descriptor_lookup [OF that] by simp
  then have "offset_ok ((descriptors t ! i)\<lparr>d_offset := off\<rparr>)" if "descriptor fd t = Inr i" for i off
    using that by (auto simp: is_file_def offset_ok_def split: DescriptorObject.splits)
  then show ?thesis using ok step_advance_object(1)
    by (cases "descriptor fd t") (auto simp: advance_object_def Let_def split: sum.splits intro!: offsets_ok_put)
next
  case step_close_all
  then show ?thesis using ok by (auto simp: close_all_def offsets_ok_def)
next
  case (step_set_size fd sz)
  then show ?thesis using ok
    by (cases "descriptor fd t")
      (auto simp: set_size_def Let_def offset_ok_def split: DescriptorObject.splits intro!: offsets_ok_put)
next
  case (step_advance fd n)
  then show ?thesis using ok
    by (cases "descriptor fd t")
      (auto simp: advance_def Let_def offset_ok_def split: DescriptorObject.splits sum.splits intro!: offsets_ok_put)
next
  case (step_seek fd off)
  then show ?thesis using ok
    by (cases "descriptor fd t")
      (auto simp: seek_def Let_def offset_ok_def split: DescriptorObject.splits intro!: offsets_ok_put)
next
  case (step_close fd)
  then show ?thesis using ok by (cases "descriptor fd t") (auto simp: fd_close_def intro!: offsets_ok_put)
qed

lemma fd_steps_offsets: "fd_step\<^sup>*\<^sup>* t t' \<Longrightarrow> offsets_ok t \<Longrightarrow> offsets_ok t'"
  by (induction rule: rtranclp_induct) (auto intro: fd_step_offsets)

section \<open>Properties of descriptor tables\<close>

text \<open>Opening takes the lowest free descriptor: the new descriptor is 3 plus the first free
  slot, it was not in use, it now refers to the object at offset zero, and every other descriptor
  is unchanged. The table refuses with \<open>FileTableFull\<close>, unchanged, exactly when no slot is free.\<close>

lemma open_takes_lowest_free_descriptor:
  assumes "length (descriptors t) < 2 ^ 32 - 3" and "open_object obj mode t = (result, t')"
  shows "(\<exists>fd. result = Inr fd \<and> 3 \<le> fd \<and> lookup t fd = None
      \<and> (\<forall>x. 3 \<le> x \<longrightarrow> x < fd \<longrightarrow> lookup t x \<noteq> None)
      \<and> lookup t' = (lookup t)(fd \<mapsto> \<lparr>d_object = obj, d_offset = 0, d_access_mode = mode, d_open = True\<rparr>))
    \<or> (result = Inl FileTableFull \<and> t' = t \<and> (\<forall>d\<in>set (descriptors t). d_open d))"
proof (cases rule: open_object_cases [of obj mode t])
  case full
  then show ?thesis using assms by (auto simp: position_None)
next
  case (ok i fd)
  then have r: "result = Inr fd" using assms(2) by simp
  have used: "\<forall>j<i. d_open (descriptors t ! j)" "i < length (descriptors t)"
    using ok(1) by (auto simp: position_Some)
  have "lookup t x \<noteq> None" if "3 \<le> x" "x < fd" for x
  proof -
    have "unat x - 3 < i" using that ok(2) by (simp add: unat_ge_3 word_less_nat_alt)
    then show ?thesis using used that(1) by (simp add: lookup_eq)
  qed
  then show ?thesis using lookup_open [of obj mode t fd t'] assms(2) r ok(2) unat_ge_3 [of fd] by auto
qed

text \<open>Files are never accessed past their end: from a fresh table, after any operations, every
  read and write window lies inside the file the descriptor names (offset plus length at most its
  size, in exact arithmetic), is no longer than requested, and an append window starts at the end
  of the file and does not overflow the 64-bit offset.\<close>

lemma windows_stay_within_files:
  assumes "fd_step\<^sup>*\<^sup>* (FileDescriptorTable_new n) t"
  shows "(\<forall>w. read_window fd requested t = Inr w \<longrightarrow>
        unat (rw_offset w) + rw_length w \<le> unat (node_size (rw_node w)) \<and> rw_length w \<le> requested)
    \<and> (\<forall>w. write_window fd requested t = Inr w \<longrightarrow>
        unat (ww_offset w) + ww_length w \<le> unat (node_size (ww_node w)) \<and> ww_length w \<le> requested)
    \<and> (\<forall>w. append_window fd requested t = Inr w \<longrightarrow>
        ww_offset w = node_size (ww_node w) \<and> ww_length w = requested
        \<and> unat (ww_offset w) + ww_length w < 2 ^ 64)"
proof -
  have "offsets_ok (FileDescriptorTable_new n)" by (simp add: offsets_ok_def FileDescriptorTable_new_def)
  with assms have ok: "offsets_ok t" by (rule fd_steps_offsets)
  have ok': "unat (d_offset (descriptors t ! i)) \<le> unat (node_size node)"
    if "descriptor fd t = Inr i" "d_object (descriptors t ! i) = File node" for i node
    using offsets_ok_nth [OF ok that(1)] that(2) by (simp add: offset_ok_def word_le_nat_alt)
  have read: "unat (rw_offset w) + rw_length w \<le> unat (node_size (rw_node w)) \<and> rw_length w \<le> requested"
    if "read_window fd requested t = Inr w" for w
    using that ok'
    by (auto simp: read_window_def Let_def result_simps unat_saturating_sub split: if_splits DescriptorObject.splits)
      force
  have writes: "unat (ww_offset w) + ww_length w \<le> unat (node_size (ww_node w)) \<and> ww_length w \<le> requested"
    if "write_window fd requested t = Inr w" for w
    using that ok'
    by (auto simp: write_window_def Let_def result_simps unat_saturating_sub split: if_splits DescriptorObject.splits)
      force
  have "ww_offset w = node_size (ww_node w) \<and> ww_length w = requested \<and> unat (ww_offset w) + ww_length w < 2 ^ 64"
    if "append_window fd requested t = Inr w" for w
    using that
    by (auto simp: append_window_def Let_def result_simps checked_add_def unat_of_nat take_bit_nat_eq_self
        split: if_splits DescriptorObject.splits)
  with read writes show ?thesis by blast
qed

text \<open>Descriptors are independent: an operation on one descriptor leaves what every other
  descriptor of the table refers to, its offset and its access mode as they were.\<close>

lemma descriptor_operations_are_local:
  assumes "x \<noteq> fd"
  shows "lookup (snd (set_size fd sz t)) x = lookup t x
    \<and> lookup (snd (advance fd n t)) x = lookup t x
    \<and> lookup (snd (seek fd off t)) x = lookup t x
    \<and> lookup (snd (fd_close fd t)) x = lookup t x
    \<and> lookup (snd (advance_object fd n sz t)) x = lookup t x
    \<and> lookup (snd (set_object_offset fd off t)) x = lookup t x"
proof -
  have put: "lookup (put_descriptor i d t) x = lookup t x" if "descriptor fd t = Inr i" for i d
    using lookup_put [OF that] assms by simp
  show ?thesis
    by (cases "descriptor fd t")
      (simp_all add: set_size_def advance_def seek_def fd_close_def advance_object_def set_object_offset_def
        Let_def put split: DescriptorObject.split sum.split)
qed

end
