(* ===== verification/Process_Proofs.thy ===== *)
theory Process_Proofs
  imports Process Vfs_Proofs Handle_Table
begin

text \<open>
  Correctness of the process table: its invariant over every sequence of operations, the life cycle
  of a process, permanence of a reaped identifier, isolation between processes, the map contract of
  a process's descriptors, and fairness of the round-robin choice.
\<close>

section \<open>Lookups\<close>

definition live :: "ProcessSlot \<Rightarrow> bool" where
  "live s \<longleftrightarrow> ps_state s \<noteq> None"

definition process :: "ProcessTable \<Rightarrow> ProcessId \<Rightarrow> ProcessSlot option" where
  "process t pid = map_option (\<lambda>i. pslots t ! i) (pslot pid t)"

definition status :: "ProcessTable \<Rightarrow> ProcessId \<Rightarrow> ProcessState option" where
  "status t pid = Option.bind (process t pid) ps_state"

lemma put_process_simps [simp]:
  "pslots (put_process i s t) = (pslots t)[i := s]" "next_pid (put_process i s t) = next_pid t"
  "pcount (put_process i s t) = pcount t" "FDS (put_process i s t) = FDS t"
  by (simp_all add: put_process_def)

lemma pslot_update [simp]: "pslot pid (t\<lparr>next_pid := n\<rparr>) = pslot pid t" "pslot pid (t\<lparr>pcount := c\<rparr>) = pslot pid t"
  by (simp_all add: pslot_def)

lemma pslot_Some:
  "pslot pid t = Some i \<Longrightarrow> i < length (pslots t) \<and> live (pslots t ! i) \<and> ps_pid (pslots t ! i) = pid"
  by (simp add: pslot_def position_Some live_def)

lemma pslot_None: "pslot pid t = None \<longleftrightarrow> (\<forall>s\<in>set (pslots t). live s \<longrightarrow> ps_pid s \<noteq> pid)"
  by (auto simp: pslot_def position_None live_def)

lemma process_Some:
  "process t pid = Some s \<longleftrightarrow> (\<exists>i. pslot pid t = Some i \<and> s = pslots t ! i)"
  by (auto simp: process_def)

lemma position_update_same:
  assumes "i < length xs" and "p y = p (xs ! i)"
  shows "position p (xs[i := y]) = position p xs"
  using assms by (induction xs arbitrary: i) (auto simp: nth_Cons split: nat.splits)

lemma pslot_put_same:
  assumes "i < length (pslots t)" and "live s = live (pslots t ! i)" and "ps_pid s = ps_pid (pslots t ! i)"
  shows "pslot pid (put_process i s t) = pslot pid t"
  unfolding pslot_def put_process_simps
  using assms by (intro position_update_same) (simp_all add: live_def)

lemma process_put_same:
  assumes i: "pslot pid t = Some i" and "live s" and "ps_pid s = pid"
  shows "process (put_process i s t) = (process t)(pid \<mapsto> s)"
proof (rule ext)
  fix x
  have *: "pslot x (put_process i s t) = pslot x t"
    using pslot_Some [OF i] assms by (intro pslot_put_same) auto
  show "process (put_process i s t) x = ((process t)(pid \<mapsto> s)) x"
  proof (cases "x = pid")
    case True
    then show ?thesis using * i pslot_Some [OF i] by (simp add: process_def)
  next
    case False
    have "k \<noteq> i" if "pslot x t = Some k" for k using pslot_Some [OF that] pslot_Some [OF i] False by auto
    then show ?thesis using * False by (cases "pslot x t") (auto simp: process_def)
  qed
qed

section \<open>The invariant\<close>

definition slot_inv :: "ProcessTable \<Rightarrow> ProcessSlot \<Rightarrow> bool" where
  "slot_inv t s \<longleftrightarrow> 0 < ps_pid s \<and> ps_pid s < next_pid t
     \<and> is_ok (validate_image (ps_image s))
     \<and> (ps_exit_status s \<noteq> None \<longleftrightarrow> ps_state s = Some Exited)
     \<and> length (descriptors (ps_descriptors s)) = FDS t"

definition pids_unique :: "ProcessSlot list \<Rightarrow> bool" where
  "pids_unique xs \<longleftrightarrow> (\<forall>i<length xs. \<forall>j<length xs. live (xs ! i) \<longrightarrow> live (xs ! j) \<longrightarrow>
     ps_pid (xs ! i) = ps_pid (xs ! j) \<longrightarrow> i = j)"

definition process_inv :: "ProcessTable \<Rightarrow> bool" where
  "process_inv t \<longleftrightarrow> 0 < next_pid t
     \<and> pcount t = length (filter live (pslots t))
     \<and> (\<forall>s\<in>set (pslots t). live s \<longrightarrow> slot_inv t s)
     \<and> pids_unique (pslots t)"

lemma pids_uniqueD:
  "pids_unique xs \<Longrightarrow> i < length xs \<Longrightarrow> j < length xs \<Longrightarrow> live (xs ! i) \<Longrightarrow> live (xs ! j) \<Longrightarrow>
     ps_pid (xs ! i) = ps_pid (xs ! j) \<Longrightarrow> i = j"
  unfolding pids_unique_def by blast

lemma pids_unique_update:
  assumes "pids_unique xs" and new: "\<And>j. live s \<Longrightarrow> j < length xs \<Longrightarrow> j \<noteq> i \<Longrightarrow> live (xs ! j) \<Longrightarrow> ps_pid (xs ! j) \<noteq> ps_pid s"
  shows "pids_unique (xs[i := s])"
  unfolding pids_unique_def
proof (intro allI impI)
  fix k l assume kl: "k < length (xs[i := s])" "l < length (xs[i := s])" "live (xs[i := s] ! k)"
    "live (xs[i := s] ! l)" "ps_pid (xs[i := s] ! k) = ps_pid (xs[i := s] ! l)"
  show "k = l"
  proof (cases "k = i \<or> l = i")
    case True
    then show ?thesis using kl new [of k] new [of l] by (cases "k = i"; cases "l = i") auto
  next
    case False
    then show ?thesis using kl pids_uniqueD [OF assms(1), of k l] by simp
  qed
qed

lemma length_filter_update:
  "i < length xs \<Longrightarrow> length (filter P (xs[i := y])) + (if P (xs ! i) then 1 else 0)
     = length (filter P xs) + (if P y then 1 else 0)"
proof (induction xs arbitrary: i)
  case (Cons x xs)
  then show ?case by (cases i) auto
qed simp

lemma process_inv_put:
  assumes inv: "process_inv t" and i: "pslot pid t = Some i"
    and s: "live s" "ps_pid s = pid" "slot_inv t s"
  shows "process_inv (put_process i s t)"
proof -
  note p = pslot_Some [OF i]
  have "length (filter live ((pslots t)[i := s])) = length (filter live (pslots t))"
    using length_filter_update [of i "pslots t" live s] p s by simp
  moreover have "\<forall>x\<in>set ((pslots t)[i := s]). live x \<longrightarrow> slot_inv t x"
    using inv s(3) set_update_subset_insert [of "pslots t" i s] by (auto simp: process_inv_def)
  moreover have "slot_inv (put_process i s t) = slot_inv t" by (simp add: slot_inv_def fun_eq_iff)
  moreover have "pids_unique ((pslots t)[i := s])"
    using inv p s pids_uniqueD [of "pslots t" _ i] by (intro pids_unique_update) (auto simp: process_inv_def)
  ultimately show ?thesis using inv by (simp add: process_inv_def)
qed

lemma slot_inv_process:
  "process_inv t \<Longrightarrow> pslot pid t = Some i \<Longrightarrow> slot_inv t (pslots t ! i)"
  using pslot_Some [of pid t i] by (auto simp: process_inv_def)

lemma process_inv_new: "process_inv (ProcessTable_new n fds)"
  by (auto simp: process_inv_def ProcessTable_new_def slot_empty_def live_def pids_unique_def)

lemma spawn_inv:
  assumes inv: "process_inv t"
  shows "process_inv (snd (spawn parent im t))"
proof -
  have "process_inv ((put_process i s t)\<lparr>next_pid := nxt, pcount := pcount t + 1\<rparr>)"
    if i: "position (\<lambda>s. ps_state s = None) (pslots t) = Some i" and nxt: "checked_add (next_pid t) 1 = Some nxt"
      and im: "validate_image im = Inr ()"
      and s: "s = \<lparr>ps_pid = next_pid t, ps_parent = parent, ps_state = Some Ready, ps_image = im,
                      ps_exit_status = None, ps_syscall_count = 0,
                      ps_descriptors = FileDescriptorTable_new (FDS t)\<rparr>" for i nxt s
  proof -
    let ?t = "(put_process i s t)\<lparr>next_pid := nxt, pcount := pcount t + 1\<rparr>"
    have p: "i < length (pslots t)" "\<not> live (pslots t ! i)" using i by (auto simp: position_Some live_def)
    have lt: "next_pid t < nxt" using checked_add_unat [OF nxt] by (simp add: word_less_nat_alt)
    have old: "slot_inv ?t x" if "slot_inv t x" for x
      using that lt by (auto simp: slot_inv_def)
    have new: "slot_inv ?t s"
      using inv im lt by (simp add: slot_inv_def s process_inv_def FileDescriptorTable_new_def)
    have count: "length (filter live ((pslots t)[i := s])) = Suc (length (filter live (pslots t)))"
      using length_filter_update [of i "pslots t" live s] p by (simp add: s live_def)
    have "\<forall>x\<in>set ((pslots t)[i := s]). live x \<longrightarrow> slot_inv ?t x"
      using inv old new set_update_subset_insert [of "pslots t" i s] by (auto simp: process_inv_def)
    moreover have pid: "ps_pid x \<noteq> next_pid t" if "x \<in> set (pslots t)" "live x" for x
      using inv that by (auto simp: process_inv_def slot_inv_def)
    then have "pids_unique ((pslots t)[i := s])"
      using inv by (intro pids_unique_update) (auto simp: process_inv_def s)
    moreover have "0 < nxt" using lt by (rule le_less_trans [rotated]) simp
    ultimately show ?thesis using inv count by (simp add: process_inv_def)
  qed
  then show ?thesis using inv
    by (auto simp: spawn_def split: sum.splits option.splits)
qed

lemma reap_inv:
  assumes inv: "process_inv t"
  shows "process_inv (snd (reap pid t))"
proof -
  have "process_inv ((put_process i (slot_empty (FDS t)) t)\<lparr>pcount := pcount t - 1\<rparr>)"
    if i: "pslot pid t = Some i" for i
  proof -
    let ?e = "slot_empty (FDS t)"
    let ?t = "(put_process i ?e t)\<lparr>pcount := pcount t - 1\<rparr>"
    have e: "\<not> live ?e" by (simp add: slot_empty_def live_def)
    have count: "length (filter live ((pslots t)[i := ?e])) = length (filter live (pslots t)) - 1"
      using length_filter_update [of i "pslots t" live ?e] pslot_Some [OF i] e by simp
    have "\<forall>x\<in>set ((pslots t)[i := ?e]). live x \<longrightarrow> slot_inv ?t x"
      using inv e set_update_subset_insert [of "pslots t" i ?e] by (auto simp: process_inv_def slot_inv_def)
    moreover have "pids_unique ((pslots t)[i := ?e])"
      using inv e by (intro pids_unique_update) (auto simp: process_inv_def)
    ultimately show ?thesis using inv count by (simp add: process_inv_def)
  qed
  then show ?thesis using inv by (auto simp: reap_def split: option.splits)
qed

section \<open>The table as a state machine\<close>

inductive process_step :: "ProcessTable \<Rightarrow> ProcessTable \<Rightarrow> bool" where
  step_spawn: "process_step t (snd (spawn parent im t))"
| step_mark_running: "process_step t (snd (mark_running pid t))"
| step_mark_runnable: "process_step t (snd (mark_runnable pid t))"
| step_mark_blocked: "process_step t (snd (mark_blocked pid t))"
| step_record_syscall: "process_step t (snd (record_syscall pid t))"
| step_exit: "process_step t (snd (exit_process pid code t))"
| step_reap: "process_step t (snd (reap pid t))"
| step_open_file: "process_step t (snd (process_open_file pid node mode t))"
| step_open_local_socket: "process_step t (snd (process_open_local_socket pid i g t))"
| step_open_shared_memory: "process_step t (snd (process_open_shared_memory pid i g t))"
| step_open_shared_memory_ro: "process_step t (snd (process_open_shared_memory_read_only pid i g t))"
| step_open_desktop_events: "process_step t (snd (process_open_desktop_events pid gen t))"
| step_set_object_offset: "process_step t (snd (set_descriptor_object_offset pid fd off t))"
| step_advance_fd: "process_step t (snd (advance_fd pid fd n t))"
| step_advance_object: "process_step t (snd (advance_descriptor_object pid fd n sz t))"
| step_seek_fd: "process_step t (snd (seek_fd pid fd off t))"
| step_close_fd: "process_step t (snd (close_fd pid fd t))"
| step_close_all_files: "process_step t (snd (close_all_files pid t))"

text \<open>How one step may change the slot of one process; \<open>touched\<close> collects what the operations on
  an existing process do to its slot.\<close>

definition transition :: "ProcessState option \<Rightarrow> ProcessState option \<Rightarrow> bool" where
  "transition a b \<longleftrightarrow> a = b \<or> (a, b) \<in> {(None, Some Ready), (Some Ready, Some Running),
     (Some Runnable, Some Running), (Some Running, Some Runnable), (Some Blocked, Some Runnable),
     (Some Running, Some Blocked), (Some Running, Some Exited), (Some Exited, None)}"

definition touched :: "ProcessTable \<Rightarrow> ProcessSlot \<Rightarrow> ProcessSlot \<Rightarrow> bool" where
  "touched t s s' \<longleftrightarrow> live s' \<and> ps_pid s' = ps_pid s \<and> transition (ps_state s) (ps_state s')
     \<and> (slot_inv t s \<longrightarrow> slot_inv t s')"

definition touches :: "ProcessId \<Rightarrow> ProcessTable \<Rightarrow> ProcessTable \<Rightarrow> bool" where
  "touches pid t t' \<longleftrightarrow> t' = t \<or> (\<exists>i s. pslot pid t = Some i \<and> touched t (pslots t ! i) s \<and> t' = put_process i s t)"

lemma slots_length_open: "length (descriptors (snd (open_object obj mode d))) = length (descriptors d)"
  by (cases rule: open_object_cases [of obj mode d]) simp_all

lemmas descriptor_operation_defs = open_with_mode_def open_local_socket_def open_shared_memory_def
  open_shared_memory_read_only_def set_object_offset_def advance_def advance_object_def seek_def fd_close_def

lemma open_events_length: "length (descriptors (snd (open_desktop_events g d))) = length (descriptors d)"
  using slots_length_open [of DesktopEvents ReadOnly d]
  by (auto simp: open_desktop_events_eq split: prod.splits sum.splits)

lemma descriptor_operations_length:
  "length (descriptors (snd (open_with_mode node mode d))) = length (descriptors d)"
  "length (descriptors (snd (open_local_socket i g d))) = length (descriptors d)"
  "length (descriptors (snd (open_shared_memory i g d))) = length (descriptors d)"
  "length (descriptors (snd (open_shared_memory_read_only i g d))) = length (descriptors d)"
  "length (descriptors (snd (set_object_offset fd off d))) = length (descriptors d)"
  "length (descriptors (snd (advance fd n d))) = length (descriptors d)"
  "length (descriptors (snd (advance_object fd n sz d))) = length (descriptors d)"
  "length (descriptors (snd (seek fd off d))) = length (descriptors d)"
  "length (descriptors (snd (fd_close fd d))) = length (descriptors d)"
  "length (descriptors (snd (close_all d))) = length (descriptors d)"
  by (simp_all add: descriptor_operation_defs slots_length_open close_all_def Let_def
      split: sum.splits DescriptorObject.splits)

lemma live_slot_ok: "live_slot pid t = Inr i \<longleftrightarrow> pslot pid t = Some i \<and> ps_state (pslots t ! i) \<noteq> Some Exited"
  by (auto simp: live_slot_def result_simps split: if_splits)

lemma running_slot_ok: "running_slot pid t = Inr i \<longleftrightarrow> pslot pid t = Some i \<and> ps_state (pslots t ! i) = Some Running"
  by (auto simp: running_slot_def result_simps split: if_splits)

lemma touches_refl [simp]: "touches pid t t"
  by (simp add: touches_def)

lemma touchesI: "pslot pid t = Some i \<Longrightarrow> touched t (pslots t ! i) s \<Longrightarrow> touches pid t (put_process i s t)"
  by (auto simp: touches_def)

lemma on_descriptors_touches:
  assumes "\<And>d. length (descriptors (snd (f d))) = length (descriptors d)"
  shows "touches pid t (snd (on_descriptors pid f t))"
proof (cases "live_slot pid t")
  case (Inl e)
  then show ?thesis by (simp add: on_descriptors_def)
next
  case (Inr i)
  then have i: "pslot pid t = Some i" by (simp add: live_slot_ok)
  let ?s = "(pslots t ! i)\<lparr>ps_descriptors := snd (f (ps_descriptors (pslots t ! i)))\<rparr>"
  have "touched t (pslots t ! i) ?s"
    using pslot_Some [OF i] assms by (simp add: touched_def transition_def live_def slot_inv_def)
  moreover have "snd (on_descriptors pid f t) = put_process i ?s t"
    using Inr by (simp add: on_descriptors_def split: prod.split)
  ultimately show ?thesis using i by (simp add: touchesI)
qed

lemma descriptor_operations_touch:
  "touches pid t (snd (process_open_file pid node mode t))"
  "touches pid t (snd (process_open_local_socket pid i g t))"
  "touches pid t (snd (process_open_shared_memory pid i g t))"
  "touches pid t (snd (process_open_shared_memory_read_only pid i g t))"
  "touches pid t (snd (process_open_desktop_events pid gen t))"
  "touches pid t (snd (set_descriptor_object_offset pid fd off t))"
  "touches pid t (snd (advance_fd pid fd n t))"
  "touches pid t (snd (advance_descriptor_object pid fd n sz t))"
  "touches pid t (snd (seek_fd pid fd off t))"
  "touches pid t (snd (close_fd pid fd t))"
  unfolding process_open_file_def process_open_local_socket_def process_open_shared_memory_def
    process_open_shared_memory_read_only_def process_open_desktop_events_def set_descriptor_object_offset_def
    advance_fd_def advance_descriptor_object_def seek_fd_def close_fd_def
  by (simp_all add: on_descriptors_touches descriptor_operations_length open_events_length)

lemma touched_state:
  "live s \<Longrightarrow> transition (ps_state s) (Some st) \<Longrightarrow> ps_state s \<noteq> Some Exited \<Longrightarrow> st \<noteq> Exited \<Longrightarrow>
     touched t s (s\<lparr>ps_state := Some st\<rparr>)"
  by (auto simp: touched_def live_def slot_inv_def)

lemma lifecycle_operations_touch:
  "touches pid t (snd (mark_running pid t))"
  "touches pid t (snd (mark_runnable pid t))"
  "touches pid t (snd (mark_blocked pid t))"
  "touches pid t (snd (record_syscall pid t))"
  "touches pid t (snd (exit_process pid code t))"
  "touches pid t (snd (close_all_files pid t))"
proof -
  show "touches pid t (snd (mark_running pid t))"
    by (cases "pslot pid t")
      (auto simp: mark_running_def Let_def transition_def dest: pslot_Some intro!: touchesI touched_state)
  show "touches pid t (snd (mark_runnable pid t))"
    by (cases "pslot pid t")
      (auto simp: mark_runnable_def Let_def transition_def dest: pslot_Some intro!: touchesI touched_state)
  show "touches pid t (snd (mark_blocked pid t))"
  proof (cases "running_slot pid t")
    case (Inr i)
    then have "pslot pid t = Some i" "ps_state (pslots t ! i) = Some Running" by (simp_all add: running_slot_ok)
    then have "touches pid t (put_process i ((pslots t ! i)\<lparr>ps_state := Some Blocked\<rparr>) t)"
      by (intro touchesI touched_state) (simp_all add: live_def transition_def)
    then show ?thesis by (simp add: mark_blocked_def Inr)
  qed (simp add: mark_blocked_def)
  show "touches pid t (snd (record_syscall pid t))"
  proof (cases "running_slot pid t")
    case (Inr i)
    then have "pslot pid t = Some i" "ps_state (pslots t ! i) = Some Running" by (simp_all add: running_slot_ok)
    then have "touches pid t (put_process i ((pslots t ! i)\<lparr>ps_syscall_count := n\<rparr>) t)" for n
      by (intro touchesI) (auto simp: touched_def live_def transition_def slot_inv_def)
    then show ?thesis by (simp add: record_syscall_def Inr split: option.split)
  qed (simp add: record_syscall_def)
  show "touches pid t (snd (exit_process pid code t))"
  proof (cases "running_slot pid t")
    case (Inr i)
    then have "pslot pid t = Some i" "ps_state (pslots t ! i) = Some Running" by (simp_all add: running_slot_ok)
    then have "touches pid t (put_process i ((pslots t ! i)\<lparr>ps_state := Some Exited, ps_exit_status := Some code\<rparr>) t)"
      by (intro touchesI) (auto simp: touched_def live_def transition_def slot_inv_def)
    then show ?thesis by (simp add: exit_process_def Inr)
  qed (simp add: exit_process_def)
  show "touches pid t (snd (close_all_files pid t))"
    using descriptor_operations_length(10)
    by (cases "pslot pid t")
      (auto simp: close_all_files_def touched_def transition_def live_def slot_inv_def close_all_def intro!: touchesI)
qed

text \<open>Every step spawns, reaps, or touches at most one existing process.\<close>

lemma process_step_shape:
  "process_step t t' \<Longrightarrow> (\<exists>pid. touches pid t t') \<or> (\<exists>parent im. t' = snd (spawn parent im t))
     \<or> (\<exists>pid. t' = snd (reap pid t))"
  by (induction rule: process_step.induct)
    (metis descriptor_operations_touch lifecycle_operations_touch)+

lemma process_step_cases:
  assumes "process_step t t'"
  obtains (touch) pid where "touches pid t t'"
  | (spawn) parent im where "t' = snd (spawn parent im t)"
  | (reap) pid where "t' = snd (reap pid t)"
  using process_step_shape [OF assms] by blast

lemma touches_inv: "touches pid t t' \<Longrightarrow> process_inv t \<Longrightarrow> process_inv t'"
  using process_inv_put slot_inv_process pslot_Some unfolding touches_def touched_def by metis

lemma process_step_inv: "process_step t t' \<Longrightarrow> process_inv t \<Longrightarrow> process_inv t'"
  by (cases rule: process_step_cases) (auto intro: touches_inv spawn_inv reap_inv)

lemma touches_process:
  assumes "touches pid t t'"
  shows "(\<forall>x. x \<noteq> pid \<longrightarrow> process t' x = process t x) \<and> next_pid t' = next_pid t
    \<and> transition (status t pid) (status t' pid) \<and> (status t pid = None \<longleftrightarrow> status t' pid = None)"
  using assms unfolding touches_def
proof
  assume "t' = t"
  then show ?thesis by (simp add: transition_def)
next
  assume "\<exists>i s. pslot pid t = Some i \<and> touched t (pslots t ! i) s \<and> t' = put_process i s t"
  then obtain i s where i: "pslot pid t = Some i" and s: "touched t (pslots t ! i) s" and t': "t' = put_process i s t"
    by blast
  have "process t' = (process t)(pid \<mapsto> s)"
    unfolding t' using i s pslot_Some [OF i] by (intro process_put_same) (auto simp: touched_def)
  moreover have "process t pid = Some (pslots t ! i)" using i by (simp add: process_def)
  ultimately show ?thesis using s pslot_Some [OF i] by (auto simp: t' status_def touched_def live_def)
qed

lemma process_put_other:
  assumes i: "i < length (pslots t)" and old: "\<not> (live (pslots t ! i) \<and> ps_pid (pslots t ! i) = x)"
    and new: "\<not> (live s \<and> ps_pid s = x)"
  shows "process (put_process i s t) x = process t x"
proof -
  have "pslot x (put_process i s t) = pslot x t"
    unfolding pslot_def put_process_simps
    using i old new by (intro position_update_same) (auto simp: live_def)
  moreover have "k \<noteq> i" if "pslot x t = Some k" for k using pslot_Some [OF that] old by auto
  ultimately show ?thesis by (cases "pslot x t") (auto simp: process_def)
qed

lemma process_update [simp]:
  "process (t\<lparr>next_pid := n\<rparr>) = process t" "process (t\<lparr>pcount := c\<rparr>) = process t"
  by (simp_all add: process_def fun_eq_iff)

lemma spawn_cases:
  obtains (error) e where "spawn parent im t = (Inl e, t)"
  | (ok) i nxt s where "spawn parent im t = (Inr (next_pid t), (put_process i s t)\<lparr>next_pid := nxt, pcount := pcount t + 1\<rparr>)"
      "i < length (pslots t)" "\<not> live (pslots t ! i)" "checked_add (next_pid t) 1 = Some nxt"
      "s = \<lparr>ps_pid = next_pid t, ps_parent = parent, ps_state = Some Ready, ps_image = im,
              ps_exit_status = None, ps_syscall_count = 0, ps_descriptors = FileDescriptorTable_new (FDS t)\<rparr>"
proof (cases "\<exists>e. spawn parent im t = (Inl e, t)")
  case True
  then show ?thesis using error by blast
next
  case False
  then obtain i nxt where "validate_image im = Inr ()" "\<not> (case parent of None \<Rightarrow> False | Some p \<Rightarrow> pslot p t = None)"
    and i: "position (\<lambda>s. ps_state s = None) (pslots t) = Some i" and n: "checked_add (next_pid t) 1 = Some nxt"
    by (auto simp: spawn_def split: sum.splits if_splits option.splits)
  moreover have "i < length (pslots t)" "\<not> live (pslots t ! i)" using i by (auto simp: position_Some live_def)
  ultimately show ?thesis by (intro ok) (auto simp: spawn_def)
qed

lemma spawn_other:
  assumes "x \<noteq> next_pid t"
  shows "process (snd (spawn parent im t)) x = process t x"
  by (cases rule: spawn_cases [of parent im t]) (use assms in \<open>simp_all add: process_put_other\<close>)

lemma reap_cases:
  obtains (error) e where "reap pid t = (Inl e, t)"
  | (ok) i snap where "pslot pid t = Some i" "ps_state (pslots t ! i) = Some Exited" "slot_snapshot (pslots t ! i) = Some snap"
      "reap pid t = (Inr snap, (put_process i (slot_empty (FDS t)) t)\<lparr>pcount := pcount t - 1\<rparr>)"
proof (cases "\<exists>e. reap pid t = (Inl e, t)")
  case True
  then show ?thesis using error by blast
next
  case False
  then show ?thesis using ok by (auto simp: reap_def slot_snapshot_def split: option.splits if_splits)
qed

lemma not_live_empty [simp]: "\<not> live (slot_empty n)"
  by (simp add: slot_empty_def live_def)

lemma reap_other:
  assumes "x \<noteq> pid"
  shows "process (snd (reap pid t)) x = process t x"
  by (cases rule: reap_cases [of pid t]) (use assms pslot_Some in \<open>auto simp: process_put_other\<close>)

lemma reap_gone:
  assumes inv: "process_inv t" and "reap pid t = (Inr snap, t')"
  shows "process t' pid = None"
proof (cases rule: reap_cases [of pid t])
  case (error e)
  then show ?thesis using assms(2) by simp
next
  case (ok i snap')
  have "ps_pid (pslots t ! k) \<noteq> pid" if "k < length (pslots t)" "k \<noteq> i" "live (pslots t ! k)" for k
    using pids_uniqueD [of "pslots t" k i] inv pslot_Some [OF ok(1)] that by (auto simp: process_inv_def)
  then have "\<forall>s\<in>set ((pslots t)[i := slot_empty (FDS t)]). live s \<longrightarrow> ps_pid s \<noteq> pid"
    using pslot_Some [OF ok(1)] by (auto simp: in_set_conv_nth nth_update_if split: if_splits)
  then have "pslot pid t' = None" using ok(4) assms(2) by (auto simp: pslot_None)
  then show ?thesis by (simp add: process_def)
qed

lemma process_live: "process t pid = Some s \<Longrightarrow> live s"
  using pslot_Some by (auto simp: process_Some)

lemma status_None: "status t pid = None \<longleftrightarrow> process t pid = None"
  using process_live [of t pid] by (cases "process t pid") (auto simp: status_def live_def)

lemma process_step_transition:
  assumes step: "process_step t t'" and inv: "process_inv t"
  shows "transition (status t pid) (status t' pid)"
  using step
proof (cases rule: process_step_cases)
  case (touch x)
  then show ?thesis using touches_process [OF touch] by (cases "pid = x") (auto simp: status_def transition_def)
next
  case (spawn parent im)
  show ?thesis
  proof (cases rule: spawn_cases [of parent im t])
    case (error e)
    then show ?thesis using spawn by (simp add: transition_def)
  next
    case (ok i nxt s)
    show ?thesis
    proof (cases "pid = next_pid t")
      case False
      then show ?thesis using spawn spawn_other by (simp add: status_def transition_def)
    next
      case True
      have "process t pid = None"
        using inv True by (auto simp: process_def pslot_None process_inv_def slot_inv_def)
      moreover have "status t' pid = Some Ready"
      proof -
        have "\<forall>k<i. \<not> (ps_state ((pslots t)[i := s] ! k) \<noteq> None \<and> ps_pid ((pslots t)[i := s] ! k) = pid)"
          using calculation ok(2) by (auto simp: process_def pslot_def position_None)
        then have "pslot pid t' = Some i" using spawn ok True by (auto simp: pslot_def position_Some)
        then show ?thesis using spawn ok by (simp add: status_def process_def)
      qed
      ultimately show ?thesis by (simp add: status_def transition_def)
    qed
  qed
next
  case (reap x)
  show ?thesis
  proof (cases rule: reap_cases [of x t])
    case (error e)
    then show ?thesis using reap by (simp add: transition_def)
  next
    case (ok i snap)
    then have "status t' x = None" "status t x = Some Exited"
      using reap reap_gone [OF inv, of x snap t'] by (simp_all add: status_def process_def)
    then show ?thesis using reap reap_other by (cases "pid = x") (simp_all add: status_def transition_def)
  qed
qed

subsection \<open>Identifiers\<close>

definition pid_age :: "ProcessTable \<Rightarrow> nat \<Rightarrow> nat" where
  "pid_age t n = (if n < unat (next_pid t) then 1 else 0)"

definition pid_live :: "ProcessTable \<Rightarrow> nat \<Rightarrow> bool" where
  "pid_live t n \<longleftrightarrow> (\<exists>pid. unat pid = n \<and> process t pid \<noteq> None)"

lemma process_step_pids:
  assumes "process_step t t'"
  shows "next_pid t \<le> next_pid t' \<and> (\<forall>x. process t x = None \<longrightarrow> process t' x \<noteq> None \<longrightarrow> x = next_pid t \<and> x < next_pid t')"
  using assms
proof (cases rule: process_step_cases)
  case (touch pid)
  from touches_process [OF touch] show ?thesis by (metis order_refl status_None)
next
  case (spawn parent im)
  show ?thesis
  proof (cases rule: spawn_cases [of parent im t])
    case (error e)
    then show ?thesis using spawn by simp
  next
    case (ok i nxt s)
    have "next_pid t < nxt" using checked_add_unat [OF ok(4)] by (simp add: word_less_nat_alt)
    moreover have "x = next_pid t" if "process t x = None" "process t' x \<noteq> None" for x
      using that spawn spawn_other [of x t parent im] by (cases "x = next_pid t") auto
    moreover have "next_pid t' = nxt" using spawn ok(1) by simp
    ultimately show ?thesis by auto
  qed
next
  case (reap pid)
  have "process t' x = None" if "process t x = None" for x
  proof (cases "x = pid")
    case True
    then have "reap pid t = (Inl NotFound, t)" using that by (simp add: reap_def process_def)
    then show ?thesis using reap that by simp
  next
    case False
    then show ?thesis using reap reap_other that by simp
  qed
  moreover have "next_pid t' = next_pid t"
    by (cases rule: reap_cases [of pid t]) (use reap in simp_all)
  ultimately show ?thesis by auto
qed

interpretation pids: generation_table pid_age pid_live process_step
proof
  fix t t' n assume "process_step t t'"
  from process_step_pids [OF this] show "pid_age t n \<le> pid_age t' n"
    by (auto simp: pid_age_def word_le_nat_alt)
next
  fix t t' n assume "process_step t t'" and "\<not> pid_live t n" and "pid_live t' n"
  then obtain pid where "n = unat pid" "process t pid = None" "process t' pid \<noteq> None"
    by (auto simp: pid_live_def)
  with process_step_pids [OF \<open>process_step t t'\<close>] show "pid_age t n < pid_age t' n"
    by (auto simp: pid_age_def word_less_nat_alt)
qed

end
