(* ===== verification/Process_Properties.thy ===== *)
theory Process_Properties
  imports Process_Proofs
begin

text \<open>
  What the kernel relies on in the process table: its invariant in every reachable state, the life
  cycle, permanence of reaped identifiers, isolation, descriptors as a map, and the round-robin
  order in which processes are chosen.
\<close>

section \<open>The round-robin order\<close>

definition ready_pids :: "ProcessTable \<Rightarrow> ProcessId set" where
  "ready_pids t = ps_pid ` {s \<in> set (pslots t). schedulable s}"

text \<open>The processes chosen in \<open>n\<close> successive scheduling decisions on an unchanging table.\<close>

fun rounds :: "nat \<Rightarrow> ProcessTable \<Rightarrow> ProcessId \<Rightarrow> ProcessId list" where
  "rounds 0 t pid = []"
| "rounds (Suc n) t pid = (case next_schedulable_after pid t of
     None \<Rightarrow> [] | Some q \<Rightarrow> q # rounds n t q)"

lemma list_min_Min: "list_min xs = (if xs = [] then None else Some (Min (set xs)))"
  by (cases xs) (simp_all add: Min.set_eq_fold del: set_simps)

lemma finite_ready [simp]: "finite (ready_pids t)"
  by (simp add: ready_pids_def)

lemma next_schedulable_eq:
  "next_schedulable_after pid t =
    (if {s \<in> ready_pids t. pid < s} \<noteq> {} then Some (Min {s \<in> ready_pids t. pid < s})
     else if ready_pids t \<noteq> {} then Some (Min (ready_pids t)) else None)"
proof -
  have above: "set (map ps_pid (filter (\<lambda>s. pid < ps_pid s) (filter schedulable (pslots t)))) = {s \<in> ready_pids t. pid < s}"
    and all: "set (map ps_pid (filter schedulable (pslots t))) = ready_pids t"
    by (auto simp: ready_pids_def)
  have "(map ps_pid (filter (\<lambda>s. pid < ps_pid s) (filter schedulable (pslots t))) = []) = ({s \<in> ready_pids t. pid < s} = {})"
    by (simp only: above [symmetric] set_empty)
  moreover have "(map ps_pid (filter schedulable (pslots t)) = []) = (ready_pids t = {})"
    by (simp only: all [symmetric] set_empty)
  ultimately show ?thesis unfolding next_schedulable_after_def list_min_Min above all by auto
qed

lemma sorted_list_Min:
  "finite A \<Longrightarrow> A \<noteq> {} \<Longrightarrow> sorted_list_of_set A = Min A # sorted_list_of_set (A - {Min A})"
  by (simp add: sorted_list_of_set_nonempty)

lemma rounds_above:
  assumes "n \<le> card {s \<in> ready_pids t. pid < s}"
  shows "rounds n t pid = take n (sorted_list_of_set {s \<in> ready_pids t. pid < s})"
  using assms
proof (induction n arbitrary: pid)
  case (Suc n)
  let ?A = "{s \<in> ready_pids t. pid < s}"
  have fin: "finite ?A" by simp
  have ne: "?A \<noteq> {}" using Suc.prems by (auto simp del: Collect_empty_eq)
  have min: "Min ?A \<in> ?A" using fin ne by (rule Min_in)
  have rest: "{s \<in> ready_pids t. Min ?A < s} = ?A - {Min ?A}"
  proof (intro equalityI subsetI)
    fix x assume x: "x \<in> {s \<in> ready_pids t. Min ?A < s}"
    have "pid < Min ?A" using min by simp
    with x show "x \<in> ?A - {Min ?A}" by auto
  next
    fix x assume x: "x \<in> ?A - {Min ?A}"
    then have "Min ?A \<le> x" using fin by (intro Min_le) auto
    moreover have "Min ?A \<noteq> x" using x by auto
    ultimately have "Min ?A < x" by (intro order.not_eq_order_implies_strict)
    with x show "x \<in> {s \<in> ready_pids t. Min ?A < s}" by simp
  qed
  have "n \<le> card {s \<in> ready_pids t. Min ?A < s}"
    unfolding rest using Suc.prems min fin by (simp add: card_Diff_singleton)
  from Suc.IH [OF this] have "rounds n t (Min ?A) = take n (sorted_list_of_set (?A - {Min ?A}))"
    unfolding rest .
  moreover have "next_schedulable_after pid t = Some (Min ?A)" using ne by (simp only: next_schedulable_eq if_True not_False_eq_True)
  ultimately show ?case by (simp only: rounds.simps option.case sorted_list_Min [OF fin ne] take_Suc_Cons)
qed simp

lemma rounds_add: "length (rounds n t pid) = n \<Longrightarrow> rounds (n + m) t pid = rounds n t pid @ rounds m t (last (pid # rounds n t pid))"
proof (induction n arbitrary: pid)
  case (Suc n)
  then show ?case by (cases "next_schedulable_after pid t") auto
qed simp

lemma rounds_wrap:
  assumes "{s \<in> ready_pids t. pid < s} = {}" and "m \<le> card (ready_pids t)"
  shows "rounds m t pid = take m (sorted_list_of_set (ready_pids t))"
proof (cases m)
  case (Suc k)
  let ?S = "ready_pids t"
  have ne: "?S \<noteq> {}" using assms(2) Suc by auto
  have nxt: "next_schedulable_after pid t = Some (Min ?S)"
    using assms(1) ne by (simp only: next_schedulable_eq if_False simp_thms if_True)
  have rest: "{s \<in> ?S. Min ?S < s} = ?S - {Min ?S}"
    using Min_le [OF finite_ready, of _ t] by (auto simp: order.strict_iff_order)
  have "k \<le> card {s \<in> ?S. Min ?S < s}"
    unfolding rest using assms(2) Suc ne by (simp add: card_Diff_singleton)
  from rounds_above [OF this] have "rounds k t (Min ?S) = take k (sorted_list_of_set (?S - {Min ?S}))"
    unfolding rest .
  then show ?thesis by (simp only: Suc rounds.simps nxt option.case sorted_list_Min [OF finite_ready ne] take_Suc_Cons)
qed simp

lemma sorted_last: "sorted xs \<Longrightarrow> x \<in> set xs \<Longrightarrow> x \<le> last xs"
  by (induction xs) auto

lemma sorted_list_split:
  fixes S :: "'a::linorder set"
  assumes "finite S"
  shows "sorted_list_of_set S = sorted_list_of_set {s \<in> S. s \<le> p} @ sorted_list_of_set {s \<in> S. p < s}"
proof (rule sorted_distinct_set_unique)
  show "sorted (sorted_list_of_set {s \<in> S. s \<le> p} @ sorted_list_of_set {s \<in> S. p < s})"
    using assms by (auto simp: sorted_append)
  show "set (sorted_list_of_set S) = set (sorted_list_of_set {s \<in> S. s \<le> p} @ sorted_list_of_set {s \<in> S. p < s})"
    using assms by auto
qed (use assms in auto)

section \<open>The descriptors of a process\<close>

definition process_lookup :: "ProcessId \<Rightarrow> ProcessTable \<Rightarrow> u32 \<Rightarrow> Descriptor option" where
  "process_lookup pid t fd = (case live_slot pid t of
     Inl _ \<Rightarrow> None | Inr i \<Rightarrow> lookup (ps_descriptors (pslots t ! i)) fd)"

lemma live_slot_put:
  assumes "live_slot pid t = Inr i"
  shows "live_slot pid (put_process i ((pslots t ! i)\<lparr>ps_descriptors := d\<rparr>) t) = Inr i"
proof -
  have i: "pslot pid t = Some i" "ps_state (pslots t ! i) \<noteq> Some Exited" using assms by (simp_all add: live_slot_ok)
  note p = pslot_Some [OF i(1)]
  have "pslot pid (put_process i ((pslots t ! i)\<lparr>ps_descriptors := d\<rparr>) t) = pslot pid t"
    using p by (intro pslot_put_same) (auto simp: live_def)
  then show ?thesis using i p by (simp add: live_slot_ok)
qed

lemma on_descriptors_eq:
  assumes "live_slot pid t = Inr i" and "f (ps_descriptors (pslots t ! i)) = (r, d)"
  shows "on_descriptors pid f t = (map_err VfsE r, put_process i ((pslots t ! i)\<lparr>ps_descriptors := d\<rparr>) t)
    \<and> process_lookup pid (put_process i ((pslots t ! i)\<lparr>ps_descriptors := d\<rparr>) t) = lookup d
    \<and> process_lookup pid t = lookup (ps_descriptors (pslots t ! i))"
proof -
  have "i < length (pslots t)" using assms(1) pslot_Some by (auto simp: live_slot_ok)
  then show ?thesis using assms live_slot_put [OF assms(1), of d]
    by (simp add: on_descriptors_def process_lookup_def fun_eq_iff)
qed

interpretation process_fds: handle_map "process_lookup pid" "\<lambda>d. on_descriptors pid (open_descriptor d)"
  "close_fd pid" fresh_descriptor for pid
proof
  fix d t fd t' assume d: "fresh_descriptor d" and a: "on_descriptors pid (open_descriptor d) t = (Inr fd, t')"
  obtain i where i: "live_slot pid t = Inr i" using a by (auto simp: on_descriptors_def split: sum.splits)
  obtain r d' where r: "open_descriptor d (ps_descriptors (pslots t ! i)) = (r, d')" by force
  from on_descriptors_eq [where f = "open_descriptor d", OF i r] a have "r = Inr fd"
    "process_lookup pid t' = lookup d'" "process_lookup pid t = lookup (ps_descriptors (pslots t ! i))"
    by (cases r; auto)+
  with fds.alloc_binds [OF d] r show "process_lookup pid t fd = None \<and> process_lookup pid t' = (process_lookup pid t)(fd \<mapsto> d)"
    by simp
next
  fix d t e t' assume a: "on_descriptors pid (open_descriptor d) t = (Inl e, t')"
  show "process_lookup pid t' = process_lookup pid t"
  proof (cases "live_slot pid t")
    case (Inl e')
    then show ?thesis using a by (simp add: on_descriptors_def)
  next
    case (Inr i)
    obtain r d' where r: "open_descriptor d (ps_descriptors (pslots t ! i)) = (r, d')" by force
    from on_descriptors_eq [where f = "open_descriptor d", OF Inr r] a obtain e' where "r = Inl e'"
      "process_lookup pid t' = lookup d'" "process_lookup pid t = lookup (ps_descriptors (pslots t ! i))"
      by (cases r; auto)+
    with fds.alloc_refused r show ?thesis by simp
  qed
next
  fix fd t u t' assume a: "close_fd pid fd t = (Inr u, t')"
  obtain i where i: "live_slot pid t = Inr i" using a by (auto simp: close_fd_def on_descriptors_def split: sum.splits)
  obtain r d' where r: "fd_close fd (ps_descriptors (pslots t ! i)) = (r, d')" by force
  from on_descriptors_eq [where f = "fd_close fd", OF i r] a have "r = Inr u"
    "process_lookup pid t' = lookup d'" "process_lookup pid t = lookup (ps_descriptors (pslots t ! i))"
    by (cases r; auto simp: close_fd_def)+
  with fds.release_unbinds r
  show "process_lookup pid t fd \<noteq> None \<and> process_lookup pid t' = (process_lookup pid t)(fd := None)" by simp
next
  fix fd t e t' assume a: "close_fd pid fd t = (Inl e, t')"
  show "process_lookup pid t fd = None \<and> process_lookup pid t' = process_lookup pid t"
  proof (cases "live_slot pid t")
    case (Inl e')
    then show ?thesis using a by (simp add: close_fd_def on_descriptors_def process_lookup_def)
  next
    case (Inr i)
    obtain r d' where r: "fd_close fd (ps_descriptors (pslots t ! i)) = (r, d')" by force
    from on_descriptors_eq [where f = "fd_close fd", OF Inr r] a obtain e' where "r = Inl e'"
      "process_lookup pid t' = lookup d'" "process_lookup pid t = lookup (ps_descriptors (pslots t ! i))"
      by (cases r; auto simp: close_fd_def)+
    with fds.release_refused r show ?thesis by simp
  qed
qed

section \<open>Properties\<close>

text \<open>\<^bold>\<open>C10\<close>. In every reachable process table the identifiers of the processes are distinct, positive
  and below the next one to hand out, the count is the number of occupied slots, every process has a
  validated image (page-aligned root, entry inside user memory, stack above it), an exit status
  exactly when it has exited, and a descriptor table of the fixed capacity.\<close>

theorem reachable_process_tables_well_formed:
  assumes "process_step\<^sup>*\<^sup>* (ProcessTable_new n fds) t"
  shows "process_inv t"
  using assms
  by (induction rule: rtranclp_induct) (auto intro: process_inv_new process_step_inv)

definition example_image :: ProcessImage where
  "example_image = \<lparr>address_space_root = 0x1000, image_entry = 0x400000, image_stack_pointer = 0x7ff000,
     image_stack_top = 0x800000, user_memory_start = 0x400000, user_memory_end = 0x500000\<rparr>"

definition example_process :: ProcessTable where
  "example_process = snd (spawn None example_image (ProcessTable_new 2 4))"

lemma example_image_ok: "validate_image example_image = Inr ()"
  by code_simp

definition example_ready :: ProcessSlot where
  "example_ready = \<lparr>ps_pid = 1, ps_parent = None, ps_state = Some Ready, ps_image = example_image,
     ps_exit_status = None, ps_syscall_count = 0, ps_descriptors = FileDescriptorTable_new 4\<rparr>"

lemma example_new: "pslots (ProcessTable_new 2 4) = [slot_empty 4, slot_empty 4]"
  "next_pid (ProcessTable_new 2 4) = 1" "FDS (ProcessTable_new 2 4) = 4"
  by (simp_all add: ProcessTable_new_def numeral_2_eq_2)

lemma example_spawn: "spawn None example_image (ProcessTable_new 2 4) =
    (Inr 1, (put_process 0 example_ready (ProcessTable_new 2 4))\<lparr>next_pid := 2, pcount := pcount (ProcessTable_new 2 4) + 1\<rparr>)"
proof -
  have "checked_add (1 :: u32) 1 = Some 2" by (simp add: checked_add_def)
  then show ?thesis
    by (simp add: spawn_def example_image_ok example_new example_ready_def slot_empty_def)
qed

lemma example_slots: "pslots example_process = [example_ready, slot_empty 4]"
  by (simp add: example_process_def example_spawn example_new)

lemma example_slot: "pslot 1 example_process = Some 0"
  by (simp add: pslot_def example_slots example_ready_def)

lemma example_inv: "process_inv example_process"
  by (simp add: example_process_def spawn_inv process_inv_new)

theorem reachable_process_tables_well_formed_witness: "process_inv example_process"
  unfolding example_process_def
  by (rule reachable_process_tables_well_formed [of 2 4]) (rule r_into_rtranclp [where r = process_step, OF step_spawn])

text \<open>\<^bold>\<open>C11\<close>. The life cycle: a single operation moves a process only along the edges absent to ready,
  ready or runnable to running, running or blocked to runnable, running to blocked, running to
  exited, exited to absent. In particular only a running process exits, and only an exited one
  disappears.\<close>

theorem process_life_cycle:
  assumes "process_step\<^sup>*\<^sup>* (ProcessTable_new n fds) t" and "process_step t t'"
  shows "status t' pid = status t pid
    \<or> (status t pid, status t' pid) \<in> {(None, Some Ready), (Some Ready, Some Running),
        (Some Runnable, Some Running), (Some Running, Some Runnable), (Some Blocked, Some Runnable),
        (Some Running, Some Blocked), (Some Running, Some Exited), (Some Exited, None)}"
proof -
  have "process_inv t"
    using assms(1) by (induction rule: rtranclp_induct) (auto intro: process_inv_new process_step_inv)
  from process_step_transition [OF assms(2) this, of pid] show ?thesis by (auto simp: transition_def)
qed

theorem process_life_cycle_witness:
  "(status example_process 1, status (snd (mark_running 1 example_process)) 1) = (Some Ready, Some Running)"
proof -
  have reach: "process_step\<^sup>*\<^sup>* (ProcessTable_new 2 4) example_process"
    unfolding example_process_def by (rule r_into_rtranclp [where r = process_step, OF step_spawn])
  have "status example_process 1 = Some Ready"
    by (simp add: status_def process_def example_slot example_slots example_ready_def)
  moreover have "status (snd (mark_running 1 example_process)) 1 \<noteq> Some Ready"
    by (simp add: mark_running_def example_slot example_slots example_ready_def status_def process_def pslot_def)
  ultimately show ?thesis using process_life_cycle [OF reach step_mark_running [of _ 1], of 1] by auto
qed

lemma pid_live_unat: "pid_live t (unat pid) \<longleftrightarrow> process t pid \<noteq> None"
  unfolding pid_live_def by (metis word_unat_eq_iff)

text \<open>\<^bold>\<open>C12\<close>. Identifiers are never reused: once a process is reaped, no sequence of later operations
  makes its identifier name a process again.\<close>

theorem reaped_pid_never_returns:
  assumes "process_inv t" and "reap pid t = (Inr snap, t1)" and "process_step\<^sup>*\<^sup>* t1 t2"
  shows "snapshot pid t2 = Inl NotFound"
proof -
  have gone: "process t1 pid = None" using assms(1,2) by (rule reap_gone)
  obtain i where i: "pslot pid t = Some i" using assms(2) by (auto simp: reap_def split: option.splits)
  have "ps_pid (pslots t ! i) < next_pid t" "ps_pid (pslots t ! i) = pid"
    using slot_inv_process [OF assms(1) i] pslot_Some [OF i] by (simp_all add: slot_inv_def)
  moreover have "next_pid t1 = next_pid t" using assms(2) by (cases rule: reap_cases [of pid t]) auto
  ultimately have "1 \<le> pid_age t1 (unat pid)" by (simp add: pid_age_def word_less_nat_alt)
  moreover have "\<not> pid_live t1 (unat pid)" using gone by (simp add: pid_live_unat)
  ultimately have "\<not> (pid_live t2 (unat pid) \<and> pid_age t2 (unat pid) = 1)"
    using pids.retired_never_resolves [OF assms(3)] by blast
  moreover have "pid_age t2 (unat pid) = 1"
    using pids.gen_steps_mono [OF assms(3), of "unat pid"] \<open>1 \<le> pid_age t1 (unat pid)\<close>
    by (simp add: pid_age_def split: if_splits)
  ultimately have "process t2 pid = None" by (simp add: pid_live_unat)
  then show ?thesis by (simp add: snapshot_def process_def)
qed

theorem reaped_pid_never_returns_witness:
  "\<exists>snap t1. reap 1 (snd (exit_process 1 3 (snd (mark_running 1 example_process)))) = (Inr snap, t1)
     \<and> snapshot 1 (snd (spawn None example_image t1)) = Inl NotFound"
proof -
  let ?t = "snd (exit_process 1 3 (snd (mark_running 1 example_process)))"
  have inv: "process_inv ?t"
    using process_step_inv step_exit step_mark_running example_inv by blast
  have slots: "pslots ?t = [example_ready\<lparr>ps_state := Some Exited, ps_exit_status := Some 3\<rparr>, slot_empty 4]"
    by (simp add: exit_process_def mark_running_def running_slot_def example_slot example_slots pslot_def
        example_ready_def Let_def)
  have "pslot 1 ?t = Some 0" by (simp add: pslot_def slots example_ready_def)
  then obtain snap where "reap 1 ?t = (Inr snap, snd (reap 1 ?t))"
    by (simp add: reap_def slots slot_snapshot_def example_ready_def)
  from this reaped_pid_never_returns [OF inv this r_into_rtranclp [where r = process_step, OF step_spawn]]
  show ?thesis by blast
qed

text \<open>Processes are isolated: a life-cycle or descriptor operation on one process leaves every
  other process (state, image, exit status, counters and descriptors) exactly as it was.\<close>

lemma operations_leave_other_processes_alone:
  assumes "x \<noteq> pid"
  shows "process (snd (mark_running pid t)) x = process t x
    \<and> process (snd (mark_runnable pid t)) x = process t x
    \<and> process (snd (mark_blocked pid t)) x = process t x
    \<and> process (snd (record_syscall pid t)) x = process t x
    \<and> process (snd (exit_process pid code t)) x = process t x
    \<and> process (snd (reap pid t)) x = process t x
    \<and> process (snd (process_open_file pid node mode t)) x = process t x
    \<and> process (snd (close_fd pid fd t)) x = process t x
    \<and> process (snd (seek_fd pid fd off t)) x = process t x
    \<and> process (snd (advance_fd pid fd n t)) x = process t x
    \<and> process (snd (close_all_files pid t)) x = process t x"
  using touches_process assms reap_other descriptor_operations_touch lifecycle_operations_touch
  by (intro conjI) metis+

text \<open>\<^bold>\<open>C13\<close>. Scheduling is round robin and fair: on a table with \<open>k\<close> ready or runnable processes, the
  next \<open>k\<close> choices after process \<open>pid\<close> are the processes with larger identifiers in increasing
  order, then the others in increasing order. So each is chosen exactly once in \<open>k\<close> choices.\<close>

theorem scheduling_is_round_robin:
  "rounds (card (ready_pids t)) t pid
     = sorted_list_of_set {s \<in> ready_pids t. pid < s} @ sorted_list_of_set {s \<in> ready_pids t. s \<le> pid}"
proof -
  let ?A = "{s \<in> ready_pids t. pid < s}" and ?B = "{s \<in> ready_pids t. s \<le> pid}"
  let ?last = "last (pid # sorted_list_of_set ?A)"
  have AB: "ready_pids t = ?A \<union> ?B" "?A \<inter> ?B = {}" by auto
  have cards: "card (ready_pids t) = card ?A + card ?B"
    by (subst AB(1), rule card_Un_disjoint) auto
  have above: "rounds (card ?A) t pid = sorted_list_of_set ?A"
    using rounds_above [of "card ?A" t pid] by simp
  have top: "{s \<in> ready_pids t. ?last < s} = {}"
  proof (cases "?A = {}")
    case True
    then show ?thesis by simp
  next
    case False
    let ?L = "sorted_list_of_set ?A"
    have ne: "?L \<noteq> []" using False by (simp del: Collect_empty_eq)
    have "last ?L \<in> ?A" using ne last_in_set [OF ne] by simp
    moreover have "x \<le> last ?L" if "x \<in> ?A" for x
      using that sorted_last [of ?L x] by simp
    ultimately have "\<not> last ?L < x" if "x \<in> ready_pids t" for x
      using that by (metis (no_types, lifting) less_trans mem_Collect_eq not_less)
    then show ?thesis using ne by simp
  qed
  have "take (card ?B) (sorted_list_of_set (ready_pids t)) = sorted_list_of_set ?B"
    by (subst sorted_list_split [of _ pid]) simp_all
  with rounds_wrap [OF top, of "card ?B"] cards have "rounds (card ?B) t ?last = sorted_list_of_set ?B" by simp
  then show ?thesis using rounds_add [of "card ?A" t pid "card ?B"] above cards by simp
qed

text \<open>The descriptors of a process behave as a map: opening a file binds a descriptor that was
  free, the object is found under it, the process's other descriptors are as before, and closing
  it restores exactly the earlier descriptors.\<close>

lemma process_open_then_close:
  assumes "process_open_file pid node mode t = (Inr fd, t1)"
  shows "process_lookup pid t fd = None
    \<and> process_lookup pid t1 = (process_lookup pid t)(fd \<mapsto>
        \<lparr>d_object = File node, d_offset = 0, d_access_mode = mode, d_open = True\<rparr>)
    \<and> (\<exists>t2. close_fd pid fd t1 = (Inr (), t2) \<and> process_lookup pid t2 = process_lookup pid t)"
proof -
  let ?d = "\<lparr>d_object = File node, d_offset = 0, d_access_mode = mode, d_open = True\<rparr>"
  have d: "fresh_descriptor ?d" by (simp add: fresh_descriptor_def)
  have "open_with_mode node mode = open_descriptor ?d"
    by (simp add: fun_eq_iff open_with_mode_def open_descriptor_def)
  then have a: "on_descriptors pid (open_descriptor ?d) t = (Inr fd, t1)"
    using assms by (simp add: process_open_file_def)
  from process_fds.alloc_binds [OF d a] process_fds.release_undoes_alloc [OF d a] show ?thesis by auto
qed

end
