(* ===== verification/Initial_Stack.thy ===== *)
theory Initial_Stack
  imports Process
begin

text \<open>
  Correctness of the initial user stack: what a program started by the kernel reads from its stack
  pointer is the Linux layout of argument count, argument vector, environment and auxiliary vector,
  with every pointer leading to its NUL-terminated string.
\<close>

section \<open>Reading a stack\<close>

definition read_word :: "u8 list \<Rightarrow> nat \<Rightarrow> u64" where
  "read_word stack off = from_le_bytes (take 8 (drop off stack))"

definition stack_words :: "u8 list \<Rightarrow> nat \<Rightarrow> nat \<Rightarrow> u64 list" where
  "stack_words stack off n = map (\<lambda>i. read_word stack (off + 8 * i)) [0..<n]"

definition cstring_at :: "u8 list \<Rightarrow> nat \<Rightarrow> u8 list \<Rightarrow> bool" where
  "cstring_at stack off v \<longleftrightarrow> take (length v + 1) (drop off stack) = v @ [0]"

text \<open>The pointer \<open>p\<close> of a stack loaded at \<open>base\<close> leads to the string \<open>v\<close>.\<close>

definition points_to :: "u64 \<Rightarrow> u8 list \<Rightarrow> u64 \<Rightarrow> u8 list \<Rightarrow> bool" where
  "points_to base stack p v \<longleftrightarrow> unat base \<le> unat p \<and> cstring_at stack (unat p - unat base) v"

lemma drop_same_later:
  assumes "drop c s' = drop c s" and "c \<le> k"
  shows "drop k s' = drop k (s :: 'a list)"
proof -
  have "drop k x = drop (k - c) (drop c x)" for x :: "'a list" using assms(2) by simp
  then show ?thesis by (simp only: assms(1))
qed

lemma cstring_at_same: "drop c s' = drop c s \<Longrightarrow> c \<le> off \<Longrightarrow> cstring_at s' off v = cstring_at s off v"
  unfolding cstring_at_def by (subst drop_same_later [of c s' s]) simp_all

section \<open>The strings\<close>

lemma push_initial_string_ok:
  assumes "push_initial_string base v (stack, cursor) = Inr (ptr, stack', cursor')"
  shows "cursor' + length v + 1 = cursor \<and> cursor \<le> length stack \<and> length stack' = length stack
    \<and> drop cursor stack' = drop cursor stack \<and> cstring_at stack' cursor' v
    \<and> unat ptr = unat base + cursor'"
proof -
  from assms have c: "cursor' + length v + 1 = cursor" "cursor' + length v < length stack"
    and s: "stack' = (copy_at stack cursor' v)[cursor' + length v := 0]"
    and p: "cursor' < 2 ^ 64" "checked_add base (word_of_nat cursor') = Some ptr"
    by (auto simp: push_initial_string_def result_simps checked_simps get_range_Some Let_def split: if_splits)
  have eq: "stack' = take cursor' stack @ (v @ [0]) @ drop cursor stack"
  proof -
    have "copy_at stack cursor' v = take cursor' stack @ v @ stack ! (cursor' + length v) # drop cursor stack"
      using c(2) by (simp add: copy_at_def Cons_nth_drop_Suc c(1) [symmetric])
    then show ?thesis using c by (simp add: s list_update_append)
  qed
  have "unat ptr = unat base + cursor'"
    using checked_add_unat [OF p(2)] p(1) by (simp add: unat_of_nat take_bit_nat_eq_self)
  moreover have "drop cursor stack' = drop cursor stack" "cstring_at stack' cursor' v" "length stack' = length stack"
    using c(2) by (simp_all add: eq cstring_at_def c(1) [symmetric])
  ultimately show ?thesis using c by simp
qed

definition push_at ::
  "u64 \<Rightarrow> u8 list list \<Rightarrow> nat \<Rightarrow> u64 list \<times> u8 list \<times> nat \<Rightarrow> InitialStackError + u64 list \<times> u8 list \<times> nat" where
  "push_at base values = (\<lambda>i (pointers, stack, cursor).
     rbind (push_initial_string base (values ! i) (stack, cursor)) (\<lambda>(ptr, stack, cursor).
       Inr (pointers[i := ptr], stack, cursor)))"

lemma push_strings_push_at:
  "push_strings base values capacity s = fold_result (push_at base values) (rev [0..<length values]) (replicate capacity 0, s)"
  unfolding push_strings_def push_at_def ..

lemma push_range_ok:
  assumes "fold_result (push_at base values) (rev [m..<n]) (ptrs0, stack, cursor) = Inr (ptrs, stack', cursor')"
    and "m \<le> n" and "n \<le> length ptrs0" and "cursor \<le> length stack"
  shows "length ptrs = length ptrs0 \<and> length stack' = length stack \<and> cursor' \<le> cursor
    \<and> drop cursor stack' = drop cursor stack
    \<and> (\<forall>i. m \<le> i \<and> i < n \<longrightarrow> (\<exists>off. cursor' \<le> off \<and> unat (ptrs ! i) = unat base + off \<and> cstring_at stack' off (values ! i)))"
  using assms
proof (induction "n - m" arbitrary: m ptrs stack' cursor')
  case 0
  then show ?case by auto
next
  case (Suc d)
  then have m: "m < n" by simp
  then have r: "rev [m..<n] = rev [Suc m..<n] @ [m]" by (simp add: upt_conv_Cons)
  from Suc.prems(1) obtain p1 s1 c1 where
    loop: "fold_result (push_at base values) (rev [Suc m..<n]) (ptrs0, stack, cursor) = Inr (p1, s1, c1)"
    and step: "push_at base values m (p1, s1, c1) = Inr (ptrs, stack', cursor')"
    by (auto simp: r fold_result_append result_simps)
  from step obtain ptr where push: "push_initial_string base (values ! m) (s1, c1) = Inr (ptr, stack', cursor')"
    and ptrs: "ptrs = p1[m := ptr]"
    by (auto simp: push_at_def result_simps)
  from Suc.hyps(1) [OF _ loop] Suc.hyps(2) m Suc.prems(3,4)
  have ih: "length p1 = length ptrs0" "length s1 = length stack" "c1 \<le> cursor" "drop cursor s1 = drop cursor stack"
    "\<forall>i. Suc m \<le> i \<and> i < n \<longrightarrow> (\<exists>off. c1 \<le> off \<and> unat (p1 ! i) = unat base + off \<and> cstring_at s1 off (values ! i))"
    by auto
  from push_initial_string_ok [OF push]
  have new: "cursor' < c1" "length stack' = length s1" "drop c1 stack' = drop c1 s1"
    "cstring_at stack' cursor' (values ! m)" "unat ptr = unat base + cursor'" by auto
  have "\<exists>off. cursor' \<le> off \<and> unat (ptrs ! i) = unat base + off \<and> cstring_at stack' off (values ! i)"
    if "m \<le> i" "i < n" for i
  proof (cases "i = m")
    case True
    then show ?thesis using new m ih(1) Suc.prems(3) by (intro exI [of _ cursor']) (simp add: ptrs)
  next
    case False
    then obtain off where "c1 \<le> off" "unat (p1 ! i) = unat base + off" "cstring_at s1 off (values ! i)"
      using ih(5) \<open>m \<le> i\<close> \<open>i < n\<close> by (metis Suc_leI le_neq_implies_less)
    then show ?thesis
      using new(1) False cstring_at_same [OF new(3)] by (intro exI [of _ off]) (simp add: ptrs)
  qed
  moreover have "drop cursor stack' = drop cursor stack"
    using drop_same_later [OF new(3) ih(3)] ih(4) by simp
  ultimately show ?case using ih new by (simp add: ptrs)
qed

lemma push_strings_ok:
  assumes "push_strings base values capacity (stack, cursor) = Inr (ptrs, stack', cursor')"
    and "length values \<le> capacity" and "cursor \<le> length stack"
  shows "length ptrs = capacity \<and> length stack' = length stack \<and> cursor' \<le> cursor
    \<and> drop cursor stack' = drop cursor stack
    \<and> (\<forall>i<length values. \<exists>off. cursor' \<le> off \<and> unat (ptrs ! i) = unat base + off \<and> cstring_at stack' off (values ! i))"
  using push_range_ok [OF assms(1) [unfolded push_strings_push_at]] assms(2,3) by auto

section \<open>The table\<close>

lemma read_word_copy_same: "off + 8 \<le> length s \<Longrightarrow> read_word (copy_at s off (to_le_bytes v)) off = v"
  using take_drop_copy_at_same [of off "to_le_bytes v" s] by (simp add: read_word_def)

lemma read_word_copy_other:
  "off + 8 \<le> length s \<Longrightarrow> k + 8 \<le> off \<Longrightarrow> read_word (copy_at s off (to_le_bytes (v :: u64))) k = read_word s k"
  using take_drop_copy_at_other [of off "to_le_bytes v" s k 8] by (simp add: read_word_def)

lemma write_initial_word_ok:
  assumes "write_initial_word ts v (stack, word) = Inr (stack', word')"
  shows "word' = word + 1 \<and> ts + 8 * word' \<le> length stack \<and> stack' = copy_at stack (ts + 8 * word) (to_le_bytes v)
    \<and> length stack' = length stack"
  using assms
  by (auto simp: write_initial_word_def result_simps checked_simps get_range_Some bind_eq_Some_conv algebra_simps)

lemma write_words_ok:
  assumes "fold_result (write_initial_word ts) vs (stack, word) = Inr (stack', word')" and "ts + 8 * word \<le> length stack"
  shows "word' = word + length vs \<and> length stack' = length stack \<and> ts + 8 * word' \<le> length stack
    \<and> stack_words stack' ts word' = stack_words stack ts word @ vs
    \<and> drop (ts + 8 * word') stack' = drop (ts + 8 * word') stack"
  using assms
proof (induction vs arbitrary: stack word)
  case Nil
  then show ?case by simp
next
  case (Cons v vs)
  from Cons.prems(1) obtain s1 w1 where w: "write_initial_word ts v (stack, word) = Inr (s1, w1)"
    and rest: "fold_result (write_initial_word ts) vs (s1, w1) = Inr (stack', word')"
    by (auto simp: result_simps)
  from write_initial_word_ok [OF w] have s1: "w1 = Suc word" "ts + 8 * Suc word \<le> length stack"
    "s1 = copy_at stack (ts + 8 * word) (to_le_bytes v)" "length s1 = length stack" by auto
  have "stack_words s1 ts word = stack_words stack ts word"
    using s1(2) by (auto simp: stack_words_def s1(3) read_word_copy_other)
  moreover have "read_word s1 (ts + 8 * word) = v" using s1(2) by (simp add: s1(3) read_word_copy_same)
  ultimately have words: "stack_words s1 ts w1 = stack_words stack ts word @ [v]"
    by (simp add: s1(1) stack_words_def)
  have drops: "drop (ts + 8 * w1) s1 = drop (ts + 8 * w1) stack"
    using s1(2) by (simp add: s1(1,3) copy_at_def ac_simps)
  from Cons.IH [OF rest] s1 have ih: "word' = w1 + length vs" "length stack' = length s1" "ts + 8 * word' \<le> length s1"
    "stack_words stack' ts word' = stack_words s1 ts w1 @ vs" "drop (ts + 8 * word') stack' = drop (ts + 8 * word') s1"
    by auto
  moreover have "drop (ts + 8 * word') s1 = drop (ts + 8 * word') stack"
    using ih(1) by (intro drop_same_later [OF drops]) simp
  ultimately show ?case using s1 words by simp
qed

lemma write_pairs:
  "fold_result (\<lambda>(kind, v) s. rbind (write_initial_word ts kind s) (write_initial_word ts v)) pairs s
    = fold_result (write_initial_word ts) (concat (map (\<lambda>(kind, v). [kind, v]) pairs)) s"
proof (induction pairs arbitrary: s)
  case (Cons p pairs)
  show ?case
  proof (cases p)
    case (Pair kind v)
    then show ?thesis by (cases "write_initial_word ts kind s") (simp_all add: Cons cong: rbind_cong)
  qed
qed simp

section \<open>The layout\<close>

lemma fifteen_mask: "(15 :: u64) = mask 4"
  by (simp add: mask_eq_exp_minus_1)

lemma align_down_16:
  fixes w :: u64
  shows "unat (w AND NOT 15) = 16 * (unat w div 16)"
  using unat_and_not_mask [of w 4] by (simp add: fifteen_mask)

lemma aligned_16:
  fixes w :: u64
  shows "w AND 15 = 0 \<longleftrightarrow> 16 dvd unat w"
  using and_mask_eq_0 [of w 4] by (simp add: fifteen_mask)

definition auxiliary_vector :: "u64 \<Rightarrow> u64 \<Rightarrow> u64 \<Rightarrow> u64 list" where
  "auxiliary_vector page_size entry execfn =
     [LINUX_AT_PAGESZ, page_size, LINUX_AT_ENTRY, entry, LINUX_AT_UID, 0, LINUX_AT_EUID, 0, LINUX_AT_GID, 0,
      LINUX_AT_EGID, 0, LINUX_AT_SECURE, 0, LINUX_AT_EXECFN, execfn, LINUX_AT_NULL, 0]"

lemma fold_result_fun:
  "fold_result f (xs @ ys) = (\<lambda>s. rbind (fold_result f xs s) (fold_result f ys))"
  "fold_result f (x # xs) = (\<lambda>s. rbind (f x s) (fold_result f xs))"
  by (simp_all add: fun_eq_iff fold_result_append)

lemma write_initial_table_words:
  "write_initial_table ts argc argp envp (auxiliary page_size entry execfn) stack =
     fold_result (write_initial_word ts) ([argc] @ argp @ [0] @ envp @ [0] @ auxiliary_vector page_size entry execfn) (stack, 0)"
  unfolding write_initial_table_def write_pairs
  by (simp add: auxiliary_def auxiliary_vector_def fold_result_fun)

lemma initial_table_words_Some:
  "initial_table_words arguments environment = Some n \<Longrightarrow> n = length arguments + length environment + 21"
  by (auto simp: initial_table_words_def bind_eq_Some_conv checked_simps LINUX_AUXV_PAIRS_def)

lemma build_success:
  assumes "build_linux_initial_stack stack base arguments environment entry page_size = Inr (layout, final)"
  obtains envp argp s1 s2 c1 c2 ts sp where
    "arguments \<noteq> []" "length arguments \<le> 16" "length environment \<le> 16" "length stack < 2 ^ 64"
    "push_strings base environment 16 (stack, length stack) = Inr (envp, s1, c1)"
    "push_strings base arguments 16 (s1, c1) = Inr (argp, s2, c2)"
    "8 * (length arguments + length environment + 21) \<le> c2"
    "ts = unat ((word_of_nat (c2 - 8 * (length arguments + length environment + 21)) :: u64) AND NOT 15)"
    "checked_add base (word_of_nat ts) = Some sp" "sp AND 15 = 0"
    "fold_result (write_initial_word ts) ([word_of_nat (length arguments)] @ take (length arguments) argp @ [0]
       @ take (length environment) envp @ [0] @ auxiliary_vector page_size entry (argp ! 0)) (s2, 0)
       = Inr (final, length arguments + length environment + 21)"
    "layout = \<lparr>layout_stack_pointer = sp, argument_count = length arguments,
       environment_count = length environment, auxiliary_pairs = LINUX_AUXV_PAIRS,
       used_bytes = length final - ts\<rparr>"
  using assms
  unfolding build_linux_initial_stack_def write_initial_table_words Let_def
  by (auto simp: MAX_INITIAL_ARGUMENTS_def MAX_INITIAL_ENVIRONMENT_def INITIAL_STACK_ALIGNMENT_def
      result_simps checked_simps mult.commute split: if_splits prod.splits
      dest!: initial_table_words_Some)

section \<open>Success\<close>

definition string_ok :: "u8 list \<Rightarrow> bool" where
  "string_ok v \<longleftrightarrow> v \<noteq> [] \<and> 0 \<notin> set v"

definition string_bytes :: "u8 list list \<Rightarrow> nat" where
  "string_bytes vs = sum_list (map (\<lambda>v. length v + 1) vs)"

lemma checked_add_word_of_nat:
  "unat (base :: u64) + n < 2 ^ 64 \<Longrightarrow> checked_add base (word_of_nat n) = Some (base + word_of_nat n)"
  by (simp add: checked_add_def unat_of_nat take_bit_nat_eq_self)

lemma push_initial_string_succeeds:
  assumes "string_ok v" and "length v + 1 \<le> cursor" and "cursor \<le> length stack"
    and "unat base + length stack < 2 ^ 64"
  shows "\<exists>ptr stack'. push_initial_string base v (stack, cursor) = Inr (ptr, stack', cursor - (length v + 1))
    \<and> length stack' = length stack"
proof -
  let ?c = "cursor - (length v + 1)"
  have c: "?c + length v < length stack" "?c \<le> ?c + length v" using assms by linarith+
  have limits: "length v + 1 < usize_limit" "?c + length v < usize_limit"
    using assms c by (simp_all add: usize_limit_def)
  have "unat base + ?c < 2 ^ 64" using c assms(4) by linarith
  then have "checked_add base (word_of_nat ?c) = Some (base + word_of_nat ?c)" by (rule checked_add_word_of_nat)
  then show ?thesis
    using assms c limits
    by (simp add: push_initial_string_def string_ok_def usize_add_def usize_sub_def get_range_def Let_def)
qed

lemma push_range_succeeds:
  assumes "\<forall>v\<in>set values. string_ok v" and "m \<le> n" and "n \<le> length values"
    and "string_bytes (take (n - m) (drop m values)) \<le> cursor" and "cursor \<le> length stack"
    and "unat base + length stack < 2 ^ 64"
  shows "\<exists>ptrs' stack'. fold_result (push_at base values) (rev [m..<n]) (ptrs, stack, cursor)
    = Inr (ptrs', stack', cursor - string_bytes (take (n - m) (drop m values))) \<and> length stack' = length stack"
  using assms
proof (induction "n - m" arbitrary: m)
  case 0
  then show ?case by (simp add: string_bytes_def)
next
  case (Suc d)
  then have m: "m < n" "m < length values" by simp_all
  then have r: "rev [m..<n] = rev [Suc m..<n] @ [m]" by (simp add: upt_conv_Cons)
  have split: "string_bytes (take (n - m) (drop m values))
      = (length (values ! m) + 1) + string_bytes (take (n - Suc m) (drop (Suc m) values))"
    using m by (simp add: string_bytes_def Cons_nth_drop_Suc [symmetric] take_Cons' Suc_diff_Suc)
  let ?rest = "string_bytes (take (n - Suc m) (drop (Suc m) values))"
  obtain ptrs1 stack1 where loop: "fold_result (push_at base values) (rev [Suc m..<n]) (ptrs, stack, cursor)
      = Inr (ptrs1, stack1, cursor - ?rest)" "length stack1 = length stack"
  proof -
    have d: "d = n - Suc m" "Suc m \<le> n" "?rest \<le> cursor"
      using Suc.hyps(2) Suc.prems(4) m split by linarith+
    show thesis using Suc.hyps(1) [OF d(1) Suc.prems(1) d(2) Suc.prems(3) d(3) Suc.prems(5,6)] that by blast
  qed
  obtain ptr stack2 where "push_initial_string base (values ! m) (stack1, cursor - ?rest)
      = Inr (ptr, stack2, cursor - ?rest - (length (values ! m) + 1))" "length stack2 = length stack1"
  proof -
    have "string_ok (values ! m)" using Suc.prems(1) m(2) by simp
    moreover have "length (values ! m) + 1 \<le> cursor - ?rest" "cursor - ?rest \<le> length stack1"
      "unat base + length stack1 < 2 ^ 64"
      using Suc.prems(4-6) split loop(2) by linarith+
    ultimately show thesis using push_initial_string_succeeds that by blast
  qed
  then show ?case using loop split by (simp add: r fold_result_append push_at_def)
qed

lemma push_strings_succeeds:
  assumes "\<forall>v\<in>set values. string_ok v" and "string_bytes values \<le> cursor" and "cursor \<le> length stack"
    and "unat base + length stack < 2 ^ 64"
  shows "\<exists>ptrs stack'. push_strings base values capacity (stack, cursor)
    = Inr (ptrs, stack', cursor - string_bytes values) \<and> length stack' = length stack"
  using push_range_succeeds [OF assms(1), of 0 "length values" cursor stack base "replicate capacity 0"] assms(2-4)
  by (simp add: push_strings_push_at)

lemma write_words_succeeds:
  assumes "ts + 8 * (word + length vs) \<le> length stack" and "length stack < 2 ^ 64"
  shows "\<exists>stack'. fold_result (write_initial_word ts) vs (stack, word) = Inr (stack', word + length vs)
    \<and> length stack' = length stack"
  using assms
proof (induction vs arbitrary: stack word)
  case (Cons v vs)
  let ?s = "copy_at stack (ts + word * 8) (to_le_bytes v)"
  have "word * 8 < usize_limit" "ts + word * 8 < usize_limit" "ts + word * 8 + 8 < usize_limit"
    "ts + word * 8 + 8 \<le> length stack"
    using Cons.prems by (simp_all add: usize_limit_def)
  then have "write_initial_word ts v (stack, word) = Inr (?s, word + 1)" "length ?s = length stack"
    by (simp_all add: write_initial_word_def usize_add_def usize_mul_def get_range_def)
  with Cons.IH [of "word + 1" ?s] Cons.prems show ?case by auto
qed simp

lemma builder_succeeds:
  assumes "arguments \<noteq> []" and "length arguments \<le> 16" and "length environment \<le> 16"
    and "\<forall>v\<in>set arguments. string_ok v" and "\<forall>v\<in>set environment. string_ok v"
    and "16 dvd unat base" and "unat base + length stack < 2 ^ 64"
    and "string_bytes arguments + string_bytes environment + 8 * (length arguments + length environment + 21) \<le> length stack"
  shows "\<exists>layout final. build_linux_initial_stack stack base arguments environment entry page_size = Inr (layout, final)"
proof -
  let ?n = "length arguments + length environment + 21"
  let ?c1 = "length stack - string_bytes environment"
  let ?c2 = "?c1 - string_bytes arguments"
  let ?ts = "unat ((word_of_nat (?c2 - 8 * ?n) :: u64) AND NOT 15)"
  have len: "length stack < 2 ^ 64" using assms(7) by linarith
  obtain envp s1 where env: "push_strings base environment 16 (stack, length stack) = Inr (envp, s1, ?c1)"
    "length s1 = length stack"
    using push_strings_succeeds [OF assms(5), of "length stack" stack base 16] assms(7,8) by auto
  obtain argp s2 where arg: "push_strings base arguments 16 (s1, ?c1) = Inr (argp, s2, ?c2)" "length s2 = length stack"
  proof -
    have room: "string_bytes arguments \<le> ?c1" "?c1 \<le> length s1" "unat base + length s1 < 2 ^ 64"
      using assms(7,8) env(2) by linarith+
    show thesis using push_strings_succeeds [OF assms(4) room] env(2) that by auto
  qed
  have "length argp = 16" "length envp = 16"
    using push_strings_ok [OF env(1)] push_strings_ok [OF arg(1)] assms(2,3) env(2) by auto
  then have words: "length ([word_of_nat (length arguments)] @ take (length arguments) argp @ [0]
       @ take (length environment) envp @ [0] @ auxiliary_vector page_size entry (argp ! 0)) = ?n"
    using assms(2,3) by (simp add: auxiliary_vector_def)
  have ts: "?ts = 16 * ((?c2 - 8 * ?n) div 16)"
    unfolding align_down_16 using len by (simp add: unat_of_nat take_bit_nat_eq_self)
  have ts_le: "?ts + 8 * ?n \<le> ?c2"
    unfolding ts using assms(8) by (simp add: div_times_less_eq_dividend mult.commute le_diff_conv2)
  have ts_len: "?ts + 8 * ?n \<le> length stack" using ts_le by linarith
  then have ts_lt: "?ts < length stack" by (rule less_le_trans [rotated]) simp
  obtain s3 where w: "fold_result (write_initial_word ?ts) ([word_of_nat (length arguments)] @ take (length arguments) argp @ [0]
       @ take (length environment) envp @ [0] @ auxiliary_vector page_size entry (argp ! 0)) (s2, 0) = Inr (s3, ?n)"
    using write_words_succeeds [of ?ts 0 _ s2] ts_len len words arg(2) by (metis add_0)
  have sp: "checked_add base (word_of_nat ?ts) = Some (base + word_of_nat ?ts)"
    using ts_lt assms(7) by (intro checked_add_word_of_nat) linarith
  have sp_unat: "unat (base + word_of_nat ?ts :: u64) = unat base + ?ts"
    using checked_add_unat [OF sp] by simp
  have aligned: "(base + word_of_nat ?ts) AND 15 = 0"
    unfolding aligned_16 sp_unat using assms(6) ts by simp
  have top: "checked_add base (word_of_nat (length stack)) = Some (base + word_of_nat (length stack))"
    using assms(7) by (rule checked_add_word_of_nat)
  have "unat (base + word_of_nat (length stack) :: u64) = unat base + length stack"
    using checked_add_unat [OF top] len by (simp add: unat_of_nat take_bit_nat_eq_self)
  then have below: "\<not> base + word_of_nat (length stack) \<le> base + word_of_nat ?ts"
    using ts_lt sp_unat by (simp add: word_le_nat_alt)
  have count: "initial_table_words arguments environment = Some ?n"
    using assms(2,3) by (simp add: initial_table_words_def usize_add_def usize_limit_def LINUX_AUXV_PAIRS_def)
  have "usize_mul ?n 8 = Some (8 * ?n)" "usize_sub ?c2 (8 * ?n) = Some (?c2 - 8 * ?n)"
    using assms(2,3) ts_le by (simp_all add: usize_mul_def usize_limit_def usize_sub_def mult.commute)
  then show ?thesis
    using assms(1-3) len top env(1) arg(1) count sp aligned below w
    unfolding build_linux_initial_stack_def write_initial_table_words Let_def
    by (simp add: MAX_INITIAL_ARGUMENTS_def MAX_INITIAL_ENVIRONMENT_def INITIAL_STACK_ALIGNMENT_def)
qed

text \<open>The builder succeeds whenever it can: with one to sixteen arguments, at most sixteen
  environment entries, all of them non-empty and without NUL, a 16-byte aligned stack that does not
  reach the end of the address space and is large enough for the strings and the table, it returns a
  layout and not an error.\<close>

lemma initial_stack_succeeds:
  assumes "arguments \<noteq> []" and "length arguments \<le> 16" and "length environment \<le> 16"
    and "\<forall>v\<in>set arguments. string_ok v" and "\<forall>v\<in>set environment. string_ok v"
    and "16 dvd unat base" and "unat base + length stack < 2 ^ 64"
    and "string_bytes arguments + string_bytes environment + 8 * (length arguments + length environment + 21) \<le> length stack"
  shows "\<exists>layout final. build_linux_initial_stack stack base arguments environment entry page_size = Inr (layout, final)"
  using assms by (rule builder_succeeds)

lemma points_toI:
  "unat p = unat base + off \<Longrightarrow> cstring_at stack off v \<Longrightarrow> points_to base stack p v"
  by (simp add: points_to_def)

text \<open>Strings that were pushed below \<open>c\<close> are still pointed to in a stack that agrees from \<open>c\<close> on.\<close>

lemma pushed_strings_pointed:
  assumes "\<forall>i<length ss. \<exists>off. c \<le> off \<and> unat (ps ! i) = unat base + off \<and> cstring_at s off (ss ! i)"
    and "drop c final = drop c s" and "length ss \<le> length ps"
  shows "list_all2 (points_to base final) (take (length ss) ps) ss"
proof (rule list_all2_all_nthI)
  fix i assume "i < length (take (length ss) ps)"
  then have i: "i < length ss" by simp
  then obtain off where off: "c \<le> off" "unat (ps ! i) = unat base + off" "cstring_at s off (ss ! i)"
    using assms(1) by blast
  then have "cstring_at final off (ss ! i)" using cstring_at_same [OF assms(2) off(1)] by simp
  with off(2) i show "points_to base final (take (length ss) ps ! i) (ss ! i)" by (simp add: points_toI)
qed (use assms(3) in simp)

text \<open>\<^bold>\<open>C14\<close>. The initial stack has the Linux layout. When the builder succeeds, the stack pointer is
  16-byte aligned and inside the stack, and reading 64-bit words upwards from it gives the argument
  count, one pointer per argument, a null word, one pointer per environment entry, a null word, and
  the auxiliary vector with the page size, the entry point, the identities, and the first argument
  as executable name, closed by the null entry. Every pointer leads to its string followed by a NUL
  byte, with all strings above the table.\<close>

theorem initial_stack_layout:
  assumes "build_linux_initial_stack stack base arguments environment entry page_size = Inr (layout, final)"
  shows "length final = length stack \<and> 16 dvd unat (layout_stack_pointer layout)
    \<and> (\<exists>ts argp envp. unat (layout_stack_pointer layout) = unat base + ts
        \<and> ts + 8 * (length arguments + length environment + 21) \<le> length final
        \<and> used_bytes layout = length final - ts
        \<and> stack_words final ts (length arguments + length environment + 21) =
            [word_of_nat (length arguments)] @ argp @ [0] @ envp @ [0] @ auxiliary_vector page_size entry (argp ! 0)
        \<and> list_all2 (points_to base final) argp arguments
        \<and> list_all2 (points_to base final) envp environment)"
  using assms
proof (rule build_success)
  fix envp argp s1 s2 c1 c2 ts sp
  let ?n = "length arguments + length environment + 21"
  assume len: "arguments \<noteq> []" "length arguments \<le> 16" "length environment \<le> 16" "length stack < 2 ^ 64"
    and env: "push_strings base environment 16 (stack, length stack) = Inr (envp, s1, c1)"
    and arg: "push_strings base arguments 16 (s1, c1) = Inr (argp, s2, c2)"
    and fits: "8 * ?n \<le> c2"
    and ts: "ts = unat ((word_of_nat (c2 - 8 * ?n) :: u64) AND NOT 15)"
    and sp: "checked_add base (word_of_nat ts) = Some sp" "sp AND 15 = 0"
    and w: "fold_result (write_initial_word ts) ([word_of_nat (length arguments)] @ take (length arguments) argp @ [0]
       @ take (length environment) envp @ [0] @ auxiliary_vector page_size entry (argp ! 0)) (s2, 0) = Inr (final, ?n)"
    and layout: "layout = \<lparr>layout_stack_pointer = sp, argument_count = length arguments,
       environment_count = length environment, auxiliary_pairs = LINUX_AUXV_PAIRS, used_bytes = length final - ts\<rparr>"
  from push_strings_ok [OF env] len have e: "length envp = 16" "length s1 = length stack" "c1 \<le> length stack"
    "\<forall>i<length environment. \<exists>off. c1 \<le> off \<and> unat (envp ! i) = unat base + off \<and> cstring_at s1 off (environment ! i)"
    by auto
  from push_strings_ok [OF arg] len e have g: "length argp = 16" "length s2 = length stack" "c2 \<le> c1"
    "drop c1 s2 = drop c1 s1"
    "\<forall>i<length arguments. \<exists>off. c2 \<le> off \<and> unat (argp ! i) = unat base + off \<and> cstring_at s2 off (arguments ! i)"
    by auto
  have "c2 - 8 * ?n < 2 ^ 64" using g(3) e(3) len(4) by linarith
  then have "ts = 16 * ((c2 - 8 * ?n) div 16)" unfolding ts align_down_16 by (simp add: unat_of_nat take_bit_nat_eq_self)
  then have ts_le: "ts + 8 * ?n \<le> c2" using fits by (simp add: div_times_less_eq_dividend mult.commute le_diff_conv2)
  have room: "ts + 8 * 0 \<le> length s2" using ts_le g e by simp
  from write_words_ok [OF w room] have f: "length final = length s2" "ts + 8 * ?n \<le> length s2"
    "stack_words final ts ?n = [word_of_nat (length arguments)] @ take (length arguments) argp @ [0]
       @ take (length environment) envp @ [0] @ auxiliary_vector page_size entry (argp ! 0)"
    "drop (ts + 8 * ?n) final = drop (ts + 8 * ?n) s2"
    by (auto simp: stack_words_def)
  have final2: "drop c2 final = drop c2 s2" using f(4) ts_le by (rule drop_same_later)
  then have final1: "drop c1 final = drop c1 s1" using drop_same_later [OF final2 g(3)] g(4) by simp
  have args: "list_all2 (points_to base final) (take (length arguments) argp) arguments"
    by (rule pushed_strings_pointed [OF g(5) final2]) (use g len in simp)
  have envs: "list_all2 (points_to base final) (take (length environment) envp) environment"
    by (rule pushed_strings_pointed [OF e(4) final1]) (use e len in simp)
  have "unat sp = unat base + ts"
  proof -
    have "ts < 2 ^ 64" unfolding ts by (rule unat_lt_64)
    then show ?thesis using checked_add_unat [OF sp(1)] by (simp add: unat_of_nat take_bit_nat_eq_self)
  qed
  moreover have "16 dvd unat sp" using sp(2) by (simp add: aligned_16)
  moreover have "take (length arguments) argp ! 0 = argp ! 0" using len(1) by simp
  ultimately show ?thesis using f(1,2) f(3) args envs g(2) layout
    by (intro conjI exI [of _ ts] exI [of _ "take (length arguments) argp"] exI [of _ "take (length environment) envp"])
      simp_all
qed

theorem initial_stack_layout_witness:
  "\<exists>layout final. build_linux_initial_stack (replicate 4096 0) 0x1000 [[0x61, 0x62], [0x63]] [] 0x400000 4096 = Inr (layout, final)
     \<and> 16 dvd unat (layout_stack_pointer layout) \<and> length final = 4096"
proof -
  have "\<exists>layout final. build_linux_initial_stack (replicate 4096 0) 0x1000 [[0x61, 0x62], [0x63]] [] 0x400000 4096 = Inr (layout, final)"
    by (rule builder_succeeds) (simp_all add: string_ok_def string_bytes_def)
  then obtain layout final where
    ok: "build_linux_initial_stack (replicate 4096 0) 0x1000 [[0x61, 0x62], [0x63]] [] 0x400000 4096 = Inr (layout, final)"
    by blast
  from initial_stack_layout [OF ok] ok show ?thesis by auto
qed

end
