(* ===== verification/Elf.thy ===== *)
theory Elf
  imports Slop_Prelude
begin

text \<open>
  The ELF64 loader front end of \<open>crates/elf/src/lib.rs\<close>: header and program-header validation, and
  the iterator over the loadable segments. Byte slices are lists; the offsets the code adds without
  a check are natural numbers here, as every one of them lies below the end of the file.
\<close>

section \<open>Data\<close>

definition ELF64_HEADER_SIZE :: nat where "ELF64_HEADER_SIZE = 64"
definition ELF64_PROGRAM_HEADER_SIZE :: nat where "ELF64_PROGRAM_HEADER_SIZE = 56"
definition MAX_PROGRAM_HEADERS :: nat where "MAX_PROGRAM_HEADERS = 64"
definition PF_X :: u32 where "PF_X = 1"
definition PF_W :: u32 where "PF_W = 2"
definition PF_R :: u32 where "PF_R = 4"
definition ELF_CLASS_64 :: u8 where "ELF_CLASS_64 = 2"
definition ELF_DATA_LITTLE_ENDIAN :: u8 where "ELF_DATA_LITTLE_ENDIAN = 1"
definition ELF_VERSION_CURRENT :: u8 where "ELF_VERSION_CURRENT = 1"
definition ELF_OS_ABI_SYSTEM_V :: u8 where "ELF_OS_ABI_SYSTEM_V = 0"
definition ELF_OS_ABI_LINUX :: u8 where "ELF_OS_ABI_LINUX = 3"
definition ELF_TYPE_EXECUTABLE :: u16 where "ELF_TYPE_EXECUTABLE = 2"
definition ELF_MACHINE_X86_64 :: u16 where "ELF_MACHINE_X86_64 = 62"
definition PT_LOAD :: u32 where "PT_LOAD = 1"

datatype ParseError =
    Truncated
  | InvalidMagic
  | UnsupportedClass
  | UnsupportedEndian
  | UnsupportedIdentVersion
  | UnsupportedAbi
  | UnsupportedFileType
  | UnsupportedMachine
  | UnsupportedVersion
  | InvalidHeaderSize
  | MissingProgramHeaders
  | InvalidProgramHeaderSize
  | TooManyProgramHeaders
  | ProgramHeaderTableOutOfBounds
  | MissingLoadSegment
  | EmptyLoadSegment
  | FileSizeExceedsMemorySize
  | FileRangeOutOfBounds
  | ElfAddressOverflow
  | NonCanonicalAddress
  | InvalidAlignment
  | MisalignedLoadSegment
  | WritableExecutableSegment
  | OverlappingLoadSegments
  | EntryOutsideExecutableSegment

record ProgramHeader =
  ph_kind :: u32
  ph_flags :: u32
  ph_offset :: u64
  ph_virtual_address :: u64
  ph_file_size :: u64
  ph_memory_size :: u64
  ph_alignment :: u64

record LoadSegment =
  seg_data :: "u8 list"
  seg_virtual_address :: u64
  seg_memory_size :: u64
  seg_flags :: u32
  seg_alignment :: u64

definition seg_file_size :: "LoadSegment \<Rightarrow> nat" where
  "seg_file_size s = length (seg_data s)"

definition seg_readable :: "LoadSegment \<Rightarrow> bool" where
  "seg_readable s \<longleftrightarrow> seg_flags s AND PF_R \<noteq> 0"

definition seg_writable :: "LoadSegment \<Rightarrow> bool" where
  "seg_writable s \<longleftrightarrow> seg_flags s AND PF_W \<noteq> 0"

definition seg_executable :: "LoadSegment \<Rightarrow> bool" where
  "seg_executable s \<longleftrightarrow> seg_flags s AND PF_X \<noteq> 0"

record ElfFile =
  elf_bytes :: "u8 list"
  elf_entry :: u64
  program_header_offset :: nat
  program_header_count :: nat
  load_segment_count :: nat

record LoadSegments =
  segments_file :: ElfFile
  next_program_header :: nat
  remaining_load_segments :: nat

section \<open>Reading\<close>

definition elf_read_u16 :: "u8 list \<Rightarrow> nat \<Rightarrow> ParseError + u16" where
  "elf_read_u16 bytes off =
     rbind (ok_or Truncated (get_range bytes off (off + 2))) (\<lambda>v. Inr (from_le_bytes v))"

definition elf_read_u32 :: "u8 list \<Rightarrow> nat \<Rightarrow> ParseError + u32" where
  "elf_read_u32 bytes off =
     rbind (ok_or Truncated (get_range bytes off (off + 4))) (\<lambda>v. Inr (from_le_bytes v))"

definition elf_read_u64 :: "u8 list \<Rightarrow> nat \<Rightarrow> ParseError + u64" where
  "elf_read_u64 bytes off =
     rbind (ok_or Truncated (get_range bytes off (off + 8))) (\<lambda>v. Inr (from_le_bytes v))"

definition is_canonical :: "u64 \<Rightarrow> bool" where
  "is_canonical address \<longleftrightarrow> address \<le> 0x00007fffffffffff \<or> 0xffff800000000000 \<le> address"

definition segments_overlap :: "ProgramHeader \<Rightarrow> ProgramHeader \<Rightarrow> ParseError + bool" where
  "segments_overlap l r =
     rbind (ok_or ElfAddressOverflow (checked_add (ph_virtual_address l) (ph_memory_size l))) (\<lambda>left_end.
     rbind (ok_or ElfAddressOverflow (checked_add (ph_virtual_address r) (ph_memory_size r))) (\<lambda>right_end.
     Inr (ph_virtual_address l < right_end \<and> ph_virtual_address r < left_end)))"

definition program_header :: "ElfFile \<Rightarrow> nat \<Rightarrow> ParseError + ProgramHeader" where
  "program_header f index =
    (if program_header_count f \<le> index then Inl ProgramHeaderTableOutOfBounds
     else
       rbind (ok_or ProgramHeaderTableOutOfBounds (usize_mul index ELF64_PROGRAM_HEADER_SIZE)) (\<lambda>off.
       rbind (ok_or ProgramHeaderTableOutOfBounds (usize_add (program_header_offset f) off)) (\<lambda>start.
       rbind (elf_read_u32 (elf_bytes f) start) (\<lambda>kind.
       rbind (elf_read_u32 (elf_bytes f) (start + 4)) (\<lambda>flags.
       rbind (elf_read_u64 (elf_bytes f) (start + 8)) (\<lambda>offset.
       rbind (elf_read_u64 (elf_bytes f) (start + 16)) (\<lambda>virtual_address.
       rbind (elf_read_u64 (elf_bytes f) (start + 32)) (\<lambda>file_size.
       rbind (elf_read_u64 (elf_bytes f) (start + 40)) (\<lambda>memory_size.
       rbind (elf_read_u64 (elf_bytes f) (start + 48)) (\<lambda>alignment.
       Inr \<lparr>ph_kind = kind, ph_flags = flags, ph_offset = offset, ph_virtual_address = virtual_address,
            ph_file_size = file_size, ph_memory_size = memory_size, ph_alignment = alignment\<rparr>))))))))))"

section \<open>Validation\<close>

definition validate_load_segment :: "ElfFile \<Rightarrow> ProgramHeader \<Rightarrow> ParseError + unit" where
  "validate_load_segment f h =
    (if ph_memory_size h = 0 then Inl EmptyLoadSegment
     else if ph_memory_size h < ph_file_size h then Inl FileSizeExceedsMemorySize
     else if ph_flags h AND (PF_W OR PF_X) = PF_W OR PF_X then Inl WritableExecutableSegment
     else if 1 < ph_alignment h \<and> \<not> is_power_of_two (ph_alignment h) then Inl InvalidAlignment
     else if 1 < ph_alignment h
        \<and> ph_virtual_address h mod ph_alignment h \<noteq> ph_offset h mod ph_alignment h
     then Inl MisalignedLoadSegment
     else
       rbind (ok_or FileRangeOutOfBounds (usize_add (unat (ph_offset h)) (unat (ph_file_size h)))) (\<lambda>file_end.
       if length (elf_bytes f) < file_end then Inl FileRangeOutOfBounds
       else
       rbind (ok_or ElfAddressOverflow (checked_add (ph_virtual_address h) (ph_memory_size h))) (\<lambda>memory_end.
       if \<not> is_canonical (ph_virtual_address h) \<or> \<not> is_canonical (memory_end - 1)
       then Inl NonCanonicalAddress
       else Inr ())))"

text \<open>The inner loop: no earlier loadable segment overlaps this one.\<close>

definition check_overlap :: "ElfFile \<Rightarrow> ProgramHeader \<Rightarrow> nat \<Rightarrow> unit \<Rightarrow> ParseError + unit" where
  "check_overlap f h previous u =
     rbind (program_header f previous) (\<lambda>other.
     if ph_kind other \<noteq> PT_LOAD then Inr ()
     else rbind (segments_overlap h other) (\<lambda>o1.
       if o1 then Inl OverlappingLoadSegments else Inr ()))"

text \<open>One round of the outer loop, on the number of segments seen and whether one of them contains
  the entry point and is executable.\<close>

definition validate_step :: "ElfFile \<Rightarrow> nat \<Rightarrow> nat \<times> bool \<Rightarrow> ParseError + nat \<times> bool" where
  "validate_step f index = (\<lambda>(count, entry_is_executable).
     rbind (program_header f index) (\<lambda>h.
     if ph_kind h \<noteq> PT_LOAD then Inr (count, entry_is_executable)
     else
     rbind (validate_load_segment f h) (\<lambda>_.
     rbind (ok_or ElfAddressOverflow (checked_add (ph_virtual_address h) (ph_memory_size h))) (\<lambda>memory_end.
     rbind (fold_result (check_overlap f h) [0..<index] ()) (\<lambda>_.
     Inr (count + 1,
          entry_is_executable
          \<or> (ph_flags h AND PF_X \<noteq> 0 \<and> ph_virtual_address h \<le> elf_entry f \<and> elf_entry f < memory_end)))))))"

definition validate_load_segments :: "ElfFile \<Rightarrow> ParseError + ElfFile" where
  "validate_load_segments f =
     rbind (fold_result (validate_step f) [0..<program_header_count f] (load_segment_count f, False))
       (\<lambda>(count, entry_is_executable).
     if count = 0 then Inl MissingLoadSegment
     else if \<not> entry_is_executable then Inl EntryOutsideExecutableSegment
     else Inr (f\<lparr>load_segment_count := count\<rparr>))"

text \<open>The identification checks at the start of \<open>ElfFile::parse\<close>.\<close>

definition parse_ident :: "u8 list \<Rightarrow> ParseError + unit" where
  "parse_ident bytes =
    (if length bytes < ELF64_HEADER_SIZE then Inl Truncated
     else if take 4 bytes \<noteq> [0x7f, 0x45, 0x4c, 0x46] then Inl InvalidMagic
     else if bytes ! 4 \<noteq> ELF_CLASS_64 then Inl UnsupportedClass
     else if bytes ! 5 \<noteq> ELF_DATA_LITTLE_ENDIAN then Inl UnsupportedEndian
     else if bytes ! 6 \<noteq> ELF_VERSION_CURRENT then Inl UnsupportedIdentVersion
     else if bytes ! 7 \<noteq> ELF_OS_ABI_SYSTEM_V \<and> bytes ! 7 \<noteq> ELF_OS_ABI_LINUX then Inl UnsupportedAbi
     else
     rbind (elf_read_u16 bytes 16) (\<lambda>kind.
     if kind \<noteq> ELF_TYPE_EXECUTABLE then Inl UnsupportedFileType
     else
     rbind (elf_read_u16 bytes 18) (\<lambda>machine.
     if machine \<noteq> ELF_MACHINE_X86_64 then Inl UnsupportedMachine
     else
     rbind (elf_read_u32 bytes 20) (\<lambda>version.
     if version \<noteq> ucast ELF_VERSION_CURRENT then Inl UnsupportedVersion
     else
     rbind (elf_read_u16 bytes 52) (\<lambda>header_size.
     if unat header_size \<noteq> ELF64_HEADER_SIZE then Inl InvalidHeaderSize else Inr ())))))"

definition elf_parse :: "u8 list \<Rightarrow> ParseError + ElfFile" where
  "elf_parse bytes =
     rbind (parse_ident bytes) (\<lambda>_.
     rbind (elf_read_u64 bytes 32) (\<lambda>ph_off.
     rbind (elf_read_u16 bytes 54) (\<lambda>ph_size.
     rbind (elf_read_u16 bytes 56) (\<lambda>ph_count.
     if unat ph_count = 0 then Inl MissingProgramHeaders
     else if unat ph_size \<noteq> ELF64_PROGRAM_HEADER_SIZE then Inl InvalidProgramHeaderSize
     else if MAX_PROGRAM_HEADERS < unat ph_count then Inl TooManyProgramHeaders
     else
     rbind (ok_or ProgramHeaderTableOutOfBounds (usize_mul (unat ph_size) (unat ph_count))) (\<lambda>table_size.
     rbind (ok_or ProgramHeaderTableOutOfBounds (usize_add (unat ph_off) table_size)) (\<lambda>table_end.
     if unat ph_off < ELF64_HEADER_SIZE \<or> length bytes < table_end then Inl ProgramHeaderTableOutOfBounds
     else
     rbind (elf_read_u64 bytes 24) (\<lambda>entry.
     validate_load_segments \<lparr>elf_bytes = bytes, elf_entry = entry, program_header_offset = unat ph_off,
       program_header_count = unat ph_count, load_segment_count = 0\<rparr>)))))))"

section \<open>The loadable segments\<close>

definition load_segment :: "ElfFile \<Rightarrow> ProgramHeader \<Rightarrow> LoadSegment option" where
  "load_segment f h =
     Option.bind (usize_add (unat (ph_offset h)) (unat (ph_file_size h))) (\<lambda>fin.
     Option.bind (get_range (elf_bytes f) (unat (ph_offset h)) fin) (\<lambda>data.
     Some \<lparr>seg_data = data, seg_virtual_address = ph_virtual_address h, seg_memory_size = ph_memory_size h,
           seg_flags = ph_flags h, seg_alignment = ph_alignment h\<rparr>))"

definition elf_is_empty :: "ElfFile \<Rightarrow> bool" where
  "elf_is_empty f \<longleftrightarrow> load_segment_count f = 0"

definition load_segments :: "ElfFile \<Rightarrow> LoadSegments" where
  "load_segments f = \<lparr>segments_file = f, next_program_header = 0, remaining_load_segments = load_segment_count f\<rparr>"

function segments_next :: "LoadSegments \<Rightarrow> LoadSegment option \<times> LoadSegments" where
  "segments_next it =
    (if program_header_count (segments_file it) \<le> next_program_header it then (None, it)
     else
       let index = next_program_header it;
           it' = it\<lparr>next_program_header := index + 1\<rparr>
       in case program_header (segments_file it) index of
            Inl _ \<Rightarrow> (None, it')
          | Inr h \<Rightarrow>
              if ph_kind h = PT_LOAD
              then (load_segment (segments_file it) h,
                    it'\<lparr>remaining_load_segments := remaining_load_segments it - 1\<rparr>)
              else segments_next it')"
  by pat_completeness auto
termination
  by (relation "measure (\<lambda>it. program_header_count (segments_file it) - next_program_header it)") auto

definition size_hint :: "LoadSegments \<Rightarrow> nat \<times> nat option" where
  "size_hint it = (remaining_load_segments it, Some (remaining_load_segments it))"

end
