(* ===== verification/Elf_Proofs.thy ===== *)
theory Elf_Proofs
  imports Elf "HOL-Library.Code_Target_Nat"
begin

text \<open>
  Properties of the ELF loader front end: what an accepted executable guarantees about its loadable
  segments, and that the segment iterator yields exactly the validated segments.
\<close>

section \<open>The loadable program headers of a file\<close>

definition load_header_at :: "ElfFile \<Rightarrow> nat \<Rightarrow> ProgramHeader list" where
  "load_header_at f i =
    (case program_header f i of
       Inl _ \<Rightarrow> []
     | Inr h \<Rightarrow> if ph_kind h = PT_LOAD then [h] else [])"

definition load_headers_between :: "ElfFile \<Rightarrow> nat \<Rightarrow> nat \<Rightarrow> ProgramHeader list" where
  "load_headers_between f a b = concat (map (load_header_at f) [a..<b])"

abbreviation load_headers :: "ElfFile \<Rightarrow> ProgramHeader list" where
  "load_headers f \<equiv> load_headers_between f 0 (program_header_count f)"

definition ph_end :: "ProgramHeader \<Rightarrow> nat" where
  "ph_end h = unat (ph_virtual_address h) + unat (ph_memory_size h)"

definition ph_disjoint :: "ProgramHeader \<Rightarrow> ProgramHeader \<Rightarrow> bool" where
  "ph_disjoint g h \<longleftrightarrow> ph_end g \<le> unat (ph_virtual_address h) \<or> ph_end h \<le> unat (ph_virtual_address g)"

definition holds_entry :: "ElfFile \<Rightarrow> ProgramHeader \<Rightarrow> bool" where
  "holds_entry f h \<longleftrightarrow> ph_flags h AND PF_X \<noteq> 0
     \<and> unat (ph_virtual_address h) \<le> unat (elf_entry f) \<and> unat (elf_entry f) < ph_end h"

text \<open>What an accepted loadable header satisfies.\<close>

definition load_header_ok :: "ElfFile \<Rightarrow> ProgramHeader \<Rightarrow> bool" where
  "load_header_ok f h \<longleftrightarrow>
     0 < unat (ph_memory_size h)
     \<and> unat (ph_file_size h) \<le> unat (ph_memory_size h)
     \<and> unat (ph_offset h) + unat (ph_file_size h) \<le> length (elf_bytes f)
     \<and> ph_end h < 2 ^ 64
     \<and> (ph_flags h AND PF_W = 0 \<or> ph_flags h AND PF_X = 0)
     \<and> is_canonical (ph_virtual_address h)
     \<and> is_canonical (ph_virtual_address h + ph_memory_size h - 1)
     \<and> (1 < ph_alignment h \<longrightarrow> is_power_of_two (ph_alignment h)
          \<and> ph_virtual_address h mod ph_alignment h = ph_offset h mod ph_alignment h)"

lemma load_headers_between_empty [simp]: "b \<le> a \<Longrightarrow> load_headers_between f a b = []"
  by (simp add: load_headers_between_def)

lemma load_headers_between_Suc:
  "load_headers_between f 0 (Suc n) = load_headers_between f 0 n @ load_header_at f n"
  by (simp add: load_headers_between_def)

lemma load_headers_between_Cons:
  "a < b \<Longrightarrow> load_headers_between f a b = load_header_at f a @ load_headers_between f (Suc a) b"
  by (simp add: load_headers_between_def upt_conv_Cons)

lemma program_header_count_irrelevant [simp]:
  "program_header (f\<lparr>load_segment_count := c\<rparr>) i = program_header f i"
  by (simp add: program_header_def)

lemma load_headers_count_irrelevant [simp]:
  "load_headers_between (f\<lparr>load_segment_count := c\<rparr>) a b = load_headers_between f a b"
  by (simp add: load_headers_between_def load_header_at_def [abs_def])

lemma load_header_ok_count_irrelevant [simp]:
  "load_header_ok (f\<lparr>load_segment_count := c\<rparr>) h = load_header_ok f h"
  "holds_entry (f\<lparr>load_segment_count := c\<rparr>) h = holds_entry f h"
  by (simp_all add: load_header_ok_def holds_entry_def)

section \<open>Validation\<close>

lemma not_write_and_execute:
  assumes "(flags :: u32) AND (PF_W OR PF_X) \<noteq> PF_W OR PF_X"
  shows "flags AND PF_W = 0 \<or> flags AND PF_X = 0"
proof (rule ccontr)
  assume neither: "\<not> ?thesis"
  then have low: "bit flags 0" and high: "bit flags 1"
    using and_exp_eq_0_iff_not_bit [of flags 0] and_exp_eq_0_iff_not_bit [of flags 1]
    by (simp_all add: PF_W_def PF_X_def)
  have "flags AND mask 2 = mask 2"
    by (rule bit_word_eqI) (use low high in \<open>auto simp: bit_simps less_2_cases_iff\<close>)
  then have "flags AND 3 = 3" by (simp add: mask_eq_exp_minus_1)
  with assms show False by (simp add: PF_W_def PF_X_def)
qed

lemma validate_load_segment_ok:
  assumes "validate_load_segment f h = Inr ()"
  shows "load_header_ok f h"
  using assms not_write_and_execute [of "ph_flags h"]
  by (auto simp: validate_load_segment_def load_header_ok_def ph_end_def result_simps checked_simps
      word_less_nat_alt unat_gt_0 split: if_splits)

lemma segments_overlap_disjoint:
  "segments_overlap g h = Inr b \<Longrightarrow> b \<longleftrightarrow> \<not> ph_disjoint g h"
  by (auto simp: segments_overlap_def result_simps ph_disjoint_def ph_end_def not_le checked_add_less)

lemma check_overlap_ok:
  assumes "fold_result (check_overlap f h) [0..<n] () = Inr ()"
  shows "\<forall>g\<in>set (load_headers_between f 0 n). ph_disjoint g h"
  using assms
proof (induction n)
  case 0
  then show ?case by simp
next
  case (Suc n)
  then have first: "fold_result (check_overlap f h) [0..<n] () = Inr ()"
    and last: "check_overlap f h n () = Inr ()"
    by (simp_all add: fold_result_append result_simps)
  from last have "\<forall>g\<in>set (load_header_at f n). ph_disjoint g h"
    by (auto simp: load_header_at_def check_overlap_def result_simps ph_disjoint_def
        split: if_splits sum.splits dest!: segments_overlap_disjoint)
  with Suc.IH [OF first] show ?case by (auto simp: load_headers_between_Suc)
qed

definition validated :: "ElfFile \<Rightarrow> nat \<Rightarrow> nat \<times> bool \<Rightarrow> bool" where
  "validated f n = (\<lambda>(count, entry_is_executable).
     (\<forall>i<n. \<exists>h. program_header f i = Inr h)
     \<and> count = length (load_headers_between f 0 n)
     \<and> (\<forall>h\<in>set (load_headers_between f 0 n). load_header_ok f h)
     \<and> sorted_wrt ph_disjoint (load_headers_between f 0 n)
     \<and> (entry_is_executable \<longleftrightarrow> (\<exists>h\<in>set (load_headers_between f 0 n). holds_entry f h)))"

lemma validate_step_validated:
  assumes "validated f n s" and "validate_step f n s = Inr s'"
  shows "validated f (Suc n) s'"
proof -
  obtain c e where s: "s = (c, e)" by (cases s)
  obtain h where h: "program_header f n = Inr h"
    using assms(2) by (auto simp: s validate_step_def result_simps)
  show ?thesis
  proof (cases "ph_kind h = PT_LOAD")
    case False
    with assms h show ?thesis
      by (auto simp: s validated_def validate_step_def load_headers_between_Suc load_header_at_def less_Suc_eq)
  next
    case True
    from assms(2) True h have ok: "validate_load_segment f h = Inr ()"
      and over: "fold_result (check_overlap f h) [0..<n] () = Inr ()"
      and s': "s' = (c + 1, e \<or> holds_entry f h)"
      by (auto simp: s validate_step_def result_simps checked_simps holds_entry_def ph_end_def
          word_le_nat_alt word_less_nat_alt unat_word_ariths)
    from assms(1) show ?thesis
      using validate_load_segment_ok [OF ok] check_overlap_ok [OF over] h True
      by (auto simp: s s' validated_def load_headers_between_Suc load_header_at_def less_Suc_eq sorted_wrt_append)
  qed
qed

lemma fold_validate_step:
  "fold_result (validate_step f) [0..<n] (0, False) = Inr s \<Longrightarrow> validated f n s"
proof (induction n arbitrary: s)
  case 0
  then show ?case by (auto simp: validated_def)
next
  case (Suc n)
  then show ?case
    by (auto simp: fold_result_append result_simps intro: validate_step_validated)
qed

lemma validate_load_segments_validated:
  assumes "validate_load_segments f = Inr f'" and "load_segment_count f = 0"
  shows "f' = f\<lparr>load_segment_count := length (load_headers f)\<rparr>
    \<and> validated f (program_header_count f) (load_segment_count f', True) \<and> 0 < load_segment_count f'"
  using assms fold_validate_step [of f "program_header_count f"]
  by (auto simp: validate_load_segments_def result_simps validated_def split: if_splits)

lemma elf_parse_validated:
  assumes "elf_parse bytes = Inr f"
  shows "elf_bytes f = bytes"
    and "0 < load_segment_count f"
    and "validated f (program_header_count f) (load_segment_count f, True)"
proof -
  from assms obtain g where g: "validate_load_segments g = Inr f" "load_segment_count g = 0" "elf_bytes g = bytes"
    by (auto simp: elf_parse_def result_simps split: if_splits)
  from validate_load_segments_validated [OF g(1,2)] g(3)
  show "elf_bytes f = bytes" "0 < load_segment_count f"
    "validated f (program_header_count f) (load_segment_count f, True)"
    by (auto simp: validated_def)
qed

section \<open>The iterator\<close>

declare segments_next.simps [simp del]

lemma segments_next_progress:
  "segments_next it = (Some s, it') \<Longrightarrow>
     segments_file it' = segments_file it \<and> next_program_header it < next_program_header it'
     \<and> next_program_header it' \<le> program_header_count (segments_file it)"
proof (induction it rule: segments_next.induct)
  case (1 it)
  from "1.prems" have more: "\<not> program_header_count (segments_file it) \<le> next_program_header it"
    by (auto simp: segments_next.simps [of it])
  with "1.prems" obtain h where h: "program_header (segments_file it) (next_program_header it) = Inr h"
    by (auto simp: segments_next.simps [of it] Let_def split: sum.splits)
  show ?case
  proof (cases "ph_kind h = PT_LOAD")
    case True
    with "1.prems" more h show ?thesis by (auto simp: segments_next.simps [of it] Let_def)
  next
    case False
    with "1.prems" more h
    have "segments_next (it\<lparr>next_program_header := next_program_header it + 1\<rparr>) = (Some s, it')"
      by (simp add: segments_next.simps [of it] Let_def)
    with "1.IH" [OF more refl refl h False] show ?thesis by simp
  qed
qed

text \<open>The segments a \<open>for\<close> loop over the iterator visits.\<close>

function collect_segments :: "LoadSegments \<Rightarrow> LoadSegment list" where
  "collect_segments it =
    (case segments_next it of
       (None, _) \<Rightarrow> []
     | (Some s, it') \<Rightarrow> s # collect_segments it')"
  by pat_completeness auto
termination
  by (relation "measure (\<lambda>it. program_header_count (segments_file it) - next_program_header it)")
    (auto dest!: segments_next_progress [OF sym])

declare collect_segments.simps [simp del]

definition segment_of :: "ElfFile \<Rightarrow> ProgramHeader \<Rightarrow> LoadSegment" where
  "segment_of f h =
     \<lparr>seg_data = take (unat (ph_file_size h)) (drop (unat (ph_offset h)) (elf_bytes f)),
      seg_virtual_address = ph_virtual_address h, seg_memory_size = ph_memory_size h,
      seg_flags = ph_flags h, seg_alignment = ph_alignment h\<rparr>"

lemma load_segment_ok:
  assumes "load_header_ok f h" and "length (elf_bytes f) < usize_limit"
  shows "load_segment f h = Some (segment_of f h)"
  using assms by (auto simp: load_segment_def load_header_ok_def usize_add_def get_range_def segment_of_def)

text \<open>The headers an iterator has not visited yet.\<close>

abbreviation headers_left :: "LoadSegments \<Rightarrow> ProgramHeader list" where
  "headers_left it \<equiv> load_headers_between (segments_file it) (next_program_header it)
     (program_header_count (segments_file it))"

lemma segments_next_spec:
  assumes "\<forall>i<program_header_count (segments_file it). \<exists>h. program_header (segments_file it) i = Inr h"
  shows "case headers_left it of
      [] \<Rightarrow> fst (segments_next it) = None
    | h # hs \<Rightarrow> \<exists>it'. segments_next it = (load_segment (segments_file it) h, it')
        \<and> segments_file it' = segments_file it \<and> headers_left it' = hs
        \<and> remaining_load_segments it' = remaining_load_segments it - 1"
  using assms
proof (induction it rule: segments_next.induct)
  case (1 it)
  show ?case
  proof (cases "program_header_count (segments_file it) \<le> next_program_header it")
    case True
    then show ?thesis by (simp add: segments_next.simps [of it])
  next
    case more: False
    with "1.prems" obtain h where h: "program_header (segments_file it) (next_program_header it) = Inr h"
      by force
    show ?thesis
    proof (cases "ph_kind h = PT_LOAD")
      case True
      with more h show ?thesis
        by (simp add: segments_next.simps [of it] Let_def load_headers_between_Cons [of "next_program_header it"]
            load_header_at_def)
    next
      case False
      with "1.IH" [OF more refl refl h False] "1.prems" more h show ?thesis
        by (simp add: segments_next.simps [of it] Let_def load_headers_between_Cons [of "next_program_header it"]
            load_header_at_def split: list.splits)
    qed
  qed
qed

text \<open>The iterators a client of a well-formed file can hold.\<close>

definition iterator_ok :: "ElfFile \<Rightarrow> LoadSegments \<Rightarrow> bool" where
  "iterator_ok f it \<longleftrightarrow> segments_file it = f
     \<and> (\<forall>i<program_header_count f. \<exists>h. program_header f i = Inr h)
     \<and> (\<forall>h\<in>set (headers_left it). load_segment f h = Some (segment_of f h))
     \<and> remaining_load_segments it = length (headers_left it)"

lemma iterator_ok_next:
  assumes "iterator_ok f it" and "headers_left it = h # hs"
  obtains it' where "segments_next it = (Some (segment_of f h), it')" "iterator_ok f it'" "headers_left it' = hs"
  using assms segments_next_spec [of it] by (fastforce simp: iterator_ok_def)

lemma iterator_ok_end:
  "iterator_ok f it \<Longrightarrow> headers_left it = [] \<Longrightarrow> fst (segments_next it) = None"
  using segments_next_spec [of it] by (auto simp: iterator_ok_def)

lemma collect_segments_headers:
  "iterator_ok f it \<Longrightarrow> collect_segments it = map (segment_of f) (headers_left it)"
proof (induction "headers_left it" arbitrary: it)
  case Nil
  with iterator_ok_end [of f it] show ?case
    by (cases "segments_next it") (simp add: collect_segments.simps [of it])
next
  case (Cons h hs)
  obtain it' where step: "segments_next it = (Some (segment_of f h), it')" "iterator_ok f it'" "headers_left it' = hs"
    using iterator_ok_next [OF Cons.prems Cons.hyps(2) [symmetric]] .
  with Cons.hyps(1) [of it'] Cons.hyps(2) [symmetric] show ?case
    by (simp add: collect_segments.simps [of it])
qed

text \<open>The iterator after a number of calls of \<open>next\<close>.\<close>

primrec after_next :: "nat \<Rightarrow> LoadSegments \<Rightarrow> LoadSegments" where
  "after_next 0 it = it"
| "after_next (Suc k) it = after_next k (snd (segments_next it))"

lemma after_next_ok:
  "iterator_ok f it \<Longrightarrow> k \<le> length (headers_left it) \<Longrightarrow>
     iterator_ok f (after_next k it) \<and> headers_left (after_next k it) = drop k (headers_left it)"
proof (induction k arbitrary: it)
  case 0
  then show ?case by simp
next
  case (Suc k)
  then obtain h hs where left: "headers_left it = h # hs" by (cases "headers_left it") auto
  obtain it' where "segments_next it = (Some (segment_of f h), it')" "iterator_ok f it'" "headers_left it' = hs"
    using iterator_ok_next [OF Suc.prems(1) left] .
  with Suc.IH [of it'] Suc.prems(2) left show ?case by simp
qed

lemma parsed_iterator_ok:
  assumes "elf_parse bytes = Inr f" and "length bytes < usize_limit"
  shows "iterator_ok f (load_segments f)" and "headers_left (load_segments f) = load_headers f"
  using elf_parse_validated [OF assms(1)] assms(2)
  by (auto simp: iterator_ok_def load_segments_def validated_def load_segment_ok)

section \<open>Properties\<close>

definition seg_end :: "LoadSegment \<Rightarrow> nat" where
  "seg_end s = unat (seg_virtual_address s) + unat (seg_memory_size s)"

definition segments_disjoint :: "LoadSegment \<Rightarrow> LoadSegment \<Rightarrow> bool" where
  "segments_disjoint s t \<longleftrightarrow> seg_end s \<le> unat (seg_virtual_address t) \<or> seg_end t \<le> unat (seg_virtual_address s)"

lemma segment_of_ok:
  assumes "load_header_ok f h"
  shows "0 < unat (seg_memory_size (segment_of f h))
    \<and> seg_file_size (segment_of f h) \<le> unat (seg_memory_size (segment_of f h))
    \<and> seg_end (segment_of f h) < 2 ^ 64
    \<and> \<not> (seg_writable (segment_of f h) \<and> seg_executable (segment_of f h))"
  using assms
  by (auto simp: load_header_ok_def segment_of_def seg_file_size_def seg_end_def ph_end_def
      seg_writable_def seg_executable_def)

lemma segments_disjoint_of: "segments_disjoint (segment_of f g) (segment_of f h) = ph_disjoint g h"
  by (simp add: segments_disjoint_def ph_disjoint_def segment_of_def seg_end_def ph_end_def)

lemma holds_entry_of:
  "holds_entry f h \<longleftrightarrow> seg_executable (segment_of f h)
     \<and> unat (seg_virtual_address (segment_of f h)) \<le> unat (elf_entry f)
     \<and> unat (elf_entry f) < seg_end (segment_of f h)"
  by (simp add: holds_entry_def segment_of_def seg_end_def ph_end_def seg_executable_def)

text \<open>A smallest executable: the file header, one readable and executable segment of 16 bytes, no file data.\<close>

definition elf_image :: "u8 list \<Rightarrow> u8 list \<Rightarrow> u8 list" where
  "elf_image address memory =
     [0x7f, 0x45, 0x4c, 0x46, 2, 1, 1, 0, 0, 0, 0, 0, 0, 0, 0, 0, 2, 0, 62, 0, 1, 0, 0, 0]
     @ address @ [64, 0, 0, 0, 0, 0, 0, 0, 0, 0, 0, 0, 0, 0, 0, 0, 0, 0, 0, 0, 64, 0, 56, 0, 1, 0, 0, 0, 0, 0, 0, 0]
     @ [1, 0, 0, 0, 5, 0, 0, 0, 0, 0, 0, 0, 0, 0, 0, 0] @ address @ address
     @ [0, 0, 0, 0, 0, 0, 0, 0] @ memory @ [1, 0, 0, 0, 0, 0, 0, 0]"

definition elf_image_file :: "u8 list \<Rightarrow> u8 list \<Rightarrow> ElfFile" where
  "elf_image_file address memory = \<lparr>elf_bytes = elf_image address memory, elf_entry = from_le_bytes address,
     program_header_offset = 64, program_header_count = 1, load_segment_count = 1\<rparr>"

definition elf_image_header :: "u8 list \<Rightarrow> u8 list \<Rightarrow> ProgramHeader" where
  "elf_image_header address memory = \<lparr>ph_kind = 1, ph_flags = 5, ph_offset = 0,
     ph_virtual_address = from_le_bytes address, ph_file_size = 0, ph_memory_size = from_le_bytes memory,
     ph_alignment = 1\<rparr>"

abbreviation low_address :: "u8 list" where "low_address \<equiv> [0, 0, 0x40, 0, 0, 0, 0, 0]"
abbreviation small_size :: "u8 list" where "small_size \<equiv> [16, 0, 0, 0, 0, 0, 0, 0]"
abbreviation huge_size :: "u8 list" where "huge_size \<equiv> [0, 0, 0, 0, 0xff, 0xff, 0xff, 0xff]"

lemma elf_image_parses_if:
  assumes "f = elf_image_file ab mb" and "h = elf_image_header ab mb"
    and "parse_ident (elf_bytes f) = Inr ()" and "elf_read_u64 (elf_bytes f) 32 = Inr 64"
    and "elf_read_u16 (elf_bytes f) 54 = Inr 56" and "elf_read_u16 (elf_bytes f) 56 = Inr 1"
    and "elf_read_u64 (elf_bytes f) 24 = Inr (from_le_bytes ab)" and "length (elf_bytes f) = 120"
    and "program_header f 0 = Inr h" and "validate_load_segment (f\<lparr>load_segment_count := 0\<rparr>) h = Inr ()"
    and "checked_add (ph_virtual_address h) (ph_memory_size h) = Some e" and "ph_virtual_address h < e"
  shows "elf_parse (elf_image ab mb) = Inr (elf_image_file ab mb)"
proof -
  let ?g = "f\<lparr>load_segment_count := 0\<rparr>"
  have "program_header_count f = 1" "elf_entry f = ph_virtual_address h" "load_segment_count f = 1"
    "ph_kind h = PT_LOAD" "ph_flags h AND PF_X = 1"
    using assms(1,2) by (simp_all add: elf_image_file_def elf_image_header_def PT_LOAD_def PF_X_def)
  with assms(9-12) have "validate_load_segments ?g = Inr (f\<lparr>load_segment_count := load_segment_count f\<rparr>)"
    by (simp add: validate_load_segments_def validate_step_def)
  then have "validate_load_segments ?g = Inr f" by simp
  moreover have "?g = \<lparr>elf_bytes = elf_bytes f, elf_entry = from_le_bytes ab, program_header_offset = 64,
      program_header_count = 1, load_segment_count = 0\<rparr>"
    using assms(1) by (simp add: elf_image_file_def)
  ultimately have "elf_parse (elf_bytes f) = Inr f"
    using assms(3-8) by (simp add: elf_parse_def usize_add_def usize_mul_def usize_limit_def
        ELF64_PROGRAM_HEADER_SIZE_def ELF64_HEADER_SIZE_def MAX_PROGRAM_HEADERS_def)
  then show ?thesis using assms(1) by (simp add: elf_image_file_def)
qed

lemmas elf_image_simps = elf_image_def elf_image_file_def elf_image_header_def elf_read_u16_def elf_read_u32_def
  elf_read_u64_def get_range_def from_le_bytes_def usize_add_def usize_mul_def usize_limit_def

lemma elf_image_reads:
  assumes "ab = [a0, a1, a2, a3, a4, a5, a6, a7]" and "mb = [m0, m1, m2, m3, m4, m5, m6, m7]"
  shows "parse_ident (elf_bytes (elf_image_file ab mb)) = Inr ()"
    "elf_read_u64 (elf_bytes (elf_image_file ab mb)) 32 = Inr 64"
    "elf_read_u16 (elf_bytes (elf_image_file ab mb)) 54 = Inr 56"
    "elf_read_u16 (elf_bytes (elf_image_file ab mb)) 56 = Inr 1"
    "elf_read_u64 (elf_bytes (elf_image_file ab mb)) 24 = Inr (from_le_bytes ab)"
    "length (elf_bytes (elf_image_file ab mb)) = 120"
    "program_header (elf_image_file ab mb) 0 = Inr (elf_image_header ab mb)"
  by (simp_all add: assms elf_image_simps parse_ident_def program_header_def ELF64_HEADER_SIZE_def ELF_CLASS_64_def
      ELF_DATA_LITTLE_ENDIAN_def ELF_VERSION_CURRENT_def ELF_OS_ABI_SYSTEM_V_def ELF_OS_ABI_LINUX_def
      ELF_TYPE_EXECUTABLE_def ELF_MACHINE_X86_64_def ELF64_PROGRAM_HEADER_SIZE_def)

lemma elf_image_parses: "elf_parse (elf_image low_address small_size) = Inr (elf_image_file low_address small_size)"
  by (rule elf_image_parses_if [OF refl refl elf_image_reads [OF refl refl], where e = "0x400010"])
    (code_simp, code_simp, code_simp)

lemma elf_image_spanning_parses:
  "elf_parse (elf_image low_address huge_size) = Inr (elf_image_file low_address huge_size)"
  by (rule elf_image_parses_if [OF refl refl elf_image_reads [OF refl refl], where e = "0xffffffff00400000"])
    (code_simp, code_simp, code_simp)

lemma elf_image_short: "length (elf_image low_address small_size) < usize_limit"
  "length (elf_image low_address huge_size) < usize_limit"
  by (simp_all add: elf_image_def usize_limit_def)

text \<open>\<^bold>\<open>C15\<close>. Every executable that \<open>ElfFile::parse\<close> accepts has at least one loadable segment, and the
  segments its iterator yields are as many as the file announces; none is empty, none holds more file
  data than memory, none wraps around the address space, none is both writable and executable, no two
  of them share an address, and the entry point lies inside an executable one.\<close>

theorem parsed_executable_is_sound:
  assumes "elf_parse bytes = Inr f" and "length bytes < usize_limit"
  shows "collect_segments (load_segments f) \<noteq> []
    \<and> length (collect_segments (load_segments f)) = load_segment_count f
    \<and> (\<forall>s\<in>set (collect_segments (load_segments f)). 0 < unat (seg_memory_size s)
         \<and> seg_file_size s \<le> unat (seg_memory_size s) \<and> seg_end s < 2 ^ 64
         \<and> \<not> (seg_writable s \<and> seg_executable s))
    \<and> sorted_wrt segments_disjoint (collect_segments (load_segments f))
    \<and> (\<exists>s\<in>set (collect_segments (load_segments f)). seg_executable s
         \<and> unat (seg_virtual_address s) \<le> unat (elf_entry f) \<and> unat (elf_entry f) < seg_end s)"
  using elf_parse_validated [OF assms(1)] collect_segments_headers [OF parsed_iterator_ok(1) [OF assms]]
    parsed_iterator_ok(2) [OF assms]
  by (auto simp: validated_def sorted_wrt_map segments_disjoint_of holds_entry_of dest!: segment_of_ok)

theorem parsed_executable_is_sound_witness:
  "length (collect_segments (load_segments (elf_image_file low_address small_size))) = 1"
proof -
  from parsed_executable_is_sound [OF elf_image_parses elf_image_short(1)] show ?thesis
    by (simp add: elf_image_file_def)
qed

text \<open>On an accepted executable the segment iterator keeps its \<open>ExactSizeIterator\<close> contract: after
  \<open>k\<close> calls of \<open>next\<close> its size hint is the number of segments still to come, the next call returns the
  \<open>k\<close>-th loadable program header with the bytes of its file range, and after the last segment it
  returns nothing.\<close>

lemma segment_iterator_is_exact:
  assumes "elf_parse bytes = Inr f" and "length bytes < usize_limit" and "k \<le> load_segment_count f"
  shows "size_hint (after_next k (load_segments f)) = (load_segment_count f - k, Some (load_segment_count f - k))
    \<and> fst (segments_next (after_next k (load_segments f))) =
        (if k < load_segment_count f then Some (segment_of f (load_headers f ! k)) else None)"
proof -
  let ?it = "after_next k (load_segments f)"
  have count: "load_segment_count f = length (load_headers f)"
    using elf_parse_validated(3) [OF assms(1)] by (simp add: validated_def)
  have it: "iterator_ok f ?it" and left: "headers_left ?it = drop k (load_headers f)"
    using after_next_ok [OF parsed_iterator_ok(1) [OF assms(1,2)]] parsed_iterator_ok(2) [OF assms(1,2)]
      assms(3) count by simp_all
  have "fst (segments_next ?it) = (if k < load_segment_count f then Some (segment_of f (load_headers f ! k)) else None)"
  proof (cases "k < load_segment_count f")
    case True
    with left count have "headers_left ?it = load_headers f ! k # drop (Suc k) (load_headers f)"
      by (simp add: Cons_nth_drop_Suc)
    then show ?thesis using iterator_ok_next [OF it] True by fastforce
  next
    case False
    with left count iterator_ok_end [OF it] show ?thesis by simp
  qed
  with it left count show ?thesis by (simp add: size_hint_def iterator_ok_def)
qed

section \<open>Which segments are accepted\<close>

lemma checked_add_Some_iff: "(\<exists>z. checked_add (x :: u64) y = Some z) \<longleftrightarrow> unat x + unat y < 2 ^ 64"
  by (simp add: checked_add_def)

lemma write_execute_bits: "(flags :: u32) AND (PF_W OR PF_X) = PF_W OR PF_X \<longleftrightarrow> bit flags 0 \<and> bit flags 1"
proof
  assume both: "flags AND (PF_W OR PF_X) = PF_W OR PF_X"
  have "bit flags n" if "bit (PF_W OR PF_X) n" for n using that both by (metis bit_and_iff)
  then show "bit flags 0 \<and> bit flags 1" by (simp add: PF_W_def PF_X_def bit_simps)
next
  assume "bit flags 0 \<and> bit flags 1"
  then have "flags AND PF_W \<noteq> 0 \<and> flags AND PF_X \<noteq> 0"
    using and_exp_eq_0_iff_not_bit [of flags 0] and_exp_eq_0_iff_not_bit [of flags 1] by (simp add: PF_W_def PF_X_def)
  with not_write_and_execute show "flags AND (PF_W OR PF_X) = PF_W OR PF_X" by blast
qed

lemma is_power_of_two_nat: "is_power_of_two (w :: u64) \<longleftrightarrow> (\<exists>k. unat w = 2 ^ k)"
proof
  assume "\<exists>k. unat w = 2 ^ k"
  then obtain k where k: "unat w = 2 ^ k" by blast
  then have "(2 :: nat) ^ k < 2 ^ 64" using unsigned_less [of w, where ?'a = nat] by simp
  then have "k < 64" by (simp only: power_strict_increasing_iff one_less_numeral_iff semiring_norm)
  moreover have "w = 2 ^ k" using k by (metis of_nat_numeral of_nat_power of_nat_unat ucast_id)
  ultimately show "is_power_of_two w" by (auto simp: is_power_of_two_iff)
qed (use is_power_of_two_unat in blast)

lemma is_canonical_nat: "is_canonical a \<longleftrightarrow> unat a < 2 ^ 47 \<or> 2 ^ 64 - 2 ^ 47 \<le> unat a"
  by (auto simp: is_canonical_def word_le_nat_alt)

lemma last_byte:
  assumes "checked_add x y = Some (z :: u64)" and "y \<noteq> 0"
  shows "unat (z - 1) = unat x + unat y - 1"
proof -
  have z: "unat z = unat x + unat y" using checked_add_unat [OF assms(1)] by simp
  then have "z \<noteq> 0" using assms(2) by (auto simp: unat_eq_0 [symmetric] simp del: unat_eq_0)
  with z show ?thesis by (simp add: unat_minus_one)
qed

lemma validate_load_segment_iff:
  "validate_load_segment f h = Inr () \<longleftrightarrow>
     0 < unat (ph_memory_size h) \<and> unat (ph_file_size h) \<le> unat (ph_memory_size h)
     \<and> \<not> (bit (ph_flags h) 0 \<and> bit (ph_flags h) 1)
     \<and> (1 < unat (ph_alignment h) \<longrightarrow> (\<exists>k. unat (ph_alignment h) = 2 ^ k)
          \<and> unat (ph_virtual_address h) mod unat (ph_alignment h) = unat (ph_offset h) mod unat (ph_alignment h))
     \<and> unat (ph_offset h) + unat (ph_file_size h) < 2 ^ 64
     \<and> unat (ph_offset h) + unat (ph_file_size h) \<le> length (elf_bytes f)
     \<and> unat (ph_virtual_address h) + unat (ph_memory_size h) < 2 ^ 64
     \<and> is_canonical (ph_virtual_address h)
     \<and> (\<forall>z. checked_add (ph_virtual_address h) (ph_memory_size h) = Some z \<longrightarrow> is_canonical (z - 1))"
proof -
  have "ph_memory_size h = 0 \<longleftrightarrow> \<not> 0 < unat (ph_memory_size h)" by (simp add: unat_gt_0)
  moreover have "x mod y = (x' :: u64) mod y \<longleftrightarrow> unat x mod unat y = unat x' mod unat y" for x x' y
    by (simp add: word_unat_eq_iff unat_mod)
  ultimately show ?thesis
    unfolding validate_load_segment_def write_execute_bits is_power_of_two_nat
      checked_add_Some_iff [symmetric, of "ph_virtual_address h" "ph_memory_size h"]
    by (cases "checked_add (ph_virtual_address h) (ph_memory_size h)")
      (auto simp: word_less_nat_alt usize_add_def usize_limit_def not_less split: if_splits)
qed

lemma segment_and_hole:
  fixes va m lo hi :: nat
  assumes "va < va + m" and "va \<notin> {lo..<hi}" and "va + m - 1 \<notin> {lo..<hi}"
  shows "if va < lo \<and> hi < va + m then {lo..<hi} \<subseteq> {va..<va + m} else {va..<va + m} \<inter> {lo..<hi} = {}"
  using assms by auto

text \<open>\<^bold>\<open>C16\<close>. Which loadable segments \<open>ElfFile::validate_load_segment\<close> accepts. It accepts a program header exactly when the
  segment is not empty and holds no more file data than memory, is not both writable and executable, has an alignment of
  at most one or a power of two to which address and offset are congruent, has its data inside the file, does
  not wrap around the address space, and has a canonical first and a canonical last byte. The bytes between are not
  looked at: an accepted segment has only canonical addresses, except when it starts in the
  lower and ends in the upper half of the address space; then it contains every non-canonical address.\<close>

theorem load_segment_acceptance:
  "let va = unat (ph_virtual_address h); fin = va + unat (ph_memory_size h); al = unat (ph_alignment h);
       file_end = unat (ph_offset h) + unat (ph_file_size h)
   in (validate_load_segment f h = Inr () \<longleftrightarrow>
         va < fin \<and> unat (ph_file_size h) \<le> unat (ph_memory_size h) \<and> \<not> (bit (ph_flags h) 0 \<and> bit (ph_flags h) 1)
         \<and> (1 < al \<longrightarrow> (\<exists>k. al = 2 ^ k) \<and> va mod al = unat (ph_offset h) mod al)
         \<and> file_end < 2 ^ 64 \<and> file_end \<le> length (elf_bytes f) \<and> fin < 2 ^ 64
         \<and> va \<notin> {2 ^ 47..<2 ^ 64 - 2 ^ 47} \<and> fin - 1 \<notin> {2 ^ 47..<2 ^ 64 - 2 ^ 47})
    \<and> (validate_load_segment f h = Inr () \<longrightarrow>
         (if va < 2 ^ 47 \<and> 2 ^ 64 - 2 ^ 47 < fin then {2 ^ 47..<2 ^ 64 - 2 ^ 47} \<subseteq> {va..<fin}
          else {va..<fin} \<inter> {2 ^ 47..<2 ^ 64 - 2 ^ 47} = {}))"
proof -
  let ?va = "unat (ph_virtual_address h)" and ?m = "unat (ph_memory_size h)"
  let ?hole = "{2 ^ 47..<2 ^ 64 - 2 ^ 47} :: nat set"
  have hole: "is_canonical a \<longleftrightarrow> unat a \<notin> ?hole" for a by (auto simp: is_canonical_nat)
  have last: "(\<forall>z. checked_add (ph_virtual_address h) (ph_memory_size h) = Some z \<longrightarrow> is_canonical (z - 1)) \<longleftrightarrow> ?va + ?m - 1 \<notin> ?hole"
    if "?va + ?m < 2 ^ 64" "0 < ?m"
  proof -
    from that(1) obtain z where "checked_add (ph_virtual_address h) (ph_memory_size h) = Some z" using checked_add_Some_iff by blast
    with last_byte [OF this] that(2) show ?thesis by (simp add: hole unat_gt_0)
  qed
  have accepted: "validate_load_segment f h = Inr () \<longleftrightarrow>
      ?va < ?va + ?m \<and> unat (ph_file_size h) \<le> ?m \<and> \<not> (bit (ph_flags h) 0 \<and> bit (ph_flags h) 1)
      \<and> (1 < unat (ph_alignment h) \<longrightarrow> (\<exists>k. unat (ph_alignment h) = 2 ^ k)
           \<and> ?va mod unat (ph_alignment h) = unat (ph_offset h) mod unat (ph_alignment h))
      \<and> unat (ph_offset h) + unat (ph_file_size h) < 2 ^ 64
      \<and> unat (ph_offset h) + unat (ph_file_size h) \<le> length (elf_bytes f)
      \<and> ?va + ?m < 2 ^ 64 \<and> ?va \<notin> ?hole \<and> ?va + ?m - 1 \<notin> ?hole"
    unfolding validate_load_segment_iff hole [of "ph_virtual_address h"]
    by (cases "?va + ?m < 2 ^ 64 \<and> 0 < ?m") (simp_all only: last conj_assoc less_add_same_cancel1, blast+)
  have "if ?va < 2 ^ 47 \<and> 2 ^ 64 - 2 ^ 47 < ?va + ?m then ?hole \<subseteq> {?va..<?va + ?m} else {?va..<?va + ?m} \<inter> ?hole = {}"
    if "validate_load_segment f h = Inr ()"
    by (rule segment_and_hole) (use that accepted in blast)+
  with accepted show ?thesis unfolding Let_def by blast
qed

theorem load_segment_acceptance_witness:
  "validate_load_segment (elf_image_file low_address huge_size) (elf_image_header low_address huge_size) = Inr ()
   \<and> {2 ^ 47..<2 ^ 64 - 2 ^ 47} \<subseteq> {0x400000..<0x400000 + 0xffffffff00000000 :: nat}"
proof -
  let ?f = "elf_image_file low_address huge_size" and ?h = "elf_image_header low_address huge_size"
  have ok: "validate_load_segment ?f ?h = Inr ()" by code_simp
  have "unat (ph_virtual_address ?h) = 0x400000" "unat (ph_memory_size ?h) = 0xffffffff00000000"
    by (simp_all add: elf_image_header_def from_le_bytes_def)
  with load_segment_acceptance [of ?h ?f] ok show ?thesis unfolding Let_def by simp
qed

text \<open>The whole parser accepts an executable with such a segment.\<close>

lemma segment_across_canonical_hole_accepted:
  "elf_parse (elf_image low_address huge_size) = Inr (elf_image_file low_address huge_size)
   \<and> (\<exists>s\<in>set (collect_segments (load_segments (elf_image_file low_address huge_size))).
        {a. \<not> is_canonical a} \<subseteq> {a. seg_virtual_address s \<le> a \<and> unat a < seg_end s})"
proof -
  let ?f = "elf_image_file low_address huge_size"
  note ok = elf_image_spanning_parses elf_image_short(2)
  have "program_header ?f 0 = Inr (elf_image_header low_address huge_size)" by (rule elf_image_reads(7) [OF refl refl])
  then have "load_headers ?f = [elf_image_header low_address huge_size]"
    by (simp add: elf_image_file_def load_headers_between_def load_header_at_def elf_image_header_def PT_LOAD_def)
  with collect_segments_headers [OF parsed_iterator_ok(1) [OF ok]] parsed_iterator_ok(2) [OF ok]
  have "collect_segments (load_segments ?f) = [\<lparr>seg_data = [], seg_virtual_address = 0x400000,
      seg_memory_size = 0xffffffff00000000, seg_flags = 5, seg_alignment = 1\<rparr>]"
    by (simp add: segment_of_def elf_image_header_def from_le_bytes_def)
  then show ?thesis using elf_image_spanning_parses
    by (auto simp: is_canonical_def seg_end_def word_le_nat_alt)
qed

end
