(* ===== verification/Frames.thy ===== *)
theory Frames
  imports Slop_Prelude
begin

text \<open>
  The kernel's physical memory management: the frame allocator of \<open>kernel/src/memory.rs\<close> and the bump
  heap of \<open>kernel/src/heap.rs\<close>. Both states live behind a spin lock that serialises every access, so
  an operation is a function from the state to a result and a state. Addresses and byte counts are
  \<open>u64\<close> words; arithmetic the code leaves unchecked wraps, as it does in the release profile.
\<close>

section \<open>The frame allocator\<close>

definition PAGE_SIZE :: u64 where "PAGE_SIZE = 4096"
definition UEFI_CONVENTIONAL_MEMORY :: u32 where "UEFI_CONVENTIONAL_MEMORY = 7"
definition MAX_REGIONS :: nat where "MAX_REGIONS = 128"
definition RECYCLED_FRAME_CAPACITY :: nat where "RECYCLED_FRAME_CAPACITY = 256"

record Region =
  r_start :: u64
  r_next :: u64
  r_end :: u64

definition Region_EMPTY :: Region where
  "Region_EMPTY = \<lparr>r_start = 0, r_next = 0, r_end = 0\<rparr>"

record Allocator =
  fa_regions :: "Region list"
  fa_count :: nat
  fa_current :: nat
  fa_recycled :: "u64 list"
  fa_recycled_count :: nat

definition Allocator_empty :: Allocator where
  "Allocator_empty = \<lparr>fa_regions = replicate MAX_REGIONS Region_EMPTY, fa_count = 0, fa_current = 0,
     fa_recycled = replicate RECYCLED_FRAME_CAPACITY 0, fa_recycled_count = 0\<rparr>"

text \<open>The loop of \<open>allocate_contiguous\<close>: the first region from \<open>current\<close> on with room is bumped.\<close>

function take_from_regions :: "u64 \<Rightarrow> Allocator \<Rightarrow> u64 option \<times> Allocator" where
  "take_from_regions byte_count a =
    (if fa_current a < fa_count a then
       let region = fa_regions a ! fa_current a in
       case checked_add (r_next region) byte_count of
         Some fin \<Rightarrow>
           if fin \<le> r_end region
           then (Some (r_next region),
                 a\<lparr>fa_regions := (fa_regions a)[fa_current a := region\<lparr>r_next := r_next region + byte_count\<rparr>]\<rparr>)
           else take_from_regions byte_count (a\<lparr>fa_current := fa_current a + 1\<rparr>)
       | None \<Rightarrow> take_from_regions byte_count (a\<lparr>fa_current := fa_current a + 1\<rparr>)
     else (None, a))"
  by pat_completeness auto
termination
  by (relation "measure (\<lambda>(_, a). fa_count a - fa_current a)") auto

definition allocator_allocate_contiguous :: "u64 \<Rightarrow> Allocator \<Rightarrow> u64 option \<times> Allocator" where
  "allocator_allocate_contiguous page_count a =
    (case checked_mul page_count PAGE_SIZE of
       None \<Rightarrow> (None, a)
     | Some byte_count \<Rightarrow> take_from_regions byte_count a)"

definition allocate_frame :: "Allocator \<Rightarrow> u64 option \<times> Allocator" where
  "allocate_frame a =
    (if fa_recycled_count a \<noteq> 0 then
       (Some (fa_recycled a ! (fa_recycled_count a - 1)), a\<lparr>fa_recycled_count := fa_recycled_count a - 1\<rparr>)
     else allocator_allocate_contiguous 1 a)"

definition allocate_contiguous :: "u64 \<Rightarrow> Allocator \<Rightarrow> u64 option \<times> Allocator" where
  "allocate_contiguous page_count a =
    (if page_count = 0 then (None, a) else allocator_allocate_contiguous page_count a)"

definition deallocate_frame :: "u64 \<Rightarrow> Allocator \<Rightarrow> (unit + unit) \<times> Allocator" where
  "deallocate_frame frame a =
    (if frame AND (PAGE_SIZE - 1) \<noteq> 0
        \<or> \<not> list_ex (\<lambda>region. r_start region \<le> frame \<and> frame < r_next region) (take (fa_count a) (fa_regions a))
        \<or> frame \<in> set (take (fa_recycled_count a) (fa_recycled a))
        \<or> fa_recycled_count a = RECYCLED_FRAME_CAPACITY
     then (Inl (), a)
     else (Inr (), a\<lparr>fa_recycled := (fa_recycled a)[fa_recycled_count a := frame],
                     fa_recycled_count := fa_recycled_count a + 1\<rparr>))"

section \<open>Initialisation from the firmware's memory map\<close>

record MemoryMapInfo =
  map_base :: u64
  map_size :: u64
  map_descriptor_size :: u32
  map_descriptor_count :: u32

record MemoryStats =
  conventional_regions :: nat
  free_frames :: u64

text \<open>\<open>next_multiple_of\<close> of the unsigned types.\<close>

definition next_multiple_of :: "'a::len word \<Rightarrow> 'a word \<Rightarrow> 'a word" where
  "next_multiple_of x m = (let r = x mod m in if r = 0 then x else x + (m - r))"

text \<open>The loop over the descriptors. The bytes at \<open>map.base\<close> are the list \<open>mem\<close>: the type at offset 0,
  the physical start at offset 8 and the page count at offset 24 of each descriptor.\<close>

primrec read_descriptors :: "MemoryMapInfo \<Rightarrow> u8 list \<Rightarrow> nat list \<Rightarrow> Allocator \<times> u64 \<Rightarrow> Allocator \<times> u64" where
  "read_descriptors info mem [] st = st"
| "read_descriptors info mem (i # is) st =
    (case st of (a, free) \<Rightarrow>
     let offs = i * unat (map_descriptor_size info) in
     if unat (map_size info) < offs + 40 \<or> fa_count a = MAX_REGIONS then (a, free)
     else if (from_le_bytes (take 4 (drop offs mem)) :: u32) \<noteq> UEFI_CONVENTIONAL_MEMORY
     then read_descriptors info mem is (a, free)
     else
       let physical_start = from_le_bytes (take 8 (drop (offs + 8) mem)) :: u64;
           page_count = from_le_bytes (take 8 (drop (offs + 24) mem)) :: u64;
           start = next_multiple_of (max physical_start 0x100000) PAGE_SIZE;
           fin = saturating_add physical_start (saturating_mul page_count PAGE_SIZE)
       in
       if fin \<le> start then read_descriptors info mem is (a, free)
       else
         read_descriptors info mem is
           (a\<lparr>fa_regions := (fa_regions a)[fa_count a := \<lparr>r_start = start, r_next = start, r_end = fin\<rparr>],
              fa_count := fa_count a + 1\<rparr>,
            free + (fin - start) div PAGE_SIZE))"

definition memory_initialize :: "MemoryMapInfo \<Rightarrow> u8 list \<Rightarrow> Allocator \<Rightarrow> MemoryStats \<times> Allocator" where
  "memory_initialize info mem a =
    (let (a', free) = read_descriptors info mem [0..<unat (map_descriptor_count info)]
           (a\<lparr>fa_count := 0, fa_current := 0, fa_recycled_count := 0\<rparr>, 0)
     in (\<lparr>conventional_regions = fa_count a', free_frames = free\<rparr>, a'))"

section \<open>The kernel heap\<close>

definition HEAP_PAGES :: u64 where "HEAP_PAGES = 256"

record HeapState =
  heap_next :: u64
  heap_end :: u64

record HeapStats =
  heap_base :: u64
  heap_size :: u64

text \<open>\<open>None\<close> stands for the fatal halt when no contiguous range is left.\<close>

definition heap_initialize :: "Allocator \<Rightarrow> (HeapStats \<times> HeapState) option \<times> Allocator" where
  "heap_initialize a =
    (case allocate_contiguous HEAP_PAGES a of
       (None, a') \<Rightarrow> (None, a')
     | (Some base, a') \<Rightarrow>
         (Some (\<lparr>heap_base = base, heap_size = HEAP_PAGES * PAGE_SIZE\<rparr>,
                \<lparr>heap_next = base, heap_end = base + HEAP_PAGES * PAGE_SIZE\<rparr>), a'))"

text \<open>The pointer is null, hence \<open>None\<close>, when the aligned address is zero.\<close>

definition heap_allocate :: "u64 \<Rightarrow> u64 \<Rightarrow> HeapState \<Rightarrow> u64 option \<times> HeapState" where
  "heap_allocate sz alignment st =
    (if sz = 0 \<or> \<not> is_power_of_two alignment then (None, st)
     else
       case checked_add (heap_next st) (alignment - 1) of
         None \<Rightarrow> (None, st)
       | Some bumped \<Rightarrow>
           let aligned = bumped AND NOT (alignment - 1) in
           (case checked_add aligned sz of
              None \<Rightarrow> (None, st)
            | Some fin \<Rightarrow>
                if heap_end st < fin then (None, st)
                else (if aligned = 0 then None else Some aligned, st\<lparr>heap_next := fin\<rparr>)))"

end
