(* ===== verification/Shared_Memory.thy ===== *)
theory Shared_Memory
  imports Frames
begin

text \<open>
  The shared-memory objects of \<open>kernel/src/shared_memory_service.rs\<close>: one page each, named by
  generation-checked handles, reference counted, and backed by frames of the frame allocator. The
  service's static table, the allocator it calls and the identity-mapped physical memory it writes are
  one state; a bytewise store is a function from addresses to bytes.
\<close>

section \<open>Data\<close>

definition SHM_PAGE_SIZE :: nat where "SHM_PAGE_SIZE = 4096"
definition OBJECT_CAPACITY :: nat where "OBJECT_CAPACITY = 4"

record SharedMemoryHandle =
  smh_index :: u16
  smh_generation :: u16

datatype SharedMemoryError =
    ShmTableFull
  | ShmInvalidHandle
  | ShmInvalidLength
  | ShmPermissionDenied
  | ShmCounterOverflow
  | ShmFrameRelease

record SharedMemorySlot =
  sms_generation :: u16
  sms_owner_pid :: u32
  sms_frame :: u64
  sms_length :: nat
  sms_references :: u16
  sms_allocated :: bool

definition SharedMemorySlot_EMPTY :: SharedMemorySlot where
  "SharedMemorySlot_EMPTY = \<lparr>sms_generation = 0, sms_owner_pid = 0, sms_frame = 0, sms_length = 0,
     sms_references = 0, sms_allocated = False\<rparr>"

record shm_state =
  shm_slots :: "SharedMemorySlot list"
  shm_allocator :: Allocator
  shm_phys :: "u64 \<Rightarrow> u8"

definition SharedMemoryTable_new :: "SharedMemorySlot list" where
  "SharedMemoryTable_new = replicate OBJECT_CAPACITY SharedMemorySlot_EMPTY"

text \<open>Raw memory: writing a list of bytes at an address, and the slice of a length at an address.\<close>

definition write_raw :: "u64 \<Rightarrow> u8 list \<Rightarrow> (u64 \<Rightarrow> u8) \<Rightarrow> u64 \<Rightarrow> u8" where
  "write_raw p bs m = (\<lambda>a. if p \<le> a \<and> unat a - unat p < length bs then bs ! (unat a - unat p) else m a)"

definition slice_raw :: "u64 \<Rightarrow> nat \<Rightarrow> (u64 \<Rightarrow> u8) \<Rightarrow> u8 list" where
  "slice_raw p n m = map (\<lambda>i. m (p + word_of_nat i)) [0..<n]"

section \<open>Operations\<close>

definition shm_index :: "shm_state \<Rightarrow> SharedMemoryHandle \<Rightarrow> SharedMemoryError + nat" where
  "shm_index st h =
    (let i = unat (smh_index h) in
     case get_at (shm_slots st) i of
       None \<Rightarrow> Inl ShmInvalidHandle
     | Some slot \<Rightarrow>
         if sms_allocated slot \<and> sms_generation slot = smh_generation h then Inr i else Inl ShmInvalidHandle)"

definition shm_create :: "u32 \<Rightarrow> shm_state \<Rightarrow> (SharedMemoryError + SharedMemoryHandle) \<times> shm_state" where
  "shm_create owner_pid st =
    (case position (\<lambda>slot. \<not> sms_allocated slot) (shm_slots st) of
       None \<Rightarrow> (Inl ShmTableFull, st)
     | Some i \<Rightarrow>
         (case checked_add (sms_generation (shm_slots st ! i)) 1 of
            None \<Rightarrow> (Inl ShmCounterOverflow, st)
          | Some generation \<Rightarrow>
              (case allocate_frame (shm_allocator st) of
                 (None, a) \<Rightarrow> (Inl ShmTableFull, st\<lparr>shm_allocator := a\<rparr>)
               | (Some frame, a) \<Rightarrow>
                   (if i < 2 ^ 16 then Inr \<lparr>smh_index = word_of_nat i, smh_generation = generation\<rparr> else Inl ShmTableFull,
                    st\<lparr>shm_slots := (shm_slots st)[i := \<lparr>sms_generation = generation, sms_owner_pid = owner_pid,
                         sms_frame = frame, sms_length = 0, sms_references = 1, sms_allocated = True\<rparr>],
                       shm_allocator := a,
                       shm_phys := write_raw frame (replicate SHM_PAGE_SIZE 0) (shm_phys st)\<rparr>))))"

definition shm_truncate ::
  "u32 \<Rightarrow> SharedMemoryHandle \<Rightarrow> nat \<Rightarrow> shm_state \<Rightarrow> (SharedMemoryError + unit) \<times> shm_state" where
  "shm_truncate owner_pid h len st =
    (if len = 0 \<or> SHM_PAGE_SIZE < len then (Inl ShmInvalidLength, st)
     else case shm_index st h of
            Inl e \<Rightarrow> (Inl e, st)
          | Inr i \<Rightarrow>
              if sms_owner_pid (shm_slots st ! i) \<noteq> owner_pid then (Inl ShmPermissionDenied, st)
              else (Inr (), st\<lparr>shm_slots := (shm_slots st)[i := (shm_slots st ! i)\<lparr>sms_length := len\<rparr>]\<rparr>))"

definition shm_retain :: "SharedMemoryHandle \<Rightarrow> shm_state \<Rightarrow> (SharedMemoryError + unit) \<times> shm_state" where
  "shm_retain h st =
    (case shm_index st h of
       Inl e \<Rightarrow> (Inl e, st)
     | Inr i \<Rightarrow>
         (case checked_add (sms_references (shm_slots st ! i)) 1 of
            None \<Rightarrow> (Inl ShmCounterOverflow, st)
          | Some references \<Rightarrow>
              (Inr (), st\<lparr>shm_slots := (shm_slots st)[i := (shm_slots st ! i)\<lparr>sms_references := references\<rparr>]\<rparr>)))"

definition shm_release :: "SharedMemoryHandle \<Rightarrow> shm_state \<Rightarrow> (SharedMemoryError + unit) \<times> shm_state" where
  "shm_release h st =
    (case shm_index st h of
       Inl e \<Rightarrow> (Inl e, st)
     | Inr i \<Rightarrow>
         (case checked_sub (sms_references (shm_slots st ! i)) 1 of
            None \<Rightarrow> (Inl ShmInvalidHandle, st)
          | Some references \<Rightarrow>
              if references \<noteq> 0
              then (Inr (), st\<lparr>shm_slots := (shm_slots st)[i := (shm_slots st ! i)\<lparr>sms_references := references\<rparr>]\<rparr>)
              else
                let frame = sms_frame (shm_slots st ! i);
                    (r, a) = deallocate_frame frame (shm_allocator st)
                in (map_err (\<lambda>_. ShmFrameRelease) r,
                    st\<lparr>shm_slots := (shm_slots st)[i := SharedMemorySlot_EMPTY
                         \<lparr>sms_generation := sms_generation (shm_slots st ! i)\<rparr>],
                       shm_allocator := a\<rparr>)))"

definition frame_and_length :: "shm_state \<Rightarrow> SharedMemoryHandle \<Rightarrow> SharedMemoryError + u64 \<times> nat" where
  "frame_and_length st h =
     rbind (shm_index st h) (\<lambda>i.
     if sms_length (shm_slots st ! i) = 0 then Inl ShmInvalidLength
     else Inr (sms_frame (shm_slots st ! i), sms_length (shm_slots st ! i)))"

definition shm_create_initialized ::
  "u32 \<Rightarrow> u8 list \<Rightarrow> bool \<Rightarrow> shm_state \<Rightarrow> (SharedMemoryError + SharedMemoryHandle) \<times> shm_state" where
  "shm_create_initialized owner_pid bs nul_terminated st =
    (case usize_add (length bs) (if nul_terminated then 1 else 0) of
       None \<Rightarrow> (Inl ShmInvalidLength, st)
     | Some len \<Rightarrow>
         if bs = [] \<or> SHM_PAGE_SIZE < len \<or> nul_terminated \<and> 0 \<in> set bs then (Inl ShmInvalidLength, st)
         else
           (case shm_create owner_pid st of
              (Inl e, st1) \<Rightarrow> (Inl e, st1)
            | (Inr h, st1) \<Rightarrow>
                (case shm_truncate owner_pid h len st1 of
                   (Inl e, st2) \<Rightarrow> (Inl e, snd (shm_release h st2))
                 | (Inr _, st2) \<Rightarrow>
                     (case frame_and_length st2 h of
                        Inl e \<Rightarrow> (Inl e, st2)
                      | Inr (frame, _) \<Rightarrow>
                          (Inr h, st2\<lparr>shm_phys := write_raw frame bs (shm_phys st2)\<rparr>)))))"

definition shm_bytes :: "shm_state \<Rightarrow> SharedMemoryHandle \<Rightarrow> SharedMemoryError + u8 list" where
  "shm_bytes st h =
     rbind (frame_and_length st h) (\<lambda>(frame, len). Inr (slice_raw frame len (shm_phys st)))"

text \<open>The result is the number of bytes copied; the caller's buffer is returned next to it.\<close>

definition shm_read_at ::
  "shm_state \<Rightarrow> SharedMemoryHandle \<Rightarrow> nat \<Rightarrow> u8 list \<Rightarrow> (SharedMemoryError + nat) \<times> u8 list" where
  "shm_read_at st h offs buf =
    (case shm_bytes st h of
       Inl e \<Rightarrow> (Inl e, buf)
     | Inr bs \<Rightarrow>
         (case get_range bs offs (length bs) of
            None \<Rightarrow> (Inl ShmInvalidLength, buf)
          | Some remaining \<Rightarrow>
              let len = min (length buf) (length remaining)
              in (Inr len, copy_at buf 0 (take len remaining))))"

end
