(* ===== verification/Frame_Owner.thy ===== *)
theory Frame_Owner
  imports Slop_Prelude
begin

text \<open>
  The contract between the frame allocator and the kernel services that own frames: an allocation
  hands out a frame nobody holds, a release takes back exactly one held frame, and neither disturbs
  the other frames. From it: frames obtained one after the other are distinct, and whatever a service
  holds stays its own while others allocate and release frames of theirs.
\<close>

locale frame_owner =
  fixes inv :: "'s \<Rightarrow> bool"
    and live :: "'s \<Rightarrow> u64 set"
    and alloc :: "'s \<Rightarrow> u64 option \<times> 's"
    and free :: "u64 \<Rightarrow> 's \<Rightarrow> (unit + unit) \<times> 's"
  assumes alloc_Some: "inv s \<Longrightarrow> alloc s = (Some f, s') \<Longrightarrow> inv s' \<and> f \<notin> live s \<and> live s' = insert f (live s)"
    and alloc_None: "inv s \<Longrightarrow> alloc s = (None, s') \<Longrightarrow> inv s' \<and> live s' = live s"
    and free_Ok: "inv s \<Longrightarrow> free f s = (Inr (), s') \<Longrightarrow> inv s' \<and> f \<in> live s \<and> live s' = live s - {f}"
    and free_Err: "inv s \<Longrightarrow> free f s = (Inl (), s') \<Longrightarrow> s' = s"
begin

lemma alloc_inv: "inv s \<Longrightarrow> alloc s = (r, s') \<Longrightarrow> inv s'"
  by (cases r) (auto dest: alloc_Some alloc_None)

lemma free_inv: "inv s \<Longrightarrow> free f s = (r, s') \<Longrightarrow> inv s'"
  by (cases r) (auto dest: free_Ok free_Err)

lemma alloc_keeps: "inv s \<Longrightarrow> alloc s = (r, s') \<Longrightarrow> live s \<subseteq> live s'"
  by (cases r) (auto dest: alloc_Some alloc_None)

lemma free_keeps: "inv s \<Longrightarrow> free f s = (r, s') \<Longrightarrow> live s - {f} \<subseteq> live s'"
  by (cases r) (auto dest: free_Ok free_Err)

text \<open>A client that asks for frames until it has enough or none is left.\<close>

primrec alloc_many :: "nat \<Rightarrow> 's \<Rightarrow> u64 list \<times> 's" where
  "alloc_many 0 s = ([], s)"
| "alloc_many (Suc n) s =
    (case alloc s of
       (None, s') \<Rightarrow> ([], s')
     | (Some f, s') \<Rightarrow> (let (fs, s'') = alloc_many n s' in (f # fs, s'')))"

lemma alloc_many_distinct:
  "inv s \<Longrightarrow> alloc_many n s = (fs, s') \<Longrightarrow>
     inv s' \<and> distinct fs \<and> set fs \<inter> live s = {} \<and> live s' = live s \<union> set fs"
proof (induction n arbitrary: s fs s')
  case 0
  then show ?case by simp
next
  case (Suc n)
  obtain r s1 where r: "alloc s = (r, s1)" by (cases "alloc s")
  show ?case
  proof (cases r)
    case None
    with Suc.prems r alloc_None [of s s1] show ?thesis by auto
  next
    case (Some f)
    obtain gs s2 where rest: "alloc_many n s1 = (gs, s2)" by (cases "alloc_many n s1")
    have f: "inv s1 \<and> f \<notin> live s \<and> live s1 = insert f (live s)"
      using alloc_Some [OF Suc.prems(1)] r Some by simp
    with Suc.IH [OF _ rest] have "inv s2 \<and> distinct gs \<and> set gs \<inter> live s1 = {} \<and> live s2 = live s1 \<union> set gs"
      by simp
    with Suc.prems(2) r Some rest f show ?thesis by auto
  qed
qed

end

end
