(* ===== verification/Frames_Proofs.thy ===== *)
theory Frames_Proofs
  imports Frames Frame_Owner
begin

text \<open>
  The frame allocator refines a set of live frames, the memory map yields a well-formed allocator, and
  the heap hands out aligned, disjoint blocks.
\<close>

section \<open>The allocator's invariant\<close>

definition region_ok :: "Region \<Rightarrow> bool" where
  "region_ok r \<longleftrightarrow> 4096 dvd unat (r_start r) \<and> 4096 dvd unat (r_next r)
     \<and> r_start r \<le> r_next r \<and> r_next r \<le> r_end r"

definition regions_disjoint :: "Region \<Rightarrow> Region \<Rightarrow> bool" where
  "regions_disjoint q r \<longleftrightarrow> r_end q \<le> r_start r \<or> r_end r \<le> r_start q"

text \<open>The frames that have left the regions, and those of them that wait for reuse.\<close>

definition in_use :: "Region \<Rightarrow> u64 set" where
  "in_use r = {f. 4096 dvd unat f \<and> r_start r \<le> f \<and> f < r_next r}"

definition carved :: "Allocator \<Rightarrow> u64 set" where
  "carved a = (\<Union>i<fa_count a. in_use (fa_regions a ! i))"

definition waiting :: "Allocator \<Rightarrow> u64 list" where
  "waiting a = take (fa_recycled_count a) (fa_recycled a)"

definition live_frames :: "Allocator \<Rightarrow> u64 set" where
  "live_frames a = carved a - set (waiting a)"

definition frames_ok :: "Allocator \<Rightarrow> bool" where
  "frames_ok a \<longleftrightarrow>
     length (fa_regions a) = MAX_REGIONS \<and> fa_count a \<le> MAX_REGIONS
     \<and> (\<forall>i<fa_count a. region_ok (fa_regions a ! i))
     \<and> (\<forall>i<fa_count a. \<forall>j<fa_count a. i \<noteq> j \<longrightarrow> regions_disjoint (fa_regions a ! i) (fa_regions a ! j))
     \<and> length (fa_recycled a) = RECYCLED_FRAME_CAPACITY \<and> fa_recycled_count a \<le> RECYCLED_FRAME_CAPACITY
     \<and> distinct (waiting a) \<and> set (waiting a) \<subseteq> carved a"

text \<open>The frames of a contiguous range of pages.\<close>

definition page_range :: "u64 \<Rightarrow> u64 \<Rightarrow> u64 set" where
  "page_range s n = {f. 4096 dvd unat f \<and> unat s \<le> unat f \<and> unat f < unat s + unat n * 4096}"

lemma page_aligned: "(f :: u64) AND (PAGE_SIZE - 1) = 0 \<longleftrightarrow> 4096 dvd unat f"
proof -
  have "PAGE_SIZE - 1 = mask 12" by (simp add: PAGE_SIZE_def mask_eq_exp_minus_1)
  then show ?thesis using and_mask_eq_0 [of f 12] by simp
qed

lemma unat_page_size [simp]: "unat PAGE_SIZE = 4096"
  by (simp add: PAGE_SIZE_def)

lemma page_range_1: "4096 dvd unat s \<Longrightarrow> page_range s 1 = {s}"
  by (auto simp: page_range_def word_unat_eq_iff dvd_def)

section \<open>Bumping a region\<close>

declare take_from_regions.simps [simp del]

definition bump :: "nat \<Rightarrow> u64 \<Rightarrow> Allocator \<Rightarrow> Allocator" where
  "bump k byte_count a = a\<lparr>fa_regions :=
     (fa_regions a)[k := (fa_regions a ! k)\<lparr>r_next := r_next (fa_regions a ! k) + byte_count\<rparr>]\<rparr>"

text \<open>Whatever the loop does, it only moves \<open>current\<close>, and on success bumps one region with room.\<close>

lemma take_from_regions_cases:
  "take_from_regions b a = (r, a') \<Longrightarrow>
     (r = None \<and> a' = a\<lparr>fa_current := max (fa_current a) (fa_count a)\<rparr>)
   \<or> (\<exists>k<fa_count a. r = Some (r_next (fa_regions a ! k))
        \<and> a' = bump k b (a\<lparr>fa_current := k\<rparr>)
        \<and> unat (r_next (fa_regions a ! k)) + unat b \<le> unat (r_end (fa_regions a ! k)))"
proof (induction b a rule: take_from_regions.induct)
  case (1 b a)
  let ?r = "fa_regions a ! fa_current a" and ?a = "a\<lparr>fa_current := fa_current a + 1\<rparr>"
  show ?case
  proof (cases "fa_current a < fa_count a")
    case False
    with "1.prems" show ?thesis by (simp add: take_from_regions.simps [of b a] max_def)
  next
    case more: True
    show ?thesis
    proof (cases "\<exists>e. checked_add (r_next ?r) b = Some e \<and> e \<le> r_end ?r")
      case True
      then obtain e where e: "checked_add (r_next ?r) b = Some e" "e \<le> r_end ?r" by blast
      with "1.prems" more have "r = Some (r_next ?r)" "a' = bump (fa_current a) b (a\<lparr>fa_current := fa_current a\<rparr>)"
        by (simp_all add: take_from_regions.simps [of b a] bump_def Let_def)
      with more e checked_add_unat [OF e(1)] show ?thesis by (auto simp: word_le_nat_alt)
    next
      case False
      with "1.prems" more have rest: "take_from_regions b ?a = (r, a')"
        by (auto simp: take_from_regions.simps [of b a] Let_def split: option.splits)
      with more False "1.IH" show ?thesis
        by (cases "checked_add (r_next ?r) b") (auto simp: max_def bump_def Let_def)
    qed
  qed
qed

lemma allocator_allocate_contiguous_cases:
  assumes "allocator_allocate_contiguous n a = (r, a')"
  obtains (none) c where "r = None" "a' = a\<lparr>fa_current := c\<rparr>"
    | (some) k b where "k < fa_count a" "r = Some (r_next (fa_regions a ! k))"
        "a' = bump k b (a\<lparr>fa_current := k\<rparr>)" "unat b = unat n * 4096"
        "unat (r_next (fa_regions a ! k)) + unat b \<le> unat (r_end (fa_regions a ! k))"
proof (cases "checked_mul n PAGE_SIZE")
  case None
  with assms have "r = None" "a' = a\<lparr>fa_current := fa_current a\<rparr>"
    by (simp_all add: allocator_allocate_contiguous_def)
  then show thesis by (rule none)
next
  case (Some b)
  with assms have "take_from_regions b a = (r, a')" by (simp add: allocator_allocate_contiguous_def)
  with take_from_regions_cases [of b a r a'] checked_mul_unat [OF Some] none some show thesis
    by auto
qed

lemma frames_ok_current [simp]:
  "frames_ok (a\<lparr>fa_current := c\<rparr>) = frames_ok a"
  "live_frames (a\<lparr>fa_current := c\<rparr>) = live_frames a"
  "carved (a\<lparr>fa_current := c\<rparr>) = carved a" "waiting (a\<lparr>fa_current := c\<rparr>) = waiting a"
  by (simp_all add: frames_ok_def live_frames_def carved_def waiting_def)

lemma waiting_bump [simp]: "waiting (bump k b a) = waiting a"
  by (simp add: waiting_def bump_def)

lemma in_use_bump:
  fixes b :: u64
  assumes "region_ok r" and "unat b = unat n * 4096" and "unat (r_next r) + unat b \<le> unat (r_end r)"
  shows "in_use (r\<lparr>r_next := r_next r + b\<rparr>) = in_use r \<union> page_range (r_next r) n"
    and "region_ok (r\<lparr>r_next := r_next r + b\<rparr>)"
proof -
  have "unat (r_next r) + unat b < 2 ^ 64" using assms(3) unat_lt_64 [of "r_end r"] by simp
  then have "unat (r_next r + b) = unat (r_next r) + unat b" by (simp add: unat_word_ariths)
  with assms show "in_use (r\<lparr>r_next := r_next r + b\<rparr>) = in_use r \<union> page_range (r_next r) n"
    and "region_ok (r\<lparr>r_next := r_next r + b\<rparr>)"
    by (auto simp: in_use_def page_range_def region_ok_def word_le_nat_alt word_less_nat_alt)
qed

lemma in_use_subset: "region_ok r \<Longrightarrow> f \<in> in_use r \<Longrightarrow> r_start r \<le> f \<and> f < r_end r"
  by (auto simp: in_use_def region_ok_def)

lemma page_range_fresh:
  fixes n :: u64
  assumes "frames_ok a" and "k < fa_count a" and "unat b = unat n * 4096"
    and "unat (r_next (fa_regions a ! k)) + unat b \<le> unat (r_end (fa_regions a ! k))"
  shows "page_range (r_next (fa_regions a ! k)) n \<inter> carved a = {}"
proof -
  have "f \<notin> in_use (fa_regions a ! i)"
    if f: "f \<in> page_range (r_next (fa_regions a ! k)) n" and i: "i < fa_count a" for f i
  proof (cases "i = k")
    case True
    with f show ?thesis by (auto simp: page_range_def in_use_def word_less_nat_alt)
  next
    case False
    have ok: "region_ok (fa_regions a ! i)" "region_ok (fa_regions a ! k)"
      and disj: "regions_disjoint (fa_regions a ! i) (fa_regions a ! k)"
      using assms(1,2) i False by (auto simp: frames_ok_def)
    have "r_start (fa_regions a ! k) \<le> f" "f < r_end (fa_regions a ! k)"
      using f ok(2) assms(3,4) by (auto simp: page_range_def region_ok_def word_le_nat_alt word_less_nat_alt)
    with disj in_use_subset [OF ok(1), of f] show ?thesis by (auto simp: regions_disjoint_def)
  qed
  then show ?thesis by (auto simp: carved_def)
qed

lemma carved_bump:
  assumes "frames_ok a" and "k < fa_count a" and "unat b = unat n * 4096"
    and "unat (r_next (fa_regions a ! k)) + unat b \<le> unat (r_end (fa_regions a ! k))"
  shows "carved (bump k b a) = carved a \<union> page_range (r_next (fa_regions a ! k)) n"
proof -
  have "region_ok (fa_regions a ! k)" and len: "fa_count a \<le> length (fa_regions a)"
    using assms(1,2) by (auto simp: frames_ok_def)
  note use = in_use_bump(1) [OF this(1) assms(3,4)]
  have "in_use (fa_regions (bump k b a) ! i) =
      in_use (fa_regions a ! i) \<union> (if i = k then page_range (r_next (fa_regions a ! k)) n else {})"
    if "i < fa_count a" for i
    using that len use by (simp add: bump_def nth_update_if)
  then have "carved (bump k b a) =
      (\<Union>i<fa_count a. in_use (fa_regions a ! i) \<union> (if i = k then page_range (r_next (fa_regions a ! k)) n else {}))"
    by (simp add: carved_def bump_def)
  with assms(2) show ?thesis by (auto simp: carved_def split: if_splits)
qed

lemma frames_ok_bump:
  fixes n :: u64
  assumes "frames_ok a" and "k < fa_count a" and "unat b = unat n * 4096"
    and "unat (r_next (fa_regions a ! k)) + unat b \<le> unat (r_end (fa_regions a ! k))"
  shows "frames_ok (bump k b a)"
proof -
  let ?a = "bump k b a"
  have k: "region_ok (fa_regions a ! k)" and len: "fa_count a \<le> length (fa_regions a)"
    using assms(1,2) by (auto simp: frames_ok_def)
  have nth: "fa_regions ?a ! i = (if i = k then (fa_regions a ! k)\<lparr>r_next := r_next (fa_regions a ! k) + b\<rparr>
      else fa_regions a ! i)" if "i < fa_count a" for i
    using that len by (simp add: bump_def nth_update_if)
  have same: "fa_count ?a = fa_count a" "length (fa_regions ?a) = length (fa_regions a)"
    "fa_recycled ?a = fa_recycled a" "fa_recycled_count ?a = fa_recycled_count a"
    by (simp_all add: bump_def)
  show ?thesis
    using assms(1) in_use_bump(2) [OF k assms(3,4)] carved_bump [OF assms]
    by (auto simp: frames_ok_def same nth regions_disjoint_def)
qed

section \<open>The refinement\<close>

lemma contiguous_refines:
  assumes ok: "frames_ok a" and alloc: "allocator_allocate_contiguous n a = (r, a')"
  shows "frames_ok a' \<and> (case r of
      None \<Rightarrow> live_frames a' = live_frames a
    | Some s \<Rightarrow> 4096 dvd unat s \<and> unat s + unat n * 4096 < 2 ^ 64
        \<and> page_range s n \<inter> live_frames a = {} \<and> live_frames a' = live_frames a \<union> page_range s n)"
  using alloc
proof (cases rule: allocator_allocate_contiguous_cases)
  case (none c)
  with ok show ?thesis by simp
next
  case (some k b)
  let ?a = "a\<lparr>fa_current := k\<rparr>" and ?s = "r_next (fa_regions a ! k)"
  have prem: "frames_ok ?a" "k < fa_count ?a" "unat b = unat n * 4096"
    "unat (r_next (fa_regions ?a ! k)) + unat b \<le> unat (r_end (fa_regions ?a ! k))"
    using ok some by simp_all
  have fresh: "page_range ?s n \<inter> carved a = {}" using page_range_fresh [OF prem] by simp
  have "4096 dvd unat ?s" using ok some(1) by (auto simp: frames_ok_def region_ok_def)
  moreover have "unat ?s + unat n * 4096 < 2 ^ 64"
    using some(4,5) unat_lt_64 [of "r_end (fa_regions a ! k)"] by simp
  moreover have "frames_ok a'" unfolding some(3) by (rule frames_ok_bump [OF prem])
  moreover have "live_frames a' = live_frames a \<union> page_range ?s n"
    using carved_bump [OF prem] fresh ok some(3) by (auto simp: live_frames_def frames_ok_def)
  ultimately show ?thesis using fresh some(2) by (auto simp: live_frames_def)
qed

lemma recycle_refines:
  assumes ok: "frames_ok a" and some: "fa_recycled_count a \<noteq> 0"
    and a': "a' = a\<lparr>fa_recycled_count := fa_recycled_count a - 1\<rparr>"
    and f: "f = fa_recycled a ! (fa_recycled_count a - 1)"
  shows "frames_ok a' \<and> 4096 dvd unat f \<and> f \<notin> live_frames a \<and> live_frames a' = insert f (live_frames a)"
proof -
  obtain m where m: "fa_recycled_count a = Suc m" using some by (cases "fa_recycled_count a") auto
  with ok have w: "waiting a = waiting a' @ [f]"
    by (auto simp: waiting_def a' f frames_ok_def take_Suc_conv_app_nth)
  have same: "carved a' = carved a" by (simp add: carved_def a')
  have "f \<in> carved a" and fresh: "f \<notin> set (waiting a')" using ok w by (auto simp: frames_ok_def)
  moreover from this(1) have "4096 dvd unat f" by (auto simp: carved_def in_use_def)
  moreover have "frames_ok a'" using ok w same by (auto simp: frames_ok_def a')
  ultimately show ?thesis using w same by (auto simp: live_frames_def)
qed

lemma allocate_frame_refines:
  assumes ok: "frames_ok a" and alloc: "allocate_frame a = (r, a')"
  shows "frames_ok a' \<and> (case r of
      None \<Rightarrow> live_frames a' = live_frames a
    | Some f \<Rightarrow> 4096 dvd unat f \<and> f \<notin> live_frames a \<and> live_frames a' = insert f (live_frames a))"
proof (cases "fa_recycled_count a = 0")
  case True
  with alloc have contig: "allocator_allocate_contiguous 1 a = (r, a')" by (simp add: allocate_frame_def)
  from contiguous_refines [OF ok this] show ?thesis
    by (cases r) (auto simp: page_range_1)
next
  case False
  with alloc recycle_refines [OF ok False refl refl] show ?thesis by (auto simp: allocate_frame_def)
qed

lemma live_frame_iff:
  assumes "frames_ok a"
  shows "f \<in> live_frames a \<longleftrightarrow> f AND (PAGE_SIZE - 1) = 0
    \<and> list_ex (\<lambda>r. r_start r \<le> f \<and> f < r_next r) (take (fa_count a) (fa_regions a))
    \<and> f \<notin> set (waiting a)"
proof -
  have "fa_count a \<le> length (fa_regions a)" using assms by (simp add: frames_ok_def)
  then have "list_ex P (take (fa_count a) (fa_regions a)) \<longleftrightarrow> (\<exists>i<fa_count a. P (fa_regions a ! i))" for P
    by (auto simp: list_ex_length)
  then show ?thesis by (auto simp: live_frames_def carved_def in_use_def page_aligned)
qed

text \<open>A release succeeds exactly for a live frame while the recycling list has room.\<close>

lemma deallocate_frame_iff:
  assumes "frames_ok a"
  shows "deallocate_frame f a =
    (if f \<in> live_frames a \<and> fa_recycled_count a < RECYCLED_FRAME_CAPACITY
     then (Inr (), a\<lparr>fa_recycled := (fa_recycled a)[fa_recycled_count a := f],
                     fa_recycled_count := fa_recycled_count a + 1\<rparr>)
     else (Inl (), a))"
  using assms by (auto simp: deallocate_frame_def live_frame_iff waiting_def frames_ok_def)

lemma deallocate_frame_refines:
  assumes ok: "frames_ok a" and free: "deallocate_frame f a = (Inr (), a')"
  shows "frames_ok a' \<and> f \<in> live_frames a \<and> live_frames a' = live_frames a - {f}"
proof -
  from free have live: "f \<in> live_frames a" and room: "fa_recycled_count a < RECYCLED_FRAME_CAPACITY"
    and a': "a' = a\<lparr>fa_recycled := (fa_recycled a)[fa_recycled_count a := f],
                    fa_recycled_count := fa_recycled_count a + 1\<rparr>"
    by (auto simp: deallocate_frame_iff [OF ok] split: if_splits)
  have same: "carved a' = carved a" by (simp add: carved_def a')
  have w: "waiting a' = waiting a @ [f]"
    using ok room by (simp add: waiting_def a' frames_ok_def take_Suc_conv_app_nth)
  have "frames_ok a'" using ok room live same w by (auto simp: frames_ok_def a' live_frames_def)
  with live same w show ?thesis by (auto simp: live_frames_def)
qed

interpretation frames: frame_owner frames_ok live_frames allocate_frame deallocate_frame
proof
  fix a a' f
  assume ok: "frames_ok a"
  show "allocate_frame a = (Some f, a') \<Longrightarrow> frames_ok a' \<and> f \<notin> live_frames a \<and> live_frames a' = insert f (live_frames a)"
    using allocate_frame_refines [OF ok, of "Some f" a'] by simp
  show "allocate_frame a = (None, a') \<Longrightarrow> frames_ok a' \<and> live_frames a' = live_frames a"
    using allocate_frame_refines [OF ok, of None a'] by simp
  show "deallocate_frame f a = (Inr (), a') \<Longrightarrow> frames_ok a' \<and> f \<in> live_frames a \<and> live_frames a' = live_frames a - {f}"
    by (rule deallocate_frame_refines [OF ok])
  show "deallocate_frame f a = (Inl (), a') \<Longrightarrow> a' = a"
    by (auto simp: deallocate_frame_def split: if_splits)
qed

section \<open>Initialisation\<close>

definition desc_start :: "MemoryMapInfo \<Rightarrow> u8 list \<Rightarrow> nat \<Rightarrow> u64" where
  "desc_start info mem i = from_le_bytes (take 8 (drop (i * unat (map_descriptor_size info) + 8) mem))"

definition desc_pages :: "MemoryMapInfo \<Rightarrow> u8 list \<Rightarrow> nat \<Rightarrow> u64" where
  "desc_pages info mem i = from_le_bytes (take 8 (drop (i * unat (map_descriptor_size info) + 24) mem))"

definition desc_conventional :: "MemoryMapInfo \<Rightarrow> u8 list \<Rightarrow> nat \<Rightarrow> bool" where
  "desc_conventional info mem i \<longleftrightarrow>
     (from_le_bytes (take 4 (drop (i * unat (map_descriptor_size info)) mem)) :: u32) = UEFI_CONVENTIONAL_MEMORY"

definition desc_region :: "MemoryMapInfo \<Rightarrow> u8 list \<Rightarrow> nat \<Rightarrow> Region" where
  "desc_region info mem i =
    (let start = next_multiple_of (max (desc_start info mem i) 0x100000) PAGE_SIZE
     in \<lparr>r_start = start, r_next = start,
         r_end = saturating_add (desc_start info mem i) (saturating_mul (desc_pages info mem i) PAGE_SIZE)\<rparr>)"

definition region_pages :: "Region \<Rightarrow> u64" where
  "region_pages r = (r_end r - r_start r) div PAGE_SIZE"

lemma read_descriptors_regions:
  assumes "read_descriptors info mem is (a, free) = (a', free')"
    and "fa_count a \<le> MAX_REGIONS" and "length (fa_regions a) = MAX_REGIONS"
  shows "\<exists>js. set js \<subseteq> set is \<and> (distinct is \<longrightarrow> distinct js)
    \<and> (\<forall>j\<in>set js. desc_conventional info mem j \<and> r_start (desc_region info mem j) < r_end (desc_region info mem j))
    \<and> take (fa_count a') (fa_regions a') = take (fa_count a) (fa_regions a) @ map (desc_region info mem) js
    \<and> fa_count a' \<le> MAX_REGIONS \<and> length (fa_regions a') = MAX_REGIONS
    \<and> fa_current a' = fa_current a \<and> fa_recycled a' = fa_recycled a \<and> fa_recycled_count a' = fa_recycled_count a
    \<and> free' = free + sum_list (map (\<lambda>j. region_pages (desc_region info mem j)) js)"
  using assms
proof (induction "is" arbitrary: a free)
  case Nil
  then show ?case by (auto intro: exI [of _ "[]"])
next
  case (Cons i "is")
  let ?r = "desc_region info mem i"
  let ?stop = "unat (map_size info) < i * unat (map_descriptor_size info) + 40 \<or> fa_count a = MAX_REGIONS"
  let ?a = "a\<lparr>fa_regions := (fa_regions a)[fa_count a := ?r], fa_count := fa_count a + 1\<rparr>"
  consider (stop) "?stop" | (skip) "\<not> ?stop" "\<not> desc_conventional info mem i \<or> r_end ?r \<le> r_start ?r"
    | (add) "\<not> ?stop" "desc_conventional info mem i" "r_start ?r < r_end ?r"
    by fastforce
  then show ?case
  proof cases
    case stop
    with Cons.prems show ?thesis by (auto intro: exI [of _ "[]"])
  next
    case skip
    with Cons.prems(1) have "read_descriptors info mem is (a, free) = (a', free')"
      by (auto simp: Let_def desc_conventional_def desc_region_def desc_start_def desc_pages_def split: if_splits)
    from Cons.IH [OF this Cons.prems(2,3)] show ?thesis by fastforce
  next
    case add
    with Cons.prems(1) have rest: "read_descriptors info mem is (?a, free + region_pages ?r) = (a', free')"
      by (auto simp: Let_def desc_conventional_def desc_region_def desc_start_def desc_pages_def region_pages_def
          split: if_splits)
    have "fa_count ?a \<le> MAX_REGIONS" "length (fa_regions ?a) = MAX_REGIONS" using add Cons.prems by auto
    from Cons.IH [OF rest this] obtain js where js: "set js \<subseteq> set is" "distinct is \<longrightarrow> distinct js"
      "\<forall>j\<in>set js. desc_conventional info mem j \<and> r_start (desc_region info mem j) < r_end (desc_region info mem j)"
      "take (fa_count a') (fa_regions a') = take (fa_count ?a) (fa_regions ?a) @ map (desc_region info mem) js"
      "fa_count a' \<le> MAX_REGIONS" "length (fa_regions a') = MAX_REGIONS"
      "fa_current a' = fa_current a" "fa_recycled a' = fa_recycled a" "fa_recycled_count a' = fa_recycled_count a"
      "free' = free + region_pages ?r + sum_list (map (\<lambda>j. region_pages (desc_region info mem j)) js)"
      by auto
    have "take (fa_count ?a) (fa_regions ?a) = take (fa_count a) (fa_regions a) @ [?r]"
      using add Cons.prems by (simp add: take_Suc_conv_app_nth)
    with js add show ?thesis by (intro exI [of _ "i # js"]) (auto simp: add.assoc)
  qed
qed

text \<open>What the firmware guarantees of its conventional memory: page-aligned starts, no range past the end
  of the address space, and no two ranges that share memory.\<close>

definition firmware_map_ok :: "MemoryMapInfo \<Rightarrow> u8 list \<Rightarrow> bool" where
  "firmware_map_ok info mem \<longleftrightarrow>
    (\<forall>i<unat (map_descriptor_count info). desc_conventional info mem i \<longrightarrow>
       4096 dvd unat (desc_start info mem i)
       \<and> unat (desc_start info mem i) + unat (desc_pages info mem i) * 4096 < 2 ^ 64
       \<and> (\<forall>j<unat (map_descriptor_count info). desc_conventional info mem j \<longrightarrow> i \<noteq> j \<longrightarrow>
            unat (desc_start info mem i) + unat (desc_pages info mem i) * 4096 \<le> unat (desc_start info mem j)
            \<or> unat (desc_start info mem j) + unat (desc_pages info mem j) * 4096 \<le> unat (desc_start info mem i)))"

lemma next_multiple_of_page: "4096 dvd unat x \<Longrightarrow> next_multiple_of x PAGE_SIZE = x"
  by (simp add: next_multiple_of_def word_unat_eq_iff unat_mod_distrib PAGE_SIZE_def dvd_eq_mod_eq_0)

lemma desc_region_ok:
  assumes "firmware_map_ok info mem" and "i < unat (map_descriptor_count info)" and "desc_conventional info mem i"
  shows "unat (r_start (desc_region info mem i)) = max (unat (desc_start info mem i)) 0x100000"
    and "r_next (desc_region info mem i) = r_start (desc_region info mem i)"
    and "unat (r_end (desc_region info mem i)) = unat (desc_start info mem i) + unat (desc_pages info mem i) * 4096"
proof -
  let ?s = "desc_start info mem i" and ?n = "desc_pages info mem i"
  have s: "4096 dvd unat ?s" and bound: "unat ?s + unat ?n * 4096 < 2 ^ 64"
    using assms by (auto simp: firmware_map_ok_def)
  have m: "unat (max ?s 0x100000) = max (unat ?s) 0x100000" by (simp add: max_def word_le_nat_alt)
  then have "4096 dvd unat (max ?s 0x100000)" using s by (simp add: max_def)
  from next_multiple_of_page [OF this] m
  show "unat (r_start (desc_region info mem i)) = max (unat ?s) 0x100000" by (simp add: desc_region_def Let_def)
  show "r_next (desc_region info mem i) = r_start (desc_region info mem i)" by (simp add: desc_region_def Let_def)
  have "unat (saturating_mul ?n PAGE_SIZE) = unat ?n * 4096"
    using bound by (simp add: saturating_mul_def unat_word_ariths)
  with bound have "unat (saturating_add ?s (saturating_mul ?n PAGE_SIZE)) = unat ?s + unat ?n * 4096"
    by (simp add: saturating_add_def unat_word_ariths)
  then show "unat (r_end (desc_region info mem i)) = unat ?s + unat ?n * 4096" by (simp add: desc_region_def Let_def)
qed

lemma desc_regions_disjoint:
  assumes "firmware_map_ok info mem" and "i < unat (map_descriptor_count info)" and "desc_conventional info mem i"
    and "j < unat (map_descriptor_count info)" and "desc_conventional info mem j" and "i \<noteq> j"
  shows "regions_disjoint (desc_region info mem i) (desc_region info mem j)"
proof -
  note i = desc_region_ok [OF assms(1-3)] and j = desc_region_ok [OF assms(1,4,5)]
  have "unat (desc_start info mem i) + unat (desc_pages info mem i) * 4096 \<le> unat (desc_start info mem j)
      \<or> unat (desc_start info mem j) + unat (desc_pages info mem j) * 4096 \<le> unat (desc_start info mem i)"
    using assms unfolding firmware_map_ok_def by blast
  then show ?thesis unfolding regions_disjoint_def word_le_nat_alt i j by linarith
qed

lemma unat_sum_list_bound:
  fixes ws :: "u64 list"
  assumes "\<forall>w\<in>set ws. unat w \<le> b" and "length ws * b < 2 ^ 64"
  shows "unat (sum_list ws) = sum_list (map unat ws)" and "sum_list (map unat ws) \<le> length ws * b"
  using assms
proof (induction ws)
  case Nil
  case 1 show ?case by simp
next
  case Nil
  case 2 show ?case by simp
next
  case (Cons w ws)
  case 1
  then have "unat (sum_list ws) = sum_list (map unat ws)" "sum_list (map unat ws) \<le> length ws * b" "unat w \<le> b"
    using Cons.IH by auto
  then show ?case using 1 by (simp add: unat_word_ariths)
next
  case (Cons w ws)
  case 2
  then show ?case using Cons.IH(2) by auto
qed

lemma memory_initialize_regions:
  assumes "firmware_map_ok info mem" and "memory_initialize info mem a = (stats, a')"
    and "length (fa_regions a) = MAX_REGIONS" and "length (fa_recycled a) = RECYCLED_FRAME_CAPACITY"
  obtains js where "set js \<subseteq> {..<unat (map_descriptor_count info)}" "distinct js"
    "\<forall>j\<in>set js. desc_conventional info mem j \<and> r_start (desc_region info mem j) < r_end (desc_region info mem j)"
    "take (fa_count a') (fa_regions a') = map (desc_region info mem) js" "fa_count a' = length js"
    "length js \<le> MAX_REGIONS" "length (fa_regions a') = MAX_REGIONS"
    "length (fa_recycled a') = RECYCLED_FRAME_CAPACITY" "fa_recycled_count a' = 0"
    "stats = \<lparr>conventional_regions = length js,
       free_frames = sum_list (map (\<lambda>j. region_pages (desc_region info mem j)) js)\<rparr>"
proof -
  let ?a = "a\<lparr>fa_count := 0, fa_current := 0, fa_recycled_count := 0\<rparr>"
  let ?is = "[0..<unat (map_descriptor_count info)]"
  obtain free where read: "read_descriptors info mem ?is (?a, 0) = (a', free)"
    and stats: "stats = \<lparr>conventional_regions = fa_count a', free_frames = free\<rparr>"
    using assms(2) by (auto simp: memory_initialize_def Let_def split: prod.splits)
  have "fa_count ?a \<le> MAX_REGIONS" "length (fa_regions ?a) = MAX_REGIONS" using assms(3) by simp_all
  from read_descriptors_regions [OF read this] obtain js where js: "set js \<subseteq> set ?is" "distinct js"
    "\<forall>j\<in>set js. desc_conventional info mem j \<and> r_start (desc_region info mem j) < r_end (desc_region info mem j)"
    "take (fa_count a') (fa_regions a') = map (desc_region info mem) js" "fa_count a' \<le> MAX_REGIONS"
    "length (fa_regions a') = MAX_REGIONS" "fa_recycled a' = fa_recycled a" "fa_recycled_count a' = 0"
    "free = sum_list (map (\<lambda>j. region_pages (desc_region info mem j)) js)"
    by auto
  have count: "fa_count a' = length js" using arg_cong [OF js(4), of length] js(5,6) by simp
  show thesis by (rule that [of js]) (use js count stats assms(4) in auto)
qed

lemma memory_initialize_ok:
  assumes "firmware_map_ok info mem" and "memory_initialize info mem a = (stats, a')"
    and "length (fa_regions a) = MAX_REGIONS" and "length (fa_recycled a) = RECYCLED_FRAME_CAPACITY"
  shows "frames_ok a' \<and> live_frames a' = {}
    \<and> (\<forall>i<fa_count a'. 0x100000 \<le> unat (r_start (fa_regions a' ! i))
         \<and> (\<exists>j<unat (map_descriptor_count info). desc_conventional info mem j
              \<and> unat (desc_start info mem j) \<le> unat (r_start (fa_regions a' ! i))
              \<and> unat (r_end (fa_regions a' ! i)) = unat (desc_start info mem j) + unat (desc_pages info mem j) * 4096))
    \<and> unat (free_frames stats) =
        (\<Sum>i<fa_count a'. (unat (r_end (fa_regions a' ! i)) - unat (r_start (fa_regions a' ! i))) div 4096)"
  using assms
proof (rule memory_initialize_regions)
  fix js
  assume js: "set js \<subseteq> {..<unat (map_descriptor_count info)}" "distinct js"
    "\<forall>j\<in>set js. desc_conventional info mem j \<and> r_start (desc_region info mem j) < r_end (desc_region info mem j)"
    and regions: "take (fa_count a') (fa_regions a') = map (desc_region info mem) js" "fa_count a' = length js"
    and rest: "length js \<le> MAX_REGIONS" "length (fa_regions a') = MAX_REGIONS"
    "length (fa_recycled a') = RECYCLED_FRAME_CAPACITY" "fa_recycled_count a' = 0"
    and stats: "stats = \<lparr>conventional_regions = length js,
       free_frames = sum_list (map (\<lambda>j. region_pages (desc_region info mem j)) js)\<rparr>"
  have nth: "fa_regions a' ! i = desc_region info mem (js ! i)" if "i < length js" for i
    using arg_cong [OF regions(1), of "\<lambda>xs. xs ! i"] that regions(2) rest(1,2) by simp
  have j: "js ! i < unat (map_descriptor_count info)" "desc_conventional info mem (js ! i)"
    "r_start (desc_region info mem (js ! i)) < r_end (desc_region info mem (js ! i))" if "i < length js" for i
    using js that by (auto dest: nth_mem)
  note desc = desc_region_ok [OF assms(1) j(1,2)]
  have aligned: "4096 dvd unat (desc_start info mem (js ! i))" if "i < length js" for i
    using assms(1) j [OF that] by (auto simp: firmware_map_ok_def)
  have "region_ok (desc_region info mem (js ! i))" if "i < length js" for i
    using desc [OF that that] j(3) [OF that] aligned [OF that] by (auto simp: region_ok_def max_def)
  moreover have "regions_disjoint (desc_region info mem (js ! i)) (desc_region info mem (js ! k))"
    if "i < length js" "k < length js" "i \<noteq> k" for i k
    using desc_regions_disjoint [OF assms(1) j(1,2) [OF that(1)] j(1,2) [OF that(2)]]
      js(2) that by (auto simp: nth_eq_iff_index_eq)
  ultimately have ok: "frames_ok a'" using rest by (auto simp: frames_ok_def regions(2) nth waiting_def)
  have live: "live_frames a' = {}"
    using desc(2) by (auto simp: live_frames_def carved_def in_use_def regions(2) nth)
  have "unat (free_frames stats) =
      sum_list (map unat (map (\<lambda>j. region_pages (desc_region info mem j)) js))"
  proof -
    have "unat (region_pages r) \<le> 2 ^ 52" for r
      using unat_lt_64 [of "r_end r - r_start r"] by (simp add: region_pages_def unat_div_distrib)
    then have "\<forall>w\<in>set (map (\<lambda>j. region_pages (desc_region info mem j)) js). unat w \<le> 2 ^ 52" by simp
    moreover have "length (map (\<lambda>j. region_pages (desc_region info mem j)) js) * 2 ^ 52 < 2 ^ 64"
      using rest(1) by (simp add: MAX_REGIONS_def)
    ultimately show ?thesis unfolding stats by (simp only: MemoryStats.select_convs unat_sum_list_bound(1))
  qed
  also have "\<dots> = (\<Sum>i<length js. (unat (r_end (fa_regions a' ! i)) - unat (r_start (fa_regions a' ! i))) div 4096)"
    using j(3) by (simp add: sum_list_sum_nth nth region_pages_def unat_div_distrib unat_sub less_imp_le
        atLeast0LessThan)
  finally show ?thesis using ok live desc j by (fastforce simp: regions(2) nth)
qed

section \<open>Every run of the allocator\<close>

inductive frame_step :: "Allocator \<Rightarrow> Allocator \<Rightarrow> bool" where
  step_frame: "frame_step a (snd (allocate_frame a))"
| step_contiguous: "frame_step a (snd (allocate_contiguous n a))"
| step_deallocate: "frame_step a (snd (deallocate_frame f a))"

lemma allocate_contiguous_refines:
  assumes "frames_ok a" and "allocate_contiguous n a = (r, a')"
  shows "frames_ok a' \<and> (case r of
      None \<Rightarrow> live_frames a' = live_frames a
    | Some s \<Rightarrow> 4096 dvd unat s \<and> unat s + unat n * 4096 < 2 ^ 64
        \<and> page_range s n \<inter> live_frames a = {} \<and> live_frames a' = live_frames a \<union> page_range s n)"
  using assms contiguous_refines [of a n r a'] by (auto simp: allocate_contiguous_def split: if_splits)

lemma frame_step_ok: "frame_step a a' \<Longrightarrow> frames_ok a \<Longrightarrow> frames_ok a'"
proof (induction rule: frame_step.induct)
  case (step_frame a)
  then show ?case by (cases "allocate_frame a") (auto intro: frames.alloc_inv)
next
  case (step_contiguous a n)
  then show ?case by (cases "allocate_contiguous n a") (use allocate_contiguous_refines in auto)
next
  case (step_deallocate a f)
  then show ?case by (cases "deallocate_frame f a") (auto intro: frames.free_inv)
qed

lemma frame_steps_ok: "frame_step\<^sup>*\<^sup>* a a' \<Longrightarrow> frames_ok a \<Longrightarrow> frames_ok a'"
  by (induction rule: rtranclp_induct) (auto intro: frame_step_ok)

lemma empty_lengths:
  "length (fa_regions Allocator_empty) = MAX_REGIONS" "length (fa_recycled Allocator_empty) = RECYCLED_FRAME_CAPACITY"
  by (simp_all add: Allocator_empty_def)

lemma booted_frames_ok:
  assumes "firmware_map_ok info mem" and "memory_initialize info mem Allocator_empty = (stats, a0)"
    and "frame_step\<^sup>*\<^sup>* a0 a"
  shows "frames_ok a"
  using memory_initialize_ok [OF assms(1,2) empty_lengths] frame_steps_ok [OF assms(3)] by blast

section \<open>Properties of the frame allocator\<close>

text \<open>A memory map of one descriptor: four conventional pages at two megabytes.\<close>

definition one_descriptor :: MemoryMapInfo where
  "one_descriptor = \<lparr>map_base = 0x1000, map_size = 40, map_descriptor_size = 40, map_descriptor_count = 1\<rparr>"

definition one_descriptor_bytes :: "u8 list" where
  "one_descriptor_bytes = [7, 0, 0, 0, 0, 0, 0, 0, 0, 0, 0x20, 0, 0, 0, 0, 0, 0, 0, 0, 0, 0, 0, 0, 0,
     4, 0, 0, 0, 0, 0, 0, 0, 0, 0, 0, 0, 0, 0, 0, 0]"

definition one_region :: "u64 \<Rightarrow> Allocator" where
  "one_region nxt = Allocator_empty\<lparr>fa_regions := (replicate MAX_REGIONS Region_EMPTY)
     [0 := \<lparr>r_start = 0x200000, r_next = nxt, r_end = 0x204000\<rparr>], fa_count := 1\<rparr>"

lemma one_descriptor_ok: "firmware_map_ok one_descriptor one_descriptor_bytes"
  by (simp add: firmware_map_ok_def one_descriptor_def one_descriptor_bytes_def desc_start_def desc_pages_def
      from_le_bytes_def)

lemma one_descriptor_boots:
  "memory_initialize one_descriptor one_descriptor_bytes Allocator_empty =
     (\<lparr>conventional_regions = 1, free_frames = 4\<rparr>, one_region 0x200000)"
  by (simp add: memory_initialize_def one_descriptor_def one_descriptor_bytes_def from_le_bytes_def one_region_def
      Allocator_empty_def UEFI_CONVENTIONAL_MEMORY_def MAX_REGIONS_def next_multiple_of_def PAGE_SIZE_def
      saturating_add_def saturating_mul_def)

text \<open>\<^bold>\<open>C17\<close>. On a memory map whose conventional ranges are page-aligned, within the address space and
  disjoint, initialisation leaves a well-formed allocator with no live frame: every region starts at
  or above one megabyte and lies inside a conventional descriptor, and the reported number of free
  frames is the number of pages of all regions.\<close>

theorem memory_map_initialises_allocator:
  assumes "firmware_map_ok info mem" and "memory_initialize info mem Allocator_empty = (stats, a)"
  shows "frames_ok a \<and> live_frames a = {}
    \<and> (\<forall>i<fa_count a. 0x100000 \<le> unat (r_start (fa_regions a ! i))
         \<and> (\<exists>j<unat (map_descriptor_count info). desc_conventional info mem j
              \<and> unat (desc_start info mem j) \<le> unat (r_start (fa_regions a ! i))
              \<and> unat (r_end (fa_regions a ! i)) = unat (desc_start info mem j) + unat (desc_pages info mem j) * 4096))
    \<and> unat (free_frames stats) =
        (\<Sum>i<fa_count a. (unat (r_end (fa_regions a ! i)) - unat (r_start (fa_regions a ! i))) div 4096)"
  by (rule memory_initialize_ok [OF assms empty_lengths])

theorem memory_map_initialises_allocator_witness:
  "frames_ok (one_region 0x200000) \<and> live_frames (one_region 0x200000) = {}"
  using memory_map_initialises_allocator [OF one_descriptor_ok one_descriptor_boots] by blast

text \<open>\<^bold>\<open>C18\<close>. In every state the kernel can reach after initialisation, a frame or a contiguous range that
  the allocator hands out is page-aligned and contains no live frame, and becomes live; a release
  succeeds exactly for a live frame while the recycling list has room, and ends the life of that frame
  only; a request or release that fails leaves the live frames as they were.\<close>

theorem frames_have_one_owner:
  assumes "firmware_map_ok info mem" and "memory_initialize info mem Allocator_empty = (stats, a0)"
    and "frame_step\<^sup>*\<^sup>* a0 a"
  shows "(case allocate_frame a of
        (None, a') \<Rightarrow> live_frames a' = live_frames a
      | (Some f, a') \<Rightarrow> 4096 dvd unat f \<and> f \<notin> live_frames a \<and> live_frames a' = insert f (live_frames a))
    \<and> (case allocate_contiguous n a of
        (None, a') \<Rightarrow> live_frames a' = live_frames a
      | (Some s, a') \<Rightarrow> 4096 dvd unat s \<and> page_range s n \<inter> live_frames a = {}
          \<and> live_frames a' = live_frames a \<union> page_range s n)
    \<and> (case deallocate_frame f a of
        (Inr _, a') \<Rightarrow> f \<in> live_frames a \<and> live_frames a' = live_frames a - {f}
      | (Inl _, a') \<Rightarrow> a' = a \<and> (f \<in> live_frames a \<longrightarrow> fa_recycled_count a = RECYCLED_FRAME_CAPACITY))"
proof -
  have ok: "frames_ok a" by (rule booted_frames_ok [OF assms])
  have "fa_recycled_count a \<le> RECYCLED_FRAME_CAPACITY" using ok by (simp add: frames_ok_def)
  then have "case deallocate_frame f a of
        (Inr _, a') \<Rightarrow> f \<in> live_frames a \<and> live_frames a' = live_frames a - {f}
      | (Inl _, a') \<Rightarrow> a' = a \<and> (f \<in> live_frames a \<longrightarrow> fa_recycled_count a = RECYCLED_FRAME_CAPACITY)"
  proof (cases "f \<in> live_frames a \<and> fa_recycled_count a < RECYCLED_FRAME_CAPACITY")
    case True
    then have "deallocate_frame f a = (Inr (), snd (deallocate_frame f a))" by (simp add: deallocate_frame_iff [OF ok])
    from deallocate_frame_refines [OF ok this] show ?thesis by (subst \<open>deallocate_frame f a = _\<close>) simp
  next
    case False
    then have "deallocate_frame f a = (Inl (), a)" by (simp only: deallocate_frame_iff [OF ok] if_False)
    with False \<open>fa_recycled_count a \<le> _\<close> show ?thesis by simp
  qed
  moreover obtain r a' where "allocate_frame a = (r, a')" by (cases "allocate_frame a")
  with allocate_frame_refines [OF ok this] have "case allocate_frame a of
        (None, a') \<Rightarrow> live_frames a' = live_frames a
      | (Some f, a') \<Rightarrow> 4096 dvd unat f \<and> f \<notin> live_frames a \<and> live_frames a' = insert f (live_frames a)"
    by (cases r) simp_all
  moreover obtain r a' where "allocate_contiguous n a = (r, a')" by (cases "allocate_contiguous n a")
  with allocate_contiguous_refines [OF ok this] have "case allocate_contiguous n a of
        (None, a') \<Rightarrow> live_frames a' = live_frames a
      | (Some s, a') \<Rightarrow> 4096 dvd unat s \<and> page_range s n \<inter> live_frames a = {}
          \<and> live_frames a' = live_frames a \<union> page_range s n"
    by (cases r) simp_all
  ultimately show ?thesis by blast
qed

theorem frames_have_one_owner_witness:
  "(0x200000 :: u64) \<notin> live_frames (one_region 0x200000)"
proof -
  have "allocate_frame (one_region 0x200000) = (Some 0x200000, one_region 0x201000)"
    by (simp add: one_region_def Allocator_empty_def allocate_frame_def allocator_allocate_contiguous_def
        take_from_regions.simps MAX_REGIONS_def checked_mul_def checked_add_def PAGE_SIZE_def)
  then show ?thesis
    using frames_have_one_owner [OF one_descriptor_ok one_descriptor_boots rtranclp.rtrancl_refl, of 1 0] by simp
qed



section \<open>The heap\<close>

lemma heap_allocate_Some:
  assumes "heap_allocate sz alignment st = (Some p, st')"
  shows "0 < unat sz \<and> unat alignment dvd unat p \<and> unat (heap_next st) \<le> unat p
    \<and> unat p + unat sz = unat (heap_next st') \<and> unat (heap_next st') \<le> unat (heap_end st)
    \<and> heap_end st' = heap_end st"
proof -
  from assms obtain bumped fin where size0: "sz \<noteq> 0" and pow: "is_power_of_two alignment"
    and bumped: "checked_add (heap_next st) (alignment - 1) = Some bumped"
    and p: "p = bumped AND NOT (alignment - 1)" and fin: "checked_add p sz = Some fin"
    and room: "fin \<le> heap_end st" and st': "st' = st\<lparr>heap_next := fin\<rparr>"
    by (auto simp: heap_allocate_def Let_def split: if_splits option.splits)
  show ?thesis
    using size0 align_up [OF pow bumped] p checked_add_unat [OF fin] room st' by (auto simp: word_le_nat_alt unat_gt_0)
qed

lemma heap_allocate_None:
  assumes "heap_allocate sz alignment st = (None, st')"
  shows "heap_end st' = heap_end st \<and> unat (heap_next st) \<le> unat (heap_next st')"
proof (cases "st' = st")
  case False
  with assms obtain bumped where "is_power_of_two alignment"
    and "checked_add (heap_next st) (alignment - 1) = Some bumped" and "bumped AND NOT (alignment - 1) = 0"
    and "heap_end st' = heap_end st"
    by (auto simp: heap_allocate_def Let_def split: if_splits option.splits)
  with align_up(2) [of alignment "heap_next st" bumped] show ?thesis by simp
qed simp

text \<open>The blocks a sequence of requests obtains: address, size and alignment.\<close>

primrec heap_blocks :: "(u64 \<times> u64) list \<Rightarrow> HeapState \<Rightarrow> (u64 \<times> u64 \<times> u64) list" where
  "heap_blocks [] st = []"
| "heap_blocks (r # rs) st =
    (case heap_allocate (fst r) (snd r) st of
       (Some p, st') \<Rightarrow> (p, fst r, snd r) # heap_blocks rs st'
     | (None, st') \<Rightarrow> heap_blocks rs st')"

definition block_within :: "nat \<Rightarrow> nat \<Rightarrow> u64 \<times> u64 \<times> u64 \<Rightarrow> bool" where
  "block_within lo hi = (\<lambda>(p, sz, al). 0 < unat sz \<and> unat al dvd unat p \<and> lo \<le> unat p \<and> unat p + unat sz \<le> hi)"

definition block_before :: "u64 \<times> u64 \<times> u64 \<Rightarrow> u64 \<times> u64 \<times> u64 \<Rightarrow> bool" where
  "block_before = (\<lambda>(p, sz, al) (q, _). unat p + unat sz \<le> unat q)"

lemma heap_blocks_ok:
  "list_all (block_within (unat (heap_next st)) (unat (heap_end st))) (heap_blocks rs st)
   \<and> sorted_wrt block_before (heap_blocks rs st)"
proof (induction rs arbitrary: st)
  case Nil
  then show ?case by simp
next
  case (Cons r rs)
  obtain o1 st' where alloc: "heap_allocate (fst r) (snd r) st = (o1, st')" by (cases "heap_allocate (fst r) (snd r) st")
  show ?case
  proof (cases o1)
    case None
    with heap_allocate_None [of "fst r" "snd r" st st'] alloc Cons.IH [of st'] show ?thesis
      by (auto simp: list_all_iff block_within_def)
  next
    case (Some p)
    with heap_allocate_Some [of "fst r" "snd r" st p st'] alloc Cons.IH [of st'] show ?thesis
      by (auto simp: list_all_iff block_within_def block_before_def)
  qed
qed

definition big_region :: "u64 \<Rightarrow> Allocator" where
  "big_region nxt = Allocator_empty\<lparr>fa_regions := (replicate MAX_REGIONS Region_EMPTY)
     [0 := \<lparr>r_start = 0x200000, r_next = nxt, r_end = 0x400000\<rparr>], fa_count := 1\<rparr>"

lemma big_region_ok: "frames_ok (big_region 0x200000)"
  by (auto simp: frames_ok_def big_region_def Allocator_empty_def region_ok_def waiting_def MAX_REGIONS_def
      RECYCLED_FRAME_CAPACITY_def)

lemma big_region_heap:
  "heap_initialize (big_region 0x200000) =
     (Some (\<lparr>heap_base = 0x200000, heap_size = 0x100000\<rparr>, \<lparr>heap_next = 0x200000, heap_end = 0x300000\<rparr>), big_region 0x300000)"
  by (simp add: heap_initialize_def big_region_def Allocator_empty_def allocate_contiguous_def HEAP_PAGES_def
      allocator_allocate_contiguous_def take_from_regions.simps MAX_REGIONS_def checked_mul_def checked_add_def PAGE_SIZE_def)

text \<open>The heap takes 256 contiguous frames nobody else holds, and the blocks that any sequence of
  requests obtains from it lie inside them, have the requested alignment, and follow each other without
  overlap.\<close>

lemma heap_blocks_aligned_and_disjoint:
  assumes "frames_ok a" and "heap_initialize a = (Some (stats, st), a')"
  shows "page_range (heap_base stats) HEAP_PAGES \<inter> live_frames a = {}
    \<and> live_frames a' = live_frames a \<union> page_range (heap_base stats) HEAP_PAGES
    \<and> list_all (block_within (unat (heap_base stats)) (unat (heap_base stats) + 256 * 4096)) (heap_blocks requests st)
    \<and> sorted_wrt block_before (heap_blocks requests st)"
proof -
  from assms(2) obtain base where alloc: "allocate_contiguous HEAP_PAGES a = (Some base, a')"
    and st: "heap_base stats = base" "st = \<lparr>heap_next = base, heap_end = base + HEAP_PAGES * PAGE_SIZE\<rparr>"
    by (auto simp: heap_initialize_def split: prod.splits option.splits)
  have spec: "unat base + unat HEAP_PAGES * 4096 < 2 ^ 64" "page_range base HEAP_PAGES \<inter> live_frames a = {}"
    "live_frames a' = live_frames a \<union> page_range base HEAP_PAGES"
    using allocate_contiguous_refines [OF assms(1) alloc] by simp_all
  have "unat (base + HEAP_PAGES * PAGE_SIZE) = unat base + 256 * 4096"
    using spec(1) by (simp add: unat_word_ariths HEAP_PAGES_def PAGE_SIZE_def)
  with spec(2,3) heap_blocks_ok [of st requests] show ?thesis by (simp add: st)
qed

end
