(* ===== verification/Shared_Memory_Proofs.thy ===== *)
theory Shared_Memory_Proofs
  imports Shared_Memory Frames_Proofs Handle_Table
begin

text \<open>
  Shared-memory objects own distinct live frames, keep their contents whatever happens to other
  objects, and a handle whose last reference was released never resolves again.
\<close>

section \<open>Raw memory by pages\<close>

lemma unat_in_page:
  fixes p :: u64
  assumes "4096 dvd unat p" and "i < 4096"
  shows "unat (p + word_of_nat i) = unat p + i"
proof -
  obtain k where k: "unat p = 4096 * k" using assms(1) by (auto simp: dvd_def)
  with unat_lt_64 [of p] have "k < 2 ^ 52" by simp
  with k assms(2) have "unat p + i < 2 ^ 64" by simp
  moreover have "unat (word_of_nat i :: u64) = i" using assms(2) by (simp add: unat_of_nat)
  ultimately show ?thesis by (simp add: unat_word_ariths)
qed

lemma slice_write_same:
  assumes "4096 dvd unat p" and "n \<le> 4096"
  shows "slice_raw p n (write_raw p bs m) = map (\<lambda>i. if i < length bs then bs ! i else m (p + word_of_nat i)) [0..<n]"
proof -
  have "write_raw p bs m (p + word_of_nat i) = (if i < length bs then bs ! i else m (p + word_of_nat i))"
    if "i < 4096" for i
    using unat_in_page [OF assms(1) that] by (simp add: write_raw_def word_le_nat_alt)
  with assms(2) show ?thesis by (simp add: slice_raw_def)
qed

lemma slice_write_other:
  assumes "4096 dvd unat p" and "4096 dvd unat q" and "p \<noteq> q" and "n \<le> 4096" and "length bs \<le> 4096"
  shows "slice_raw q n (write_raw p bs m) = slice_raw q n m"
proof -
  obtain j k where jk: "unat p = 4096 * j" "unat q = 4096 * k" "j \<noteq> k"
    using assms(1-3) by (auto simp: dvd_def word_unat_eq_iff)
  have "write_raw p bs m (q + word_of_nat i) = m (q + word_of_nat i)" if "i < 4096" for i
    using unat_in_page [OF assms(2) that] jk assms(5) that by (auto simp: write_raw_def word_le_nat_alt)
  with assms(4) show ?thesis by (simp add: slice_raw_def)
qed

section \<open>The invariant\<close>

definition slot_ok :: "Allocator \<Rightarrow> SharedMemorySlot \<Rightarrow> bool" where
  "slot_ok a s \<longleftrightarrow> (if sms_allocated s
     then sms_frame s \<in> live_frames a \<and> sms_references s \<noteq> 0 \<and> sms_length s \<le> SHM_PAGE_SIZE
     else sms_references s = 0 \<and> sms_length s = 0)"

definition shm_ok :: "shm_state \<Rightarrow> bool" where
  "shm_ok st \<longleftrightarrow> frames_ok (shm_allocator st) \<and> length (shm_slots st) = OBJECT_CAPACITY
     \<and> (\<forall>i<OBJECT_CAPACITY. slot_ok (shm_allocator st) (shm_slots st ! i))
     \<and> (\<forall>i<OBJECT_CAPACITY. \<forall>j<OBJECT_CAPACITY. i \<noteq> j \<longrightarrow> sms_allocated (shm_slots st ! i)
          \<longrightarrow> sms_allocated (shm_slots st ! j) \<longrightarrow> sms_frame (shm_slots st ! i) \<noteq> sms_frame (shm_slots st ! j))"

definition object_frames :: "shm_state \<Rightarrow> u64 set" where
  "object_frames st = {sms_frame (shm_slots st ! i) |i. i < OBJECT_CAPACITY \<and> sms_allocated (shm_slots st ! i)}"

lemma live_frames_aligned: "f \<in> live_frames a \<Longrightarrow> 4096 dvd unat f"
  by (auto simp: live_frames_def carved_def in_use_def)

lemma shm_index_ok:
  "shm_index st h = Inr i \<longleftrightarrow> i = unat (smh_index h) \<and> i < length (shm_slots st)
     \<and> sms_allocated (shm_slots st ! i) \<and> sms_generation (shm_slots st ! i) = smh_generation h"
  by (auto simp: shm_index_def get_at_def Let_def split: if_splits)

lemma shm_index_slots: "shm_slots st' = shm_slots st \<Longrightarrow> shm_index st' h = shm_index st h"
  by (simp add: shm_index_def)

lemma shm_index_phys [simp]: "shm_index (st\<lparr>shm_phys := m\<rparr>) h = shm_index st h"
  by (simp add: shm_index_def)

lemma frame_and_length_phys [simp]: "frame_and_length (st\<lparr>shm_phys := m\<rparr>) h = frame_and_length st h"
  by (cases "shm_index st h") (simp_all add: frame_and_length_def)

text \<open>One slot changes to a slot that is fine, and keeps its frame or takes one nobody held.\<close>

lemma shm_ok_update:
  assumes "shm_ok st" and "frames_ok a" and "live_frames (shm_allocator st) \<subseteq> live_frames a" and "slot_ok a s"
    and "sms_allocated s \<Longrightarrow> sms_frame s \<notin> live_frames (shm_allocator st)
      \<or> sms_allocated (shm_slots st ! i) \<and> sms_frame s = sms_frame (shm_slots st ! i)"
  shows "shm_ok (st\<lparr>shm_slots := (shm_slots st)[i := s], shm_allocator := a\<rparr>)"
proof (cases "i < OBJECT_CAPACITY")
  case False
  with assms(1-3) show ?thesis by (auto simp: shm_ok_def slot_ok_def)
next
  case True
  have other: "sms_frame s \<noteq> sms_frame (shm_slots st ! j)"
    if "j < OBJECT_CAPACITY" "j \<noteq> i" "sms_allocated s" "sms_allocated (shm_slots st ! j)" for j
    using assms(1,5) that True by (auto simp: shm_ok_def slot_ok_def)
  show ?thesis
    using assms(1-4) True other other [symmetric]
    by (auto simp: shm_ok_def nth_update_if slot_ok_def)
qed

lemma shm_ok_slot_update:
  assumes "shm_ok st" and "slot_ok (shm_allocator st) s" and "sms_allocated (shm_slots st ! i)"
    and "sms_frame s = sms_frame (shm_slots st ! i)"
  shows "shm_ok (st\<lparr>shm_slots := (shm_slots st)[i := s]\<rparr>)"
proof -
  have "shm_ok (st\<lparr>shm_slots := (shm_slots st)[i := s], shm_allocator := shm_allocator st\<rparr>)"
    by (rule shm_ok_update) (use assms in \<open>auto simp: shm_ok_def\<close>)
  then show ?thesis by simp
qed

lemma shm_ok_phys [simp]: "shm_ok (st\<lparr>shm_phys := m\<rparr>) = shm_ok st"
  by (simp add: shm_ok_def)

lemma shm_ok_allocator:
  "shm_ok st \<Longrightarrow> frames_ok a \<Longrightarrow> live_frames (shm_allocator st) \<subseteq> live_frames a \<Longrightarrow> shm_ok (st\<lparr>shm_allocator := a\<rparr>)"
  by (auto simp: shm_ok_def slot_ok_def)

lemma shm_create_ok:
  assumes "shm_ok st"
  shows "shm_ok (snd (shm_create pid st))"
proof -
  have ok: "frames_ok (shm_allocator st)" using assms by (simp add: shm_ok_def)
  obtain r a where alloc: "allocate_frame (shm_allocator st) = (r, a)" by (cases "allocate_frame (shm_allocator st)")
  show ?thesis
  proof (cases r)
    case None
    with alloc assms frames.alloc_inv [OF ok alloc] frames.alloc_keeps [OF ok alloc] show ?thesis
      by (auto simp: shm_create_def intro: shm_ok_allocator split: option.splits)
  next
    case (Some f)
    with frames.alloc_Some [OF ok] alloc have "frames_ok a" "f \<notin> live_frames (shm_allocator st)" "f \<in> live_frames a"
      "live_frames (shm_allocator st) \<subseteq> live_frames a" by auto
    with Some alloc assms show ?thesis
      by (auto simp: shm_create_def slot_ok_def intro!: shm_ok_update split: option.splits)
  qed
qed

lemma shm_index_slot_ok:
  "shm_ok st \<Longrightarrow> shm_index st h = Inr i \<Longrightarrow> slot_ok (shm_allocator st) (shm_slots st ! i)"
  by (simp add: shm_ok_def shm_index_ok)

lemma shm_index_allocated:
  "shm_index st h = Inr i \<Longrightarrow> sms_allocated (shm_slots st ! i)"
  "shm_index st h = Inr i \<Longrightarrow> i < length (shm_slots st)"
  by (auto simp: shm_index_ok)

lemma shm_truncate_ok:
  assumes "shm_ok st"
  shows "shm_ok (snd (shm_truncate pid h n st))"
proof (cases "shm_index st h")
  case (Inr i)
  with shm_index_slot_ok [OF assms Inr] shm_index_allocated(1) [OF Inr] show ?thesis using assms
    by (auto simp: shm_truncate_def slot_ok_def intro!: shm_ok_slot_update)
qed (use assms in \<open>simp add: shm_truncate_def\<close>)

lemma shm_retain_ok:
  assumes "shm_ok st"
  shows "shm_ok (snd (shm_retain h st))"
proof (cases "shm_index st h")
  case (Inr i)
  have "(r :: u16) + 1 \<noteq> 0" if "unat r + unat (1 :: u16) < 2 ^ LENGTH(16)" for r
    using checked_add_unat [of r 1 "r + 1"] that by (auto simp: checked_add_Some)
  with Inr shm_index_slot_ok [OF assms Inr] shm_index_allocated(1) [OF Inr] show ?thesis using assms
    by (auto simp: shm_retain_def slot_ok_def checked_simps split: option.splits intro!: shm_ok_slot_update)
qed (use assms in \<open>simp add: shm_retain_def\<close>)

lemma shm_release_ok:
  assumes "shm_ok st"
  shows "shm_ok (snd (shm_release h st))"
proof (cases "shm_index st h")
  case (Inr i)
  let ?s = "shm_slots st ! i"
  let ?e = "SharedMemorySlot_EMPTY\<lparr>sms_generation := sms_generation ?s\<rparr>"
  obtain r a where free: "deallocate_frame (sms_frame ?s) (shm_allocator st) = (r, a)"
    by (cases "deallocate_frame (sms_frame ?s) (shm_allocator st)")
  have ok: "frames_ok (shm_allocator st)" using assms by (simp add: shm_ok_def)
  note inv = frames.free_inv [OF ok free] and keeps = frames.free_keeps [OF ok free]
  have i: "i < OBJECT_CAPACITY" "sms_allocated ?s" using Inr assms by (auto simp: shm_index_ok shm_ok_def)
  have e: "slot_ok a ?e" "\<not> sms_allocated ?e" by (simp_all add: slot_ok_def SharedMemorySlot_EMPTY_def)
  have "slot_ok a (shm_slots st ! j)" if "j < OBJECT_CAPACITY" "j \<noteq> i" for j
    using assms that i keeps by (auto simp: shm_ok_def slot_ok_def)
  with e i inv assms have freed: "shm_ok (st\<lparr>shm_slots := (shm_slots st)[i := ?e], shm_allocator := a\<rparr>)"
    by (auto simp: shm_ok_def nth_update_if)
  with Inr i free shm_index_slot_ok [OF assms Inr] shm_ok_slot_update [OF assms] assms show ?thesis
    by (auto simp: shm_release_def slot_ok_def split: option.splits)
qed (use assms in \<open>simp add: shm_release_def\<close>)

lemma shm_create_initialized_cases:
  obtains (unchanged) e where "shm_create_initialized pid bs nul st = (Inl e, st)"
    | (no_object) e where "fst (shm_create pid st) = Inl e"
        "shm_create_initialized pid bs nul st = (Inl e, snd (shm_create pid st))"
    | (no_length) h e n where "fst (shm_create pid st) = Inr h"
        "fst (shm_truncate pid h n (snd (shm_create pid st))) = Inl e"
        "shm_create_initialized pid bs nul st = (Inl e, snd (shm_release h (snd (shm_truncate pid h n (snd (shm_create pid st))))))"
    | (no_frame) h e n where "fst (shm_create pid st) = Inr h"
        "fst (shm_truncate pid h n (snd (shm_create pid st))) = Inr ()"
        "shm_create_initialized pid bs nul st = (Inl e, snd (shm_truncate pid h n (snd (shm_create pid st))))"
    | (created) h st2 f n where "shm_create_initialized pid bs nul st = (Inr h, st2\<lparr>shm_phys := write_raw f bs (shm_phys st2)\<rparr>)"
        "fst (shm_create pid st) = Inr h" "shm_truncate pid h n (snd (shm_create pid st)) = (Inr (), st2)"
        "frame_and_length st2 h = Inr (f, n)" "n = length bs + (if nul then 1 else 0)" "n \<le> SHM_PAGE_SIZE"
proof -
  let ?n = "length bs + (if nul then 1 else 0)"
  obtain r st1 where create: "shm_create pid st = (r, st1)" by (cases "shm_create pid st")
  show thesis
  proof (cases "usize_add (length bs) (if nul then 1 else 0) = None
      \<or> bs = [] \<or> SHM_PAGE_SIZE < ?n \<or> nul \<and> 0 \<in> set bs")
    case True
    then have "shm_create_initialized pid bs nul st = (Inl ShmInvalidLength, st)"
      by (cases nul) (auto simp: shm_create_initialized_def usize_add_def)
    then show thesis by (rule unchanged)
  next
    case False
    then have go: "usize_add (length bs) (if nul then 1 else 0) = Some ?n" "bs \<noteq> []" "\<not> SHM_PAGE_SIZE < ?n"
      "\<not> (nul \<and> 0 \<in> set bs)" by (auto simp: usize_add_Some)
    show thesis
    proof (cases r)
      case (Inl e)
      with go create show thesis by (intro no_object [of e]) (auto simp: shm_create_initialized_def)
    next
      case (Inr h)
      obtain q st2 where trunc: "shm_truncate pid h ?n st1 = (q, st2)" by (cases "shm_truncate pid h ?n st1")
      show thesis
      proof (cases q)
        case (Inl e)
        with go create Inr trunc show thesis by (intro no_length [of h ?n e]) (auto simp: shm_create_initialized_def)
      next
        case q: (Inr u)
        show thesis
        proof (cases "frame_and_length st2 h")
          case (Inl e)
          with go create \<open>r = Inr h\<close> trunc q show thesis
            by (intro no_frame [of h ?n e]) (auto simp: shm_create_initialized_def)
        next
          case (Inr fl)
          obtain f l where fl: "fl = (f, l)" by (cases fl)
          have "sms_length (shm_slots st2 ! unat (smh_index h)) = ?n"
            using trunc q by (auto simp: shm_truncate_def shm_index_ok split: if_splits sum.splits)
          with Inr fl have "l = ?n" by (auto simp: frame_and_length_def result_simps shm_index_ok split: if_splits)
          with go create \<open>r = Inr h\<close> trunc q Inr fl show thesis
            by (intro created [of h f st2 ?n]) (auto simp: shm_create_initialized_def)
        qed
      qed
    qed
  qed
qed

lemma shm_create_initialized_ok:
  assumes "shm_ok st"
  shows "shm_ok (snd (shm_create_initialized pid bs nul st))"
proof (cases rule: shm_create_initialized_cases [of pid bs nul st])
  case (created h st2 f n)
  then have "shm_ok st2" using shm_truncate_ok [OF shm_create_ok [OF assms], of pid h n pid] by simp
  with created show ?thesis by simp
qed (simp_all add: assms shm_create_ok shm_truncate_ok shm_release_ok)

section \<open>Runs of the service\<close>

text \<open>The operations of the service, next to those of other services on the same frame allocator: these
  release only frames that no object holds.\<close>

datatype shm_op =
    Op_create u32
  | Op_create_initialized u32 "u8 list" bool
  | Op_truncate u32 SharedMemoryHandle nat
  | Op_retain SharedMemoryHandle
  | Op_release SharedMemoryHandle
  | Op_other_allocate
  | Op_other_contiguous u64
  | Op_other_deallocate u64

fun shm_apply :: "shm_op \<Rightarrow> shm_state \<Rightarrow> shm_state" where
  "shm_apply (Op_create pid) st = snd (shm_create pid st)"
| "shm_apply (Op_create_initialized pid bs nul) st = snd (shm_create_initialized pid bs nul st)"
| "shm_apply (Op_truncate pid h n) st = snd (shm_truncate pid h n st)"
| "shm_apply (Op_retain h) st = snd (shm_retain h st)"
| "shm_apply (Op_release h) st = snd (shm_release h st)"
| "shm_apply Op_other_allocate st = st\<lparr>shm_allocator := snd (allocate_frame (shm_allocator st))\<rparr>"
| "shm_apply (Op_other_contiguous n) st = st\<lparr>shm_allocator := snd (allocate_contiguous n (shm_allocator st))\<rparr>"
| "shm_apply (Op_other_deallocate f) st = st\<lparr>shm_allocator := snd (deallocate_frame f (shm_allocator st))\<rparr>"

fun shm_allowed :: "shm_op \<Rightarrow> shm_state \<Rightarrow> bool" where
  "shm_allowed (Op_other_deallocate f) st \<longleftrightarrow> f \<notin> object_frames st"
| "shm_allowed _ st \<longleftrightarrow> True"

inductive shm_steps :: "(shm_op \<Rightarrow> bool) \<Rightarrow> shm_state \<Rightarrow> shm_state \<Rightarrow> bool" for allowed where
  refl: "shm_steps allowed st st"
| step: "shm_steps allowed st st' \<Longrightarrow> allowed op \<Longrightarrow> shm_allowed op st' \<Longrightarrow> shm_steps allowed st (shm_apply op st')"

lemma shm_apply_ok:
  assumes "shm_ok st" and "shm_allowed op st"
  shows "shm_ok (shm_apply op st)"
proof -
  have ok: "frames_ok (shm_allocator st)" using assms(1) by (simp add: shm_ok_def)
  show ?thesis
  proof (cases op)
    case Op_other_allocate
    then show ?thesis using assms(1) frames.alloc_inv [OF ok] frames.alloc_keeps [OF ok]
      by (cases "allocate_frame (shm_allocator st)") (auto intro!: shm_ok_allocator)
  next
    case (Op_other_contiguous n)
    obtain r a where "allocate_contiguous n (shm_allocator st) = (r, a)"
      by (cases "allocate_contiguous n (shm_allocator st)")
    with allocate_contiguous_refines [OF ok this] Op_other_contiguous assms(1) show ?thesis
      by (cases r) (auto intro!: shm_ok_allocator)
  next
    case (Op_other_deallocate f)
    obtain r a where free: "deallocate_frame f (shm_allocator st) = (r, a)"
      by (cases "deallocate_frame f (shm_allocator st)")
    have "sms_frame (shm_slots st ! i) \<noteq> f" if "i < OBJECT_CAPACITY" "sms_allocated (shm_slots st ! i)" for i
      using assms(2) Op_other_deallocate that by (auto simp: object_frames_def)
    moreover have "slot_ok (shm_allocator st) (shm_slots st ! i)" if "i < OBJECT_CAPACITY" for i
      using assms(1) that by (simp add: shm_ok_def)
    ultimately have "slot_ok a (shm_slots st ! i)" if "i < OBJECT_CAPACITY" for i
      using that frames.free_keeps [OF ok free] by (fastforce simp: slot_ok_def)
    with frames.free_inv [OF ok free] Op_other_deallocate free assms(1) show ?thesis
      by (simp add: shm_ok_def)
  qed (use assms in \<open>auto simp: shm_create_ok shm_create_initialized_ok shm_truncate_ok shm_retain_ok shm_release_ok\<close>)
qed

lemma shm_steps_ok: "shm_steps P st st' \<Longrightarrow> shm_ok st \<Longrightarrow> shm_ok st'"
  by (induction rule: shm_steps.induct) (auto intro: shm_apply_ok)

section \<open>Objects do not disturb each other\<close>

definition keeps_object :: "SharedMemoryHandle \<Rightarrow> shm_state \<Rightarrow> shm_state \<Rightarrow> bool" where
  "keeps_object h st st' \<longleftrightarrow> (\<forall>i. shm_index st h = Inr i \<longrightarrow> shm_index st' h = Inr i
     \<and> sms_frame (shm_slots st' ! i) = sms_frame (shm_slots st ! i)
     \<and> sms_length (shm_slots st' ! i) = sms_length (shm_slots st ! i)
     \<and> (\<forall>n\<le>SHM_PAGE_SIZE. slice_raw (sms_frame (shm_slots st ! i)) n (shm_phys st') =
          slice_raw (sms_frame (shm_slots st ! i)) n (shm_phys st)))"

lemma keeps_object_refl [simp]: "keeps_object h st st"
  by (simp add: keeps_object_def)

lemma keeps_object_trans [trans]: "keeps_object h st st1 \<Longrightarrow> keeps_object h st1 st2 \<Longrightarrow> keeps_object h st st2"
  unfolding keeps_object_def by (metis (no_types, lifting))

lemma keeps_object_bytes:
  assumes "shm_ok st" and "keeps_object h st st'" and "shm_bytes st h = Inr bs"
  shows "shm_bytes st' h = Inr bs"
proof -
  obtain i where i: "shm_index st h = Inr i" using assms(3)
    by (auto simp: shm_bytes_def frame_and_length_def result_simps)
  from shm_index_slot_ok [OF assms(1) i] shm_index_allocated(1) [OF i]
  have "sms_length (shm_slots st ! i) \<le> SHM_PAGE_SIZE" by (simp add: slot_ok_def)
  with assms(2,3) i show ?thesis
    by (auto simp: shm_bytes_def frame_and_length_def keeps_object_def split: if_splits)
qed

lemma keeps_object_allocator [simp]: "keeps_object h st (st\<lparr>shm_allocator := a\<rparr>)"
  by (simp add: keeps_object_def shm_index_def)

lemma keeps_object_other_slot:
  assumes "\<And>i. shm_index st h = Inr i \<Longrightarrow> i \<noteq> k"
  shows "keeps_object h st (st\<lparr>shm_slots := (shm_slots st)[k := s]\<rparr>)"
  using assms by (auto simp: keeps_object_def shm_index_ok nth_update_if)

lemma keeps_object_same_slot:
  assumes "sms_allocated s = sms_allocated (shm_slots st ! k)" "sms_generation s = sms_generation (shm_slots st ! k)"
    and "sms_frame s = sms_frame (shm_slots st ! k)" "sms_length s = sms_length (shm_slots st ! k)"
  shows "keeps_object h st (st\<lparr>shm_slots := (shm_slots st)[k := s]\<rparr>)"
  using assms by (auto simp: keeps_object_def shm_index_ok nth_update_if)

lemma shm_index_inj: "shm_index st h = Inr i \<Longrightarrow> shm_index st h' = Inr i \<Longrightarrow> h' = h"
  by (cases h; cases h') (auto simp: shm_index_ok word_unat_eq_iff)

lemma object_frame_aligned:
  assumes "shm_ok st" and "shm_index st h = Inr i"
  shows "4096 dvd unat (sms_frame (shm_slots st ! i))" "sms_frame (shm_slots st ! i) \<in> live_frames (shm_allocator st)"
  using shm_index_slot_ok [OF assms] shm_index_allocated(1) [OF assms(2)] live_frames_aligned
  by (auto simp: slot_ok_def)

lemma keeps_object_write:
  assumes "shm_ok st" and "4096 dvd unat f" and "length bs \<le> SHM_PAGE_SIZE"
    and "\<And>i. shm_index st h = Inr i \<Longrightarrow> f \<noteq> sms_frame (shm_slots st ! i)"
  shows "keeps_object h st (st\<lparr>shm_phys := write_raw f bs (shm_phys st)\<rparr>)"
  using assms object_frame_aligned(1) [OF assms(1)]
  by (auto simp: keeps_object_def shm_index_def [of "st\<lparr>shm_phys := _\<rparr>"] shm_index_def [of st, symmetric] SHM_PAGE_SIZE_def
      intro!: slice_write_other)

lemma created_handle:
  assumes "shm_create pid st = (Inr h, st')"
  obtains k where "shm_index st' h = Inr k" "\<not> sms_allocated (shm_slots st ! k)" "k < length (shm_slots st)"
    "sms_owner_pid (shm_slots st' ! k) = pid" "sms_references (shm_slots st' ! k) = 1"
    "unat (smh_generation h) = unat (sms_generation (shm_slots st ! k)) + 1"
proof -
  from assms obtain k g f a where k: "position (\<lambda>s. \<not> sms_allocated s) (shm_slots st) = Some k" "k < 2 ^ 16"
    and g: "checked_add (sms_generation (shm_slots st ! k)) 1 = Some g"
    and h: "h = \<lparr>smh_index = word_of_nat k, smh_generation = g\<rparr>"
    and st': "shm_slots st' = (shm_slots st)[k := \<lparr>sms_generation = g, sms_owner_pid = pid, sms_frame = f,
        sms_length = 0, sms_references = 1, sms_allocated = True\<rparr>]"
    by (auto simp: shm_create_def split: option.splits prod.splits if_splits)
  have "unat (word_of_nat k :: u16) = k" using k(2) by (simp add: unat_of_nat)
  with k(1) g show thesis
    by (intro that [of k]) (auto simp: h st' shm_index_ok position_Some checked_add_unat)
qed

lemma created_handle_new:
  assumes "shm_create pid st = (Inr h', st')" and "shm_index st h = Inr i" and "shm_ok st"
  shows "h' \<noteq> h"
proof
  assume "h' = h"
  from created_handle [OF assms(1)] obtain k where "shm_index st' h' = Inr k" "\<not> sms_allocated (shm_slots st ! k)" .
  with \<open>h' = h\<close> assms(2) show False by (auto simp: shm_index_ok)
qed

lemma keeps_create:
  assumes "shm_ok st"
  shows "keeps_object h st (snd (shm_create pid st))"
proof -
  have ok: "frames_ok (shm_allocator st)" using assms by (simp add: shm_ok_def)
  show ?thesis
  proof (cases "position (\<lambda>s. \<not> sms_allocated s) (shm_slots st)")
    case None
    then show ?thesis by (simp add: shm_create_def)
  next
    case (Some k)
    have k: "\<not> sms_allocated (shm_slots st ! k)" using Some by (simp add: position_Some)
    obtain r a where alloc: "allocate_frame (shm_allocator st) = (r, a)" by (cases "allocate_frame (shm_allocator st)")
    have "keeps_object h st (st\<lparr>shm_slots := (shm_slots st)[k := s], shm_allocator := a,
        shm_phys := write_raw f (replicate SHM_PAGE_SIZE 0) (shm_phys st)\<rparr>)" if "r = Some f" for f s
    proof -
      have f: "f \<notin> live_frames (shm_allocator st)" "f \<in> live_frames a" using frames.alloc_Some [OF ok] alloc that by auto
      have "keeps_object h st (st\<lparr>shm_phys := write_raw f (replicate SHM_PAGE_SIZE 0) (shm_phys st)\<rparr>)" (is "keeps_object h st ?p")
        using f live_frames_aligned object_frame_aligned(2) [OF assms] by (intro keeps_object_write [OF assms]) auto
      also have "keeps_object h ?p (?p\<lparr>shm_slots := (shm_slots ?p)[k := s]\<rparr>)"
        using k by (intro keeps_object_other_slot) (auto simp: shm_index_ok)
      also have "keeps_object h (?p\<lparr>shm_slots := (shm_slots ?p)[k := s]\<rparr>)
          (?p\<lparr>shm_slots := (shm_slots ?p)[k := s], shm_allocator := a\<rparr>)" by (rule keeps_object_allocator)
      finally show ?thesis by (cases st) simp
    qed
    with Some alloc show ?thesis by (auto simp: shm_create_def split: option.splits)
  qed
qed

lemma keeps_truncate:
  assumes "h' \<noteq> h"
  shows "keeps_object h st (snd (shm_truncate pid h' n st))"
  using assms by (auto simp: shm_truncate_def split: sum.splits intro!: keeps_object_other_slot dest: shm_index_inj)

lemma keeps_retain: "keeps_object h st (snd (shm_retain h' st))"
  by (auto simp: shm_retain_def split: sum.splits option.splits intro!: keeps_object_same_slot)

lemma keeps_release:
  assumes "h' \<noteq> h"
  shows "keeps_object h st (snd (shm_release h' st))"
proof (cases "shm_index st h'")
  case (Inl e)
  then show ?thesis by (simp add: shm_release_def)
next
  case (Inr k)
  then have other: "keeps_object h st (st\<lparr>shm_slots := (shm_slots st)[k := s]\<rparr>)" for s
    using assms by (intro keeps_object_other_slot) (auto dest: shm_index_inj)
  then have "keeps_object h st (st\<lparr>shm_slots := (shm_slots st)[k := s], shm_allocator := a\<rparr>)" for s a
    using keeps_object_trans [OF other keeps_object_allocator] by simp
  with other Inr show ?thesis by (auto simp: shm_release_def split: option.splits prod.splits)
qed

lemma keeps_create_initialized:
  assumes ok: "shm_ok st" and h: "shm_index st h = Inr i"
  shows "keeps_object h st (snd (shm_create_initialized pid bs nul st))"
proof -
  have first: "keeps_object h st (snd (shm_create pid st))" by (rule keeps_create [OF ok])
  have new: "h' \<noteq> h" if "fst (shm_create pid st) = Inr h'" for h'
    using that created_handle_new [OF _ h ok, of pid h'] by (cases "shm_create pid st") auto
  have second: "keeps_object h st (snd (shm_truncate pid h' n (snd (shm_create pid st))))"
    if "fst (shm_create pid st) = Inr h'" for h' n
    by (rule keeps_object_trans [OF first keeps_truncate [OF new [OF that]]])
  show ?thesis
  proof (cases rule: shm_create_initialized_cases [of pid bs nul st])
    case (no_length h' e n)
    then show ?thesis using keeps_object_trans [OF second keeps_release [OF new]] by simp
  next
    case (created h' st2 f n)
    have ok2: "shm_ok st2" using shm_truncate_ok [OF shm_create_ok [OF ok], of pid h' n pid] created(3) by simp
    obtain k where k: "shm_index st2 h' = Inr k" "f = sms_frame (shm_slots st2 ! k)"
      using created(4) by (auto simp: frame_and_length_def result_simps split: if_splits)
    have "f \<noteq> sms_frame (shm_slots st2 ! j)" if j: "shm_index st2 h = Inr j" for j
    proof -
      have "j \<noteq> k" using new [OF created(2)] shm_index_inj k(1) j by blast
      then show ?thesis
        using ok2 shm_index_allocated [OF j] shm_index_allocated [OF k(1)] k(2) by (auto simp: shm_ok_def)
    qed
    moreover have "length bs \<le> SHM_PAGE_SIZE" using created(5,6) by simp
    ultimately have "keeps_object h st2 (st2\<lparr>shm_phys := write_raw f bs (shm_phys st2)\<rparr>)"
      using object_frame_aligned(1) [OF ok2 k(1)] k(2) by (intro keeps_object_write [OF ok2]) auto
    with second [OF created(2), of n] created(1,3) show ?thesis by (auto intro: keeps_object_trans)
  qed (use first second in simp_all)
qed

lemma keeps_apply:
  assumes "shm_ok st" and "shm_index st h = Inr i" and "op \<noteq> Op_release h" and "\<And>pid n. op \<noteq> Op_truncate pid h n"
  shows "keeps_object h st (shm_apply op st)"
  using assms
  by (cases op) (auto intro: keeps_create keeps_create_initialized keeps_truncate keeps_retain keeps_release)

lemma keeps_steps:
  assumes "shm_steps (\<lambda>op. op \<noteq> Op_release h \<and> (\<forall>pid n. op \<noteq> Op_truncate pid h n)) st st'"
    and "shm_ok st" and "shm_index st h = Inr i"
  shows "keeps_object h st st'"
  using assms
proof (induction rule: shm_steps.induct)
  case (step st st' op)
  then have keep: "keeps_object h st st'" by blast
  with step.prems(2) have "shm_index st' h = Inr i" by (simp add: keeps_object_def)
  with step keep keeps_apply [of st' h i op] shm_steps_ok [OF step.hyps(1)] show ?case
    by (blast intro: keeps_object_trans)
qed simp

section \<open>Generations\<close>

definition shm_gen :: "shm_state \<Rightarrow> nat \<Rightarrow> nat" where
  "shm_gen st i = (if i < length (shm_slots st) then unat (sms_generation (shm_slots st ! i)) else 0)"

definition shm_live :: "shm_state \<Rightarrow> nat \<Rightarrow> bool" where
  "shm_live st i \<longleftrightarrow> i < length (shm_slots st) \<and> sms_allocated (shm_slots st ! i)"

definition shm_ages :: "shm_state \<Rightarrow> shm_state \<Rightarrow> bool" where
  "shm_ages st st' \<longleftrightarrow> (\<forall>i. shm_gen st i \<le> shm_gen st' i \<and> (\<not> shm_live st i \<and> shm_live st' i \<longrightarrow> shm_gen st i < shm_gen st' i))"

definition shm_step :: "shm_state \<Rightarrow> shm_state \<Rightarrow> bool" where
  "shm_step st st' \<longleftrightarrow> (\<exists>op. st' = shm_apply op st)"

lemma shm_ages_refl [simp]: "shm_ages st st"
  by (auto simp: shm_ages_def)

lemma shm_ages_trans: "shm_ages st st1 \<Longrightarrow> shm_ages st1 st2 \<Longrightarrow> shm_ages st st2"
  unfolding shm_ages_def by (meson le_less_trans less_le_trans order_trans)

lemma shm_ages_same_slots: "shm_slots st' = shm_slots st \<Longrightarrow> shm_ages st st'"
  by (simp add: shm_ages_def shm_gen_def shm_live_def)

lemma shm_ages_update:
  assumes "shm_slots st' = (shm_slots st)[k := s]"
    and "sms_generation s = sms_generation (shm_slots st ! k) \<and> (sms_allocated s \<longrightarrow> sms_allocated (shm_slots st ! k))
      \<or> unat (sms_generation (shm_slots st ! k)) < unat (sms_generation s)"
  shows "shm_ages st st'"
  using assms by (auto simp: shm_ages_def shm_gen_def shm_live_def nth_update_if)

lemma create_ages: "shm_ages st (snd (shm_create pid st))"
  by (auto simp: shm_create_def checked_add_unat split: option.splits prod.splits
      intro: shm_ages_update shm_ages_same_slots)

lemma truncate_ages: "shm_ages st (snd (shm_truncate pid h n st))"
  by (auto simp: shm_truncate_def split: sum.splits intro: shm_ages_update)

lemma retain_ages: "shm_ages st (snd (shm_retain h st))"
  by (auto simp: shm_retain_def split: sum.splits option.splits intro: shm_ages_update)

lemma release_ages: "shm_ages st (snd (shm_release h st))"
  by (auto simp: shm_release_def SharedMemorySlot_EMPTY_def split: sum.splits option.splits prod.splits
      intro: shm_ages_update)

lemma create_initialized_ages: "shm_ages st (snd (shm_create_initialized pid bs nul st))"
proof (cases rule: shm_create_initialized_cases [of pid bs nul st])
  case (created h st2 f n)
  then have "shm_ages st st2" using shm_ages_trans [OF create_ages [of st pid] truncate_ages [of _ pid h n]] by simp
  then show ?thesis unfolding created(1) snd_conv by (rule shm_ages_trans) (simp add: shm_ages_same_slots)
next
  case (no_length h e n)
  then show ?thesis
    using shm_ages_trans [OF shm_ages_trans [OF create_ages [of st pid] truncate_ages [of _ pid h n]] release_ages [of _ h]]
    by simp
qed (auto intro: create_ages truncate_ages shm_ages_trans)

interpretation shm_objects: generation_table shm_gen shm_live shm_step
proof -
  have "shm_ages st (shm_apply op st)" for op st
    by (cases op) (simp_all add: create_ages create_initialized_ages truncate_ages retain_ages release_ages
        shm_ages_same_slots)
  then show "generation_table shm_gen shm_live shm_step"
    by unfold_locales (auto simp: shm_step_def shm_ages_def)
qed

lemma shm_steps_rtranclp: "shm_steps P st st' \<Longrightarrow> shm_step\<^sup>*\<^sup>* st st'"
  by (induction rule: shm_steps.induct) (auto simp: shm_step_def intro: rtranclp.rtrancl_into_rtrancl)

lemma shm_index_live: "shm_index st h = Inr i \<longleftrightarrow>
    i = unat (smh_index h) \<and> shm_live st i \<and> shm_gen st i = unat (smh_generation h)"
  by (auto simp: shm_index_ok shm_live_def shm_gen_def word_unat_eq_iff)

lemma retired_handle:
  assumes "shm_steps P st st'" and "\<not> shm_live st (unat (smh_index h))"
    and "unat (smh_generation h) \<le> shm_gen st (unat (smh_index h))"
  shows "shm_index st' h = Inl ShmInvalidHandle"
proof -
  have "shm_index st' h \<noteq> Inr i" for i
    using shm_objects.retired_never_resolves [OF shm_steps_rtranclp [OF assms(1)] assms(2,3)]
    by (auto simp: shm_index_live)
  moreover have "shm_index st' h = Inl ShmInvalidHandle \<or> (\<exists>i. shm_index st' h = Inr i)"
    by (auto simp: shm_index_def Let_def split: option.splits)
  ultimately show ?thesis by blast
qed

section \<open>Contents of a new object\<close>

lemma created_page_is_zero:
  assumes "shm_ok st" and "shm_create pid st = (Inr h, st')" and "shm_index st' h = Inr k" and "i < 4096"
  shows "shm_phys st' (sms_frame (shm_slots st' ! k) + word_of_nat i) = 0"
proof -
  from assms(2,3) obtain a f where alloc: "allocate_frame (shm_allocator st) = (Some f, a)"
    and f: "sms_frame (shm_slots st' ! k) = f" and m: "shm_phys st' = write_raw f (replicate SHM_PAGE_SIZE 0) (shm_phys st)"
    by (auto simp: shm_create_def shm_index_ok nth_update_if unat_of_nat split: option.splits prod.splits if_splits)
  have "frames_ok (shm_allocator st)" using assms(1) by (simp add: shm_ok_def)
  from frames.alloc_Some [OF this alloc] have "4096 dvd unat f" by (auto intro: live_frames_aligned)
  from unat_in_page [OF this assms(4)] assms(4) show ?thesis
    by (simp add: f m write_raw_def word_le_nat_alt SHM_PAGE_SIZE_def)
qed

lemma created_object_bytes:
  assumes ok: "shm_ok st" and create: "shm_create_initialized pid bs nul st = (Inr h, st')"
  shows "shm_bytes st' h = Inr (bs @ (if nul then [0] else [])) \<and> (\<exists>i. shm_index st' h = Inr i)"
proof (cases rule: shm_create_initialized_cases [of pid bs nul st])
  case (created h' st2 f n)
  then have h': "h' = h" and st': "st' = st2\<lparr>shm_phys := write_raw f bs (shm_phys st2)\<rparr>" using create by auto
  obtain st1 where st1: "shm_create pid st = (Inr h, st1)" using created(2) h' by (cases "shm_create pid st") auto
  have ok2: "shm_ok st2" using shm_truncate_ok [OF shm_create_ok [OF ok], of pid h n pid] created(3) h' by simp
  obtain k where k: "shm_index st2 h = Inr k" "f = sms_frame (shm_slots st2 ! k)"
    using created(4) h' by (auto simp: frame_and_length_def result_simps split: if_splits)
  have "shm_phys st2 = shm_phys st1" "shm_index st1 h = Inr k" "sms_frame (shm_slots st1 ! k) = f"
    using created(3) k st1 h' by (auto simp: shm_truncate_def shm_index_ok nth_update_if split: if_splits sum.splits)
  with created_page_is_zero [OF ok st1] have zero: "shm_phys st2 (f + word_of_nat i) = 0" if "i < 4096" for i
    using that by auto
  have "shm_bytes st' h = Inr (slice_raw f n (write_raw f bs (shm_phys st2)))"
    using created(4) h' st' by (simp add: shm_bytes_def)
  moreover have "slice_raw f n (write_raw f bs (shm_phys st2)) = bs @ (if nul then [0] else [])"
    using slice_write_same [OF object_frame_aligned(1) [OF ok2 k(1)], of n bs "shm_phys st2"] created(5,6) k(2) zero
    by (intro nth_equalityI) (auto simp: SHM_PAGE_SIZE_def nth_append)
  moreover have "shm_index st' h = Inr k" using k(1) st' shm_index_slots [of st' st2] by simp
  ultimately show ?thesis by auto
qed (use create in auto)

lemma shm_read_at_bytes:
  assumes "shm_bytes st h = Inr c" and "offs \<le> length c"
  shows "shm_read_at st h offs buf = (Inr (min (length buf) (length c - offs)),
    take (min (length buf) (length c - offs)) (drop offs c) @ drop (min (length buf) (length c - offs)) buf)"
  using assms by (simp add: shm_read_at_def get_range_def Let_def copy_at_def min.commute)

section \<open>Properties\<close>

definition shm_boot :: "Allocator \<Rightarrow> (u64 \<Rightarrow> u8) \<Rightarrow> shm_state" where
  "shm_boot a m = \<lparr>shm_slots = SharedMemoryTable_new, shm_allocator = a, shm_phys = m\<rparr>"

lemma shm_boot_ok: "frames_ok a \<Longrightarrow> shm_ok (shm_boot a m)"
  by (auto simp: shm_ok_def shm_boot_def SharedMemoryTable_new_def slot_ok_def SharedMemorySlot_EMPTY_def)

lemma one_region_ok: "frames_ok (one_region 0x200000)"
  by (auto simp: frames_ok_def one_region_def Allocator_empty_def region_ok_def waiting_def MAX_REGIONS_def
      RECYCLED_FRAME_CAPACITY_def)

definition first_handle :: SharedMemoryHandle where
  "first_handle = \<lparr>smh_index = 0, smh_generation = 1\<rparr>"

lemma new_table: "SharedMemoryTable_new =
    [SharedMemorySlot_EMPTY, SharedMemorySlot_EMPTY, SharedMemorySlot_EMPTY, SharedMemorySlot_EMPTY]"
  by (simp add: SharedMemoryTable_new_def OBJECT_CAPACITY_def numeral_eq_Suc)

lemma one_region_first: "allocate_frame (one_region 0x200000) = (Some 0x200000, one_region 0x201000)"
  by (simp add: one_region_def Allocator_empty_def allocate_frame_def allocator_allocate_contiguous_def
      take_from_regions.simps MAX_REGIONS_def checked_mul_def checked_add_def PAGE_SIZE_def)

lemma first_object:
  "fst (shm_create_initialized 7 [104, 105] True (shm_boot (one_region 0x200000) (\<lambda>_. 1))) = Inr first_handle"
  by (simp add: shm_create_initialized_def usize_add_def usize_limit_def SHM_PAGE_SIZE_def shm_create_def shm_boot_def
      new_table SharedMemorySlot_EMPTY_def checked_add_def one_region_first first_handle_def shm_truncate_def
      shm_index_def get_at_def frame_and_length_def)

text \<open>\<^bold>\<open>C20\<close>. A shared-memory object created with given bytes holds exactly these bytes, followed by a zero byte
  when a terminator was asked for, and still does after any sequence of operations on the service and of
  allocations and releases by other owners of frames, as long as nobody truncates or releases it; a read
  at an offset within it copies what the buffer has room for.\<close>

theorem shared_object_keeps_contents:
  assumes "frames_ok a" and "shm_steps (\<lambda>_. True) (shm_boot a m) st"
    and "shm_create_initialized pid bs nul st = (Inr h, st1)"
    and "shm_steps (\<lambda>op. op \<noteq> Op_release h \<and> (\<forall>pid n. op \<noteq> Op_truncate pid h n)) st1 st2"
  shows "shm_bytes st2 h = Inr (bs @ (if nul then [0] else []))
    \<and> (let contents = bs @ (if nul then [0] else []); n = min (length buf) (length contents - offs)
       in offs \<le> length contents \<longrightarrow> shm_read_at st2 h offs buf = (Inr n, take n (drop offs contents) @ drop n buf))"
proof -
  have ok: "shm_ok st" by (rule shm_steps_ok [OF assms(2) shm_boot_ok [OF assms(1)]])
  have ok1: "shm_ok st1" using shm_create_initialized_ok [OF ok, of pid bs nul] assms(3) by simp
  from created_object_bytes [OF ok assms(3)] obtain i where
    bytes: "shm_bytes st1 h = Inr (bs @ (if nul then [0] else []))" and i: "shm_index st1 h = Inr i" by blast
  have "shm_bytes st2 h = Inr (bs @ (if nul then [0] else []))"
    by (rule keeps_object_bytes [OF ok1 keeps_steps [OF assms(4) ok1 i] bytes])
  with shm_read_at_bytes [OF this] show ?thesis unfolding Let_def by blast
qed

theorem shared_object_keeps_contents_witness:
  "shm_bytes (snd (shm_create_initialized 7 [104, 105] True (shm_boot (one_region 0x200000) (\<lambda>_. 1)))) first_handle =
     Inr [104, 105, 0]"
proof -
  obtain st1 where created: "shm_create_initialized 7 [104, 105] True (shm_boot (one_region 0x200000) (\<lambda>_. 1)) =
      (Inr first_handle, st1)"
    using first_object by (cases "shm_create_initialized 7 [104, 105] True (shm_boot (one_region 0x200000) (\<lambda>_. 1))") auto
  from shared_object_keeps_contents [OF one_region_ok shm_steps.refl created shm_steps.refl] created
  show ?thesis by simp
qed

text \<open>\<^bold>\<open>C21\<close>. Releasing a shared-memory object drops one reference and keeps the handle valid while others
  remain; the release of the last reference retires the handle for good. While the allocator's recycling list
  has room, it gives the frame back and succeeds; when the list is full it reports \<open>FrameRelease\<close> and
  leaves the allocator as it was, so the frame stays allocated although no handle leads to it any more.\<close>

theorem last_release_retires_handle:
  assumes "frames_ok a" and "shm_steps (\<lambda>_. True) (shm_boot a m) st" and "shm_index st h = Inr i"
    and "shm_release h st = (r, st1)" and "shm_steps (\<lambda>_. True) st1 st2"
  shows "if unat (sms_references (shm_slots st ! i)) = 1
    then shm_index st2 h = Inl ShmInvalidHandle
      \<and> (if fa_recycled_count (shm_allocator st) < RECYCLED_FRAME_CAPACITY
         then r = Inr () \<and> live_frames (shm_allocator st1) = live_frames (shm_allocator st) - {sms_frame (shm_slots st ! i)}
         else r = Inl ShmFrameRelease \<and> shm_allocator st1 = shm_allocator st
           \<and> sms_frame (shm_slots st ! i) \<in> live_frames (shm_allocator st1))
    else r = Inr () \<and> shm_index st1 h = Inr i
      \<and> unat (sms_references (shm_slots st1 ! i)) + 1 = unat (sms_references (shm_slots st ! i))"
proof -
  let ?s = "shm_slots st ! i"
  have ok: "shm_ok st" by (rule shm_steps_ok [OF assms(2) shm_boot_ok [OF assms(1)]])
  have refs: "1 \<le> sms_references ?s" "sms_frame ?s \<in> live_frames (shm_allocator st)"
    using shm_index_slot_ok [OF ok assms(3)] shm_index_allocated(1) [OF assms(3)]
    by (auto simp: slot_ok_def word_le_nat_alt unat_gt_0 Suc_le_eq)
  then have sub: "checked_sub (sms_references ?s) 1 = Some (sms_references ?s - 1)" by (simp add: checked_sub_def)
  have dec: "unat (sms_references ?s - 1) = unat (sms_references ?s) - 1" using checked_sub_unat [OF sub] by simp
  have zero: "sms_references ?s - 1 = 0 \<longleftrightarrow> unat (sms_references ?s) = 1"
    using dec refs(1) by (auto simp: word_le_nat_alt unat_eq_0 [symmetric] simp del: unat_eq_0)
  have len: "i < length (shm_slots st)" and hi: "i = unat (smh_index h)" and hg: "sms_generation ?s = smh_generation h"
    using assms(3) by (auto simp: shm_index_ok)
  show ?thesis
  proof (cases "unat (sms_references ?s) = 1")
    case True
    obtain q a' where free: "deallocate_frame (sms_frame ?s) (shm_allocator st) = (q, a')"
      by (cases "deallocate_frame (sms_frame ?s) (shm_allocator st)")
    have r: "r = map_err (\<lambda>_. ShmFrameRelease) q" and st1: "st1 = st\<lparr>shm_slots := (shm_slots st)
        [i := SharedMemorySlot_EMPTY\<lparr>sms_generation := sms_generation ?s\<rparr>], shm_allocator := a'\<rparr>"
      using assms(3,4) sub zero True free by (auto simp: shm_release_def)
    have "\<not> shm_live st1 i" "shm_gen st1 i = unat (smh_generation h)"
      using len hg by (simp_all add: st1 shm_live_def shm_gen_def SharedMemorySlot_EMPTY_def)
    with retired_handle [OF assms(5), of h] hi have "shm_index st2 h = Inl ShmInvalidHandle" by simp
    moreover have "frames_ok (shm_allocator st)" using ok by (simp add: shm_ok_def)
    then have "if fa_recycled_count (shm_allocator st) < RECYCLED_FRAME_CAPACITY
      then q = Inr () \<and> live_frames a' = live_frames (shm_allocator st) - {sms_frame ?s}
      else q = Inl () \<and> a' = shm_allocator st"
      using refs(2) free deallocate_frame_refines [of "shm_allocator st" "sms_frame ?s" a']
      by (auto simp: deallocate_frame_iff)
    ultimately show ?thesis using True r refs(2) by (auto simp: st1 split: if_splits)
  next
    case False
    then have r: "r = Inr ()" and st1: "st1 = st\<lparr>shm_slots := (shm_slots st)[i := ?s\<lparr>sms_references := sms_references ?s - 1\<rparr>]\<rparr>"
      using assms(3,4) sub zero by (auto simp: shm_release_def)
    have "shm_index st1 h = Inr i" using assms(3) by (auto simp: st1 shm_index_ok nth_update_if)
    moreover have "unat (sms_references (shm_slots st1 ! i)) + 1 = unat (sms_references ?s)"
      using dec refs(1) len by (simp add: st1 word_le_nat_alt)
    ultimately show ?thesis using False r by simp
  qed
qed

theorem last_release_retires_handle_witness:
  "shm_index (snd (shm_release first_handle (snd (shm_create 7 (shm_boot (one_region 0x200000) (\<lambda>_. 1)))))) first_handle =
     Inl ShmInvalidHandle"
proof -
  let ?b = "shm_boot (one_region 0x200000) (\<lambda>_. 1)"
  have "shm_steps (\<lambda>_. True) ?b (shm_apply (Op_create 7) ?b)"
    by (rule shm_steps.step [OF shm_steps.refl]) simp_all
  then have created: "shm_steps (\<lambda>_. True) ?b (snd (shm_create 7 ?b))" by simp
  have index: "shm_index (snd (shm_create 7 ?b)) first_handle = Inr 0"
    and refs: "unat (sms_references (shm_slots (snd (shm_create 7 ?b)) ! 0)) = 1"
    by (simp_all add: shm_create_def shm_boot_def new_table SharedMemorySlot_EMPTY_def checked_add_def
        one_region_first first_handle_def shm_index_def get_at_def)
  from last_release_retires_handle [OF one_region_ok created index prod.collapse [symmetric] shm_steps.refl] refs
  show ?thesis by simp
qed

end
