(* ===== verification/Acpi.thy ===== *)
theory Acpi
  imports Slop_Prelude
begin

text \<open>
  The ACPI table parsers of \<open>crates/acpi/src/lib.rs\<close>: the root pointer, the system description table
  header, the root table and the interrupt controller table (MADT).
\<close>

section \<open>Data\<close>

definition SDT_HEADER_SIZE :: nat where "SDT_HEADER_SIZE = 36"
definition MAX_TABLE_SIZE :: nat where "MAX_TABLE_SIZE = 1024 * 1024"
definition MAX_IO_APICS :: nat where "MAX_IO_APICS = 8"
definition MAX_INTERRUPT_OVERRIDES :: nat where "MAX_INTERRUPT_OVERRIDES = 16"

datatype AcpiError =
    AcpiTruncated
  | AcpiInvalidSignature
  | AcpiInvalidChecksum
  | AcpiInvalidLength
  | AcpiInvalidRootTable
  | AcpiInvalidMadtEntry
  | AcpiTooManyIoApics
  | AcpiTooManyInterruptOverrides

datatype RootKind = Rsdt | Xsdt

record Rsdp =
  rsdp_root_kind :: RootKind
  rsdp_root_address :: u64

record SdtHeader =
  sdt_signature :: "u8 list"
  sdt_header_length :: nat
  sdt_revision :: u8

record RootTable =
  rt_bytes :: "u8 list"
  rt_entry_width :: nat
  rt_entry_count :: nat

record IoApic =
  ioa_id :: u8
  ioa_address :: u32
  ioa_global_interrupt_base :: u32

definition IoApic_EMPTY :: IoApic where
  "IoApic_EMPTY = \<lparr>ioa_id = 0, ioa_address = 0, ioa_global_interrupt_base = 0\<rparr>"

record InterruptOverride =
  ovr_bus :: u8
  ovr_source :: u8
  ovr_global_interrupt :: u32
  ovr_flags :: u16

definition InterruptOverride_EMPTY :: InterruptOverride where
  "InterruptOverride_EMPTY = \<lparr>ovr_bus = 0, ovr_source = 0, ovr_global_interrupt = 0, ovr_flags = 0\<rparr>"

record MadtInfo =
  local_apic_address :: u64
  pcat_compatible :: bool
  enabled_processors :: nat
  madt_io_apics :: "IoApic list"
  io_apic_count :: nat
  madt_overrides :: "InterruptOverride list"
  override_count :: nat

section \<open>Reading\<close>

definition checksum_valid :: "u8 list \<Rightarrow> bool" where
  "checksum_valid bytes \<longleftrightarrow> fold (\<lambda>b sum. sum + b) bytes 0 = (0 :: u8)"

definition acpi_read_u16 :: "u8 list \<Rightarrow> nat \<Rightarrow> AcpiError + u16" where
  "acpi_read_u16 bytes off =
     rbind (ok_or AcpiTruncated (get_range bytes off (off + 2))) (\<lambda>v. Inr (from_le_bytes v))"

definition acpi_read_u32 :: "u8 list \<Rightarrow> nat \<Rightarrow> AcpiError + u32" where
  "acpi_read_u32 bytes off =
     rbind (ok_or AcpiTruncated (get_range bytes off (off + 4))) (\<lambda>v. Inr (from_le_bytes v))"

definition acpi_read_u64 :: "u8 list \<Rightarrow> nat \<Rightarrow> AcpiError + u64" where
  "acpi_read_u64 bytes off =
     rbind (ok_or AcpiTruncated (get_range bytes off (off + 8))) (\<lambda>v. Inr (from_le_bytes v))"

section \<open>The root pointer\<close>

definition Rsdp_parse :: "u8 list \<Rightarrow> AcpiError + Rsdp" where
  "Rsdp_parse bytes =
    (if length bytes < 20 then Inl AcpiTruncated
     else if take 8 bytes \<noteq> [0x52, 0x53, 0x44, 0x20, 0x50, 0x54, 0x52, 0x20] then Inl AcpiInvalidSignature
     else if \<not> checksum_valid (take 20 bytes) then Inl AcpiInvalidChecksum
     else if 2 \<le> bytes ! 15 then
       if length bytes < 36 then Inl AcpiTruncated
       else
         rbind (acpi_read_u32 bytes 20) (\<lambda>len.
         if \<not> (36 \<le> unat len \<and> unat len \<le> 4096) \<or> length bytes < unat len then Inl AcpiInvalidLength
         else if \<not> checksum_valid (take (unat len) bytes) then Inl AcpiInvalidChecksum
         else
         rbind (acpi_read_u64 bytes 24) (\<lambda>address.
         if address = 0 then Inl AcpiInvalidRootTable
         else Inr \<lparr>rsdp_root_kind = Xsdt, rsdp_root_address = address\<rparr>))
     else
       rbind (acpi_read_u32 bytes 16) (\<lambda>address.
       if (ucast address :: u64) = 0 then Inl AcpiInvalidRootTable
       else Inr \<lparr>rsdp_root_kind = Rsdt, rsdp_root_address = ucast address\<rparr>))"

section \<open>Description tables\<close>

definition sdt_length :: "u8 list \<Rightarrow> AcpiError + nat" where
  "sdt_length header =
    (if length header < SDT_HEADER_SIZE then Inl AcpiTruncated
     else
       rbind (acpi_read_u32 header 4) (\<lambda>len.
       if \<not> (SDT_HEADER_SIZE \<le> unat len \<and> unat len \<le> MAX_TABLE_SIZE) then Inl AcpiInvalidLength
       else Inr (unat len)))"

definition parse_sdt :: "u8 list \<Rightarrow> AcpiError + SdtHeader" where
  "parse_sdt bytes =
     rbind (sdt_length bytes) (\<lambda>len.
     if length bytes < len then Inl AcpiTruncated
     else if \<not> checksum_valid (take len bytes) then Inl AcpiInvalidChecksum
     else Inr \<lparr>sdt_signature = take 4 bytes, sdt_header_length = len, sdt_revision = bytes ! 8\<rparr>)"

definition RootTable_parse :: "u8 list \<Rightarrow> RootKind \<Rightarrow> AcpiError + RootTable" where
  "RootTable_parse bytes kind =
     rbind (parse_sdt bytes) (\<lambda>header.
     let (signature, entry_width) =
           (case kind of
              Rsdt \<Rightarrow> ([0x52, 0x53, 0x44, 0x54], 4)
            | Xsdt \<Rightarrow> ([0x58, 0x53, 0x44, 0x54], 8))
     in
     if sdt_signature header \<noteq> signature then Inl AcpiInvalidSignature
     else
       let payload_length = sdt_header_length header - SDT_HEADER_SIZE in
       if payload_length mod entry_width \<noteq> 0 then Inl AcpiInvalidRootTable
       else Inr \<lparr>rt_bytes = take (sdt_header_length header) bytes, rt_entry_width = entry_width,
                 rt_entry_count = payload_length div entry_width\<rparr>)"

definition RootTable_len :: "RootTable \<Rightarrow> nat" where
  "RootTable_len t = rt_entry_count t"

definition RootTable_is_empty :: "RootTable \<Rightarrow> bool" where
  "RootTable_is_empty t \<longleftrightarrow> rt_entry_count t = 0"

definition RootTable_entry :: "RootTable \<Rightarrow> nat \<Rightarrow> u64 option" where
  "RootTable_entry t index =
    (if rt_entry_count t \<le> index then None
     else
       let offs = SDT_HEADER_SIZE + index * rt_entry_width t in
       if rt_entry_width t = 8 then (case acpi_read_u64 (rt_bytes t) offs of Inl _ \<Rightarrow> None | Inr v \<Rightarrow> Some v)
       else (case acpi_read_u32 (rt_bytes t) offs of Inl _ \<Rightarrow> None | Inr v \<Rightarrow> Some (ucast v)))"

section \<open>The interrupt controller table\<close>

text \<open>One entry of the table: its type and length have been read.\<close>

definition madt_entry :: "u8 list \<Rightarrow> nat \<Rightarrow> u8 \<Rightarrow> nat \<Rightarrow> MadtInfo \<Rightarrow> AcpiError + MadtInfo" where
  "madt_entry bytes offs entry_type entry_length info =
    (if entry_type = 0 \<and> 8 \<le> entry_length then
       rbind (acpi_read_u32 bytes (offs + 4)) (\<lambda>flags.
       Inr (if flags AND 3 \<noteq> 0 then info\<lparr>enabled_processors := enabled_processors info + 1\<rparr> else info))
     else if entry_type = 1 \<and> 12 \<le> entry_length then
       if io_apic_count info = MAX_IO_APICS then Inl AcpiTooManyIoApics
       else
         rbind (acpi_read_u32 bytes (offs + 4)) (\<lambda>address.
         rbind (acpi_read_u32 bytes (offs + 8)) (\<lambda>base.
         Inr (info\<lparr>madt_io_apics := (madt_io_apics info)[io_apic_count info :=
                \<lparr>ioa_id = bytes ! (offs + 2), ioa_address = address, ioa_global_interrupt_base = base\<rparr>],
              io_apic_count := io_apic_count info + 1\<rparr>)))
     else if entry_type = 2 \<and> 10 \<le> entry_length then
       if override_count info = MAX_INTERRUPT_OVERRIDES then Inl AcpiTooManyInterruptOverrides
       else
         rbind (acpi_read_u32 bytes (offs + 4)) (\<lambda>global.
         rbind (acpi_read_u16 bytes (offs + 8)) (\<lambda>flags.
         Inr (info\<lparr>madt_overrides := (madt_overrides info)[override_count info :=
                \<lparr>ovr_bus = bytes ! (offs + 2), ovr_source = bytes ! (offs + 3), ovr_global_interrupt = global,
                 ovr_flags = flags\<rparr>],
              override_count := override_count info + 1\<rparr>)))
     else if entry_type = 5 \<and> 12 \<le> entry_length then
       rbind (acpi_read_u64 bytes (offs + 4)) (\<lambda>address. Inr (info\<lparr>local_apic_address := address\<rparr>))
     else if entry_type = 9 \<and> 16 \<le> entry_length then
       rbind (acpi_read_u32 bytes (offs + 8)) (\<lambda>flags.
       Inr (if flags AND 3 \<noteq> 0 then info\<lparr>enabled_processors := enabled_processors info + 1\<rparr> else info))
     else Inr info)"

text \<open>The loop over the entries, from an offset to the length of the table.\<close>

function madt_entries :: "u8 list \<Rightarrow> nat \<Rightarrow> nat \<Rightarrow> MadtInfo \<Rightarrow> AcpiError + MadtInfo" where
  "madt_entries bytes table_length offs info =
    (if offs < table_length then
       if table_length < offs + 2 then Inl AcpiInvalidMadtEntry
       else
         let entry_length = unat (bytes ! (offs + 1)) in
         if entry_length < 2 \<or> table_length < offs + entry_length then Inl AcpiInvalidMadtEntry
         else
           rbind (madt_entry bytes offs (bytes ! offs) entry_length info) (\<lambda>info'.
           madt_entries bytes table_length (offs + entry_length) info')
     else Inr info)"
  by pat_completeness auto
termination
  by (relation "measure (\<lambda>(_, table_length, offs, _). table_length - offs)") auto

definition madt_initial :: "u32 \<Rightarrow> u32 \<Rightarrow> MadtInfo" where
  "madt_initial address flags =
     \<lparr>local_apic_address = ucast address, pcat_compatible = (flags AND 1 \<noteq> 0), enabled_processors = 0,
      madt_io_apics = replicate MAX_IO_APICS IoApic_EMPTY, io_apic_count = 0,
      madt_overrides = replicate MAX_INTERRUPT_OVERRIDES InterruptOverride_EMPTY, override_count = 0\<rparr>"

definition MadtInfo_parse :: "u8 list \<Rightarrow> AcpiError + MadtInfo" where
  "MadtInfo_parse bytes =
     rbind (parse_sdt bytes) (\<lambda>header.
     if sdt_signature header \<noteq> [0x41, 0x50, 0x49, 0x43] then Inl AcpiInvalidSignature
     else if sdt_header_length header < 44 then Inl AcpiInvalidLength
     else
     rbind (acpi_read_u32 bytes 36) (\<lambda>address.
     rbind (acpi_read_u32 bytes 40) (\<lambda>flags.
     rbind (madt_entries bytes (sdt_header_length header) 44 (madt_initial address flags)) (\<lambda>info.
     if local_apic_address info = 0 \<or> io_apic_count info = 0 then Inl AcpiInvalidMadtEntry else Inr info))))"

definition io_apics :: "MadtInfo \<Rightarrow> IoApic list" where
  "io_apics info = take (io_apic_count info) (madt_io_apics info)"

definition interrupt_overrides :: "MadtInfo \<Rightarrow> InterruptOverride list" where
  "interrupt_overrides info = take (override_count info) (madt_overrides info)"

definition isa_route :: "MadtInfo \<Rightarrow> u8 \<Rightarrow> u32 \<times> u16" where
  "isa_route info irq =
    (case find (\<lambda>entry. ovr_bus entry = 0 \<and> ovr_source entry = irq) (interrupt_overrides info) of
       None \<Rightarrow> (ucast irq, 0)
     | Some entry \<Rightarrow> (ovr_global_interrupt entry, ovr_flags entry))"

end
