(* ===== verification/Acpi_Proofs.thy ===== *)
theory Acpi_Proofs
  imports Acpi
begin

text \<open>
  The interrupt controller parser reads every entry of its table, in order and within bounds, and the
  root table gives access to exactly the entries of its payload.
\<close>

section \<open>Entries as slices\<close>

lemma read_in_slice:
  assumes "offs + n \<le> length bytes" and "k + w \<le> n"
  shows "get_range bytes (offs + k) (offs + k + w) = get_range (take n (drop offs bytes)) k (k + w)"
proof -
  have "take w (drop k (take n (drop offs bytes))) = take w (drop (offs + k) bytes)"
    using assms by (simp add: drop_take min_def add.commute)
  moreover have "k + w \<le> length bytes - offs" using assms by linarith
  ultimately show ?thesis using assms by (simp add: get_range_def)
qed

lemma take_drop_take: "k + w \<le> n \<Longrightarrow> take w (drop k (take n xs)) = take w (drop k xs)"
  by (simp add: drop_take min_def)

lemma slice_append:
  assumes "offs + n \<le> len"
  shows "take n (drop offs xs) @ drop (offs + n) (take len xs) = drop offs (take len xs)"
proof -
  have "take n (drop offs xs) = take n (drop offs (take len xs))" using assms by (simp add: drop_take min_def)
  moreover have "drop (offs + n) (take len xs) = drop n (drop offs (take len xs))" by (simp add: add.commute)
  ultimately show ?thesis by (simp only: append_take_drop_id)
qed

lemma madt_entry_slice:
  assumes "offs + n \<le> length bytes"
  shows "madt_entry bytes offs t n info = madt_entry (take n (drop offs bytes)) 0 t n info"
proof -
  define e where "e = take n (drop offs bytes)"
  have u16: "k + 2 \<le> n \<Longrightarrow> acpi_read_u16 bytes (offs + k) = acpi_read_u16 e k"
    and u32: "k + 4 \<le> n \<Longrightarrow> acpi_read_u32 bytes (offs + k) = acpi_read_u32 e k"
    and u64: "k + 8 \<le> n \<Longrightarrow> acpi_read_u64 bytes (offs + k) = acpi_read_u64 e k" for k
    using read_in_slice [OF assms, of k 2] read_in_slice [OF assms, of k 4] read_in_slice [OF assms, of k 8]
    by (simp_all add: acpi_read_u16_def acpi_read_u32_def acpi_read_u64_def add.assoc e_def)
  have byte: "k < n \<Longrightarrow> bytes ! (offs + k) = e ! k" for k
    using assms by (simp add: e_def)
  have "madt_entry bytes offs t n info = madt_entry e 0 t n info"
    unfolding madt_entry_def
    by (simp add: u16 u32 u64 byte del: add_2_eq_Suc add_2_eq_Suc' cong: if_cong)
  then show ?thesis by (simp add: e_def)
qed

definition entry_ok :: "u8 list \<Rightarrow> bool" where
  "entry_ok e \<longleftrightarrow> 2 \<le> length e \<and> unat (e ! 1) = length e"

abbreviation madt_slice :: "u8 list \<Rightarrow> MadtInfo \<Rightarrow> AcpiError + MadtInfo" where
  "madt_slice e \<equiv> madt_entry e 0 (e ! 0) (length e)"

declare madt_entries.simps [simp del]

lemma madt_entries_slices:
  assumes "madt_entries bytes len offs info = Inr info'" and "offs \<le> len" and "len \<le> length bytes"
  shows "\<exists>es. concat es = drop offs (take len bytes) \<and> list_all entry_ok es \<and> fold_result madt_slice es info = Inr info'"
  using assms
proof (induction bytes len offs info rule: madt_entries.induct)
  case (1 bytes len offs info)
  show ?case
  proof (cases "offs < len")
    case False
    with "1.prems" show ?thesis by (intro exI [of _ "[]"]) (simp add: madt_entries.simps [of bytes])
  next
    case True
    let ?n = "unat (bytes ! (offs + 1))" and ?e = "take (unat (bytes ! (offs + 1))) (drop offs bytes)"
    from "1.prems"(1) True have n: "\<not> len < offs + 2" "\<not> (?n < 2 \<or> len < offs + ?n)"
      by (auto simp: madt_entries.simps [of bytes] Let_def split: if_splits)
    with "1.prems"(1) True obtain i where i: "madt_entry bytes offs (bytes ! offs) ?n info = Inr i"
      and rest: "madt_entries bytes len (offs + ?n) i = Inr info'"
      by (auto simp: madt_entries.simps [of bytes len offs] Let_def result_simps)
    have bound: "offs + ?n \<le> length bytes" using n "1.prems"(3) by simp
    have e: "length ?e = ?n" "?e ! 0 = bytes ! offs" "?e ! 1 = bytes ! (offs + 1)" "entry_ok ?e"
      using n bound by (simp_all add: entry_ok_def)
    from "1.IH" [OF True n(1) refl n(2) i rest _ "1.prems"(3)] n obtain es
      where es: "concat es = drop (offs + ?n) (take len bytes)" "list_all entry_ok es" "fold_result madt_slice es i = Inr info'"
      by auto
    have "?e @ drop (offs + ?n) (take len bytes) = drop offs (take len bytes)"
      using slice_append [of offs ?n len bytes] n by simp
    moreover have "madt_slice ?e info = Inr i" using madt_entry_slice [OF bound] i e by simp
    ultimately show ?thesis using es e(4) by (intro exI [of _ "?e # es"]) simp
  qed
qed

section \<open>What an entry contributes\<close>

definition entry_is_io_apic :: "u8 list \<Rightarrow> bool" where
  "entry_is_io_apic e \<longleftrightarrow> e ! 0 = 1 \<and> 12 \<le> length e"

definition entry_io_apic :: "u8 list \<Rightarrow> IoApic" where
  "entry_io_apic e = \<lparr>ioa_id = e ! 2, ioa_address = from_le_bytes (take 4 (drop 4 e)),
     ioa_global_interrupt_base = from_le_bytes (take 4 (drop 8 e))\<rparr>"

definition entry_is_override :: "u8 list \<Rightarrow> bool" where
  "entry_is_override e \<longleftrightarrow> e ! 0 = 2 \<and> 10 \<le> length e"

definition entry_override :: "u8 list \<Rightarrow> InterruptOverride" where
  "entry_override e = \<lparr>ovr_bus = e ! 2, ovr_source = e ! 3, ovr_global_interrupt = from_le_bytes (take 4 (drop 4 e)),
     ovr_flags = from_le_bytes (take 2 (drop 8 e))\<rparr>"

text \<open>A local APIC (type 0) or local x2APIC (type 9) that is enabled or can be brought online.\<close>

definition entry_is_processor :: "u8 list \<Rightarrow> bool" where
  "entry_is_processor e \<longleftrightarrow>
     e ! 0 = 0 \<and> 8 \<le> length e \<and> (from_le_bytes (take 4 (drop 4 e)) :: u32) AND 3 \<noteq> 0
   \<or> e ! 0 = 9 \<and> 16 \<le> length e \<and> (from_le_bytes (take 4 (drop 8 e)) :: u32) AND 3 \<noteq> 0"

definition entry_apic_address :: "u8 list \<Rightarrow> u64 \<Rightarrow> u64" where
  "entry_apic_address e address =
    (if e ! 0 = 5 \<and> 12 \<le> length e then from_le_bytes (take 8 (drop 4 e)) else address)"

definition madt_ok :: "MadtInfo \<Rightarrow> bool" where
  "madt_ok info \<longleftrightarrow> length (madt_io_apics info) = MAX_IO_APICS \<and> io_apic_count info \<le> MAX_IO_APICS
     \<and> length (madt_overrides info) = MAX_INTERRUPT_OVERRIDES \<and> override_count info \<le> MAX_INTERRUPT_OVERRIDES"

lemma acpi_reads:
  "acpi_read_u16 bytes k = Inr v \<longleftrightarrow> k + 2 \<le> length bytes \<and> v = from_le_bytes (take 2 (drop k bytes))"
  "acpi_read_u32 bytes k = Inr w \<longleftrightarrow> k + 4 \<le> length bytes \<and> w = from_le_bytes (take 4 (drop k bytes))"
  "acpi_read_u64 bytes k = Inr x \<longleftrightarrow> k + 8 \<le> length bytes \<and> x = from_le_bytes (take 8 (drop k bytes))"
  by (auto simp: acpi_read_u16_def acpi_read_u32_def acpi_read_u64_def result_simps get_range_Some)

lemma take_update_snoc: "n < length xs \<Longrightarrow> take (Suc n) (xs[n := x]) = take n xs @ [x]"
  by (simp add: take_Suc_conv_app_nth)

lemma madt_slice_contributes:
  assumes "madt_ok info" and "madt_slice e info = Inr info'"
  shows "madt_ok info' \<and> pcat_compatible info' = pcat_compatible info
    \<and> io_apics info' = io_apics info @ (if entry_is_io_apic e then [entry_io_apic e] else [])
    \<and> interrupt_overrides info' = interrupt_overrides info @ (if entry_is_override e then [entry_override e] else [])
    \<and> enabled_processors info' = enabled_processors info + (if entry_is_processor e then 1 else 0)
    \<and> local_apic_address info' = entry_apic_address e (local_apic_address info)"
proof -
  have room: "io_apic_count info < length (madt_io_apics info)" if "io_apic_count info \<noteq> MAX_IO_APICS"
    using assms(1) that by (simp add: madt_ok_def)
  have room': "override_count info < length (madt_overrides info)" if "override_count info \<noteq> MAX_INTERRUPT_OVERRIDES"
    using assms(1) that by (simp add: madt_ok_def)
  note defs = madt_entry_def acpi_reads result_simps io_apics_def interrupt_overrides_def entry_is_io_apic_def
    entry_is_override_def entry_is_processor_def entry_apic_address_def entry_io_apic_def entry_override_def
  consider (processor) "e ! 0 = 0" | (io_apic) "e ! 0 = 1" | (override) "e ! 0 = 2" | (address) "e ! 0 = 5"
    | (x2) "e ! 0 = 9" | (other) "e ! 0 \<notin> {0, 1, 2, 5, 9}"
    by auto
  then show ?thesis
  proof cases
    case processor
    then show ?thesis using assms by (auto simp: defs madt_ok_def split: if_splits)
  next
    case io_apic
    then show ?thesis using assms room
      by (cases "12 \<le> length e") (auto simp: defs madt_ok_def take_update_snoc simp del: add_2_eq_Suc add_2_eq_Suc' split: if_splits)
  next
    case override
    then show ?thesis using assms room'
      by (cases "10 \<le> length e") (auto simp: defs madt_ok_def take_update_snoc simp del: add_2_eq_Suc add_2_eq_Suc' split: if_splits)
  next
    case address
    then show ?thesis using assms by (auto simp: defs madt_ok_def split: if_splits)
  next
    case x2
    then show ?thesis using assms by (auto simp: defs madt_ok_def split: if_splits)
  next
    case other
    then show ?thesis using assms by (auto simp: defs)
  qed
qed

lemma madt_slices_contribute:
  assumes "madt_ok info" and "fold_result madt_slice es info = Inr info'"
  shows "madt_ok info' \<and> pcat_compatible info' = pcat_compatible info
    \<and> io_apics info' = io_apics info @ map entry_io_apic (filter entry_is_io_apic es)
    \<and> interrupt_overrides info' = interrupt_overrides info @ map entry_override (filter entry_is_override es)
    \<and> enabled_processors info' = enabled_processors info + length (filter entry_is_processor es)
    \<and> local_apic_address info' = fold entry_apic_address es (local_apic_address info)"
  using assms
proof (induction es arbitrary: info)
  case Nil
  then show ?case by simp
next
  case (Cons e es)
  from Cons.prems(2) obtain i where i: "madt_slice e info = Inr i" and rest: "fold_result madt_slice es i = Inr info'"
    by (auto simp: result_simps)
  note step = madt_slice_contributes [OF Cons.prems(1) i]
  with Cons.IH [OF _ rest] show ?case by simp
qed

section \<open>Description tables\<close>

lemma sdt_length_ok:
  assumes "sdt_length bytes = Inr len"
  shows "SDT_HEADER_SIZE \<le> len \<and> len \<le> MAX_TABLE_SIZE"
  using assms by (auto simp: sdt_length_def result_simps split: if_splits)

lemma parse_sdt_ok:
  assumes "parse_sdt bytes = Inr header"
  shows "sdt_length bytes = Inr (sdt_header_length header) \<and> SDT_HEADER_SIZE \<le> sdt_header_length header
    \<and> sdt_header_length header \<le> length bytes
    \<and> checksum_valid (take (sdt_header_length header) bytes) \<and> sdt_signature header = take 4 bytes"
  using assms sdt_length_ok by (auto simp: parse_sdt_def result_simps split: if_splits)

lemma madt_parse_slices:
  assumes "MadtInfo_parse bytes = Inr info"
  obtains len es i where "sdt_length bytes = Inr len" "checksum_valid (take len bytes)" "len \<le> length bytes"
    "concat es = drop 44 (take len bytes)" "list_all entry_ok es" "fold_result madt_slice es i = Inr info" "madt_ok i"
    "io_apics i = []" "interrupt_overrides i = []" "enabled_processors i = 0"
    "local_apic_address i = ucast (from_le_bytes (take 4 (drop 36 bytes)) :: u32)"
    "local_apic_address info \<noteq> 0" "io_apic_count info \<noteq> 0"
proof -
  from assms obtain header address flags where header: "parse_sdt bytes = Inr header" "44 \<le> sdt_header_length header"
    and address: "acpi_read_u32 bytes 36 = Inr address"
    and entries: "madt_entries bytes (sdt_header_length header) 44 (madt_initial address flags) = Inr info"
    and fin: "local_apic_address info \<noteq> 0" "io_apic_count info \<noteq> 0"
    by (auto simp: MadtInfo_parse_def result_simps not_less split: if_splits)
  note sdt = parse_sdt_ok [OF header(1)]
  from madt_entries_slices [OF entries header(2)] sdt obtain es where
    "concat es = drop 44 (take (sdt_header_length header) bytes)" "list_all entry_ok es" "fold_result madt_slice es (madt_initial address flags) = Inr info"
    by blast
  moreover have "madt_ok (madt_initial address flags)" "io_apics (madt_initial address flags) = []"
    "interrupt_overrides (madt_initial address flags) = []" "enabled_processors (madt_initial address flags) = 0"
    "local_apic_address (madt_initial address flags) = ucast (from_le_bytes (take 4 (drop 36 bytes)) :: u32)"
    using address by (auto simp: madt_initial_def madt_ok_def io_apics_def interrupt_overrides_def acpi_reads)
  ultimately show thesis using sdt fin by (intro that [of "sdt_header_length header" es "madt_initial address flags"]) simp_all
qed

section \<open>Properties\<close>

text \<open>\<^bold>\<open>C22\<close>. An interrupt controller table that parses has a valid checksum and splits, from offset 44 to its
  announced length, into entries whose length bytes are right; the parser's result lists the I/O APICs and
  the interrupt overrides of exactly these entries in order, at most 8 and 16 of them, counts the usable
  processors, and keeps the local APIC address of the last override entry, which is not zero.\<close>

theorem madt_parse_reads_every_entry:
  assumes "MadtInfo_parse bytes = Inr info"
  shows "\<exists>len entries. sdt_length bytes = Inr len \<and> len \<le> length bytes \<and> checksum_valid (take len bytes)
    \<and> concat entries = drop 44 (take len bytes) \<and> list_all entry_ok entries
    \<and> io_apics info = map entry_io_apic (filter entry_is_io_apic entries)
    \<and> interrupt_overrides info = map entry_override (filter entry_is_override entries)
    \<and> enabled_processors info = length (filter entry_is_processor entries)
    \<and> local_apic_address info =
        fold entry_apic_address entries (ucast (from_le_bytes (take 4 (drop 36 bytes)) :: u32))
    \<and> local_apic_address info \<noteq> 0 \<and> 0 < length (io_apics info) \<and> length (io_apics info) \<le> MAX_IO_APICS
    \<and> length (interrupt_overrides info) \<le> MAX_INTERRUPT_OVERRIDES"
proof -
  from madt_parse_slices [OF assms] obtain len es i where slices: "sdt_length bytes = Inr len"
    "checksum_valid (take len bytes)" "len \<le> length bytes" "concat es = drop 44 (take len bytes)" "list_all entry_ok es"
    and fold: "fold_result madt_slice es i = Inr info" and i: "madt_ok i" "io_apics i = []" "interrupt_overrides i = []"
    "enabled_processors i = 0" "local_apic_address i = ucast (from_le_bytes (take 4 (drop 36 bytes)) :: u32)"
    and fin: "local_apic_address info \<noteq> 0" "io_apic_count info \<noteq> 0" .
  note all = madt_slices_contribute [OF i(1) fold]
  from all have "madt_ok info" by simp
  then have "length (io_apics info) = io_apic_count info" "length (io_apics info) \<le> MAX_IO_APICS"
    "length (interrupt_overrides info) \<le> MAX_INTERRUPT_OVERRIDES"
    by (auto simp: madt_ok_def io_apics_def interrupt_overrides_def)
  with slices all i fin show ?thesis by (intro exI [of _ len] exI [of _ es]) simp
qed

text \<open>A table of 66 bytes with one I/O APIC and one override of ISA interrupt 0.\<close>

definition small_madt :: "u8 list" where
  "small_madt = [0x41, 0x50, 0x49, 0x43, 66, 0, 0, 0, 1, 0xe5,
     0, 0, 0, 0, 0, 0, 0, 0, 0, 0, 0, 0, 0, 0, 0, 0, 0, 0, 0, 0, 0, 0, 0, 0, 0, 0,
     0, 0, 0xe0, 0xfe, 1, 0, 0, 0]
     @ [1, 12, 3, 0, 0, 0, 0xc0, 0xfe, 0, 0, 0, 0] @ [2, 10, 0, 0, 2, 0, 0, 0, 0, 0]"

definition small_madt_info :: MadtInfo where
  "small_madt_info = (madt_initial 0xfee00000 1)
     \<lparr>madt_io_apics := (replicate MAX_IO_APICS IoApic_EMPTY)
        [0 := \<lparr>ioa_id = 3, ioa_address = 0xfec00000, ioa_global_interrupt_base = 0\<rparr>], io_apic_count := 1,
      madt_overrides := (replicate MAX_INTERRUPT_OVERRIDES InterruptOverride_EMPTY)
        [0 := \<lparr>ovr_bus = 0, ovr_source = 0, ovr_global_interrupt = 2, ovr_flags = 0\<rparr>], override_count := 1\<rparr>"

lemma small_madt_parses: "MadtInfo_parse small_madt = Inr small_madt_info"
  by (simp add: MadtInfo_parse_def small_madt_def small_madt_info_def parse_sdt_def sdt_length_def SDT_HEADER_SIZE_def
      acpi_read_u32_def acpi_read_u16_def get_range_def from_le_bytes_def MAX_TABLE_SIZE_def checksum_valid_def
      madt_entries.simps madt_entry_def madt_initial_def Let_def MAX_IO_APICS_def MAX_INTERRUPT_OVERRIDES_def)

theorem madt_parse_reads_every_entry_witness:
  "MadtInfo_parse small_madt = Inr small_madt_info \<and> isa_route small_madt_info 0 = (2, 0)
   \<and> length (io_apics small_madt_info) \<le> MAX_IO_APICS"
proof -
  have "isa_route small_madt_info 0 = (2, 0)"
    by (simp add: isa_route_def interrupt_overrides_def small_madt_info_def MAX_INTERRUPT_OVERRIDES_def
        take_update_snoc [of 0, simplified])
  with small_madt_parses madt_parse_reads_every_entry [OF small_madt_parses] show ?thesis by blast
qed

lemma root_table_ok:
  assumes "RootTable_parse bytes kind = Inr t"
  shows "rt_entry_width t = (case kind of Rsdt \<Rightarrow> 4 | Xsdt \<Rightarrow> 8)
    \<and> length (rt_bytes t) = SDT_HEADER_SIZE + rt_entry_count t * rt_entry_width t
    \<and> rt_bytes t = take (SDT_HEADER_SIZE + rt_entry_count t * rt_entry_width t) bytes
    \<and> checksum_valid (rt_bytes t)"
proof -
  from assms obtain header where header: "parse_sdt bytes = Inr header"
    and t: "rt_bytes t = take (sdt_header_length header) bytes" "rt_entry_width t = (case kind of Rsdt \<Rightarrow> 4 | Xsdt \<Rightarrow> 8)"
      "(sdt_header_length header - SDT_HEADER_SIZE) mod rt_entry_width t = 0"
      "rt_entry_count t = (sdt_header_length header - SDT_HEADER_SIZE) div rt_entry_width t"
    by (auto simp: RootTable_parse_def result_simps Let_def split: RootKind.splits if_splits)
  note sdt = parse_sdt_ok [OF header]
  have "rt_entry_count t * rt_entry_width t = sdt_header_length header - SDT_HEADER_SIZE"
    using t(3,4) by (metis div_mult_mod_eq add.right_neutral)
  then have "sdt_header_length header = SDT_HEADER_SIZE + rt_entry_count t * rt_entry_width t" using sdt by simp
  with sdt t(1,2) show ?thesis by simp
qed

text \<open>The root table a firmware table parses to is the checksummed prefix of the bytes, its payload is
  exactly its entries, and \<open>entry(i)\<close> is the \<open>i\<close>-th little-endian address of the payload, four bytes wide
  in an RSDT and eight in an XSDT, for every index below the length, and nothing from there on.\<close>

lemma root_table_entries_are_payload:
  assumes "RootTable_parse bytes kind = Inr t"
  shows "rt_bytes t = take (SDT_HEADER_SIZE + RootTable_len t * rt_entry_width t) bytes
    \<and> checksum_valid (rt_bytes t)
    \<and> map (RootTable_entry t) [0..<RootTable_len t] =
        map (\<lambda>i. Some (case kind of
               Rsdt \<Rightarrow> ucast (from_le_bytes (take 4 (drop (36 + 4 * i) bytes)) :: u32)
             | Xsdt \<Rightarrow> from_le_bytes (take 8 (drop (36 + 8 * i) bytes)))) [0..<RootTable_len t]
    \<and> (\<forall>i. RootTable_len t \<le> i \<longrightarrow> RootTable_entry t i = None)"
proof -
  note ok = root_table_ok [OF assms]
  have entry: "RootTable_entry t i = Some (case kind of
        Rsdt \<Rightarrow> ucast (from_le_bytes (take 4 (drop (36 + 4 * i) bytes)) :: u32)
      | Xsdt \<Rightarrow> from_le_bytes (take 8 (drop (36 + 8 * i) bytes)))" if i: "i < rt_entry_count t" for i
  proof -
    let ?w = "rt_entry_width t"
    have room: "SDT_HEADER_SIZE + i * ?w + ?w \<le> length (rt_bytes t)"
      using i ok by (metis add.assoc add_le_cancel_left add_mult_distrib2 mult.commute mult_Suc mult_le_mono1 Suc_leI add.commute)
    have "take ?w (drop (SDT_HEADER_SIZE + i * ?w) (rt_bytes t)) = take ?w (drop (SDT_HEADER_SIZE + i * ?w) bytes)"
      using take_drop_take [of "SDT_HEADER_SIZE + i * ?w" ?w "length (rt_bytes t)" bytes] room ok by metis
    with room ok i show ?thesis
      by (cases kind) (simp_all add: RootTable_entry_def Let_def acpi_read_u32_def acpi_read_u64_def get_range_def
          SDT_HEADER_SIZE_def mult.commute)
  qed
  with ok show ?thesis by (auto simp: RootTable_len_def RootTable_entry_def)
qed

definition small_rsdt :: "u8 list" where
  "small_rsdt = [0x52, 0x53, 0x44, 0x54, 40, 0, 0, 0, 1, 0x8a,
     0, 0, 0, 0, 0, 0, 0, 0, 0, 0, 0, 0, 0, 0, 0, 0, 0, 0, 0, 0, 0, 0, 0, 0, 0, 0,
     0, 0x10, 0, 0]"

lemma small_rsdt_parses:
  "RootTable_parse small_rsdt Rsdt = Inr \<lparr>rt_bytes = small_rsdt, rt_entry_width = 4, rt_entry_count = 1\<rparr>"
  by (simp add: RootTable_parse_def small_rsdt_def parse_sdt_def sdt_length_def SDT_HEADER_SIZE_def
      acpi_read_u32_def get_range_def from_le_bytes_def MAX_TABLE_SIZE_def checksum_valid_def)

end
