(* ===== verification/Pci.thy ===== *)
theory Pci
  imports Slop_Prelude "HOL-Library.State_Monad"
begin

text \<open>
  PCI enumeration, \<open>crates/pci/src/lib.rs\<close>: the scan over buses, devices and functions, the decoding of
  a configuration header, and the walk over the capability list for virtio regions. The configuration
  access (the trait \<open>ConfigAccess\<close>, port or memory-mapped hardware) is a parameter: a read may change the
  state of the hardware, so the code runs in the state monad over it.
\<close>

section \<open>Data\<close>

definition MAX_DEVICES :: nat where "MAX_DEVICES = 64"
definition STATUS_CAPABILITIES_LIST :: u16 where "STATUS_CAPABILITIES_LIST = push_bit 4 1"
definition CAPABILITY_VENDOR_SPECIFIC :: u8 where "CAPABILITY_VENDOR_SPECIFIC = 0x09"

type_synonym 'c config_access = "u8 \<Rightarrow> u8 \<Rightarrow> u8 \<Rightarrow> u8 \<Rightarrow> ('c, u32) state"

record Bdf =
  bdf_bus :: u8
  bdf_device :: u8
  bdf_function :: u8

record VirtioCapability =
  cap_valid :: bool
  cap_bar :: u8
  cap_offset :: u32
  cap_length :: u32
  cap_notify_multiplier :: u32

definition VirtioCapability_EMPTY :: VirtioCapability where
  "VirtioCapability_EMPTY = \<lparr>cap_valid = False, cap_bar = 0, cap_offset = 0, cap_length = 0, cap_notify_multiplier = 0\<rparr>"

record Device =
  dev_address :: Bdf
  dev_vendor_id :: u16
  dev_device_id :: u16
  dev_command :: u16
  dev_status :: u16
  dev_revision :: u8
  dev_programming_interface :: u8
  dev_subclass :: u8
  dev_class :: u8
  dev_header_type :: u8
  dev_subsystem_vendor_id :: u16
  dev_subsystem_id :: u16
  dev_interrupt_line :: u8
  dev_interrupt_pin :: u8
  dev_bars :: "u32 list"
  dev_virtio_capability_mask :: u32
  dev_virtio_capabilities :: "VirtioCapability list"

definition Device_EMPTY :: Device where
  "Device_EMPTY = \<lparr>dev_address = \<lparr>bdf_bus = 0, bdf_device = 0, bdf_function = 0\<rparr>, dev_vendor_id = 0, dev_device_id = 0,
     dev_command = 0, dev_status = 0, dev_revision = 0, dev_programming_interface = 0, dev_subclass = 0, dev_class = 0,
     dev_header_type = 0, dev_subsystem_vendor_id = 0, dev_subsystem_id = 0, dev_interrupt_line = 0,
     dev_interrupt_pin = 0, dev_bars = replicate 6 0, dev_virtio_capability_mask = 0,
     dev_virtio_capabilities = replicate 6 VirtioCapability_EMPTY\<rparr>"

record VirtioRegion =
  region_base :: u64
  region_length :: u32
  region_notify_multiplier :: u32
  region_bar :: u8

record Inventory =
  inv_devices :: "Device list"
  inv_count :: nat
  inv_overflowed :: bool

section \<open>Devices\<close>

definition is_multifunction :: "Device \<Rightarrow> bool" where
  "is_multifunction d \<longleftrightarrow> dev_header_type d AND 0x80 \<noteq> 0"

definition virtio_device_type :: "Device \<Rightarrow> u16 option" where
  "virtio_device_type d =
    (if dev_vendor_id d \<noteq> 0x1af4 then None
     else if 0x1000 \<le> dev_device_id d \<and> dev_device_id d \<le> 0x103f then Some (dev_device_id d - 0x0fff)
     else if 0x1040 \<le> dev_device_id d \<and> dev_device_id d \<le> 0x107f then Some (dev_device_id d - 0x1040)
     else None)"

definition is_virtio_block :: "Device \<Rightarrow> bool" where
  "is_virtio_block d \<longleftrightarrow> virtio_device_type d = Some 2"

definition bar_base :: "Device \<Rightarrow> nat \<Rightarrow> u64 option" where
  "bar_base d index =
     Option.bind (get_at (dev_bars d) index) (\<lambda>low.
     if low = 0 \<or> low = 0xffffffff \<or> low AND 1 \<noteq> 0 then None
     else
       let memory_type = (drop_bit 1 low AND 3);
           low_address = ucast (low AND 0xfffffff0) :: u64
       in
       Option.bind
         (if memory_type = 2 then
            Option.bind (get_at (dev_bars d) (index + 1)) (\<lambda>high. Some (low_address OR push_bit 32 (ucast high)))
          else if memory_type \<le> 1 then Some low_address
          else None)
         (\<lambda>address. if address \<noteq> 0 then Some address else None))"

definition virtio_region :: "Device \<Rightarrow> u8 \<Rightarrow> VirtioRegion option" where
  "virtio_region d configuration_type =
     Option.bind (get_at (dev_virtio_capabilities d) (unat configuration_type)) (\<lambda>capability.
     if \<not> cap_valid capability then None
     else
       Option.bind (bar_base d (unat (cap_bar capability))) (\<lambda>base.
       Option.bind (checked_add base (ucast (cap_offset capability))) (\<lambda>address.
       Some \<lparr>region_base = address, region_length = cap_length capability,
             region_notify_multiplier = cap_notify_multiplier capability, region_bar = cap_bar capability\<rparr>)))"

section \<open>The inventory\<close>

definition Inventory_empty :: Inventory where
  "Inventory_empty = \<lparr>inv_devices = replicate MAX_DEVICES Device_EMPTY, inv_count = 0, inv_overflowed = False\<rparr>"

definition inventory_len :: "Inventory \<Rightarrow> nat" where
  "inventory_len ivt = inv_count ivt"

definition inventory_is_empty :: "Inventory \<Rightarrow> bool" where
  "inventory_is_empty ivt \<longleftrightarrow> inv_count ivt = 0"

definition devices :: "Inventory \<Rightarrow> Device list" where
  "devices ivt = take (inv_count ivt) (inv_devices ivt)"

definition virtio_devices :: "Inventory \<Rightarrow> Device list" where
  "virtio_devices ivt = filter (\<lambda>d. virtio_device_type d \<noteq> None) (devices ivt)"

definition find_virtio_block :: "Inventory \<Rightarrow> Device option" where
  "find_virtio_block ivt = find is_virtio_block (devices ivt)"

definition virtio_blocks :: "Inventory \<Rightarrow> Device list" where
  "virtio_blocks ivt = filter is_virtio_block (devices ivt)"

definition inventory_push :: "Device \<Rightarrow> Inventory \<Rightarrow> Inventory" where
  "inventory_push d ivt =
    (if inv_count ivt = MAX_DEVICES then ivt\<lparr>inv_overflowed := True\<rparr>
     else ivt\<lparr>inv_devices := (inv_devices ivt)[inv_count ivt := d], inv_count := inv_count ivt + 1\<rparr>)"

section \<open>The capability walk\<close>

text \<open>One capability at \<open>pointer\<close>: the updated msk and table, and the next pointer.\<close>

definition read_capability ::
  "'c config_access \<Rightarrow> u8 \<Rightarrow> u8 \<Rightarrow> u8 \<Rightarrow> u8 \<Rightarrow> u32 \<Rightarrow> VirtioCapability list \<Rightarrow> ('c, u8 \<times> u32 \<times> VirtioCapability list) state" where
  "read_capability config bus device func pointer msk capabilities = do {
     capability \<leftarrow> config bus device func pointer;
     let identifier = (ucast capability :: u8);
     let nxt = ((ucast (drop_bit 8 capability) :: u8) AND 0xfc);
     let len = (ucast (drop_bit 16 capability) :: u8);
     let configuration_type = (ucast (drop_bit 24 capability) :: u8);
     if identifier = CAPABILITY_VENDOR_SPECIFIC \<and> 1 \<le> configuration_type \<and> configuration_type \<le> 5
        \<and> 16 \<le> len \<and> unat pointer + 15 \<le> 255
     then do {
       bar32 \<leftarrow> config bus device func (pointer + 4);
       let bar = (ucast bar32 :: u8);
       offs \<leftarrow> config bus device func (pointer + 8);
       region_len \<leftarrow> config bus device func (pointer + 12);
       if bar < 6 \<and> region_len \<noteq> 0
       then do {
         notify_multiplier \<leftarrow>
           (if configuration_type = 2 \<and> 20 \<le> len \<and> unat pointer + 19 \<le> 255
            then config bus device func (pointer + 16) else State_Monad.return 0);
         State_Monad.return
           (nxt, msk OR push_bit (unat configuration_type) 1,
            capabilities[unat configuration_type := \<lparr>cap_valid = True, cap_bar = bar, cap_offset = offs,
              cap_length = region_len, cap_notify_multiplier = notify_multiplier\<rparr>])
       }
       else State_Monad.return (nxt, msk, capabilities)
     }
     else State_Monad.return (nxt, msk, capabilities)
   }"

text \<open>The loop, with the number of rounds left.\<close>

primrec walk_capabilities ::
  "nat \<Rightarrow> 'c config_access \<Rightarrow> u8 \<Rightarrow> u8 \<Rightarrow> u8 \<Rightarrow> u8 \<Rightarrow> u64 \<Rightarrow> u32 \<Rightarrow> VirtioCapability list \<Rightarrow>
     ('c, u32 \<times> VirtioCapability list) state" where
  "walk_capabilities 0 config bus device func pointer visited msk capabilities = State_Monad.return (msk, capabilities)"
| "walk_capabilities (Suc n) config bus device func pointer visited msk capabilities =
    (if pointer < 0x40 then State_Monad.return (msk, capabilities)
     else
       let slot = (pointer div 4);
           b = push_bit (unat slot) 1 :: u64
       in
       if visited AND b \<noteq> 0 then State_Monad.return (msk, capabilities)
       else do {
         (nxt, msk', capabilities') \<leftarrow> read_capability config bus device func pointer msk capabilities;
         walk_capabilities n config bus device func nxt (visited OR b) msk' capabilities'
       })"

definition scan_virtio_capabilities ::
  "'c config_access \<Rightarrow> u8 \<Rightarrow> u8 \<Rightarrow> u8 \<Rightarrow> ('c, u32 \<times> VirtioCapability list) state" where
  "scan_virtio_capabilities config bus device func = do {
     first \<leftarrow> config bus device func 0x34;
     walk_capabilities 48 config bus device func ((ucast first :: u8) AND 0xfc) 0 0 (replicate 6 VirtioCapability_EMPTY)
   }"

section \<open>Reading a function and scanning the buses\<close>

primrec read_bars :: "'c config_access \<Rightarrow> u8 \<Rightarrow> u8 \<Rightarrow> u8 \<Rightarrow> nat list \<Rightarrow> ('c, u32 list) state" where
  "read_bars config bus device func [] = State_Monad.return []"
| "read_bars config bus device func (i # is) = do {
     b \<leftarrow> config bus device func (0x10 + word_of_nat i * 4);
     bs \<leftarrow> read_bars config bus device func is;
     State_Monad.return (b # bs)
   }"

definition read_device :: "'c config_access \<Rightarrow> u8 \<Rightarrow> u8 \<Rightarrow> u8 \<Rightarrow> ('c, Device option) state" where
  "read_device config bus device func = do {
     identity \<leftarrow> config bus device func 0x00;
     let vendor_id = (ucast identity :: u16);
     if vendor_id = 0xffff then State_Monad.return None
     else do {
       command_status \<leftarrow> config bus device func 0x04;
       class_revision \<leftarrow> config bus device func 0x08;
       header \<leftarrow> config bus device func 0x0c;
       let header_type = (ucast (drop_bit 16 header) :: u8);
       (bars, subsystem) \<leftarrow>
         (if header_type AND 0x7f = 0
          then do {
            bars \<leftarrow> read_bars config bus device func [0..<6];
            subsystem \<leftarrow> config bus device func 0x2c;
            State_Monad.return (bars, subsystem)
          }
          else State_Monad.return (replicate 6 0, 0));
       interrupt \<leftarrow> config bus device func 0x3c;
       let status = (ucast (drop_bit 16 command_status) :: u16);
       (msk, capabilities) \<leftarrow>
         (if status AND STATUS_CAPABILITIES_LIST \<noteq> 0
          then scan_virtio_capabilities config bus device func
          else State_Monad.return (0, replicate 6 VirtioCapability_EMPTY));
       State_Monad.return (Some \<lparr>dev_address = \<lparr>bdf_bus = bus, bdf_device = device, bdf_function = func\<rparr>,
         dev_vendor_id = vendor_id, dev_device_id = ucast (drop_bit 16 identity), dev_command = ucast command_status,
         dev_status = status, dev_revision = ucast class_revision,
         dev_programming_interface = ucast (drop_bit 8 class_revision), dev_subclass = ucast (drop_bit 16 class_revision),
         dev_class = ucast (drop_bit 24 class_revision), dev_header_type = header_type,
         dev_subsystem_vendor_id = ucast subsystem, dev_subsystem_id = ucast (drop_bit 16 subsystem),
         dev_interrupt_line = ucast interrupt, dev_interrupt_pin = ucast (drop_bit 8 interrupt), dev_bars = bars,
         dev_virtio_capability_mask = msk, dev_virtio_capabilities = capabilities\<rparr>)
     }
   }"

text \<open>The three nested loops of \<open>scan\<close>.\<close>

primrec scan_functions :: "'c config_access \<Rightarrow> u8 \<Rightarrow> u8 \<Rightarrow> u8 list \<Rightarrow> Inventory \<Rightarrow> ('c, Inventory) state" where
  "scan_functions config bus device [] ivt = State_Monad.return ivt"
| "scan_functions config bus device (func # funcs) ivt = do {
     found \<leftarrow> read_device config bus device func;
     scan_functions config bus device funcs (case found of None \<Rightarrow> ivt | Some d \<Rightarrow> inventory_push d ivt)
   }"

primrec scan_devices :: "'c config_access \<Rightarrow> (u8 \<times> u8) list \<Rightarrow> Inventory \<Rightarrow> ('c, Inventory) state" where
  "scan_devices config [] ivt = State_Monad.return ivt"
| "scan_devices config (slot # slots) ivt = do {
     found \<leftarrow> read_device config (fst slot) (snd slot) 0;
     ivt' \<leftarrow>
       (case found of
          None \<Rightarrow> State_Monad.return ivt
        | Some first \<Rightarrow>
            if is_multifunction first
            then scan_functions config (fst slot) (snd slot) [1, 2, 3, 4, 5, 6, 7] (inventory_push first ivt)
            else State_Monad.return (inventory_push first ivt));
     scan_devices config slots ivt'
   }"

definition scan_slots :: "(u8 \<times> u8) list" where
  "scan_slots = concat (map (\<lambda>bus. map (\<lambda>device. (word_of_nat bus, word_of_nat device)) [0..<32]) [0..<256])"

definition scan :: "'c config_access \<Rightarrow> ('c, Inventory) state" where
  "scan config = scan_devices config scan_slots Inventory_empty"

end
