(* ===== verification/Pci_Proofs.thy ===== *)
theory Pci_Proofs
  imports Pci "HOL-Library.Sublist"
begin

text \<open>
  The capability walk visits every capability it can reach before its round limit, and fills its table
  consistently; the scan's inventory is the list of present functions, cut at its capacity.
\<close>

section \<open>The round limit of the capability walk\<close>

definition visited_slots :: "u64 \<Rightarrow> nat set" where
  "visited_slots visited = {s. 16 \<le> s \<and> s < 64 \<and> bit visited s}"

lemma visited_slots_subset: "visited_slots v \<subseteq> {16..<64}"
  by (auto simp: visited_slots_def)

lemma pointer_slot:
  assumes "\<not> (pointer :: u8) < 0x40"
  shows "16 \<le> unat (pointer div 4)" and "unat (pointer div 4) < 64"
  using assms unsigned_less [of pointer, where ?'a = nat] by (simp_all add: unat_div_distrib word_less_nat_alt)

lemma slot_bit: "k < 64 \<Longrightarrow> (visited :: u64) AND push_bit k 1 \<noteq> 0 \<longleftrightarrow> bit visited k"
  using and_exp_eq_0_iff_not_bit [of visited k] by (simp add: push_bit_eq_mult)

lemma visited_slots_insert:
  assumes "16 \<le> k" and "k < 64"
  shows "visited_slots (visited OR push_bit k 1) = insert k (visited_slots visited)"
  using assms by (auto simp: visited_slots_def bit_simps)

lemma walk_one_more_round:
  assumes "48 \<le> n + card (visited_slots visited)"
  shows "walk_capabilities (Suc n) config bus device func pointer visited msk caps =
    walk_capabilities n config bus device func pointer visited msk caps"
  using assms
proof (induction n arbitrary: pointer visited msk caps)
  case 0
  have "visited_slots visited = {16..<64}"
    using 0 by (intro card_seteq visited_slots_subset) simp_all
  then have "bit visited k" if "16 \<le> k" "k < 64" for k
    using that unfolding visited_slots_def by (metis (mono_tags, lifting) atLeastLessThan_iff mem_Collect_eq)
  then have "visited AND push_bit (unat (pointer div 4)) 1 \<noteq> 0" if "\<not> pointer < 0x40"
    using pointer_slot [OF that] slot_bit [of "unat (pointer div 4)" visited] by blast
  then show ?case by (cases "pointer < 0x40") (simp_all add: Let_def del: push_bit_of_1)
next
  case (Suc n)
  let ?k = "unat (pointer div 4)"
  have more: "48 \<le> n + card (visited_slots (visited OR push_bit ?k 1))"
    if "\<not> pointer < 0x40" and "visited AND push_bit ?k 1 = 0"
  proof -
    have "?k \<notin> visited_slots visited"
      using that pointer_slot [OF that(1)] slot_bit [of ?k visited] by (simp add: visited_slots_def del: push_bit_of_1)
    moreover have "finite (visited_slots visited)" by (rule finite_subset [OF visited_slots_subset]) simp
    ultimately show ?thesis
      using Suc.prems visited_slots_insert [OF pointer_slot [OF that(1)], of visited] by simp
  qed
  show ?case
  proof (cases "\<not> pointer < 0x40 \<and> visited AND push_bit ?k 1 = 0")
    case True
    then have round: "walk_capabilities (Suc m) config bus device func pointer visited msk caps =
        read_capability config bus device func pointer msk caps \<bind> (\<lambda>(nxt, msk', caps').
          walk_capabilities m config bus device func nxt (visited OR push_bit ?k 1) msk' caps')" for m
      by (simp add: Let_def del: push_bit_of_1)
    have "48 \<le> n + card (visited_slots (visited OR push_bit ?k 1))" using True more by blast
    from Suc.IH [OF this] show ?thesis by (simp only: round)
  next
    case False
    then show ?thesis by (auto simp: Let_def)
  qed
qed

lemma walk_limit:
  "walk_capabilities (48 + k) config bus device func pointer 0 msk caps =
    walk_capabilities 48 config bus device func pointer 0 msk caps"
proof (induction k)
  case (Suc k)
  have "walk_capabilities (Suc (48 + k)) config bus device func pointer 0 msk caps =
      walk_capabilities (48 + k) config bus device func pointer 0 msk caps"
    by (rule walk_one_more_round) simp
  with Suc show ?case by (simp only: add_Suc_right)
qed simp

section \<open>The table it fills\<close>

definition capabilities_ok :: "u32 \<times> VirtioCapability list \<Rightarrow> bool" where
  "capabilities_ok = (\<lambda>(msk, caps). length caps = 6
     \<and> (\<forall>i. bit msk i \<longleftrightarrow> i < 6 \<and> cap_valid (caps ! i))
     \<and> (\<forall>i<6. cap_valid (caps ! i) \<longrightarrow> 1 \<le> i \<and> cap_bar (caps ! i) < 6 \<and> cap_length (caps ! i) \<noteq> 0))"

lemma capabilities_ok_update:
  assumes "capabilities_ok (msk, caps)" and "1 \<le> ty" and "ty \<le> (5 :: u8)" and "bar < 6" and "len \<noteq> 0"
  shows "capabilities_ok (msk OR push_bit (unat ty) 1, caps[unat ty := \<lparr>cap_valid = True, cap_bar = bar, cap_offset = offs,
     cap_length = len, cap_notify_multiplier = m\<rparr>])"
  using assms by (auto simp: capabilities_ok_def nth_update_if bit_simps word_le_nat_alt)

lemma read_capability_ok:
  assumes "run_state (read_capability config bus device func pointer msk caps) s = ((nxt, msk', caps'), s')"
    and "capabilities_ok (msk, caps)"
  shows "capabilities_ok (msk', caps')"
  using assms capabilities_ok_update [OF assms(2)] capabilities_ok_update [OF assms(2), of 2]
  by (auto simp: read_capability_def State_Monad.bind_def Let_def split: if_splits prod.splits)

lemma walk_capabilities_ok:
  assumes "run_state (walk_capabilities n config bus device func pointer visited msk caps) s = (r, s')"
    and "capabilities_ok (msk, caps)"
  shows "capabilities_ok r"
  using assms
proof (induction n arbitrary: pointer visited msk caps s)
  case 0
  then show ?case by simp
next
  case (Suc n)
  then show ?case
    by (auto simp: Let_def State_Monad.bind_def split: if_splits prod.splits dest!: read_capability_ok)
qed

lemma no_capabilities_ok: "capabilities_ok (0, replicate 6 VirtioCapability_EMPTY)"
  by (simp add: capabilities_ok_def VirtioCapability_EMPTY_def)

lemma scan_virtio_capabilities_ok:
  "run_state (scan_virtio_capabilities config bus device func) s = (r, s') \<Longrightarrow> capabilities_ok r"
  by (auto simp: scan_virtio_capabilities_def split: prod.splits
      intro: walk_capabilities_ok [OF _ no_capabilities_ok])

section \<open>The functions present on the buses\<close>

text \<open>The functions a scan finds, in order and without a limit on their number.\<close>

primrec present_functions :: "'c config_access \<Rightarrow> u8 \<Rightarrow> u8 \<Rightarrow> u8 list \<Rightarrow> ('c, Device list) state" where
  "present_functions config bus device [] = State_Monad.return []"
| "present_functions config bus device (func # funcs) = do {
     found \<leftarrow> read_device config bus device func;
     rest \<leftarrow> present_functions config bus device funcs;
     State_Monad.return (case found of None \<Rightarrow> rest | Some d \<Rightarrow> d # rest)
   }"

definition present_at :: "'c config_access \<Rightarrow> u8 \<Rightarrow> u8 \<Rightarrow> ('c, Device list) state" where
  "present_at config bus device = do {
     found \<leftarrow> read_device config bus device 0;
     case found of
       None \<Rightarrow> State_Monad.return []
     | Some first \<Rightarrow> do {
         rest \<leftarrow> present_functions config bus device (if is_multifunction first then [1, 2, 3, 4, 5, 6, 7] else []);
         State_Monad.return (first # rest)
       }
   }"

primrec present_devices :: "'c config_access \<Rightarrow> (u8 \<times> u8) list \<Rightarrow> ('c, Device list) state" where
  "present_devices config [] = State_Monad.return []"
| "present_devices config (slot # slots) = do {
     here \<leftarrow> present_at config (fst slot) (snd slot);
     rest \<leftarrow> present_devices config slots;
     State_Monad.return (here @ rest)
   }"

lemma scan_functions_present:
  "scan_functions config bus device funcs ivt =
     do { ds \<leftarrow> present_functions config bus device funcs; State_Monad.return (fold inventory_push ds ivt) }"
proof (induction funcs arbitrary: ivt)
  case Nil
  then show ?case by simp
next
  case (Cons func funcs)
  show ?case
    by (rule state_ext) (auto simp: Cons.IH split: prod.splits option.splits)
qed

lemma scan_devices_present:
  "scan_devices config slots ivt =
     do { ds \<leftarrow> present_devices config slots; State_Monad.return (fold inventory_push ds ivt) }"
proof (induction slots arbitrary: ivt)
  case Nil
  then show ?case by simp
next
  case (Cons slot slots)
  show ?case
    by (rule state_ext) (auto simp: Cons.IH present_at_def scan_functions_present split: prod.splits option.splits)
qed

text \<open>Every device a scan lists has the address it was read at.\<close>

definition bdf_key :: "Bdf \<Rightarrow> nat" where
  "bdf_key a = (unat (bdf_bus a) * 32 + unat (bdf_device a)) * 8 + unat (bdf_function a)"

definition slot_addresses :: "u8 \<Rightarrow> u8 \<Rightarrow> u8 list \<Rightarrow> Bdf list" where
  "slot_addresses bus device funcs = map (\<lambda>func. \<lparr>bdf_bus = bus, bdf_device = device, bdf_function = func\<rparr>) funcs"

lemma read_device_found:
  "run_state (read_device config bus device func) s = (Some d, s') \<Longrightarrow>
     dev_address d = \<lparr>bdf_bus = bus, bdf_device = device, bdf_function = func\<rparr> \<and> dev_vendor_id d \<noteq> 0xffff"
  by (auto simp: read_device_def State_Monad.bind_def Let_def split: if_splits prod.splits)

lemma present_functions_addresses:
  "run_state (present_functions config bus device funcs) s = (ds, s') \<Longrightarrow>
     subseq (map dev_address ds) (slot_addresses bus device funcs) \<and> (\<forall>d\<in>set ds. dev_vendor_id d \<noteq> 0xffff)"
proof (induction funcs arbitrary: s ds s')
  case (Cons func funcs)
  then show ?case
    by (auto simp: State_Monad.bind_def slot_addresses_def split: prod.splits option.splits dest!: read_device_found)
qed (simp add: slot_addresses_def)

lemma present_at_addresses:
  assumes "run_state (present_at config bus device) s = (ds, s')"
  shows "subseq (map dev_address ds) (slot_addresses bus device [0, 1, 2, 3, 4, 5, 6, 7]) \<and> (\<forall>d\<in>set ds. dev_vendor_id d \<noteq> 0xffff)"
proof -
  obtain found t where found: "run_state (read_device config bus device 0) s = (found, t)"
    by (cases "run_state (read_device config bus device 0) s")
  show ?thesis
  proof (cases found)
    case None
    with assms found show ?thesis by (simp add: present_at_def)
  next
    case (Some first)
    let ?funcs = "if is_multifunction first then [1, 2, 3, 4, 5, 6, 7] else [] :: u8 list"
    obtain rest u where rest: "run_state (present_functions config bus device ?funcs) t = (rest, u)"
      by (cases "run_state (present_functions config bus device ?funcs) t")
    have ds: "ds = first # rest" using assms found Some rest by (simp add: present_at_def)
    have "subseq (slot_addresses bus device ?funcs) (slot_addresses bus device [1, 2, 3, 4, 5, 6, 7])"
      by (simp add: slot_addresses_def)
    with present_functions_addresses [OF rest]
    have "subseq (map dev_address rest) (slot_addresses bus device [1, 2, 3, 4, 5, 6, 7])"
      using subseq_order.order_trans by blast
    with read_device_found [of config bus device 0 s first t] found Some present_functions_addresses [OF rest]
    show ?thesis by (simp add: ds slot_addresses_def)
  qed
qed

lemma present_devices_addresses:
  "run_state (present_devices config slots) s = (ds, s') \<Longrightarrow>
     subseq (map dev_address ds) (concat (map (\<lambda>(bus, device). slot_addresses bus device [0, 1, 2, 3, 4, 5, 6, 7]) slots))
     \<and> (\<forall>d\<in>set ds. dev_vendor_id d \<noteq> 0xffff)"
proof (induction slots arbitrary: s ds s')
  case (Cons slot slots)
  then show ?case
    by (auto simp: State_Monad.bind_def split: prod.splits dest!: present_at_addresses intro!: list_emb_append_mono)
qed simp

lemma sorted_wrt_subseq: "subseq xs ys \<Longrightarrow> sorted_wrt P ys \<Longrightarrow> sorted_wrt P xs"
  by (induction rule: list_emb.induct) (auto dest: list_emb_set)

text \<open>The slots of the buses, numbered in bus and device order.\<close>

definition slot_at :: "nat \<Rightarrow> u8 \<times> u8" where
  "slot_at n = (word_of_nat (n div 32), word_of_nat (n mod 32))"

lemma concat_upt: "concat (map (\<lambda>n. map (\<lambda>k. n * m + k) [0..<m]) [0..<l]) = [0..<l * m]"
proof (induction l)
  case (Suc l)
  have "map (\<lambda>k. l * m + k) [0..<m] = [l * m..<l * m + m]" by (simp add: map_add_upt add.commute)
  moreover have "[0..<Suc l * m] = [0..<l * m] @ [l * m..<l * m + m]"
    using upt_add_eq_append [of 0 "l * m" m] by (simp add: add.commute)
  ultimately show ?case using Suc by simp
qed simp

lemma scan_slots_numbered: "scan_slots = map slot_at [0..<256 * 32]"
  unfolding concat_upt [of 32 256, symmetric] map_concat scan_slots_def
  by (auto simp: comp_def slot_at_def intro!: arg_cong [where f = concat])

lemma slot_at_keys:
  assumes "n < 256 * 32"
  shows "map bdf_key (case slot_at n of (bus, device) \<Rightarrow> slot_addresses bus device [0, 1, 2, 3, 4, 5, 6, 7])
    = map (\<lambda>k. n * 8 + k) [0..<8]"
proof -
  have "n div 32 < 256" using assms by (simp add: less_mult_imp_div_less)
  then have "unat (word_of_nat (n div 32) :: u8) = n div 32" by (simp add: unat_of_nat take_bit_nat_eq_self)
  moreover have "n mod 32 < 256" by (rule order.strict_trans [of _ 32]) simp_all
  then have "unat (word_of_nat (n mod 32) :: u8) = n mod 32" by (simp add: unat_of_nat take_bit_nat_eq_self)
  ultimately show ?thesis by (simp add: slot_at_def slot_addresses_def bdf_key_def upt_rec)
qed

lemma present_devices_sorted:
  assumes "run_state (present_devices config (map slot_at [0..<256 * 32])) s = (ds, s')"
  shows "sorted_wrt (<) (map (bdf_key \<circ> dev_address) ds)" and "\<forall>d\<in>set ds. dev_vendor_id d \<noteq> 0xffff"
proof -
  let ?all = "concat (map (\<lambda>(bus, device). slot_addresses bus device [0, 1, 2, 3, 4, 5, 6, 7]) (map slot_at [0..<256 * 32]))"
  have "map bdf_key ?all = concat (map (\<lambda>n. map (\<lambda>k. n * 8 + k) [0..<8]) [0..<256 * 32])"
    using slot_at_keys by (simp only: map_concat map_map) (auto intro!: arg_cong [where f = concat])
  also have "\<dots> = [0..<256 * 32 * 8]" by (rule concat_upt)
  finally have "subseq (map bdf_key (map dev_address ds)) [0..<256 * 32 * 8]"
    using present_devices_addresses [OF assms] subseq_map [of "map dev_address ds" ?all bdf_key] by metis
  then show "sorted_wrt (<) (map (bdf_key \<circ> dev_address) ds)"
    using sorted_wrt_subseq [OF _ sorted_wrt_upt] by (metis map_map)
  show "\<forall>d\<in>set ds. dev_vendor_id d \<noteq> 0xffff" using present_devices_addresses [OF assms] by blast
qed

section \<open>The inventory\<close>

definition inventory_ok :: "Inventory \<Rightarrow> bool" where
  "inventory_ok ivt \<longleftrightarrow> length (inv_devices ivt) = MAX_DEVICES \<and> inv_count ivt \<le> MAX_DEVICES"

lemma push_all:
  assumes "inventory_ok ivt"
  shows "inventory_ok (fold inventory_push ds ivt)
    \<and> devices (fold inventory_push ds ivt) = take MAX_DEVICES (devices ivt @ ds)
    \<and> inv_overflowed (fold inventory_push ds ivt) = (inv_overflowed ivt \<or> ds \<noteq> [] \<and> MAX_DEVICES < length (devices ivt) + length ds)"
  using assms
proof (induction ds arbitrary: ivt)
  case Nil
  then show ?case by (simp add: inventory_ok_def devices_def)
next
  case (Cons d ds)
  have len: "length (devices ivt) = inv_count ivt" using Cons.prems by (simp add: inventory_ok_def devices_def)
  show ?case
  proof (cases "inv_count ivt = MAX_DEVICES")
    case True
    then have push: "inventory_push d ivt = ivt\<lparr>inv_overflowed := True\<rparr>" by (simp add: inventory_push_def)
    have "inventory_ok (inventory_push d ivt)" "devices (inventory_push d ivt) = devices ivt"
      "inv_overflowed (inventory_push d ivt)"
      using Cons.prems by (simp_all add: push inventory_ok_def devices_def)
    with Cons.IH [of "inventory_push d ivt"] True len show ?thesis by simp
  next
    case False
    then have push: "inventory_push d ivt = ivt\<lparr>inv_devices := (inv_devices ivt)[inv_count ivt := d], inv_count := inv_count ivt + 1\<rparr>"
      by (simp add: inventory_push_def)
    have "inventory_ok (inventory_push d ivt)" "devices (inventory_push d ivt) = devices ivt @ [d]"
      "inv_overflowed (inventory_push d ivt) = inv_overflowed ivt"
      using Cons.prems False by (simp_all add: push inventory_ok_def devices_def take_Suc_conv_app_nth)
    with Cons.IH [of "inventory_push d ivt"] False Cons.prems len show ?thesis
      by (auto simp: inventory_ok_def)
  qed
qed

section \<open>Properties\<close>

text \<open>\<^bold>\<open>C23\<close>. The 48 rounds of the capability walk are enough on any hardware: more rounds never change its
  result, because a walk that does not stop earlier has visited every slot of the list area. The mask it
  returns has exactly the bits of the configuration types whose table entry is valid, so no bit above the
  table, and a valid entry has a type from 1 to 5, a base address register below 6 and a non-empty region.\<close>

theorem capability_walk_complete_and_consistent:
  "walk_capabilities (48 + k) config bus device func pointer 0 0 (replicate 6 VirtioCapability_EMPTY) =
     walk_capabilities 48 config bus device func pointer 0 0 (replicate 6 VirtioCapability_EMPTY)
   \<and> capabilities_ok (fst (run_state (scan_virtio_capabilities config bus device func) hardware))"
  by (intro conjI walk_limit scan_virtio_capabilities_ok [OF prod.collapse [symmetric]])

text \<open>\<^bold>\<open>C24\<close>. The inventory a scan returns consists of the first 64 functions present in the 256 * 32 slots of
  the buses (slot \<open>n\<close> is device \<open>n mod 32\<close> of bus \<open>n div 32\<close>; functions 1 to 7 are looked at only where function
  0 is that of a multifunction device). It is marked as overflowed exactly when more are present, and the scan makes the same
  hardware accesses as listing them. Whatever the hardware answers, the functions listed have strictly
  increasing addresses, bus first, then device, then function, and none has the vendor of an empty slot.\<close>

theorem scan_lists_present_functions:
  "let (ds, hardware') =
         run_state (present_devices config (map (\<lambda>n. (word_of_nat (n div 32), word_of_nat (n mod 32))) [0..<256 * 32])) hardware;
       (ivt, hardware'') = run_state (scan config) hardware
   in devices ivt = take MAX_DEVICES ds \<and> inv_overflowed ivt = (MAX_DEVICES < length ds) \<and> hardware'' = hardware'
     \<and> sorted_wrt (<) (map (\<lambda>d. (unat (bdf_bus (dev_address d)) * 32 + unat (bdf_device (dev_address d))) * 8
                              + unat (bdf_function (dev_address d))) (devices ivt))
     \<and> 0xffff \<notin> dev_vendor_id ` set (devices ivt)"
proof -
  let ?slots = "map slot_at [0..<256 * 32]"
  obtain ds hardware' where present: "run_state (present_devices config ?slots) hardware = (ds, hardware')"
    by (cases "run_state (present_devices config ?slots) hardware")
  then have run: "run_state (scan config) hardware = (fold inventory_push ds Inventory_empty, hardware')"
    by (simp add: scan_def scan_devices_present scan_slots_numbered del: upt_conv_Cons)
  have "inventory_ok Inventory_empty" "devices Inventory_empty = []" "\<not> inv_overflowed Inventory_empty"
    by (simp_all add: inventory_ok_def Inventory_empty_def devices_def)
  with push_all [of Inventory_empty ds]
  have dev: "devices (fold inventory_push ds Inventory_empty) = take MAX_DEVICES ds"
    "inv_overflowed (fold inventory_push ds Inventory_empty) = (MAX_DEVICES < length ds)"
    by (cases ds; simp)+
  moreover have "sorted_wrt (<) (map (bdf_key \<circ> dev_address) (take MAX_DEVICES ds))"
    "0xffff \<notin> dev_vendor_id ` set (take MAX_DEVICES ds)"
    using present_devices_sorted [OF present] by (auto simp: take_map [symmetric] sorted_wrt_take dest!: in_set_takeD)
  ultimately show ?thesis
    using present run unfolding slot_at_def [abs_def] bdf_key_def [abs_def] comp_def by simp
qed

end
