(* ===== verification/Virtio.thy ===== *)
theory Virtio
  imports Slop_Prelude
begin

text \<open>
  Split virtqueues for the block driver, \<open>crates/virtio/src/lib.rs\<close>: queue sizes, queue memory layout and
  the descriptor chains of block requests. A failed assertion is \<open>None\<close>.
\<close>

section \<open>Definitions\<close>

definition DESCRIPTOR_NEXT :: u16 where "DESCRIPTOR_NEXT = 1"
definition DESCRIPTOR_WRITE :: u16 where "DESCRIPTOR_WRITE = 2"
definition BLOCK_REQUEST_IN :: u32 where "BLOCK_REQUEST_IN = 0"
definition BLOCK_REQUEST_OUT :: u32 where "BLOCK_REQUEST_OUT = 1"
definition BLOCK_REQUEST_FLUSH :: u32 where "BLOCK_REQUEST_FLUSH = 4"
definition BLOCK_FEATURE_READ_ONLY :: u32 where "BLOCK_FEATURE_READ_ONLY = push_bit 5 1"
definition BLOCK_FEATURE_FLUSH :: u32 where "BLOCK_FEATURE_FLUSH = push_bit 9 1"

record VirtqDescriptor =
  desc_address :: u64
  desc_length :: u32
  desc_flags :: u16
  desc_next :: u16

record BlockRequestHeader =
  request_type :: u32
  request_reserved :: u32
  request_sector :: u64

record SplitQueueLayout =
  descriptor_bytes :: nat
  available_bytes :: nat
  used_bytes :: nat

definition for_queue_size :: "u16 \<Rightarrow> SplitQueueLayout" where
  "for_queue_size queue_size =
    (let count = unat queue_size
     in \<lparr>descriptor_bytes = count * 16, available_bytes = 6 + count * 2, used_bytes = 6 + count * 8\<rparr>)"

text \<open>\<open>leading_zeros\<close> of the unsigned types.\<close>

definition leading_zeros :: "'a::len word \<Rightarrow> nat" where
  "leading_zeros w = length (takeWhile (\<lambda>i. \<not> bit w i) (rev [0..<LENGTH('a)]))"

definition choose_queue_size :: "u16 \<Rightarrow> u16 \<Rightarrow> u16 option" where
  "choose_queue_size offered limit =
    (let maximum = (if offered < limit then offered else limit) in
     if maximum < 4 then None
     else Some (push_bit (15 - leading_zeros maximum) 1))"

definition block_read_descriptors_at ::
  "u16 \<Rightarrow> u64 \<Rightarrow> u32 \<Rightarrow> u64 \<Rightarrow> u32 \<Rightarrow> u64 \<Rightarrow> VirtqDescriptor list option" where
  "block_read_descriptors_at head header_address header_length data_address data_length status_address =
    (if \<not> head \<le> 0xffff - 2 then None
     else Some
       [\<lparr>desc_address = header_address, desc_length = header_length, desc_flags = DESCRIPTOR_NEXT, desc_next = head + 1\<rparr>,
        \<lparr>desc_address = data_address, desc_length = data_length, desc_flags = DESCRIPTOR_NEXT OR DESCRIPTOR_WRITE,
         desc_next = head + 2\<rparr>,
        \<lparr>desc_address = status_address, desc_length = 1, desc_flags = DESCRIPTOR_WRITE, desc_next = 0\<rparr>])"

definition block_read_descriptors :: "u64 \<Rightarrow> u32 \<Rightarrow> u64 \<Rightarrow> u32 \<Rightarrow> u64 \<Rightarrow> VirtqDescriptor list option" where
  "block_read_descriptors = block_read_descriptors_at 0"

definition block_write_descriptors_at ::
  "u16 \<Rightarrow> u64 \<Rightarrow> u32 \<Rightarrow> u64 \<Rightarrow> u32 \<Rightarrow> u64 \<Rightarrow> VirtqDescriptor list option" where
  "block_write_descriptors_at head header_address header_length data_address data_length status_address =
    (if \<not> head \<le> 0xffff - 2 then None
     else Some
       [\<lparr>desc_address = header_address, desc_length = header_length, desc_flags = DESCRIPTOR_NEXT, desc_next = head + 1\<rparr>,
        \<lparr>desc_address = data_address, desc_length = data_length, desc_flags = DESCRIPTOR_NEXT, desc_next = head + 2\<rparr>,
        \<lparr>desc_address = status_address, desc_length = 1, desc_flags = DESCRIPTOR_WRITE, desc_next = 0\<rparr>])"

definition block_flush_descriptors_at :: "u16 \<Rightarrow> u64 \<Rightarrow> u32 \<Rightarrow> u64 \<Rightarrow> VirtqDescriptor list option" where
  "block_flush_descriptors_at head header_address header_length status_address =
    (if \<not> head < 0xffff then None
     else Some
       [\<lparr>desc_address = header_address, desc_length = header_length, desc_flags = DESCRIPTOR_NEXT, desc_next = head + 1\<rparr>,
        \<lparr>desc_address = status_address, desc_length = 1, desc_flags = DESCRIPTOR_WRITE, desc_next = 0\<rparr>])"

section \<open>Queue sizes\<close>

lemma leading_zeros_above:
  assumes "k < n" and "bit w k" and "\<And>j. k < j \<Longrightarrow> j < n \<Longrightarrow> \<not> bit w j"
  shows "length (takeWhile (\<lambda>i. \<not> bit w i) (rev [0..<n])) = n - 1 - k"
  using assms
proof (induction n)
  case 0
  then show ?case by simp
next
  case (Suc n)
  then show ?case by (cases "k = n") (auto simp: less_Suc_eq)
qed

lemma highest_bit:
  assumes "(w :: 'a::len word) \<noteq> 0"
  obtains k where "k < LENGTH('a)" "bit w k" "2 ^ k \<le> unat w" "unat w < 2 ^ Suc k" "leading_zeros w = LENGTH('a) - 1 - k"
proof -
  have fin: "finite {i. bit w i}" by (rule finite_subset [of _ "{..<LENGTH('a)}"]) (auto dest: bit_imp_le_length)
  have "\<exists>i. bit w i" using assms by (auto simp: bit_eq_iff)
  then have "bit w (Max {i. bit w i})" using Max_in [OF fin] by auto
  moreover have "j \<le> Max {i. bit w i}" if "bit w j" for j using that by (intro Max_ge [OF fin]) simp
  ultimately obtain k where top: "bit w k" and above: "\<And>j. k < j \<Longrightarrow> \<not> bit w j" by (meson not_le)
  have lt: "k < LENGTH('a)" using top by (rule bit_imp_le_length)
  have "unat w div 2 ^ k \<noteq> 0"
    using top bit_unsigned_iff [of w k, where 'a = nat] by (auto simp: bit_iff_odd [of "unat w"] dest: odd_pos)
  then have low: "2 ^ k \<le> unat w" by (metis div_less not_le)
  have "j < Suc k" if "bit w j" for j using above [of j] that by (cases "k < j") auto
  then have "w = take_bit (Suc k) w" by (intro bit_word_eqI) (auto simp: bit_simps)
  then have "unat w = take_bit (Suc k) (unat w)" by (metis unsigned_take_bit_eq)
  then have high: "unat w < 2 ^ Suc k" by (metis take_bit_nat_less_exp)
  have "leading_zeros w = LENGTH('a) - 1 - k"
    unfolding leading_zeros_def by (rule leading_zeros_above [OF lt top]) (use above in auto)
  with lt top low high show thesis by (intro that)
qed

section \<open>Request chains\<close>

text \<open>How a device walks a chain in the descriptor table: the buffers it meets, each with whether the device
  may write it. \<open>None\<close> when an index leaves the table or the chain is longer than the bound.\<close>

fun walk_chain :: "nat \<Rightarrow> VirtqDescriptor list \<Rightarrow> u16 \<Rightarrow> (u64 \<times> u32 \<times> bool) list option" where
  "walk_chain 0 table i = None"
| "walk_chain (Suc n) table i =
     Option.bind (get_at table (unat i)) (\<lambda>d.
     let buffer = (desc_address d, desc_length d, desc_flags d AND DESCRIPTOR_WRITE \<noteq> 0) in
     if desc_flags d AND DESCRIPTOR_NEXT \<noteq> 0
     then map_option ((#) buffer) (walk_chain n table (desc_next d))
     else Some [buffer])"

definition chain_buffer :: "VirtqDescriptor \<Rightarrow> u64 \<times> u32 \<times> bool" where
  "chain_buffer d = (desc_address d, desc_length d, desc_flags d AND DESCRIPTOR_WRITE \<noteq> 0)"

text \<open>Descriptors in consecutive slots, each linked to the next one and the last one ending the chain.\<close>

definition linked :: "u16 \<Rightarrow> VirtqDescriptor list \<Rightarrow> bool" where
  "linked head ds \<longleftrightarrow> (\<forall>j<length ds.
     (desc_flags (ds ! j) AND DESCRIPTOR_NEXT \<noteq> 0 \<longleftrightarrow> Suc j < length ds)
     \<and> (Suc j < length ds \<longrightarrow> unat (desc_next (ds ! j)) = unat head + Suc j))"

lemma walk_linked:
  assumes linked: "linked head ds" and room: "unat head + length ds \<le> length table"
    and "j < length ds" and "unat i = unat head + j"
  shows "walk_chain (length ds - j) (copy_at table (unat head) ds) i = Some (map chain_buffer (drop j ds))"
  using assms(3,4)
proof (induction "length ds - j" arbitrary: i j)
  case 0
  then show ?case by simp
next
  case (Suc n)
  let ?d = "ds ! j" and ?t = "copy_at table (unat head) ds"
  have get: "get_at ?t (unat i) = Some ?d"
    using room Suc.prems by (simp add: get_at_def nth_copy_at)
  have drop: "drop j ds = ?d # drop (Suc j) ds" using Suc.prems(1) by (simp add: Cons_nth_drop_Suc)
  have n: "length ds - j = Suc n" "n = length ds - Suc j" using Suc.hyps(2) by simp_all
  show ?case
  proof (cases "Suc j < length ds")
    case True
    with linked Suc.prems(1) have "desc_flags ?d AND DESCRIPTOR_NEXT \<noteq> 0" "unat (desc_next ?d) = unat head + Suc j"
      by (auto simp: linked_def)
    moreover from Suc.hyps(1) [OF n(2) True this(2)] n(2)
    have "walk_chain n ?t (desc_next ?d) = Some (map chain_buffer (drop (Suc j) ds))" by simp
    ultimately show ?thesis by (simp add: n(1) get drop chain_buffer_def Let_def)
  next
    case False
    with linked Suc.prems(1) have "\<not> desc_flags ?d AND DESCRIPTOR_NEXT \<noteq> 0" by (auto simp: linked_def)
    with False show ?thesis by (simp add: n(1) get drop chain_buffer_def Let_def)
  qed
qed

lemma walk_linked_chain:
  "linked head ds \<Longrightarrow> unat head + length ds \<le> length table \<Longrightarrow> ds \<noteq> [] \<Longrightarrow>
     walk_chain (length ds) (copy_at table (unat head) ds) head = Some (map chain_buffer ds)"
  using walk_linked [of head ds table 0 head] by simp

lemma unat_head:
  "(head :: u16) \<le> 0xffff - 2 \<Longrightarrow> unat (head + 1) = unat head + 1"
  "(head :: u16) \<le> 0xffff - 2 \<Longrightarrow> unat (head + 2) = unat head + 2"
  "(head :: u16) < 0xffff \<Longrightarrow> unat (head + 1) = unat head + 1"
  by (simp_all add: word_le_nat_alt word_less_nat_alt unat_word_ariths)

lemmas request_defs = block_read_descriptors_at_def block_write_descriptors_at_def block_flush_descriptors_at_def
  DESCRIPTOR_NEXT_def DESCRIPTOR_WRITE_def

lemma requests_linked:
  "block_read_descriptors_at head ha hl da dl sa = Some ds \<Longrightarrow> linked head ds"
  "block_write_descriptors_at head ha hl da dl sa = Some ds \<Longrightarrow> linked head ds"
  "block_flush_descriptors_at head ha hl sa = Some ds \<Longrightarrow> linked head ds"
  by (auto simp: linked_def request_defs unat_head less_Suc_eq split: if_splits)

section \<open>Properties\<close>

text \<open>The chosen queue size is the largest power of two that neither the device's offer nor the driver's
  limit is below, and at least four; there is none exactly when one of the two is below four.\<close>

lemma queue_size_is_largest_power_of_two:
  "case choose_queue_size offered limit of
     None \<Rightarrow> min (unat offered) (unat limit) < 4
   | Some q \<Rightarrow> is_power_of_two q \<and> 4 \<le> unat q \<and> unat q \<le> min (unat offered) (unat limit)
       \<and> min (unat offered) (unat limit) < 2 * unat q"
proof -
  let ?m = "if offered < limit then offered else limit"
  have m: "unat ?m = min (unat offered) (unat limit)" by (auto simp: word_less_nat_alt)
  show ?thesis
  proof (cases "?m < 4")
    case True
    then show ?thesis using m by (simp add: choose_queue_size_def word_less_nat_alt)
  next
    case False
    then have "?m \<noteq> 0" by auto
    then obtain k where k: "k < LENGTH(16)" "2 ^ k \<le> unat ?m" "unat ?m < 2 ^ Suc k" "leading_zeros ?m = LENGTH(16) - 1 - k"
      by (rule highest_bit)
    then have choice: "choose_queue_size offered limit = Some (push_bit k 1)"
      using False by (auto simp: choose_queue_size_def Let_def)
    have "unat (push_bit k 1 :: u16) = 2 ^ k"
      using k(1) unat_of_nat [of "2 ^ k", where 'a = 16] power_strict_increasing [of k 16 "2::nat"] by simp
    moreover have "is_power_of_two (push_bit k 1 :: u16)" using k(1) by (auto simp: is_power_of_two_iff)
    moreover have "4 \<le> unat ?m" using False by (simp add: word_less_nat_alt not_less)
    moreover have "(4 :: nat) \<le> 2 ^ k"
    proof (rule ccontr)
      assume "\<not> ?thesis"
      then have "k < 2" using power_increasing [of 2 k "2::nat"] by (intro ccontr [of "k < 2"]) auto
      then have "(2 :: nat) ^ Suc k \<le> 2 ^ 2" by (intro power_increasing) auto
      with k(3) \<open>4 \<le> unat ?m\<close> show False by simp
    qed
    ultimately show ?thesis using k(2,3) m by (simp add: choice)
  qed
qed

text \<open>\<^bold>\<open>C25\<close>. A device that walks the descriptor chain of a block request from its head meets the header, the
  data and the status byte in this order and nothing else; it may write the status byte and, for a read
  request, the data.\<close>

theorem request_chains_as_walked:
  "(case block_read_descriptors_at head ha hl da dl sa of None \<Rightarrow> True
    | Some ds \<Rightarrow> unat head + 3 \<le> length table \<longrightarrow>
        walk_chain 3 (copy_at table (unat head) ds) head = Some [(ha, hl, False), (da, dl, True), (sa, 1, True)])
   \<and> (case block_write_descriptors_at head ha hl da dl sa of None \<Rightarrow> True
    | Some ds \<Rightarrow> unat head + 3 \<le> length table \<longrightarrow>
        walk_chain 3 (copy_at table (unat head) ds) head = Some [(ha, hl, False), (da, dl, False), (sa, 1, True)])
   \<and> (case block_flush_descriptors_at head ha hl sa of None \<Rightarrow> True
    | Some ds \<Rightarrow> unat head + 2 \<le> length table \<longrightarrow>
        walk_chain 2 (copy_at table (unat head) ds) head = Some [(ha, hl, False), (sa, 1, True)])"
  (is "?R \<and> ?W \<and> ?F")
proof (intro conjI)
  show ?R
    using walk_linked_chain [OF requests_linked(1) [of head ha hl da dl sa], where table = table]
    by (auto simp: request_defs chain_buffer_def numeral_3_eq_3 simp del: walk_chain.simps split: option.splits if_splits)
  show ?W
    using walk_linked_chain [OF requests_linked(2) [of head ha hl da dl sa], where table = table]
    by (auto simp: request_defs chain_buffer_def numeral_3_eq_3 simp del: walk_chain.simps split: option.splits if_splits)
  show ?F
    using walk_linked_chain [OF requests_linked(3) [of head ha hl sa], where table = table]
    by (auto simp: request_defs chain_buffer_def numeral_2_eq_2 simp del: walk_chain.simps split: option.splits if_splits)
qed

theorem request_chains_as_walked_witness:
  "walk_chain 3 (copy_at (replicate 8 \<lparr>desc_address = 0, desc_length = 0, desc_flags = 0, desc_next = 0\<rparr>) 4 (the (block_read_descriptors_at 4 0x1000 16 0x2000 512 0x3000))) 4 =
     Some [(0x1000, 16, False), (0x2000, 512, True), (0x3000, 1, True)]"
  using request_chains_as_walked [where head = 4 and ha = "0x1000" and hl = 16 and da = "0x2000" and dl = 512 and sa = "0x3000"
      and table = "replicate 8 \<lparr>desc_address = 0, desc_length = 0, desc_flags = 0, desc_next = 0\<rparr>"]
  by (simp add: block_read_descriptors_at_def)

end
