(* ===== verification/Desktop_Protocol.thy ===== *)
theory Desktop_Protocol
  imports Slop_Prelude
begin

text \<open>
  The messages between the kernel's desktop service and its user-space clients,
  \<open>crates/desktop-protocol/src/lib.rs\<close>: fixed-size records with a little-endian wire format, the two
  variable-length Wayland messages, and the hash of a configuration. An operation that fills a caller's
  buffer returns the buffer next to its result.
\<close>

section \<open>Constants\<close>

definition DESKTOP_PROTOCOL_MAGIC :: u64 where "DESKTOP_PROTOCOL_MAGIC = 0x534c4f504445534b"
definition DESKTOP_PROTOCOL_VERSION :: u16 where "DESKTOP_PROTOCOL_VERSION = 1"
definition WAYLAND_SURFACE_MAGIC :: u64 where "WAYLAND_SURFACE_MAGIC = 0x534c4f50574c5355"
definition WAYLAND_SURFACE_VERSION :: u16 where "WAYLAND_SURFACE_VERSION = 1"
definition WAYLAND_EVENT_MAGIC :: u64 where "WAYLAND_EVENT_MAGIC = 0x534c4f50574c4556"
definition WAYLAND_EVENT_VERSION :: u16 where "WAYLAND_EVENT_VERSION = 1"
definition CAPABILITY_WAYBAR_PROVIDER :: u32 where "CAPABILITY_WAYBAR_PROVIDER = push_bit 0 1"
definition CAPABILITY_SWWW_POLICY :: u32 where "CAPABILITY_SWWW_POLICY = push_bit 1 1"
definition CAPABILITY_WAYLAND_SURFACE :: u32 where "CAPABILITY_WAYLAND_SURFACE = push_bit 2 1"
definition REQUIRED_CAPABILITIES :: u32 where
  "REQUIRED_CAPABILITIES = CAPABILITY_WAYBAR_PROVIDER OR CAPABILITY_SWWW_POLICY OR CAPABILITY_WAYLAND_SURFACE"
definition WALLPAPER_AURORA :: u8 where "WALLPAPER_AURORA = 1"
definition COMMIT_SIZE :: nat where "COMMIT_SIZE = 40"
definition EVENT_SIZE :: nat where "EVENT_SIZE = 32"
definition WAYLAND_SURFACE_HEADER_SIZE :: nat where "WAYLAND_SURFACE_HEADER_SIZE = 32"
definition WAYLAND_SURFACE_MAX_WIRE_SIZE :: nat where "WAYLAND_SURFACE_MAX_WIRE_SIZE = 768"
definition WAYLAND_SURFACE_MAX_PIXEL_SIZE :: nat where "WAYLAND_SURFACE_MAX_PIXEL_SIZE = 3072"
definition WAYLAND_SURFACE_MAX_SIZE :: nat where
  "WAYLAND_SURFACE_MAX_SIZE =
     WAYLAND_SURFACE_HEADER_SIZE + WAYLAND_SURFACE_MAX_WIRE_SIZE + WAYLAND_SURFACE_MAX_PIXEL_SIZE"
definition WAYLAND_EVENT_HEADER_SIZE :: nat where "WAYLAND_EVENT_HEADER_SIZE = 32"
definition WAYLAND_EVENT_MAX_WIRE_SIZE :: nat where "WAYLAND_EVENT_MAX_WIRE_SIZE = 512"
definition WAYLAND_EVENT_MAX_SIZE :: nat where
  "WAYLAND_EVENT_MAX_SIZE = WAYLAND_EVENT_HEADER_SIZE + WAYLAND_EVENT_MAX_WIRE_SIZE"
definition WAYLAND_INLINE_SHM_FD :: i32 where "WAYLAND_INLINE_SHM_FD = 0x534c"
definition WAYLAND_NO_FILE_DESCRIPTOR :: i32 where "WAYLAND_NO_FILE_DESCRIPTOR = - 1"
definition WAYLAND_EVENT_REGISTRY :: u16 where "WAYLAND_EVENT_REGISTRY = 1"
definition WAYLAND_EVENT_CONFIGURE :: u16 where "WAYLAND_EVENT_CONFIGURE = 2"
definition WAYLAND_EVENT_PRESENTED :: u16 where "WAYLAND_EVENT_PRESENTED = 3"
definition EVENT_POLICY_APPLIED :: u16 where "EVENT_POLICY_APPLIED = 1"
definition EVENT_CONFIG_APPLIED :: u16 where "EVENT_CONFIG_APPLIED = 2"
definition CONFIG_HASH_OFFSET :: u64 where "CONFIG_HASH_OFFSET = 0xcbf29ce484222325"
definition CONFIG_HASH_PRIME :: u64 where "CONFIG_HASH_PRIME = 0x00000100000001b3"

datatype ProtocolError =
    InvalidMagic
  | InvalidVersion
  | InvalidSize
  | InvalidCapabilities
  | InvalidConfigHash
  | InvalidProviderValue
  | InvalidWallpaper
  | InvalidEvent
  | InvalidGeneration
  | InvalidFileDescriptor
  | ReservedBits

section \<open>Desktop commits\<close>

record DesktopCommit =
  dc_magic :: u64
  dc_version :: u16
  dc_size :: u16
  dc_capabilities :: u32
  waybar_hash :: u64
  swww_hash :: u64
  cpu_usage :: u8
  memory_percentage :: u8
  wallpaper :: u8
  dc_reserved :: "u8 list"

definition DesktopCommit_new :: "u64 \<Rightarrow> u64 \<Rightarrow> u8 \<Rightarrow> u8 \<Rightarrow> u8 \<Rightarrow> DesktopCommit" where
  "DesktopCommit_new waybar swww cpu memory paper =
     \<lparr>dc_magic = DESKTOP_PROTOCOL_MAGIC, dc_version = DESKTOP_PROTOCOL_VERSION, dc_size = word_of_nat COMMIT_SIZE,
      dc_capabilities = REQUIRED_CAPABILITIES, waybar_hash = waybar, swww_hash = swww, cpu_usage = cpu,
      memory_percentage = memory, wallpaper = paper, dc_reserved = replicate 5 0\<rparr>"

definition DesktopCommit_validate :: "DesktopCommit \<Rightarrow> ProtocolError + unit" where
  "DesktopCommit_validate c =
    (if dc_magic c \<noteq> DESKTOP_PROTOCOL_MAGIC then Inl InvalidMagic
     else if dc_version c \<noteq> DESKTOP_PROTOCOL_VERSION then Inl InvalidVersion
     else if unat (dc_size c) \<noteq> COMMIT_SIZE then Inl InvalidSize
     else if dc_capabilities c \<noteq> REQUIRED_CAPABILITIES then Inl InvalidCapabilities
     else if waybar_hash c = 0 \<or> swww_hash c = 0 then Inl InvalidConfigHash
     else if 100 < cpu_usage c \<or> 100 < memory_percentage c then Inl InvalidProviderValue
     else if wallpaper c \<noteq> WALLPAPER_AURORA then Inl InvalidWallpaper
     else if dc_reserved c \<noteq> replicate 5 0 then Inl ReservedBits
     else Inr ())"

definition DesktopCommit_decode :: "u8 list \<Rightarrow> ProtocolError + DesktopCommit" where
  "DesktopCommit_decode bytes =
    (if length bytes \<noteq> COMMIT_SIZE then Inl InvalidSize
     else
       let commit = \<lparr>dc_magic = from_le_bytes (take 8 bytes), dc_version = from_le_bytes (take 2 (drop 8 bytes)),
             dc_size = from_le_bytes (take 2 (drop 10 bytes)), dc_capabilities = from_le_bytes (take 4 (drop 12 bytes)),
             waybar_hash = from_le_bytes (take 8 (drop 16 bytes)), swww_hash = from_le_bytes (take 8 (drop 24 bytes)),
             cpu_usage = bytes ! 32, memory_percentage = bytes ! 33, wallpaper = bytes ! 34,
             dc_reserved = take 5 (drop 35 bytes)\<rparr>
       in rbind (DesktopCommit_validate commit) (\<lambda>_. Inr commit))"

section \<open>Desktop service events\<close>

record DesktopServiceEvent =
  se_magic :: u64
  se_version :: u16
  se_size :: u16
  se_kind :: u16
  se_flags :: u16
  se_generation :: u64
  se_capabilities :: u32
  se_reserved :: "u8 list"

definition DesktopServiceEvent_new :: "u16 \<Rightarrow> u64 \<Rightarrow> DesktopServiceEvent" where
  "DesktopServiceEvent_new kind generation =
     \<lparr>se_magic = DESKTOP_PROTOCOL_MAGIC, se_version = DESKTOP_PROTOCOL_VERSION, se_size = word_of_nat EVENT_SIZE,
      se_kind = kind, se_flags = 0, se_generation = generation, se_capabilities = REQUIRED_CAPABILITIES,
      se_reserved = replicate 4 0\<rparr>"

definition policy_applied :: "u64 \<Rightarrow> DesktopServiceEvent" where
  "policy_applied generation = DesktopServiceEvent_new EVENT_POLICY_APPLIED generation"

definition config_applied :: "u64 \<Rightarrow> DesktopServiceEvent" where
  "config_applied generation = DesktopServiceEvent_new EVENT_CONFIG_APPLIED generation"

text \<open>The successive \<open>copy_from_slice\<close> calls fill the array from its start to its end.\<close>

definition DesktopServiceEvent_encode :: "DesktopServiceEvent \<Rightarrow> u8 list" where
  "DesktopServiceEvent_encode e =
     to_le_bytes (se_magic e) @ to_le_bytes (se_version e) @ to_le_bytes (se_size e) @ to_le_bytes (se_kind e)
     @ to_le_bytes (se_flags e) @ to_le_bytes (se_generation e) @ to_le_bytes (se_capabilities e) @ se_reserved e"

definition DesktopServiceEvent_validate :: "DesktopServiceEvent \<Rightarrow> ProtocolError + unit" where
  "DesktopServiceEvent_validate e =
    (if se_magic e \<noteq> DESKTOP_PROTOCOL_MAGIC then Inl InvalidMagic
     else if se_version e \<noteq> DESKTOP_PROTOCOL_VERSION then Inl InvalidVersion
     else if unat (se_size e) \<noteq> EVENT_SIZE then Inl InvalidSize
     else if se_kind e \<noteq> EVENT_POLICY_APPLIED \<and> se_kind e \<noteq> EVENT_CONFIG_APPLIED then Inl InvalidEvent
     else if se_flags e \<noteq> 0 \<or> se_reserved e \<noteq> replicate 4 0 then Inl ReservedBits
     else if se_generation e = 0 then Inl InvalidGeneration
     else if se_capabilities e \<noteq> REQUIRED_CAPABILITIES then Inl InvalidCapabilities
     else Inr ())"

definition DesktopServiceEvent_decode :: "u8 list \<Rightarrow> ProtocolError + DesktopServiceEvent" where
  "DesktopServiceEvent_decode bytes =
    (if length bytes \<noteq> EVENT_SIZE then Inl InvalidSize
     else
       let event = \<lparr>se_magic = from_le_bytes (take 8 bytes), se_version = from_le_bytes (take 2 (drop 8 bytes)),
             se_size = from_le_bytes (take 2 (drop 10 bytes)), se_kind = from_le_bytes (take 2 (drop 12 bytes)),
             se_flags = from_le_bytes (take 2 (drop 14 bytes)), se_generation = from_le_bytes (take 8 (drop 16 bytes)),
             se_capabilities = from_le_bytes (take 4 (drop 24 bytes)), se_reserved = take 4 (drop 28 bytes)\<rparr>
       in rbind (DesktopServiceEvent_validate event) (\<lambda>_. Inr event))"

section \<open>Reading\<close>

definition dp_read_u16 :: "u8 list \<Rightarrow> nat \<Rightarrow> ProtocolError + u16" where
  "dp_read_u16 bytes off = rbind (ok_or InvalidSize (get_range bytes off (off + 2))) (\<lambda>v. Inr (from_le_bytes v))"

definition dp_read_u32 :: "u8 list \<Rightarrow> nat \<Rightarrow> ProtocolError + u32" where
  "dp_read_u32 bytes off = rbind (ok_or InvalidSize (get_range bytes off (off + 4))) (\<lambda>v. Inr (from_le_bytes v))"

definition dp_read_u64 :: "u8 list \<Rightarrow> nat \<Rightarrow> ProtocolError + u64" where
  "dp_read_u64 bytes off = rbind (ok_or InvalidSize (get_range bytes off (off + 8))) (\<lambda>v. Inr (from_le_bytes v))"

section \<open>Wayland surface headers\<close>

record WaylandSurfaceHeader =
  sh_magic :: u64
  sh_version :: u16
  sh_size :: u16
  sh_wire_length :: u32
  sh_pixel_length :: u32
  sh_file_descriptor :: i32
  sh_reserved :: u64

definition WaylandSurfaceHeader_new :: "u32 \<Rightarrow> u32 \<Rightarrow> WaylandSurfaceHeader" where
  "WaylandSurfaceHeader_new wire_length pixel_length =
     \<lparr>sh_magic = WAYLAND_SURFACE_MAGIC, sh_version = WAYLAND_SURFACE_VERSION,
      sh_size = word_of_nat WAYLAND_SURFACE_HEADER_SIZE, sh_wire_length = wire_length, sh_pixel_length = pixel_length,
      sh_file_descriptor = (if pixel_length = 0 then WAYLAND_NO_FILE_DESCRIPTOR else WAYLAND_INLINE_SHM_FD),
      sh_reserved = 0\<rparr>"

definition WaylandSurfaceHeader_total_size :: "WaylandSurfaceHeader \<Rightarrow> ProtocolError + nat" where
  "WaylandSurfaceHeader_total_size h =
     ok_or InvalidSize
       (Option.bind (usize_add WAYLAND_SURFACE_HEADER_SIZE (unat (sh_wire_length h))) (\<lambda>sz.
        Option.bind (usize_add sz (unat (sh_pixel_length h))) (\<lambda>total.
        if total \<le> WAYLAND_SURFACE_MAX_SIZE then Some total else None)))"

definition WaylandSurfaceHeader_validate :: "WaylandSurfaceHeader \<Rightarrow> ProtocolError + unit" where
  "WaylandSurfaceHeader_validate h =
    (if sh_magic h \<noteq> WAYLAND_SURFACE_MAGIC then Inl InvalidMagic
     else if sh_version h \<noteq> WAYLAND_SURFACE_VERSION then Inl InvalidVersion
     else if unat (sh_size h) \<noteq> WAYLAND_SURFACE_HEADER_SIZE then Inl InvalidSize
     else
       let wire_length = unat (sh_wire_length h); pixel_length = unat (sh_pixel_length h) in
       if wire_length = 0 \<or> WAYLAND_SURFACE_MAX_WIRE_SIZE < wire_length \<or> wire_length mod 4 \<noteq> 0
          \<or> WAYLAND_SURFACE_MAX_PIXEL_SIZE < pixel_length \<or> pixel_length mod 4 \<noteq> 0
       then Inl InvalidSize
       else if sh_file_descriptor h \<noteq> (if pixel_length = 0 then WAYLAND_NO_FILE_DESCRIPTOR else WAYLAND_INLINE_SHM_FD)
       then Inl InvalidFileDescriptor
       else if sh_reserved h \<noteq> 0 then Inl ReservedBits
       else rbind (WaylandSurfaceHeader_total_size h) (\<lambda>_. Inr ()))"

definition WaylandSurfaceHeader_decode :: "u8 list \<Rightarrow> ProtocolError + WaylandSurfaceHeader" where
  "WaylandSurfaceHeader_decode bytes =
    (if length bytes \<noteq> WAYLAND_SURFACE_HEADER_SIZE then Inl InvalidSize
     else
       rbind (dp_read_u64 bytes 0) (\<lambda>m.
       rbind (dp_read_u16 bytes 8) (\<lambda>v.
       rbind (dp_read_u16 bytes 10) (\<lambda>s.
       rbind (dp_read_u32 bytes 12) (\<lambda>w.
       rbind (dp_read_u32 bytes 16) (\<lambda>p.
       rbind (dp_read_u32 bytes 20) (\<lambda>d.
       rbind (dp_read_u64 bytes 24) (\<lambda>r.
       let header = \<lparr>sh_magic = m, sh_version = v, sh_size = s, sh_wire_length = w, sh_pixel_length = p,
             sh_file_descriptor = d, sh_reserved = r\<rparr>
       in rbind (WaylandSurfaceHeader_validate header) (\<lambda>_. Inr header)))))))))"

definition WaylandSurfaceHeader_encode :: "WaylandSurfaceHeader \<Rightarrow> u8 list" where
  "WaylandSurfaceHeader_encode h =
     to_le_bytes (sh_magic h) @ to_le_bytes (sh_version h) @ to_le_bytes (sh_size h) @ to_le_bytes (sh_wire_length h)
     @ to_le_bytes (sh_pixel_length h) @ to_le_bytes (sh_file_descriptor h) @ to_le_bytes (sh_reserved h)"

section \<open>Wayland event headers\<close>

record WaylandEventHeader =
  eh_magic :: u64
  eh_version :: u16
  eh_size :: u16
  eh_kind :: u16
  eh_flags :: u16
  eh_sequence :: u64
  eh_wire_length :: u32
  eh_reserved :: u32

definition WaylandEventHeader_new :: "u16 \<Rightarrow> u64 \<Rightarrow> u32 \<Rightarrow> WaylandEventHeader" where
  "WaylandEventHeader_new kind sequence wire_length =
     \<lparr>eh_magic = WAYLAND_EVENT_MAGIC, eh_version = WAYLAND_EVENT_VERSION,
      eh_size = word_of_nat WAYLAND_EVENT_HEADER_SIZE, eh_kind = kind, eh_flags = 0, eh_sequence = sequence,
      eh_wire_length = wire_length, eh_reserved = 0\<rparr>"

definition WaylandEventHeader_validate :: "WaylandEventHeader \<Rightarrow> ProtocolError + unit" where
  "WaylandEventHeader_validate h =
    (if eh_magic h \<noteq> WAYLAND_EVENT_MAGIC then Inl InvalidMagic
     else if eh_version h \<noteq> WAYLAND_EVENT_VERSION then Inl InvalidVersion
     else if unat (eh_size h) \<noteq> WAYLAND_EVENT_HEADER_SIZE then Inl InvalidSize
     else if \<not> (eh_kind h = WAYLAND_EVENT_REGISTRY \<or> eh_kind h = WAYLAND_EVENT_CONFIGURE
                \<or> eh_kind h = WAYLAND_EVENT_PRESENTED)
     then Inl InvalidEvent
     else if eh_sequence h = 0 then Inl InvalidGeneration
     else
       let wire_length = unat (eh_wire_length h) in
       if wire_length = 0 \<or> WAYLAND_EVENT_MAX_WIRE_SIZE < wire_length \<or> wire_length mod 4 \<noteq> 0 then Inl InvalidSize
       else if eh_flags h \<noteq> 0 \<or> eh_reserved h \<noteq> 0 then Inl ReservedBits
       else Inr ())"

definition WaylandEventHeader_decode :: "u8 list \<Rightarrow> ProtocolError + WaylandEventHeader" where
  "WaylandEventHeader_decode bytes =
    (if length bytes \<noteq> WAYLAND_EVENT_HEADER_SIZE then Inl InvalidSize
     else
       rbind (dp_read_u64 bytes 0) (\<lambda>m.
       rbind (dp_read_u16 bytes 8) (\<lambda>v.
       rbind (dp_read_u16 bytes 10) (\<lambda>s.
       rbind (dp_read_u16 bytes 12) (\<lambda>k.
       rbind (dp_read_u16 bytes 14) (\<lambda>f.
       rbind (dp_read_u64 bytes 16) (\<lambda>q.
       rbind (dp_read_u32 bytes 24) (\<lambda>w.
       rbind (dp_read_u32 bytes 28) (\<lambda>r.
       let header = \<lparr>eh_magic = m, eh_version = v, eh_size = s, eh_kind = k, eh_flags = f, eh_sequence = q,
             eh_wire_length = w, eh_reserved = r\<rparr>
       in rbind (WaylandEventHeader_validate header) (\<lambda>_. Inr header))))))))))"

definition WaylandEventHeader_total_size :: "WaylandEventHeader \<Rightarrow> ProtocolError + nat" where
  "WaylandEventHeader_total_size h =
     ok_or InvalidSize
       (Option.bind (usize_add WAYLAND_EVENT_HEADER_SIZE (unat (eh_wire_length h))) (\<lambda>total.
        if total \<le> WAYLAND_EVENT_MAX_SIZE then Some total else None))"

definition WaylandEventHeader_encode :: "WaylandEventHeader \<Rightarrow> u8 list" where
  "WaylandEventHeader_encode h =
     to_le_bytes (eh_magic h) @ to_le_bytes (eh_version h) @ to_le_bytes (eh_size h) @ to_le_bytes (eh_kind h)
     @ to_le_bytes (eh_flags h) @ to_le_bytes (eh_sequence h) @ to_le_bytes (eh_wire_length h) @ to_le_bytes (eh_reserved h)"

section \<open>Server events\<close>

record WaylandServerEvent =
  ev_header :: WaylandEventHeader
  ev_wire :: "u8 list"

definition WaylandServerEvent_validate :: "WaylandServerEvent \<Rightarrow> ProtocolError + unit" where
  "WaylandServerEvent_validate e =
     rbind (WaylandEventHeader_validate (ev_header e)) (\<lambda>_.
     if length (ev_wire e) \<noteq> unat (eh_wire_length (ev_header e)) then Inl InvalidSize else Inr ())"

definition WaylandServerEvent_new :: "u16 \<Rightarrow> u64 \<Rightarrow> u8 list \<Rightarrow> ProtocolError + WaylandServerEvent" where
  "WaylandServerEvent_new kind sequence wire =
    (if 2 ^ 32 \<le> length wire then Inl InvalidSize
     else
       let event = \<lparr>ev_header = WaylandEventHeader_new kind sequence (word_of_nat (length wire)), ev_wire = wire\<rparr>
       in rbind (WaylandServerEvent_validate event) (\<lambda>_. Inr event))"

definition WaylandServerEvent_decode :: "u8 list \<Rightarrow> ProtocolError + WaylandServerEvent" where
  "WaylandServerEvent_decode bytes =
     rbind (ok_or InvalidSize (get_range bytes 0 WAYLAND_EVENT_HEADER_SIZE)) (\<lambda>hb.
     rbind (WaylandEventHeader_decode hb) (\<lambda>header.
     rbind (WaylandEventHeader_total_size header) (\<lambda>total.
     if length bytes \<noteq> total then Inl InvalidSize
     else
       rbind (ok_or InvalidSize (get_range bytes WAYLAND_EVENT_HEADER_SIZE (length bytes))) (\<lambda>wire.
       let event = \<lparr>ev_header = header, ev_wire = wire\<rparr>
       in rbind (WaylandServerEvent_validate event) (\<lambda>_. Inr event)))))"

definition WaylandServerEvent_encode :: "WaylandServerEvent \<Rightarrow> u8 list \<Rightarrow> (ProtocolError + nat) \<times> u8 list" where
  "WaylandServerEvent_encode e destination =
    (case WaylandServerEvent_validate e of
       Inl err \<Rightarrow> (Inl err, destination)
     | Inr _ \<Rightarrow>
         (case WaylandEventHeader_total_size (ev_header e) of
            Inl err \<Rightarrow> (Inl err, destination)
          | Inr total_size \<Rightarrow>
              if length destination < total_size then (Inl InvalidSize, destination)
              else
                let d1 = copy_at destination 0 (WaylandEventHeader_encode (ev_header e));
                    d2 = copy_at d1 WAYLAND_EVENT_HEADER_SIZE (ev_wire e)
                in (Inr total_size, d2)))"

section \<open>Surface commits\<close>

record WaylandSurfaceCommit =
  sc_header :: WaylandSurfaceHeader
  sc_wire :: "u8 list"
  sc_pixels :: "u8 list"

definition WaylandSurfaceCommit_validate :: "WaylandSurfaceCommit \<Rightarrow> ProtocolError + unit" where
  "WaylandSurfaceCommit_validate c =
     rbind (WaylandSurfaceHeader_validate (sc_header c)) (\<lambda>_.
     if length (sc_wire c) \<noteq> unat (sh_wire_length (sc_header c))
        \<or> length (sc_pixels c) \<noteq> unat (sh_pixel_length (sc_header c))
     then Inl InvalidSize else Inr ())"

definition WaylandSurfaceCommit_new :: "u8 list \<Rightarrow> u8 list \<Rightarrow> ProtocolError + WaylandSurfaceCommit" where
  "WaylandSurfaceCommit_new wire pixels =
    (if 2 ^ 32 \<le> length wire then Inl InvalidSize
     else if 2 ^ 32 \<le> length pixels then Inl InvalidSize
     else
       let commit = \<lparr>sc_header = WaylandSurfaceHeader_new (word_of_nat (length wire)) (word_of_nat (length pixels)),
             sc_wire = wire, sc_pixels = pixels\<rparr>
       in rbind (WaylandSurfaceCommit_validate commit) (\<lambda>_. Inr commit))"

definition WaylandSurfaceCommit_decode :: "u8 list \<Rightarrow> ProtocolError + WaylandSurfaceCommit" where
  "WaylandSurfaceCommit_decode bytes =
     rbind (ok_or InvalidSize (get_range bytes 0 WAYLAND_SURFACE_HEADER_SIZE)) (\<lambda>hb.
     rbind (WaylandSurfaceHeader_decode hb) (\<lambda>header.
     rbind (WaylandSurfaceHeader_total_size header) (\<lambda>total.
     if length bytes \<noteq> total then Inl InvalidSize
     else
       rbind (ok_or InvalidSize (usize_add WAYLAND_SURFACE_HEADER_SIZE (unat (sh_wire_length header)))) (\<lambda>wire_end.
       rbind (ok_or InvalidSize (get_range bytes WAYLAND_SURFACE_HEADER_SIZE wire_end)) (\<lambda>wire.
       rbind (ok_or InvalidSize (get_range bytes wire_end (length bytes))) (\<lambda>pixels.
       let commit = \<lparr>sc_header = header, sc_wire = wire, sc_pixels = pixels\<rparr>
       in rbind (WaylandSurfaceCommit_validate commit) (\<lambda>_. Inr commit)))))))"

definition WaylandSurfaceCommit_encode :: "WaylandSurfaceCommit \<Rightarrow> u8 list \<Rightarrow> (ProtocolError + nat) \<times> u8 list" where
  "WaylandSurfaceCommit_encode c destination =
    (case WaylandSurfaceCommit_validate c of
       Inl err \<Rightarrow> (Inl err, destination)
     | Inr _ \<Rightarrow>
         (case WaylandSurfaceHeader_total_size (sc_header c) of
            Inl err \<Rightarrow> (Inl err, destination)
          | Inr total_size \<Rightarrow>
              if length destination < total_size then (Inl InvalidSize, destination)
              else
                let d1 = copy_at destination 0 (WaylandSurfaceHeader_encode (sc_header c));
                    wire_end = WAYLAND_SURFACE_HEADER_SIZE + length (sc_wire c);
                    d2 = copy_at d1 WAYLAND_SURFACE_HEADER_SIZE (sc_wire c);
                    d3 = copy_at d2 wire_end (sc_pixels c)
                in (Inr total_size, d3)))"

section \<open>Configuration hash\<close>

primrec config_hash_extend :: "u64 \<Rightarrow> u8 list \<Rightarrow> u64" where
  "config_hash_extend hash [] = hash"
| "config_hash_extend hash (b # bytes) = config_hash_extend ((hash XOR ucast b) * CONFIG_HASH_PRIME) bytes"

definition config_hash :: "u8 list \<Rightarrow> u64" where
  "config_hash bytes = config_hash_extend CONFIG_HASH_OFFSET bytes"

end
