(* ===== verification/Codec.thy ===== *)
theory Codec
  imports Slop_Prelude
begin

text \<open>
  The contract of a wire format: encoding a valid value and decoding it again is the identity, and a
  byte string is accepted only if it is the encoding of a valid value. From it: encodings are unambiguous,
  and the accepted strings are exactly the encodings. When all encodings have one length, a following
  payload can be told from the header.
\<close>

locale codec =
  fixes valid :: "'a \<Rightarrow> bool"
    and enc :: "'a \<Rightarrow> u8 list"
    and dec :: "u8 list \<Rightarrow> 'e + 'a"
  assumes dec_enc: "valid x \<Longrightarrow> dec (enc x) = Inr x"
    and dec_Inr: "dec bs = Inr x \<Longrightarrow> valid x \<and> enc x = bs"
begin

lemma dec_iff: "dec bs = Inr x \<longleftrightarrow> valid x \<and> enc x = bs"
  using dec_enc dec_Inr by blast

lemma enc_inj: "valid x \<Longrightarrow> valid y \<Longrightarrow> enc x = enc y \<Longrightarrow> x = y"
  by (metis dec_enc sum.inject(2))

lemma accepted_iff: "(\<exists>x. dec bs = Inr x) \<longleftrightarrow> bs \<in> enc ` {x. valid x}"
  by (auto simp: dec_iff)

lemma rejected_iff: "(\<exists>e. dec bs = Inl e) \<longleftrightarrow> bs \<notin> enc ` {x. valid x}"
  using accepted_iff [of bs] by (cases "dec bs") auto

end

locale header_codec = codec +
  fixes n :: nat
  assumes enc_length: "valid x \<Longrightarrow> length (enc x) = n"
begin

lemma header_then_payload:
  assumes "valid x" and "valid y" and "enc x @ r = enc y @ s"
  shows "x = y \<and> r = s"
  using assms enc_length enc_inj by (metis append_eq_append_conv)

lemma dec_prefix:
  "dec (take n bs) = Inr x \<longleftrightarrow> valid x \<and> (\<exists>r. bs = enc x @ r)"
  by (metis append_take_drop_id append_eq_conv_conj dec_iff enc_length)

end

end
