(* ===== verification/Desktop_Protocol_Proofs.thy ===== *)
theory Desktop_Protocol_Proofs
  imports Desktop_Protocol Codec
begin

text \<open>
  The wire formats of the desktop protocol are codecs, the variable-length messages survive a caller's
  buffer, and the configuration hash is incremental and tells any two configurations that differ in one
  byte apart.
\<close>

section \<open>Fixed-size records\<close>

lemma take_split: "take n (drop a xs) @ drop (a + n) xs = drop a xs"
  by (metis append_take_drop_id drop_drop add.commute)

lemma le_fields:
  "length bs = 2 \<Longrightarrow> to_le_bytes (from_le_bytes bs :: u16) = bs"
  "length bs = 4 \<Longrightarrow> to_le_bytes (from_le_bytes bs :: u32) = bs"
  "length bs = 8 \<Longrightarrow> to_le_bytes (from_le_bytes bs :: u64) = bs"
  by (simp_all add: to_from_le_bytes)

lemma dp_reads:
  "dp_read_u16 bytes k = Inr v \<longleftrightarrow> k + 2 \<le> length bytes \<and> v = from_le_bytes (take 2 (drop k bytes))"
  "dp_read_u32 bytes k = Inr w \<longleftrightarrow> k + 4 \<le> length bytes \<and> w = from_le_bytes (take 4 (drop k bytes))"
  "dp_read_u64 bytes k = Inr x \<longleftrightarrow> k + 8 \<le> length bytes \<and> x = from_le_bytes (take 8 (drop k bytes))"
  by (auto simp: dp_read_u16_def dp_read_u32_def dp_read_u64_def result_simps get_range_Some)

abbreviation service_event_ok :: "DesktopServiceEvent \<Rightarrow> bool" where
  "service_event_ok e \<equiv> DesktopServiceEvent_validate e = Inr ()"

abbreviation surface_header_ok :: "WaylandSurfaceHeader \<Rightarrow> bool" where
  "surface_header_ok h \<equiv> WaylandSurfaceHeader_validate h = Inr ()"

abbreviation event_header_ok :: "WaylandEventHeader \<Rightarrow> bool" where
  "event_header_ok h \<equiv> WaylandEventHeader_validate h = Inr ()"

lemma service_event_reserved: "service_event_ok e \<Longrightarrow> se_reserved e = [0, 0, 0, 0]"
  by (simp add: DesktopServiceEvent_validate_def numeral_eq_Suc split: if_splits)

interpretation service_events: header_codec service_event_ok DesktopServiceEvent_encode DesktopServiceEvent_decode 32
proof
  fix e
  assume ok: "service_event_ok e"
  then show "DesktopServiceEvent_decode (DesktopServiceEvent_encode e) = Inr e"
    using service_event_reserved [OF ok]
    by (cases e) (simp add: DesktopServiceEvent_decode_def DesktopServiceEvent_encode_def EVENT_SIZE_def Let_def)
  from ok show "length (DesktopServiceEvent_encode e) = 32"
    by (simp add: DesktopServiceEvent_encode_def service_event_reserved)
next
  fix bs e
  assume "DesktopServiceEvent_decode bs = Inr e"
  then have len: "length bs = 32" and ok: "service_event_ok e"
    and e: "e = \<lparr>se_magic = from_le_bytes (take 8 bs), se_version = from_le_bytes (take 2 (drop 8 bs)),
             se_size = from_le_bytes (take 2 (drop 10 bs)), se_kind = from_le_bytes (take 2 (drop 12 bs)),
             se_flags = from_le_bytes (take 2 (drop 14 bs)), se_generation = from_le_bytes (take 8 (drop 16 bs)),
             se_capabilities = from_le_bytes (take 4 (drop 24 bs)), se_reserved = take 4 (drop 28 bs)\<rparr>"
    by (auto simp: DesktopServiceEvent_decode_def EVENT_SIZE_def Let_def result_simps split: if_splits)
  have "DesktopServiceEvent_encode e = bs"
    using len take_split [of 8 0 bs] take_split [of 2 8 bs] take_split [of 2 10 bs] take_split [of 2 12 bs]
      take_split [of 2 14 bs] take_split [of 8 16 bs] take_split [of 4 24 bs]
    by (simp add: e DesktopServiceEvent_encode_def le_fields)
  with ok show "service_event_ok e \<and> DesktopServiceEvent_encode e = bs" by simp
qed

interpretation surface_headers: header_codec surface_header_ok WaylandSurfaceHeader_encode WaylandSurfaceHeader_decode 32
proof
  fix h
  assume "surface_header_ok h"
  then show "WaylandSurfaceHeader_decode (WaylandSurfaceHeader_encode h) = Inr h"
    by (cases h) (simp add: WaylandSurfaceHeader_decode_def WaylandSurfaceHeader_encode_def WAYLAND_SURFACE_HEADER_SIZE_def
        Let_def dp_read_u16_def dp_read_u32_def dp_read_u64_def get_range_def)
  show "length (WaylandSurfaceHeader_encode h) = 32" by (simp add: WaylandSurfaceHeader_encode_def)
next
  fix bs h
  assume "WaylandSurfaceHeader_decode bs = Inr h"
  then have len: "length bs = 32" and ok: "surface_header_ok h"
    and h: "h = \<lparr>sh_magic = from_le_bytes (take 8 bs), sh_version = from_le_bytes (take 2 (drop 8 bs)),
             sh_size = from_le_bytes (take 2 (drop 10 bs)), sh_wire_length = from_le_bytes (take 4 (drop 12 bs)),
             sh_pixel_length = from_le_bytes (take 4 (drop 16 bs)), sh_file_descriptor = from_le_bytes (take 4 (drop 20 bs)),
             sh_reserved = from_le_bytes (take 8 (drop 24 bs))\<rparr>"
    by (auto simp: WaylandSurfaceHeader_decode_def WAYLAND_SURFACE_HEADER_SIZE_def Let_def result_simps dp_reads split: if_splits)
  have "WaylandSurfaceHeader_encode h = bs"
    using len take_split [of 8 0 bs] take_split [of 2 8 bs] take_split [of 2 10 bs] take_split [of 4 12 bs]
      take_split [of 4 16 bs] take_split [of 4 20 bs]
    by (simp add: h WaylandSurfaceHeader_encode_def le_fields)
  with ok show "surface_header_ok h \<and> WaylandSurfaceHeader_encode h = bs" by simp
qed

interpretation event_headers: header_codec event_header_ok WaylandEventHeader_encode WaylandEventHeader_decode 32
proof
  fix h
  assume "event_header_ok h"
  then show "WaylandEventHeader_decode (WaylandEventHeader_encode h) = Inr h"
    by (cases h) (simp add: WaylandEventHeader_decode_def WaylandEventHeader_encode_def WAYLAND_EVENT_HEADER_SIZE_def
        Let_def dp_read_u16_def dp_read_u32_def dp_read_u64_def get_range_def)
  show "length (WaylandEventHeader_encode h) = 32" by (simp add: WaylandEventHeader_encode_def)
next
  fix bs h
  assume "WaylandEventHeader_decode bs = Inr h"
  then have len: "length bs = 32" and ok: "event_header_ok h"
    and h: "h = \<lparr>eh_magic = from_le_bytes (take 8 bs), eh_version = from_le_bytes (take 2 (drop 8 bs)),
             eh_size = from_le_bytes (take 2 (drop 10 bs)), eh_kind = from_le_bytes (take 2 (drop 12 bs)),
             eh_flags = from_le_bytes (take 2 (drop 14 bs)), eh_sequence = from_le_bytes (take 8 (drop 16 bs)),
             eh_wire_length = from_le_bytes (take 4 (drop 24 bs)), eh_reserved = from_le_bytes (take 4 (drop 28 bs))\<rparr>"
    by (auto simp: WaylandEventHeader_decode_def WAYLAND_EVENT_HEADER_SIZE_def Let_def result_simps dp_reads split: if_splits)
  have "WaylandEventHeader_encode h = bs"
    using len take_split [of 8 0 bs] take_split [of 2 8 bs] take_split [of 2 10 bs] take_split [of 2 12 bs]
      take_split [of 2 14 bs] take_split [of 8 16 bs] take_split [of 4 24 bs]
    by (simp add: h WaylandEventHeader_encode_def le_fields)
  with ok show "event_header_ok h \<and> WaylandEventHeader_encode h = bs" by simp
qed

section \<open>Messages with a payload\<close>

abbreviation server_event_ok :: "WaylandServerEvent \<Rightarrow> bool" where
  "server_event_ok e \<equiv> WaylandServerEvent_validate e = Inr ()"

abbreviation surface_commit_ok :: "WaylandSurfaceCommit \<Rightarrow> bool" where
  "surface_commit_ok c \<equiv> WaylandSurfaceCommit_validate c = Inr ()"

text \<open>The bytes of a message.\<close>

definition server_event_bytes :: "WaylandServerEvent \<Rightarrow> u8 list" where
  "server_event_bytes e = WaylandEventHeader_encode (ev_header e) @ ev_wire e"

definition surface_commit_bytes :: "WaylandSurfaceCommit \<Rightarrow> u8 list" where
  "surface_commit_bytes c = WaylandSurfaceHeader_encode (sc_header c) @ sc_wire c @ sc_pixels c"

lemma server_event_ok_iff:
  "server_event_ok e \<longleftrightarrow> event_header_ok (ev_header e) \<and> length (ev_wire e) = unat (eh_wire_length (ev_header e))"
  by (auto simp: WaylandServerEvent_validate_def result_simps split: if_splits)

lemma surface_commit_ok_iff:
  "surface_commit_ok c \<longleftrightarrow> surface_header_ok (sc_header c) \<and> length (sc_wire c) = unat (sh_wire_length (sc_header c))
     \<and> length (sc_pixels c) = unat (sh_pixel_length (sc_header c))"
  by (auto simp: WaylandSurfaceCommit_validate_def result_simps split: if_splits)

lemma event_total_size:
  "event_header_ok h \<Longrightarrow> WaylandEventHeader_total_size h = Inr (32 + unat (eh_wire_length h))"
  by (auto simp: WaylandEventHeader_validate_def WaylandEventHeader_total_size_def usize_add_def usize_limit_def
      WAYLAND_EVENT_HEADER_SIZE_def WAYLAND_EVENT_MAX_WIRE_SIZE_def WAYLAND_EVENT_MAX_SIZE_def Let_def split: if_splits)

lemma surface_total_size:
  "surface_header_ok h \<Longrightarrow>
     WaylandSurfaceHeader_total_size h = Inr (32 + unat (sh_wire_length h) + unat (sh_pixel_length h))"
  by (auto simp: WaylandSurfaceHeader_validate_def WaylandSurfaceHeader_total_size_def usize_add_def usize_limit_def
      WAYLAND_SURFACE_HEADER_SIZE_def WAYLAND_SURFACE_MAX_WIRE_SIZE_def WAYLAND_SURFACE_MAX_PIXEL_SIZE_def
      WAYLAND_SURFACE_MAX_SIZE_def Let_def split: if_splits)

interpretation server_events: codec server_event_ok server_event_bytes WaylandServerEvent_decode
proof
  fix e
  assume valid: "server_event_ok e"
  then have ok: "event_header_ok (ev_header e)" "length (ev_wire e) = unat (eh_wire_length (ev_header e))"
    by (simp_all add: server_event_ok_iff)
  with valid event_headers.dec_enc [OF ok(1)] event_headers.enc_length [OF ok(1)] event_total_size [OF ok(1)]
  show "WaylandServerEvent_decode (server_event_bytes e) = Inr e"
    by (cases e) (simp add: WaylandServerEvent_decode_def server_event_bytes_def WAYLAND_EVENT_HEADER_SIZE_def
        get_range_def Let_def)
next
  fix bs e
  assume dec: "WaylandServerEvent_decode bs = Inr e"
  then have ok: "server_event_ok e" and len: "32 \<le> length bs" and wire: "ev_wire e = drop 32 bs"
    and header: "WaylandEventHeader_decode (take 32 bs) = Inr (ev_header e)"
    by (auto simp: WaylandServerEvent_decode_def result_simps get_range_Some WAYLAND_EVENT_HEADER_SIZE_def Let_def
        split: if_splits)
  have "server_event_bytes e = bs"
    using event_headers.dec_Inr [OF header] wire by (simp add: server_event_bytes_def)
  with ok show "server_event_ok e \<and> server_event_bytes e = bs" by simp
qed

interpretation surface_commits: codec surface_commit_ok surface_commit_bytes WaylandSurfaceCommit_decode
proof
  fix c
  assume valid: "surface_commit_ok c"
  then have ok: "surface_header_ok (sc_header c)" "length (sc_wire c) = unat (sh_wire_length (sc_header c))"
    "length (sc_pixels c) = unat (sh_pixel_length (sc_header c))"
    by (simp_all add: surface_commit_ok_iff)
  have "usize_add 32 (unat (sh_wire_length (sc_header c))) = Some (32 + unat (sh_wire_length (sc_header c)))"
    using unsigned_less [of "sh_wire_length (sc_header c)", where ?'a = nat] by (simp add: usize_add_def usize_limit_def)
  with valid ok surface_headers.dec_enc [OF ok(1)] surface_headers.enc_length [OF ok(1)] surface_total_size [OF ok(1)]
  show "WaylandSurfaceCommit_decode (surface_commit_bytes c) = Inr c"
    by (cases c) (simp add: WaylandSurfaceCommit_decode_def surface_commit_bytes_def WAYLAND_SURFACE_HEADER_SIZE_def
        get_range_def Let_def)
next
  fix bs c
  assume dec: "WaylandSurfaceCommit_decode bs = Inr c"
  then obtain w where ok: "surface_commit_ok c" and w: "32 \<le> w" "w \<le> length bs"
    and parts: "sc_wire c = take (w - 32) (drop 32 bs)" "sc_pixels c = take (length bs - w) (drop w bs)"
    and header: "WaylandSurfaceHeader_decode (take 32 bs) = Inr (sc_header c)"
    by (auto simp: WaylandSurfaceCommit_decode_def result_simps get_range_Some WAYLAND_SURFACE_HEADER_SIZE_def Let_def
        split: if_splits)
  have "take (w - 32) (drop 32 bs) @ drop w bs = drop 32 bs" using take_split [of "w - 32" 32 bs] w by simp
  with surface_headers.dec_Inr [OF header] parts have "surface_commit_bytes c = bs"
    by (simp add: surface_commit_bytes_def)
  with ok show "surface_commit_ok c \<and> surface_commit_bytes c = bs" by simp
qed

text \<open>Encoding into a buffer writes the message to its start and leaves the rest alone.\<close>

lemma copy_at_left_part:
  "length xs = k \<Longrightarrow> k + length ys \<le> length d \<Longrightarrow> copy_at (copy_at d 0 xs) k ys = copy_at d 0 (xs @ ys)"
  by (simp add: copy_at_def add.commute)

lemma server_event_encode:
  assumes "server_event_ok e" and "length (server_event_bytes e) \<le> length d"
  shows "WaylandServerEvent_encode e d = (Inr (length (server_event_bytes e)), copy_at d 0 (server_event_bytes e))"
proof -
  have ok: "event_header_ok (ev_header e)" "length (ev_wire e) = unat (eh_wire_length (ev_header e))"
    using assms(1) by (simp_all add: server_event_ok_iff)
  with assms event_total_size [OF ok(1)] event_headers.enc_length [OF ok(1)] show ?thesis
    by (simp add: WaylandServerEvent_encode_def server_event_bytes_def WAYLAND_EVENT_HEADER_SIZE_def Let_def copy_at_left_part)
qed

lemma surface_commit_encode:
  assumes "surface_commit_ok c" and "length (surface_commit_bytes c) \<le> length d"
  shows "WaylandSurfaceCommit_encode c d = (Inr (length (surface_commit_bytes c)), copy_at d 0 (surface_commit_bytes c))"
proof -
  have ok: "surface_header_ok (sc_header c)" "length (sc_wire c) = unat (sh_wire_length (sc_header c))"
    "length (sc_pixels c) = unat (sh_pixel_length (sc_header c))"
    using assms(1) by (simp_all add: surface_commit_ok_iff)
  with assms surface_total_size [OF ok(1)] surface_headers.enc_length [OF ok(1)] show ?thesis
    by (simp add: WaylandSurfaceCommit_encode_def surface_commit_bytes_def WAYLAND_SURFACE_HEADER_SIZE_def Let_def
        copy_at_left_part)
qed

lemma server_event_encode_fails:
  assumes "\<not> (server_event_ok e \<and> length (server_event_bytes e) \<le> length d)"
  shows "case WaylandServerEvent_encode e d of (Inr n, d') \<Rightarrow> P n d' | (Inl _, d') \<Rightarrow> d' = d"
proof (cases "WaylandServerEvent_validate e")
  case (Inr u)
  then have ok: "server_event_ok e" by simp
  then have hdr: "event_header_ok (ev_header e)" "length (ev_wire e) = unat (eh_wire_length (ev_header e))"
    by (simp_all add: server_event_ok_iff)
  have "length (server_event_bytes e) = 32 + unat (eh_wire_length (ev_header e))"
    using hdr(2) event_headers.enc_length [OF hdr(1)] by (simp add: server_event_bytes_def)
  with assms ok event_total_size [OF hdr(1)] show ?thesis by (simp add: WaylandServerEvent_encode_def)
qed (simp add: WaylandServerEvent_encode_def)

lemma surface_commit_encode_fails:
  assumes "\<not> (surface_commit_ok c \<and> length (surface_commit_bytes c) \<le> length d)"
  shows "case WaylandSurfaceCommit_encode c d of (Inr n, d') \<Rightarrow> P n d' | (Inl _, d') \<Rightarrow> d' = d"
proof (cases "WaylandSurfaceCommit_validate c")
  case (Inr u)
  then have ok: "surface_commit_ok c" by simp
  then have hdr: "surface_header_ok (sc_header c)" "length (sc_wire c) = unat (sh_wire_length (sc_header c))"
    "length (sc_pixels c) = unat (sh_pixel_length (sc_header c))"
    by (simp_all add: surface_commit_ok_iff)
  have "length (surface_commit_bytes c) = 32 + unat (sh_wire_length (sc_header c)) + unat (sh_pixel_length (sc_header c))"
    using hdr(2,3) surface_headers.enc_length [OF hdr(1)] by (simp add: surface_commit_bytes_def)
  with assms ok surface_total_size [OF hdr(1)] show ?thesis by (simp add: WaylandSurfaceCommit_encode_def)
qed (simp add: WaylandSurfaceCommit_encode_def)

section \<open>The configuration hash\<close>

lemma config_hash_extend_append:
  "config_hash_extend h (xs @ ys) = config_hash_extend (config_hash_extend h xs) ys"
  by (induction xs arbitrary: h) simp_all

text \<open>Multiplication by the odd prime is invertible.\<close>

lemma config_hash_prime_cancel: "x * CONFIG_HASH_PRIME = y * CONFIG_HASH_PRIME \<longleftrightarrow> x = y"
proof
  assume "x * CONFIG_HASH_PRIME = y * CONFIG_HASH_PRIME"
  then have "x * (CONFIG_HASH_PRIME * 0xce965057aff6957b) = y * (CONFIG_HASH_PRIME * 0xce965057aff6957b)" by (simp only: mult.assoc [symmetric])
  moreover have "CONFIG_HASH_PRIME * 0xce965057aff6957b = 1" by (simp add: CONFIG_HASH_PRIME_def)
  ultimately show "x = y" by simp
qed simp

lemma xor_cancel: "(x :: u64) XOR z = y XOR z \<longleftrightarrow> x = y"
proof
  assume "x XOR z = y XOR z"
  then have "(x XOR z) XOR z = (y XOR z) XOR z" by simp
  then show "x = y" by (simp add: xor.assoc)
qed simp

lemma unat_ucast_u64: "unat (ucast (b :: u8) :: u64) = unat b"
  by (rule unat_ucast_up) simp

lemma config_hash_extend_inj: "config_hash_extend g ys = config_hash_extend h ys \<longleftrightarrow> g = h"
  by (induction ys arbitrary: g h) (simp_all add: config_hash_prime_cancel xor_cancel)

section \<open>Properties\<close>

text \<open>\<^bold>\<open>C26\<close>. Encoding a server event or a surface commit into a buffer either fails and leaves the buffer
  alone, or writes a prefix that decodes to the same message and leaves the rest of the buffer alone; and
  the decoders of server events, surface commits and service events accept a byte string exactly when it
  is the encoding of the valid message they return.\<close>

theorem wayland_messages_roundtrip:
  "(case WaylandServerEvent_encode e d of
      (Inr n, d') \<Rightarrow> WaylandServerEvent_decode (take n d') = Inr e \<and> drop n d' = drop n d \<and> length d' = length d
    | (Inl _, d') \<Rightarrow> d' = d)
   \<and> (case WaylandSurfaceCommit_encode c d of
      (Inr n, d') \<Rightarrow> WaylandSurfaceCommit_decode (take n d') = Inr c \<and> drop n d' = drop n d \<and> length d' = length d
    | (Inl _, d') \<Rightarrow> d' = d)
   \<and> (WaylandServerEvent_decode bs = Inr e \<longleftrightarrow> server_event_ok e \<and> server_event_bytes e = bs)
   \<and> (WaylandSurfaceCommit_decode bs = Inr c \<longleftrightarrow> surface_commit_ok c \<and> surface_commit_bytes c = bs)
   \<and> (DesktopServiceEvent_decode bs = Inr s \<longleftrightarrow> service_event_ok s \<and> DesktopServiceEvent_encode s = bs)"
proof (intro conjI server_events.dec_iff surface_commits.dec_iff service_events.dec_iff)
  show "case WaylandServerEvent_encode e d of
      (Inr n, d') \<Rightarrow> WaylandServerEvent_decode (take n d') = Inr e \<and> drop n d' = drop n d \<and> length d' = length d
    | (Inl _, d') \<Rightarrow> d' = d"
  proof (cases "server_event_ok e \<and> length (server_event_bytes e) \<le> length d")
    case True
    then show ?thesis using server_event_encode [of e d] server_events.dec_enc [of e] by (simp add: copy_at_def)
  next
    case False
    then show ?thesis by (rule server_event_encode_fails)
  qed
  show "case WaylandSurfaceCommit_encode c d of
      (Inr n, d') \<Rightarrow> WaylandSurfaceCommit_decode (take n d') = Inr c \<and> drop n d' = drop n d \<and> length d' = length d
    | (Inl _, d') \<Rightarrow> d' = d"
  proof (cases "surface_commit_ok c \<and> length (surface_commit_bytes c) \<le> length d")
    case True
    then show ?thesis using surface_commit_encode [of c d] surface_commits.dec_enc [of c] by (simp add: copy_at_def)
  next
    case False
    then show ?thesis by (rule surface_commit_encode_fails)
  qed
qed

text \<open>Extending the hash of a configuration by further bytes gives the hash of the whole, so it can be
  computed in pieces; and two configurations that differ in exactly one byte have different hashes.\<close>

lemma config_hash_incremental_and_sensitive:
  "config_hash_extend (config_hash xs) ys = config_hash (xs @ ys)
   \<and> (config_hash (xs @ b # ys) = config_hash (xs @ c # ys) \<longleftrightarrow> b = c)"
proof -
  have "(h XOR ucast b) * CONFIG_HASH_PRIME = (h XOR ucast c) * CONFIG_HASH_PRIME \<longleftrightarrow> b = c" for h
  proof -
    have "h XOR ucast b = h XOR ucast c \<longleftrightarrow> (ucast b :: u64) = ucast c"
      using xor_cancel [of "ucast b" h "ucast c"] by (simp add: xor.commute)
    also have "\<dots> \<longleftrightarrow> b = c" by (simp add: word_unat_eq_iff unat_ucast_u64)
    finally show ?thesis by (simp add: config_hash_prime_cancel)
  qed
  then show ?thesis by (simp add: config_hash_def config_hash_extend_append config_hash_extend_inj)
qed

end
