(* ===== verification/Buffer_Edit.thy ===== *)
theory Buffer_Edit
  imports Slop_Prelude
begin

text \<open>
  Fallible code on a mutable borrow: a stateful computation maps the state to a result and the new
  state, and keeps what it changed when it fails later, as the source does. An edit is one whose
  state is a byte buffer, borrowed as \<open>&mut [u8]\<close>. The combinators are the question mark (\<open>ebind\<close>), a read-only computation (\<open>query\<close>), an early return
  (\<open>guard\<close>), and an edit of a prefix of the buffer (\<open>on_prefix\<close>, for \<open>&mut bytes[..n]\<close>).
  The lemmas reduce a chain of writes to \<open>copy_at\<close> and tell what a read after a write returns.
\<close>

type_synonym ('s, 'e, 'a) stateful = "'s \<Rightarrow> ('e + 'a) \<times> 's"

type_synonym ('e, 'a) edit = "(u8 list, 'e, 'a) stateful"

named_theorems edit_simps \<open>unfolding of the edit combinators on a successful run\<close>

definition ebind :: "('s, 'e, 'a) stateful \<Rightarrow> ('a \<Rightarrow> ('s, 'e, 'b) stateful) \<Rightarrow> ('s, 'e, 'b) stateful" where
  "ebind m f b = (case m b of (Inl e, b') \<Rightarrow> (Inl e, b') | (Inr x, b') \<Rightarrow> f x b')"

definition query :: "('s \<Rightarrow> 'e + 'a) \<Rightarrow> ('s, 'e, 'a) stateful" where
  "query f b = (f b, b)"

definition guard :: "bool \<Rightarrow> 'e \<Rightarrow> ('s, 'e, unit) stateful" where
  "guard c e b = (if c then (Inl e, b) else (Inr (), b))"

definition done_ok :: "('s, 'e, unit) stateful" where
  "done_ok b = (Inr (), b)"

definition return_ok :: "'a \<Rightarrow> ('s, 'e, 'a) stateful" where
  "return_ok x s = (Inr x, s)"

definition fail_with :: "'e \<Rightarrow> ('s, 'e, 'a) stateful" where
  "fail_with e s = (Inl e, s)"

definition modify :: "('s \<Rightarrow> 's) \<Rightarrow> ('s, 'e, unit) stateful" where
  "modify f s = (Inr (), f s)"

definition on_prefix :: "nat \<Rightarrow> ('e, 'a) edit \<Rightarrow> ('e, 'a) edit" where
  "on_prefix n m b = (case m (take n b) of (r, p) \<Rightarrow> (r, p @ drop n b))"

definition when_edit :: "bool \<Rightarrow> ('s, 'e, unit) stateful \<Rightarrow> ('s, 'e, unit) stateful" where
  "when_edit c m = (if c then m else done_ok)"

definition overwrite :: "'e \<Rightarrow> nat \<Rightarrow> u8 list \<Rightarrow> ('e, unit) edit" where
  "overwrite e off ys b = (if off + length ys \<le> length b then (Inr (), copy_at b off ys) else (Inl e, b))"

lemma ebind_eq_Inr: "ebind m f b = (Inr y, b2) \<longleftrightarrow> (\<exists>x b1. m b = (Inr x, b1) \<and> f x b1 = (Inr y, b2))"
  by (auto simp: ebind_def split: prod.splits sum.splits)

lemma ebind_Inr [edit_simps]: "m b = (Inr x, b1) \<Longrightarrow> ebind m f b = f x b1"
  by (simp add: ebind_def)

lemma ebind_Inl [edit_simps]: "m b = (Inl e, b1) \<Longrightarrow> ebind m f b = (Inl e, b1)"
  by (simp add: ebind_def)

lemma ebind_query: "ebind (query g) f b = (case g b of Inl e \<Rightarrow> (Inl e, b) | Inr x \<Rightarrow> f x b)"
  by (simp add: ebind_def query_def)

lemma ebind_guard: "ebind (guard c e) f b = (if c then (Inl e, b) else f () b)"
  by (simp add: ebind_def guard_def)

lemma ebind_overwrite [edit_simps]:
  "off + length ys \<le> length b \<Longrightarrow> ebind (overwrite e off ys) f b = f () (copy_at b off ys)"
  by (simp add: ebind_def overwrite_def)

lemma ebind_when [edit_simps]: "ebind (when_edit c m) f b = (if c then ebind m f b else f () b)"
  by (simp add: when_edit_def ebind_def done_ok_def)

lemma ebind_assoc: "ebind (ebind m f) g b = ebind m (\<lambda>x. ebind (f x) g) b"
  by (auto simp: ebind_def split: prod.splits sum.splits)

lemmas edit_early = ebind_query ebind_guard ebind_when

section \<open>Reading fields of a buffer\<close>

definition sub_bytes :: "u8 list \<Rightarrow> nat \<Rightarrow> nat \<Rightarrow> u8 list" where
  "sub_bytes b a n = take n (drop a b)"

text \<open>Fields as total functions of the buffer, for buffers that are long enough.\<close>

definition le16_at :: "u8 list \<Rightarrow> nat \<Rightarrow> u16" where
  "le16_at b off = from_le_bytes (sub_bytes b off 2)"

definition le32_at :: "u8 list \<Rightarrow> nat \<Rightarrow> u32" where
  "le32_at b off = from_le_bytes (sub_bytes b off 4)"

lemma length_sub_bytes [simp]: "a + n \<le> length b \<Longrightarrow> length (sub_bytes b a n) = n"
  by (simp add: sub_bytes_def)

lemma get_range_sub_bytes: "a + n \<le> length b \<Longrightarrow> get_range b a (a + n) = Some (sub_bytes b a n)"
  by (simp add: get_range_def sub_bytes_def)

lemma sub_bytes_copy_same [simp]:
  "a + length ys \<le> length b \<Longrightarrow> n = length ys \<Longrightarrow> sub_bytes (copy_at b a ys) a n = ys"
  by (simp add: sub_bytes_def take_drop_copy_at_same)

lemma sub_bytes_copy_other:
  assumes "a + length ys \<le> length b" and "off + n \<le> a \<or> a + length ys \<le> off"
  shows "sub_bytes (copy_at b a ys) off n = sub_bytes b off n"
proof -
  have "drop off (copy_at b a ys) = drop off b" if "a + length ys \<le> off"
    using that assms(1) by (simp add: copy_at_def)
  moreover have "take n (drop off (copy_at b a ys)) = take n (drop off b)" if "off + n \<le> a"
    using that assms(1) by (simp add: copy_at_def drop_take)
  ultimately show ?thesis using assms(2) by (auto simp: sub_bytes_def)
qed

lemma take_copy_at: "n \<le> a \<Longrightarrow> a + length ys \<le> length b \<Longrightarrow> take n (copy_at b a ys) = take n b"
  by (simp add: copy_at_def)

lemma drop_copy_at: "a + length ys \<le> n \<Longrightarrow> a + length ys \<le> length b \<Longrightarrow> drop n (copy_at b a ys) = drop n b"
  by (simp add: copy_at_def)

lemma take_copy_at_inside:
  assumes "a + length ys \<le> n" and "n \<le> length b"
  shows "take n (copy_at b a ys) = copy_at (take n b) a ys"
  using assms by (intro nth_equalityI) (auto simp: nth_copy_at)

lemma copy_at_append: "a + length ys \<le> length b \<Longrightarrow> copy_at (b @ c) a ys = copy_at b a ys @ c"
  by (simp add: copy_at_def)

lemma nth_sub_bytes: "i < n \<Longrightarrow> a + n \<le> length b \<Longrightarrow> sub_bytes b a n ! i = b ! (a + i)"
  by (simp add: sub_bytes_def)

lemma sub_bytes_cong:
  assumes "\<And>i. off \<le> i \<Longrightarrow> i < off + n \<Longrightarrow> b ! i = b' ! i" and "length b = length b'" and "off + n \<le> length b"
  shows "sub_bytes b off n = sub_bytes b' off n"
  using assms by (intro nth_equalityI) (auto simp: nth_sub_bytes sub_bytes_def)

lemma sub_bytes_take: "off + n \<le> k \<Longrightarrow> sub_bytes (take k b) off n = sub_bytes b off n"
  by (simp add: sub_bytes_def drop_take)

lemma le16_copy_same [simp]: "a + 2 \<le> length b \<Longrightarrow> le16_at (copy_at b a (to_le_bytes (v :: u16))) a = v"
  by (simp add: le16_at_def)

lemma le32_copy_same [simp]: "a + 4 \<le> length b \<Longrightarrow> le32_at (copy_at b a (to_le_bytes (v :: u32))) a = v"
  by (simp add: le32_at_def)

lemma le16_copy_other:
  "a + length ys \<le> length b \<Longrightarrow> off + 2 \<le> a \<or> a + length ys \<le> off \<Longrightarrow> le16_at (copy_at b a ys) off = le16_at b off"
  by (simp add: le16_at_def sub_bytes_copy_other)

lemma le32_copy_other:
  "a + length ys \<le> length b \<Longrightarrow> off + 4 \<le> a \<or> a + length ys \<le> off \<Longrightarrow> le32_at (copy_at b a ys) off = le32_at b off"
  by (simp add: le32_at_def sub_bytes_copy_other)

lemma le16_take: "off + 2 \<le> k \<Longrightarrow> le16_at (take k b) off = le16_at b off"
  by (simp add: le16_at_def sub_bytes_take)

lemma le32_take: "off + 4 \<le> k \<Longrightarrow> le32_at (take k b) off = le32_at b off"
  by (simp add: le32_at_def sub_bytes_take)

lemmas field_simps_other = le16_copy_other le32_copy_other sub_bytes_copy_other

section \<open>Big-endian integers\<close>

definition from_be_bytes :: "u8 list \<Rightarrow> 'a::len word" where
  "from_be_bytes bs = from_le_bytes (rev bs)"

definition to_be_bytes :: "'a::len word \<Rightarrow> u8 list" where
  "to_be_bytes w = rev (to_le_bytes w)"

lemma length_to_be_bytes [simp]: "length (to_be_bytes (w :: 'a::len word)) = LENGTH('a) div 8"
  by (simp add: to_be_bytes_def)

lemma from_to_be_bytes_u16 [simp]: "from_be_bytes (to_be_bytes (w :: u16)) = w"
  and from_to_be_bytes_u32 [simp]: "from_be_bytes (to_be_bytes (v :: u32)) = v"
  by (simp_all add: from_be_bytes_def to_be_bytes_def)

lemma le_nat_zeros: "le_nat (replicate n 0) = 0"
  by (induction n) auto

lemma from_le_bytes_zeros: "from_le_bytes (replicate n 0) = 0"
  by (simp add: from_le_bytes_def le_nat_zeros)

lemma from_be_bytes_zeros: "from_be_bytes (replicate n 0) = 0"
  by (simp add: from_be_bytes_def from_le_bytes_zeros)

section \<open>Long sequences of writes\<close>

text \<open>A list of writes, the latest first, that all fit the buffer.\<close>

fun written :: "(nat \<times> u8 list) list \<Rightarrow> u8 list \<Rightarrow> u8 list" where
  "written [] b = b"
| "written ((a, ys) # ws) b = copy_at (written ws b) a ys"

definition fits :: "nat \<Rightarrow> (nat \<times> u8 list) list \<Rightarrow> bool" where
  "fits n ws \<longleftrightarrow> list_all (\<lambda>(a, ys). a + length ys \<le> n) ws"

lemma fits_simps [simp]: "fits n []" "fits n ((a, ys) # ws) \<longleftrightarrow> a + length ys \<le> n \<and> fits n ws"
  by (simp_all add: fits_def)

lemma length_written: "fits (length b) ws \<Longrightarrow> length (written ws b) = length b"
  by (induction ws) auto

lemma sub_written_same: "fits (length b) ((a, ys) # ws) \<Longrightarrow> n = length ys \<Longrightarrow> sub_bytes (written ((a, ys) # ws) b) a n = ys"
  by (simp add: length_written)

lemma sub_written_other:
  "fits (length b) ((a, ys) # ws) \<Longrightarrow> off + n \<le> a \<or> a + length ys \<le> off \<Longrightarrow>
   sub_bytes (written ((a, ys) # ws) b) off n = sub_bytes (written ws b) off n"
  by (simp add: length_written sub_bytes_copy_other)

lemmas written_simps = sub_written_same sub_written_other

end
