(* ===== verification/Ext4.thy ===== *)
theory Ext4
  imports Buffer_Edit
begin

text \<open>
  The on-disk structures of the ext4 crate: the superblock with its geometry and feature checks, group
  descriptors, inodes and extent trees, their CRC-32C checksums, and the operations that edit a
  superblock or an inode in place. A slice \<open>&bytes[a..b]\<close> is \<open>sub_bytes\<close>; the slices the source takes
  without a check lie inside the buffer whenever the superblock passed in came from
  \<open>Superblock::parse\<close>, which bounds the inode and descriptor sizes from below.
\<close>

section \<open>Constants and errors\<close>

definition SUPERBLOCK_SIZE :: nat where "SUPERBLOCK_SIZE = 1024"
definition SUPERBLOCK_MAGIC :: u16 where "SUPERBLOCK_MAGIC = 0xef53"
definition FEATURE_INCOMPAT_RECOVER :: u32 where "FEATURE_INCOMPAT_RECOVER = 0x0004"
definition FEATURE_INCOMPAT_64BIT :: u32 where "FEATURE_INCOMPAT_64BIT = 0x0080"
definition FEATURE_INCOMPAT_CHECKSUM_SEED :: u32 where "FEATURE_INCOMPAT_CHECKSUM_SEED = 0x2000"
definition FEATURE_READ_ONLY_COMPAT_METADATA_CHECKSUM :: u32 where
  "FEATURE_READ_ONLY_COMPAT_METADATA_CHECKSUM = 0x0400"
definition INODE_FLAG_EXTENTS :: u32 where "INODE_FLAG_EXTENTS = 0x00080000"
definition INODE_FLAG_DIRECTORY_INDEX :: u32 where "INODE_FLAG_DIRECTORY_INDEX = 0x00001000"
definition INODE_FLAG_HUGE_FILE :: u32 where "INODE_FLAG_HUGE_FILE = 0x00040000"
definition FEATURE_INCOMPAT_FILETYPE :: u32 where "FEATURE_INCOMPAT_FILETYPE = 0x0002"
definition FEATURE_INCOMPAT_EXTENTS :: u32 where "FEATURE_INCOMPAT_EXTENTS = 0x0040"
definition FEATURE_INCOMPAT_FLEX_BG :: u32 where "FEATURE_INCOMPAT_FLEX_BG = 0x0200"
definition FEATURE_READ_ONLY_COMPAT_BIGALLOC :: u32 where "FEATURE_READ_ONLY_COMPAT_BIGALLOC = 0x0200"
definition SUPPORTED_INCOMPAT_FEATURES :: u32 where
  "SUPPORTED_INCOMPAT_FEATURES = FEATURE_INCOMPAT_FILETYPE OR FEATURE_INCOMPAT_RECOVER
     OR FEATURE_INCOMPAT_EXTENTS OR FEATURE_INCOMPAT_64BIT OR FEATURE_INCOMPAT_FLEX_BG
     OR FEATURE_INCOMPAT_CHECKSUM_SEED"
definition FILESYSTEM_STATE_CLEAN :: u16 where "FILESYSTEM_STATE_CLEAN = 0x0001"
definition DIRECTORY_MODE :: u16 where "DIRECTORY_MODE = 0x4000"
definition REGULAR_FILE_MODE :: u16 where "REGULAR_FILE_MODE = 0x8000"
definition SYMLINK_MODE :: u16 where "SYMLINK_MODE = 0xa000"
definition MODE_TYPE_MASK :: u16 where "MODE_TYPE_MASK = 0xf000"
definition EXTENT_HEADER_MAGIC :: u16 where "EXTENT_HEADER_MAGIC = 0xf30a"
definition EXTENT_HEADER_SIZE :: nat where "EXTENT_HEADER_SIZE = 12"
definition EXTENT_ENTRY_SIZE :: nat where "EXTENT_ENTRY_SIZE = 12"
definition EXTENT_TAIL_SIZE :: nat where "EXTENT_TAIL_SIZE = 4"
definition MAX_EXTENT_DEPTH :: u16 where "MAX_EXTENT_DEPTH = 5"

datatype Ext4Error =
    Truncated | InvalidMagic | InvalidBlockSize | InvalidInodeSize | InvalidDescriptorSize
  | InvalidGeometry | UnsupportedChecksum | UnsupportedFeature | DirtyFilesystem | InvalidChecksum
  | InvalidInode | InvalidExtent | UnsupportedExtentDepth | UnsupportedDirectoryIndex | NotDirectory
  | InvalidDirectory | InvalidPathComponent | NotSymlink | UnsupportedSymlink | InvalidSymlink
  | InvalidJournal

definition validate_path_component :: "u8 list \<Rightarrow> Ext4Error + unit" where
  "validate_path_component component =
    (if component = [] \<or> 255 < length component \<or> component = [0x2e] \<or> component = [0x2e, 0x2e]
        \<or> list_ex (\<lambda>byte. byte = 0 \<or> byte = 0x2f) component
     then Inl InvalidPathComponent else Inr ())"

section \<open>Fields and checksums\<close>

definition ext4_read_u16 :: "u8 list \<Rightarrow> nat \<Rightarrow> Ext4Error + u16" where
  "ext4_read_u16 bytes off = rbind (ok_or Truncated (get_range bytes off (off + 2))) (\<lambda>v. Inr (from_le_bytes v))"

definition ext4_read_u32 :: "u8 list \<Rightarrow> nat \<Rightarrow> Ext4Error + u32" where
  "ext4_read_u32 bytes off = rbind (ok_or Truncated (get_range bytes off (off + 4))) (\<lambda>v. Inr (from_le_bytes v))"

definition ext4_write_u16 :: "nat \<Rightarrow> u16 \<Rightarrow> (Ext4Error, unit) edit" where
  "ext4_write_u16 off v = overwrite Truncated off (to_le_bytes v)"

definition ext4_write_u32 :: "nat \<Rightarrow> u32 \<Rightarrow> (Ext4Error, unit) edit" where
  "ext4_write_u32 off v = overwrite Truncated off (to_le_bytes v)"

definition read_u16_or_zero :: "u8 list \<Rightarrow> nat \<Rightarrow> u16" where
  "read_u16_or_zero bytes off = (case ext4_read_u16 bytes off of Inl _ \<Rightarrow> 0 | Inr v \<Rightarrow> v)"

text \<open>The inner loop of \<open>crc32c\<close> runs eight times.\<close>

definition crc32c_bit :: "u32 \<Rightarrow> u32" where
  "crc32c_bit checksum =
     (if checksum AND 1 \<noteq> 0 then drop_bit 1 checksum XOR 0x82f63b78 else drop_bit 1 checksum)"

definition crc32c_byte :: "u8 \<Rightarrow> u32 \<Rightarrow> u32" where
  "crc32c_byte byte checksum = (crc32c_bit ^^ 8) (checksum XOR ucast byte)"

definition crc32c :: "u32 \<Rightarrow> u8 list \<Rightarrow> u32" where
  "crc32c seed bytes = fold crc32c_byte bytes seed"

section \<open>The superblock\<close>

record Superblock =
  sb_inode_count :: u32
  sb_block_count :: u64
  sb_free_block_count :: u64
  sb_free_inode_count :: u32
  sb_first_data_block :: u32
  sb_block_size :: u32
  sb_blocks_per_group :: u32
  sb_inodes_per_group :: u32
  sb_state :: u16
  sb_errors :: u16
  sb_revision :: u32
  sb_inode_size :: u16
  sb_descriptor_size :: u16
  sb_feature_compat :: u32
  sb_feature_incompat :: u32
  sb_feature_read_only_compat :: u32
  sb_uuid :: "u8 list"
  sb_volume_name :: "u8 list"
  sb_checksum_type :: u8
  sb_checksum :: u32
  sb_checksum_seed :: u32
  sb_journal_inode :: u32

text \<open>\<open>u64::from(low) | (u64::from(high) << 32)\<close>.\<close>

definition join_u64 :: "u32 \<Rightarrow> u32 \<Rightarrow> u64" where
  "join_u64 low high = ucast low OR push_bit 32 (ucast high)"

definition parse_internal :: "u8 list \<Rightarrow> bool \<Rightarrow> Ext4Error + Superblock" where
  "parse_internal bytes allow_recovery =
    (if length bytes < SUPERBLOCK_SIZE then Inl Truncated
     else
     rbind (ext4_read_u16 bytes 56) (\<lambda>magic.
     if magic \<noteq> SUPERBLOCK_MAGIC then Inl InvalidMagic
     else
     rbind (ext4_read_u32 bytes 24) (\<lambda>logarithm.
     if 6 < logarithm then Inl InvalidBlockSize
     else
     let block_size = push_bit (unat logarithm) (1024 :: u32) in
     rbind (ext4_read_u32 bytes 76) (\<lambda>revision.
     rbind (if revision = 0 then Inr 128 else ext4_read_u16 bytes 88) (\<lambda>inode_size.
     if inode_size < 128 \<or> \<not> is_power_of_two inode_size \<or> block_size < ucast inode_size
     then Inl InvalidInodeSize
     else
     rbind (ext4_read_u32 bytes 96) (\<lambda>feature_incompat.
     rbind (ext4_read_u32 bytes 100) (\<lambda>feature_read_only_compat.
     if feature_incompat AND NOT SUPPORTED_INCOMPAT_FEATURES \<noteq> 0 then Inl UnsupportedFeature
     else
     let wide = feature_incompat AND FEATURE_INCOMPAT_64BIT \<noteq> 0 in
     rbind (if wide then ext4_read_u16 bytes 254 else Inr 32) (\<lambda>descriptor_size.
     if descriptor_size < 32 \<or> \<not> is_power_of_two descriptor_size \<or> block_size < ucast descriptor_size
     then Inl InvalidDescriptorSize
     else
     rbind (ext4_read_u32 bytes 4) (\<lambda>block_count_low.
     rbind (ext4_read_u32 bytes 12) (\<lambda>free_block_count_low.
     rbind (if wide then ext4_read_u32 bytes 336 else Inr 0) (\<lambda>block_count_high.
     rbind (if wide then ext4_read_u32 bytes 344 else Inr 0) (\<lambda>free_block_count_high.
     let uuid = sub_bytes bytes 104 16; volume_name = sub_bytes bytes 120 16; checksum_type = bytes ! 373 in
     rbind (ext4_read_u32 bytes 1020) (\<lambda>checksum.
     rbind (if feature_incompat AND FEATURE_INCOMPAT_CHECKSUM_SEED \<noteq> 0 then ext4_read_u32 bytes 624
            else Inr (crc32c (- 1) uuid)) (\<lambda>checksum_seed.
     let summed = feature_read_only_compat AND FEATURE_READ_ONLY_COMPAT_METADATA_CHECKSUM \<noteq> 0 in
     if summed \<and> checksum_type \<noteq> 1 then Inl UnsupportedChecksum
     else if summed \<and> crc32c (- 1) (take 1020 bytes) \<noteq> checksum then Inl InvalidChecksum
     else
     rbind (ext4_read_u32 bytes 0) (\<lambda>inode_count.
     rbind (ext4_read_u32 bytes 32) (\<lambda>blocks_per_group.
     rbind (ext4_read_u32 bytes 40) (\<lambda>inodes_per_group.
     let block_count = join_u64 block_count_low block_count_high;
         free_block_count = join_u64 free_block_count_low free_block_count_high in
     rbind (ext4_read_u32 bytes 20) (\<lambda>first_data_block.
     if inode_count = 0 \<or> block_count \<le> ucast first_data_block \<or> block_count < free_block_count
        \<or> blocks_per_group = 0 \<or> inodes_per_group = 0
     then Inl InvalidGeometry
     else
     rbind (ext4_read_u16 bytes 58) (\<lambda>state.
     if state AND FILESYSTEM_STATE_CLEAN = 0
        \<or> (\<not> allow_recovery \<and> feature_incompat AND FEATURE_INCOMPAT_RECOVER \<noteq> 0)
     then Inl DirtyFilesystem
     else
     rbind (ext4_read_u32 bytes 16) (\<lambda>free_inode_count.
     rbind (ext4_read_u16 bytes 60) (\<lambda>errors.
     rbind (ext4_read_u32 bytes 92) (\<lambda>feature_compat.
     rbind (ext4_read_u32 bytes 224) (\<lambda>journal_inode.
     Inr \<lparr>sb_inode_count = inode_count, sb_block_count = block_count,
          sb_free_block_count = free_block_count, sb_free_inode_count = free_inode_count,
          sb_first_data_block = first_data_block, sb_block_size = block_size,
          sb_blocks_per_group = blocks_per_group, sb_inodes_per_group = inodes_per_group,
          sb_state = state, sb_errors = errors, sb_revision = revision, sb_inode_size = inode_size,
          sb_descriptor_size = descriptor_size, sb_feature_compat = feature_compat,
          sb_feature_incompat = feature_incompat,
          sb_feature_read_only_compat = feature_read_only_compat, sb_uuid = uuid,
          sb_volume_name = volume_name, sb_checksum_type = checksum_type, sb_checksum = checksum,
          sb_checksum_seed = checksum_seed, sb_journal_inode = journal_inode\<rparr>)))))))))))))))))))))))"

definition Superblock_parse :: "u8 list \<Rightarrow> Ext4Error + Superblock" where
  "Superblock_parse bytes = parse_internal bytes False"

definition parse_for_recovery :: "u8 list \<Rightarrow> Ext4Error + Superblock" where
  "parse_for_recovery bytes = parse_internal bytes True"

definition volume_name :: "Superblock \<Rightarrow> u8 list" where
  "volume_name sb =
     (case position (\<lambda>byte. byte = 0) (sb_volume_name sb) of
        None \<Rightarrow> sb_volume_name sb
      | Some len \<Rightarrow> take len (sb_volume_name sb))"

definition has_metadata_checksums :: "Superblock \<Rightarrow> bool" where
  "has_metadata_checksums sb \<longleftrightarrow>
     sb_feature_read_only_compat sb AND FEATURE_READ_ONLY_COMPAT_METADATA_CHECKSUM \<noteq> 0"

definition group_descriptor_block :: "Superblock \<Rightarrow> u64" where
  "group_descriptor_block sb = ucast (sb_first_data_block sb) + 1"

text \<open>\<open>div_ceil\<close> rounds the quotient up.\<close>

definition group_count :: "Superblock \<Rightarrow> u64" where
  "group_count sb =
     (let data_blocks = saturating_sub (sb_block_count sb) (ucast (sb_first_data_block sb));
          per_group = ucast (sb_blocks_per_group sb)
      in data_blocks div per_group + (if data_blocks mod per_group \<noteq> 0 then 1 else 0))"

definition inode_group :: "Superblock \<Rightarrow> u32 \<Rightarrow> Ext4Error + u32" where
  "inode_group sb inode_number =
     (if inode_number = 0 \<or> sb_inode_count sb < inode_number then Inl InvalidInode
      else Inr ((inode_number - 1) div sb_inodes_per_group sb))"

record GroupDescriptorLocation =
  gdl_block :: u64
  gdl_offset :: u32

definition group_descriptor_location :: "Superblock \<Rightarrow> u32 \<Rightarrow> Ext4Error + GroupDescriptorLocation" where
  "group_descriptor_location sb group_index =
    (if group_count sb \<le> ucast group_index then Inl InvalidGeometry
     else
     rbind (ok_or InvalidGeometry (checked_mul (ucast group_index) (ucast (sb_descriptor_size sb)))) (\<lambda>byte_offset.
     Inr \<lparr>gdl_block = group_descriptor_block sb + byte_offset div ucast (sb_block_size sb),
          gdl_offset = ucast (byte_offset mod ucast (sb_block_size sb))\<rparr>))"

section \<open>Group descriptors\<close>

record GroupDescriptor =
  gd_group_index :: u32
  gd_block_bitmap_block :: u64
  gd_inode_bitmap_block :: u64
  gd_inode_table_block :: u64
  gd_free_block_count :: u32
  gd_free_inode_count :: u32
  gd_used_directory_count :: u32
  gd_unused_inode_count :: u32
  gd_checksum :: u16

text \<open>\<open>u32::from(low) | (u32::from(high) << 16)\<close>.\<close>

definition join_u32 :: "u16 \<Rightarrow> u16 \<Rightarrow> u32" where
  "join_u32 low high = ucast low OR push_bit 16 (ucast high)"

definition GroupDescriptor_parse :: "u8 list \<Rightarrow> u32 \<Rightarrow> Superblock \<Rightarrow> Ext4Error + GroupDescriptor" where
  "GroupDescriptor_parse bytes group_index sb =
    (let descriptor_size = unat (sb_descriptor_size sb) in
     if length bytes < descriptor_size then Inl Truncated
     else
     let descriptor = take descriptor_size bytes in
     rbind (ext4_read_u16 descriptor 30) (\<lambda>checksum.
     if has_metadata_checksums sb
        \<and> ucast (crc32c (crc32c (crc32c (crc32c (sb_checksum_seed sb) (to_le_bytes group_index))
             (take 30 descriptor)) [0, 0]) (drop 32 descriptor)) \<noteq> checksum
     then Inl InvalidChecksum
     else
     let wide = sb_feature_incompat sb AND FEATURE_INCOMPAT_64BIT \<noteq> 0 in
     rbind (if wide then ext4_read_u32 descriptor 32 else Inr 0) (\<lambda>high0.
     rbind (if wide then ext4_read_u32 descriptor 36 else Inr 0) (\<lambda>high1.
     rbind (if wide then ext4_read_u32 descriptor 40 else Inr 0) (\<lambda>high2.
     rbind (ext4_read_u32 descriptor 8) (\<lambda>inode_table_low.
     let inode_table_block = join_u64 inode_table_low high2 in
     if inode_table_block = 0 \<or> sb_block_count sb \<le> inode_table_block then Inl InvalidGeometry
     else
     rbind (ext4_read_u32 descriptor 0) (\<lambda>block_bitmap_low.
     rbind (ext4_read_u32 descriptor 4) (\<lambda>inode_bitmap_low.
     rbind (ext4_read_u16 descriptor 12) (\<lambda>free_blocks_low.
     rbind (ext4_read_u16 descriptor 14) (\<lambda>free_inodes_low.
     rbind (ext4_read_u16 descriptor 16) (\<lambda>directories_low.
     rbind (ext4_read_u16 descriptor 28) (\<lambda>unused_inodes_low.
     Inr \<lparr>gd_group_index = group_index,
          gd_block_bitmap_block = join_u64 block_bitmap_low high0,
          gd_inode_bitmap_block = join_u64 inode_bitmap_low high1,
          gd_inode_table_block = inode_table_block,
          gd_free_block_count = join_u32 free_blocks_low (read_u16_or_zero descriptor 44),
          gd_free_inode_count = join_u32 free_inodes_low (read_u16_or_zero descriptor 46),
          gd_used_directory_count = join_u32 directories_low (read_u16_or_zero descriptor 48),
          gd_unused_inode_count = join_u32 unused_inodes_low (read_u16_or_zero descriptor 50),
          gd_checksum = checksum\<rparr>))))))))))))"

record InodeLocation =
  il_block :: u64
  il_offset :: u32

definition inode_location :: "Superblock \<Rightarrow> u32 \<Rightarrow> GroupDescriptor \<Rightarrow> Ext4Error + InodeLocation" where
  "inode_location sb inode_number grp =
    (if inode_number = 0 \<or> sb_inode_count sb < inode_number then Inl InvalidInode
     else
     let zero_based = inode_number - 1;
         group_index = zero_based div sb_inodes_per_group sb in
     if group_index \<noteq> gd_group_index grp then Inl InvalidInode
     else
     let index_in_group = ucast (zero_based mod sb_inodes_per_group sb) :: u64 in
     rbind (ok_or InvalidInode
       (Option.bind (checked_mul (gd_inode_table_block grp) (ucast (sb_block_size sb))) (\<lambda>start.
        Option.bind (checked_mul index_in_group (ucast (sb_inode_size sb))) (\<lambda>offs.
        checked_add start offs)))) (\<lambda>byte_offset.
     Inr \<lparr>il_block = byte_offset div ucast (sb_block_size sb),
          il_offset = ucast (byte_offset mod ucast (sb_block_size sb))\<rparr>))"

section \<open>Editing the superblock\<close>

text \<open>\<open>if superblock.has_metadata_checksums() \<dots>\<close>: the common tail of the three operations.\<close>

definition refresh_superblock_checksum :: "Superblock \<Rightarrow> (Ext4Error, unit) edit" where
  "refresh_superblock_checksum sb bytes =
     (if has_metadata_checksums sb then ext4_write_u32 1020 (crc32c (- 1) (take 1020 bytes)) bytes
      else done_ok bytes)"

definition set_superblock_recovery :: "bool \<Rightarrow> (Ext4Error, unit) edit" where
  "set_superblock_recovery required =
     ebind (query (\<lambda>bytes. parse_internal bytes True)) (\<lambda>sb.
     ebind (ext4_write_u32 96 (if required then sb_feature_incompat sb OR FEATURE_INCOMPAT_RECOVER
                               else sb_feature_incompat sb AND NOT FEATURE_INCOMPAT_RECOVER)) (\<lambda>_.
     ebind (refresh_superblock_checksum sb) (\<lambda>_.
     ebind (query (\<lambda>bytes. parse_internal bytes True)) (\<lambda>_. done_ok))))"

definition set_superblock_free_block_count :: "u64 \<Rightarrow> (Ext4Error, unit) edit" where
  "set_superblock_free_block_count free_block_count =
     ebind (query Superblock_parse) (\<lambda>sb.
     let wide = sb_feature_incompat sb AND FEATURE_INCOMPAT_64BIT \<noteq> 0 in
     ebind (guard (sb_block_count sb < free_block_count \<or> (\<not> wide \<and> drop_bit 32 free_block_count \<noteq> 0))
       InvalidGeometry) (\<lambda>_.
     ebind (ext4_write_u32 12 (ucast free_block_count)) (\<lambda>_.
     ebind (when_edit wide (ext4_write_u32 344 (ucast (drop_bit 32 free_block_count)))) (\<lambda>_.
     ebind (refresh_superblock_checksum sb) (\<lambda>_.
     ebind (query Superblock_parse) (\<lambda>updated.
     guard (sb_free_block_count updated \<noteq> free_block_count) InvalidGeometry))))))"

definition set_superblock_free_inode_count :: "u32 \<Rightarrow> (Ext4Error, unit) edit" where
  "set_superblock_free_inode_count free_inode_count =
     ebind (query Superblock_parse) (\<lambda>sb.
     ebind (guard (sb_inode_count sb < free_inode_count) InvalidGeometry) (\<lambda>_.
     ebind (ext4_write_u32 16 free_inode_count) (\<lambda>_.
     ebind (refresh_superblock_checksum sb) (\<lambda>_.
     ebind (query Superblock_parse) (\<lambda>updated.
     guard (sb_free_inode_count updated \<noteq> free_inode_count) InvalidGeometry)))))"

section \<open>Inodes\<close>

record Inode =
  in_number :: u32
  in_mode :: u16
  in_uid :: u32
  in_gid :: u32
  in_size :: u64
  in_block_count_512 :: u64
  in_flags :: u32
  in_generation :: u32
  in_extent_root :: "u8 list"

text \<open>\<open>inode.len() > 131 && read_u16(inode, 128)? >= 4\<close>, the test for the high half of the checksum.\<close>

definition has_high_checksum :: "u8 list \<Rightarrow> Ext4Error + bool" where
  "has_high_checksum inode =
     (if 131 < length inode then rbind (ext4_read_u16 inode 128) (\<lambda>extra. Inr (4 \<le> extra)) else Inr False)"

definition inode_stored_checksum :: "u8 list \<Rightarrow> Ext4Error + u32" where
  "inode_stored_checksum inode =
     rbind (ext4_read_u16 inode 124) (\<lambda>low.
     rbind (has_high_checksum inode) (\<lambda>has_high.
     rbind (if has_high then ext4_read_u16 inode 130 else Inr 0) (\<lambda>high.
     Inr (join_u32 low high))))"

definition inode_checksum :: "u8 list \<Rightarrow> u32 \<Rightarrow> u32 \<Rightarrow> Superblock \<Rightarrow> Ext4Error + u32" where
  "inode_checksum inode inode_number generation sb =
    (if length inode < 126 then Inl Truncated
     else
     rbind (has_high_checksum inode) (\<lambda>has_high.
     let checksum = crc32c (sb_checksum_seed sb) (to_le_bytes inode_number);
         checksum = crc32c checksum (to_le_bytes generation);
         checksum = crc32c checksum (take 124 inode);
         checksum = crc32c checksum [0, 0] in
     if has_high then
       let checksum = crc32c checksum (sub_bytes inode 126 4);
           checksum = crc32c checksum [0, 0]
       in Inr (crc32c checksum (drop 132 inode))
     else Inr (crc32c checksum (drop 126 inode))))"

definition Inode_parse :: "u8 list \<Rightarrow> u32 \<Rightarrow> Superblock \<Rightarrow> Ext4Error + Inode" where
  "Inode_parse bytes inode_number sb =
    (let inode_size = unat (sb_inode_size sb) in
     if inode_number = 0 \<or> sb_inode_count sb < inode_number then Inl InvalidInode
     else if length bytes < inode_size then Inl Truncated
     else
     let inode = take inode_size bytes in
     rbind (ext4_read_u32 inode 100) (\<lambda>generation.
     rbind (if has_metadata_checksums sb
            then rbind (inode_checksum inode inode_number generation sb) (\<lambda>computed.
                 rbind (inode_stored_checksum inode) (\<lambda>stored. Inr (computed \<noteq> stored)))
            else Inr False) (\<lambda>mismatch.
     if mismatch then Inl InvalidChecksum
     else
     rbind (ext4_read_u16 inode 0) (\<lambda>mode.
     rbind (ext4_read_u32 inode 32) (\<lambda>flags.
     let extent_root = sub_bytes inode 40 60 in
     rbind (ext4_read_u16 inode 2) (\<lambda>uid_low.
     rbind (ext4_read_u16 inode 24) (\<lambda>gid_low.
     rbind (ext4_read_u32 inode 4) (\<lambda>size_low.
     rbind (ext4_read_u32 inode 108) (\<lambda>size_high.
     rbind (ext4_read_u32 inode 28) (\<lambda>blocks_low.
     Inr \<lparr>in_number = inode_number, in_mode = mode,
          in_uid = join_u32 uid_low (read_u16_or_zero inode 120),
          in_gid = join_u32 gid_low (read_u16_or_zero inode 122),
          in_size = join_u64 size_low size_high,
          in_block_count_512 = join_u64 blocks_low (ucast (read_u16_or_zero inode 116)),
          in_flags = flags, in_generation = generation, in_extent_root = extent_root\<rparr>))))))))))"

definition is_directory :: "Inode \<Rightarrow> bool" where
  "is_directory inode \<longleftrightarrow> in_mode inode AND MODE_TYPE_MASK = DIRECTORY_MODE"

definition is_regular_file :: "Inode \<Rightarrow> bool" where
  "is_regular_file inode \<longleftrightarrow> in_mode inode AND MODE_TYPE_MASK = REGULAR_FILE_MODE"

definition is_symlink :: "Inode \<Rightarrow> bool" where
  "is_symlink inode \<longleftrightarrow> in_mode inode AND MODE_TYPE_MASK = SYMLINK_MODE"

definition inline_symlink :: "Inode \<Rightarrow> Ext4Error + u8 list" where
  "inline_symlink inode =
    (if \<not> is_symlink inode then Inl NotSymlink
     else
     let len = unat (in_size inode) in
     if len = 0 \<or> length (in_extent_root inode) < len \<or> in_block_count_512 inode \<noteq> 0
     then Inl UnsupportedSymlink
     else if 0 \<in> set (take len (in_extent_root inode)) then Inl InvalidSymlink
     else Inr (take len (in_extent_root inode)))"

section \<open>Extents\<close>

record Extent =
  ex_logical_block :: u32
  ex_physical_block :: u64
  ex_block_count :: u16
  ex_unwritten :: bool

record ExtentIndex =
  ei_logical_block :: u32
  ei_child_block :: u64

record ExtentHeader =
  eh_entries :: nat
  eh_maximum :: nat
  eh_depth :: u16

definition parse_extent_header :: "u8 list \<Rightarrow> nat \<Rightarrow> Ext4Error + ExtentHeader" where
  "parse_extent_header bytes maximum_allowed =
     rbind (ext4_read_u16 bytes 0) (\<lambda>magic.
     if magic \<noteq> EXTENT_HEADER_MAGIC then Inl InvalidExtent
     else
     rbind (ext4_read_u16 bytes 2) (\<lambda>entries.
     rbind (ext4_read_u16 bytes 4) (\<lambda>maximum.
     rbind (ext4_read_u16 bytes 6) (\<lambda>depth.
     if maximum = 0 \<or> maximum_allowed < unat maximum \<or> maximum < entries \<or> (0 < depth \<and> entries = 0)
     then Inl InvalidExtent
     else if MAX_EXTENT_DEPTH < depth then Inl UnsupportedExtentDepth
     else Inr \<lparr>eh_entries = unat entries, eh_maximum = unat maximum, eh_depth = depth\<rparr>))))"

definition parse_extent :: "u8 list \<Rightarrow> nat \<Rightarrow> Ext4Error + Extent" where
  "parse_extent bytes i =
    (let offs = EXTENT_HEADER_SIZE + i * EXTENT_ENTRY_SIZE in
     rbind (ext4_read_u16 bytes (offs + 4)) (\<lambda>raw_length.
     if raw_length = 0 then Inl InvalidExtent
     else
     let (block_count, unwritten) =
           (if raw_length \<le> 0x8000 then (raw_length, False) else (raw_length - 0x8000, True)) in
     rbind (ext4_read_u32 bytes (offs + 8)) (\<lambda>low.
     rbind (ext4_read_u16 bytes (offs + 6)) (\<lambda>high.
     let physical_block = join_u64 low (ucast high) in
     if checked_add physical_block (ucast block_count) = None then Inl InvalidExtent
     else
     rbind (ext4_read_u32 bytes offs) (\<lambda>logical_block.
     Inr \<lparr>ex_logical_block = logical_block, ex_physical_block = physical_block,
          ex_block_count = block_count, ex_unwritten = unwritten\<rparr>)))))"

text \<open>The end of an extent, \<open>checked_add\<close> with \<open>InvalidExtent\<close>.\<close>

definition extent_end :: "Extent \<Rightarrow> Ext4Error + u32" where
  "extent_end e = ok_or InvalidExtent (checked_add (ex_logical_block e) (ucast (ex_block_count e)))"

definition validate_extents_step :: "u8 list \<Rightarrow> nat \<Rightarrow> u32 \<Rightarrow> Ext4Error + u32" where
  "validate_extents_step bytes i previous_end =
     rbind (parse_extent bytes i) (\<lambda>extent.
     rbind (extent_end extent) (\<lambda>fin.
     if i \<noteq> 0 \<and> ex_logical_block extent < previous_end then Inl InvalidExtent else Inr fin))"

definition validate_extents :: "u8 list \<Rightarrow> ExtentHeader \<Rightarrow> Ext4Error + unit" where
  "validate_extents bytes header =
     rbind (fold_result (validate_extents_step bytes) [0..<eh_entries header] 0) (\<lambda>_. Inr ())"

text \<open>The search loop returns from inside; the list is what is left of the range.\<close>

primrec search_extent :: "u8 list \<Rightarrow> u32 \<Rightarrow> nat list \<Rightarrow> Ext4Error + Extent option" where
  "search_extent bytes logical_block [] = Inr None"
| "search_extent bytes logical_block (i # is) =
     rbind (parse_extent bytes i) (\<lambda>extent.
     rbind (extent_end extent) (\<lambda>fin.
     if ex_logical_block extent \<le> logical_block \<and> logical_block < fin then Inr (Some extent)
     else search_extent bytes logical_block is))"

definition extent_for_logical_block :: "u8 list \<Rightarrow> ExtentHeader \<Rightarrow> u32 \<Rightarrow> Ext4Error + Extent option" where
  "extent_for_logical_block bytes header logical_block =
     rbind (validate_extents bytes header) (\<lambda>_. search_extent bytes logical_block [0..<eh_entries header])"

definition parse_extent_index :: "u8 list \<Rightarrow> nat \<Rightarrow> Ext4Error + ExtentIndex" where
  "parse_extent_index bytes i =
    (let offs = EXTENT_HEADER_SIZE + i * EXTENT_ENTRY_SIZE in
     rbind (ext4_read_u32 bytes offs) (\<lambda>logical_block.
     rbind (ext4_read_u32 bytes (offs + 4)) (\<lambda>low.
     rbind (ext4_read_u16 bytes (offs + 8)) (\<lambda>high.
     Inr \<lparr>ei_logical_block = logical_block, ei_child_block = join_u64 low (ucast high)\<rparr>))))"

definition validate_indexes_step :: "u8 list \<Rightarrow> nat \<Rightarrow> u32 \<Rightarrow> Ext4Error + u32" where
  "validate_indexes_step bytes i previous =
     rbind (parse_extent_index bytes i) (\<lambda>extent_index.
     if i \<noteq> 0 \<and> ei_logical_block extent_index \<le> previous then Inl InvalidExtent
     else Inr (ei_logical_block extent_index))"

definition validate_extent_indexes :: "u8 list \<Rightarrow> ExtentHeader \<Rightarrow> Ext4Error + unit" where
  "validate_extent_indexes bytes header =
     rbind (fold_result (validate_indexes_step bytes) [0..<eh_entries header] 0) (\<lambda>_. Inr ())"

primrec search_index :: "u8 list \<Rightarrow> u32 \<Rightarrow> ExtentIndex option \<Rightarrow> nat list \<Rightarrow> Ext4Error + ExtentIndex option" where
  "search_index bytes logical_block selected [] = Inr selected"
| "search_index bytes logical_block selected (i # is) =
     rbind (parse_extent_index bytes i) (\<lambda>extent_index.
     if logical_block < ei_logical_block extent_index then Inr selected
     else search_index bytes logical_block (Some extent_index) is)"

definition extent_index_for_logical_block ::
  "u8 list \<Rightarrow> ExtentHeader \<Rightarrow> u32 \<Rightarrow> Ext4Error + ExtentIndex option" where
  "extent_index_for_logical_block bytes header logical_block =
     rbind (validate_extent_indexes bytes header) (\<lambda>_.
     search_index bytes logical_block None [0..<eh_entries header])"

record ExtentNode =
  en_bytes :: "u8 list"
  en_header :: ExtentHeader

definition check_extent_blocks :: "u8 list \<Rightarrow> Superblock \<Rightarrow> nat \<Rightarrow> unit \<Rightarrow> Ext4Error + unit" where
  "check_extent_blocks bytes sb i u =
     rbind (parse_extent bytes i) (\<lambda>extent.
     rbind (ok_or InvalidExtent (checked_add (ex_physical_block extent) (ucast (ex_block_count extent)))) (\<lambda>fin.
     if ex_physical_block extent = 0 \<or> sb_block_count sb < fin then Inl InvalidExtent else Inr ()))"

definition check_index_block :: "u8 list \<Rightarrow> Superblock \<Rightarrow> nat \<Rightarrow> unit \<Rightarrow> Ext4Error + unit" where
  "check_index_block bytes sb i u =
     rbind (parse_extent_index bytes i) (\<lambda>extent_index.
     if ei_child_block extent_index = 0 \<or> sb_block_count sb \<le> ei_child_block extent_index
     then Inl InvalidExtent else Inr ())"

definition validate_entries :: "ExtentNode \<Rightarrow> Superblock \<Rightarrow> Ext4Error + unit" where
  "validate_entries node sb =
    (let bytes = en_bytes node; header = en_header node in
     if eh_depth header = 0 then
       rbind (validate_extents bytes header) (\<lambda>_.
       fold_result (check_extent_blocks bytes sb) [0..<eh_entries header] ())
     else
       rbind (validate_extent_indexes bytes header) (\<lambda>_.
       fold_result (check_index_block bytes sb) [0..<eh_entries header] ()))"

definition ExtentNode_parse :: "u8 list \<Rightarrow> u16 \<Rightarrow> Inode \<Rightarrow> Superblock \<Rightarrow> Ext4Error + ExtentNode" where
  "ExtentNode_parse bytes expected_depth inode sb =
    (let block_size = unat (sb_block_size sb) in
     if length bytes < block_size then Inl Truncated
     else if MAX_EXTENT_DEPTH \<le> expected_depth then Inl UnsupportedExtentDepth
     else
     let bytes = take block_size bytes;
         maximum = (block_size - EXTENT_HEADER_SIZE) div EXTENT_ENTRY_SIZE in
     rbind (parse_extent_header bytes maximum) (\<lambda>header.
     if eh_depth header \<noteq> expected_depth then Inl InvalidExtent
     else
     let tail_offset = EXTENT_HEADER_SIZE + eh_maximum header * EXTENT_ENTRY_SIZE in
     if block_size < tail_offset + EXTENT_TAIL_SIZE then Inl InvalidExtent
     else
     rbind (if has_metadata_checksums sb
            then let checksum = crc32c (sb_checksum_seed sb) (to_le_bytes (in_number inode));
                     checksum = crc32c checksum (to_le_bytes (in_generation inode));
                     checksum = crc32c checksum (take tail_offset bytes)
                 in rbind (ext4_read_u32 bytes tail_offset) (\<lambda>stored. Inr (stored \<noteq> checksum))
            else Inr False) (\<lambda>mismatch.
     if mismatch then Inl InvalidChecksum
     else
     let node = \<lparr>en_bytes = bytes, en_header = header\<rparr> in
     rbind (validate_entries node sb) (\<lambda>_. Inr node))))"

definition ExtentNode_extent_for_logical_block :: "ExtentNode \<Rightarrow> u32 \<Rightarrow> Ext4Error + Extent option" where
  "ExtentNode_extent_for_logical_block node logical_block =
    (if eh_depth (en_header node) \<noteq> 0 then Inl InvalidExtent
     else extent_for_logical_block (en_bytes node) (en_header node) logical_block)"

definition ExtentNode_extent_index_for_logical_block :: "ExtentNode \<Rightarrow> u32 \<Rightarrow> Ext4Error + ExtentIndex option" where
  "ExtentNode_extent_index_for_logical_block node logical_block =
    (if eh_depth (en_header node) = 0 then Inl InvalidExtent
     else extent_index_for_logical_block (en_bytes node) (en_header node) logical_block)"

definition Inode_extent_header :: "Inode \<Rightarrow> Ext4Error + ExtentHeader" where
  "Inode_extent_header inode =
    (if in_flags inode AND INODE_FLAG_EXTENTS = 0 then Inl InvalidExtent
     else parse_extent_header (in_extent_root inode) 4)"

definition extent_depth :: "Inode \<Rightarrow> Ext4Error + u16" where
  "extent_depth inode = rbind (Inode_extent_header inode) (\<lambda>header. Inr (eh_depth header))"

definition extent_at :: "Inode \<Rightarrow> nat \<Rightarrow> Ext4Error + Extent" where
  "extent_at inode i =
     rbind (Inode_extent_header inode) (\<lambda>header.
     if eh_depth header \<noteq> 0 \<or> eh_entries header \<le> i then Inl InvalidExtent
     else parse_extent (in_extent_root inode) i)"

definition first_extent :: "Inode \<Rightarrow> Ext4Error + Extent" where
  "first_extent inode = extent_at inode 0"

definition Inode_extent_for_logical_block :: "Inode \<Rightarrow> u32 \<Rightarrow> Ext4Error + Extent option" where
  "Inode_extent_for_logical_block inode logical_block =
     rbind (Inode_extent_header inode) (\<lambda>header.
     if eh_depth header \<noteq> 0 then Inl UnsupportedExtentDepth
     else extent_for_logical_block (in_extent_root inode) header logical_block)"

definition Inode_extent_index_for_logical_block :: "Inode \<Rightarrow> u32 \<Rightarrow> Ext4Error + ExtentIndex option" where
  "Inode_extent_index_for_logical_block inode logical_block =
     rbind (Inode_extent_header inode) (\<lambda>header.
     if eh_depth header = 0 then Inl InvalidExtent
     else extent_index_for_logical_block (in_extent_root inode) header logical_block)"

section \<open>Editing inodes\<close>

definition refresh_inode_checksum :: "u32 \<Rightarrow> Superblock \<Rightarrow> (Ext4Error, unit) edit" where
  "refresh_inode_checksum inode_number sb =
     when_edit (has_metadata_checksums sb)
      (ebind (query (\<lambda>inode. ext4_read_u32 inode 100)) (\<lambda>generation.
       ebind (query (\<lambda>inode. inode_checksum inode inode_number generation sb)) (\<lambda>checksum.
       ebind (ext4_write_u16 124 (ucast checksum)) (\<lambda>_.
       ebind (query has_high_checksum) (\<lambda>has_high.
       when_edit has_high (ext4_write_u16 130 (ucast (drop_bit 16 checksum))))))))"

definition set_inode_size :: "u32 \<Rightarrow> Superblock \<Rightarrow> u64 \<Rightarrow> (Ext4Error, unit) edit" where
  "set_inode_size inode_number sb new_size =
    (let inode_size = unat (sb_inode_size sb) in
     ebind (query (\<lambda>bytes. Inode_parse bytes inode_number sb)) (\<lambda>_.
     ebind (query (\<lambda>bytes. if length bytes < inode_size then Inl Truncated else Inr ())) (\<lambda>_.
     on_prefix inode_size
      (ebind (ext4_write_u32 4 (ucast new_size)) (\<lambda>_.
       ebind (ext4_write_u32 108 (ucast (drop_bit 32 new_size))) (\<lambda>_.
       ebind (refresh_inode_checksum inode_number sb) (\<lambda>_.
       ebind (query (\<lambda>inode. Inode_parse inode inode_number sb)) (\<lambda>_. done_ok))))))))"

text \<open>The checks of \<open>resize_regular_file_by_one_block\<close> before it writes: the parsed inode, its only
  extent and the number of logical blocks.\<close>

definition resize_checks :: "u8 list \<Rightarrow> u32 \<Rightarrow> Superblock \<Rightarrow> Ext4Error + Inode \<times> Extent \<times> u64" where
  "resize_checks bytes inode_number sb =
     rbind (Inode_parse bytes inode_number sb) (\<lambda>parsed.
     if length bytes < unat (sb_inode_size sb) \<or> \<not> is_regular_file parsed
        \<or> in_flags parsed AND INODE_FLAG_HUGE_FILE \<noteq> 0
     then Inl InvalidInode
     else
     rbind (extent_depth parsed) (\<lambda>depth.
     if depth \<noteq> 0 then Inl InvalidInode
     else
     rbind (ext4_read_u16 bytes 42) (\<lambda>entries.
     if entries \<noteq> 1 \<or> in_size parsed = 0 \<or> in_size parsed mod ucast (sb_block_size sb) \<noteq> 0
     then Inl InvalidInode
     else
     rbind (first_extent parsed) (\<lambda>extent.
     let logical_blocks = in_size parsed div ucast (sb_block_size sb);
         fin = ucast (ex_logical_block extent) + ucast (ex_block_count extent) :: u64 in
     if ex_unwritten extent \<or> logical_blocks \<noteq> fin then Inl InvalidExtent
     else Inr (parsed, extent, logical_blocks)))))"

text \<open>The new size, sector count and extent length.\<close>

definition resize_target :: "Inode \<Rightarrow> Extent \<Rightarrow> Superblock \<Rightarrow> u64 \<Rightarrow> bool \<Rightarrow> Ext4Error + u64 \<times> u64 \<times> u16" where
  "resize_target parsed extent sb physical_block grow =
    (let block_size = ucast (sb_block_size sb) :: u64; sectors = ucast (sb_block_size sb div 512) :: u64 in
     if grow then
       (if physical_block \<noteq> ex_physical_block extent + ucast (ex_block_count extent)
           \<or> 32768 \<le> ex_block_count extent
        then Inl InvalidExtent
        else
        rbind (ok_or InvalidInode (checked_add (in_size parsed) block_size)) (\<lambda>new_size.
        rbind (ok_or InvalidInode (checked_add (in_block_count_512 parsed) sectors)) (\<lambda>new_count.
        Inr (new_size, new_count, ex_block_count extent + 1))))
     else
       (if ex_block_count extent \<le> 1
           \<or> physical_block \<noteq> ex_physical_block extent + ucast (ex_block_count extent) - 1
        then Inl InvalidExtent
        else
        rbind (ok_or InvalidInode (checked_sub (in_block_count_512 parsed) sectors)) (\<lambda>new_count.
        Inr (in_size parsed - block_size, new_count, ex_block_count extent - 1))))"

definition resize_regular_file_by_one_block ::
  "u32 \<Rightarrow> Superblock \<Rightarrow> u64 \<Rightarrow> bool \<Rightarrow> (Ext4Error, unit) edit" where
  "resize_regular_file_by_one_block inode_number sb physical_block grow =
     ebind (query (\<lambda>bytes. resize_checks bytes inode_number sb)) (\<lambda>(parsed, extent, logical_blocks).
     ebind (query (\<lambda>bytes. resize_target parsed extent sb physical_block grow)) (\<lambda>(new_size, new_count, new_length).
     ebind (guard (drop_bit 48 new_count \<noteq> 0) InvalidInode) (\<lambda>_.
     on_prefix (unat (sb_inode_size sb))
      (ebind (ext4_write_u32 4 (ucast new_size)) (\<lambda>_.
       ebind (ext4_write_u32 108 (ucast (drop_bit 32 new_size))) (\<lambda>_.
       ebind (ext4_write_u32 28 (ucast new_count)) (\<lambda>_.
       ebind (ext4_write_u16 116 (ucast (drop_bit 32 new_count))) (\<lambda>_.
       ebind (ext4_write_u16 56 new_length) (\<lambda>_.
       ebind (refresh_inode_checksum inode_number sb) (\<lambda>_.
       ebind (query (\<lambda>inode. Inode_parse inode inode_number sb)) (\<lambda>updated.
       ebind (guard (in_size updated \<noteq> new_size \<or> in_block_count_512 updated \<noteq> new_count) InvalidInode) (\<lambda>_.
       ebind (query (\<lambda>inode. Inode_extent_for_logical_block updated
         (ucast (logical_blocks - (if grow then 0 else 1))))) (\<lambda>found.
       guard (found \<noteq> (if grow
          then Some \<lparr>ex_logical_block = ex_logical_block extent, ex_physical_block = ex_physical_block extent,
                 ex_block_count = new_length, ex_unwritten = False\<rparr>
          else None)) InvalidInode)))))))))))))"

definition initialize_empty_regular_inode ::
  "u32 \<Rightarrow> Superblock \<Rightarrow> u16 \<Rightarrow> u32 \<Rightarrow> u32 \<Rightarrow> (Ext4Error, unit) edit" where
  "initialize_empty_regular_inode inode_number sb permissions timestamp generation =
    (let inode_size = unat (sb_inode_size sb) in
     ebind (query (\<lambda>bytes.
       if inode_number = 0 \<or> sb_inode_count sb < inode_number \<or> length bytes < inode_size
          \<or> permissions AND NOT 0x0fff \<noteq> 0
       then Inl InvalidInode else Inr ())) (\<lambda>_.
     on_prefix inode_size
      (ebind (\<lambda>inode. (Inr (), replicate (length inode) 0)) (\<lambda>_.
       ebind (ext4_write_u16 0 (REGULAR_FILE_MODE OR permissions)) (\<lambda>_.
       ebind (ext4_write_u32 8 timestamp) (\<lambda>_.
       ebind (ext4_write_u32 12 timestamp) (\<lambda>_.
       ebind (ext4_write_u32 16 timestamp) (\<lambda>_.
       ebind (ext4_write_u16 26 1) (\<lambda>_.
       ebind (ext4_write_u32 32 INODE_FLAG_EXTENTS) (\<lambda>_.
       ebind (ext4_write_u16 40 EXTENT_HEADER_MAGIC) (\<lambda>_.
       ebind (ext4_write_u16 42 0) (\<lambda>_.
       ebind (ext4_write_u16 44 4) (\<lambda>_.
       ebind (ext4_write_u16 46 0) (\<lambda>_.
       ebind (ext4_write_u32 48 0) (\<lambda>_.
       ebind (ext4_write_u32 100 generation) (\<lambda>_.
       ebind (when_edit (160 \<le> inode_size) (ebind (ext4_write_u16 128 32) (\<lambda>_. ext4_write_u32 144 timestamp))) (\<lambda>_.
       ebind (refresh_inode_checksum inode_number sb) (\<lambda>_.
       ebind (query (\<lambda>inode. Inode_parse inode inode_number sb)) (\<lambda>parsed.
       ebind (guard (\<not> is_regular_file parsed \<or> in_size parsed \<noteq> 0 \<or> in_block_count_512 parsed \<noteq> 0
          \<or> in_generation parsed \<noteq> generation) InvalidInode) (\<lambda>_.
       ebind (query (\<lambda>inode. extent_depth parsed)) (\<lambda>depth.
       ebind (guard (depth \<noteq> 0) InvalidInode) (\<lambda>_.
       ebind (query (\<lambda>inode. ext4_read_u16 inode 26)) (\<lambda>links.
       guard (links \<noteq> 1) InvalidInode)))))))))))))))))))))))"

end
