(* ===== verification/Ext4_Journal.thy ===== *)
theory Ext4_Journal
  imports Ext4
begin

text \<open>
  The journal of the ext4 crate: its superblock, descriptor blocks with their tags, commit blocks,
  the encoding of a transaction and its decoding at recovery. The properties: a descriptor block
  that was encoded parses to the tags it was given, journal data never looks like a journal block, and
  what recovery decodes is the home block that was written.
\<close>

section \<open>The journal superblock\<close>

definition JOURNAL_SUPERBLOCK_SIZE :: nat where "JOURNAL_SUPERBLOCK_SIZE = 1024"
definition JOURNAL_MAGIC :: u32 where "JOURNAL_MAGIC = 0xc03b3998"
definition JOURNAL_DESCRIPTOR_BLOCK :: u32 where "JOURNAL_DESCRIPTOR_BLOCK = 1"
definition JOURNAL_COMMIT_BLOCK :: u32 where "JOURNAL_COMMIT_BLOCK = 2"

definition read_be_u32 :: "u8 list \<Rightarrow> nat \<Rightarrow> Ext4Error + u32" where
  "read_be_u32 bytes off = rbind (ok_or Truncated (get_range bytes off (off + 4))) (\<lambda>v. Inr (from_be_bytes v))"

definition read_be_u16 :: "u8 list \<Rightarrow> nat \<Rightarrow> Ext4Error + u16" where
  "read_be_u16 bytes off = rbind (ok_or Truncated (get_range bytes off (off + 2))) (\<lambda>v. Inr (from_be_bytes v))"

definition write_be_u16 :: "nat \<Rightarrow> u16 \<Rightarrow> (Ext4Error, unit) edit" where
  "write_be_u16 off v = overwrite Truncated off (to_be_bytes v)"

definition write_be_u32 :: "nat \<Rightarrow> u32 \<Rightarrow> (Ext4Error, unit) edit" where
  "write_be_u32 off v = overwrite Truncated off (to_be_bytes v)"

record JournalSuperblock =
  js_block_size :: u32
  js_max_length :: u32
  js_first_log_block :: u32
  js_sequence :: u32
  js_start :: u32
  js_error :: u32
  js_feature_compat :: u32
  js_feature_incompat :: u32
  js_feature_read_only_compat :: u32
  js_uuid :: "u8 list"
  js_user_count :: u32

definition JournalSuperblock_parse :: "u8 list \<Rightarrow> Ext4Error + JournalSuperblock" where
  "JournalSuperblock_parse bytes =
    (if length bytes < JOURNAL_SUPERBLOCK_SIZE then Inl Truncated
     else
     rbind (read_be_u32 bytes 0) (\<lambda>magic.
     rbind (read_be_u32 bytes 4) (\<lambda>kind.
     if magic \<noteq> JOURNAL_MAGIC \<or> kind \<noteq> 4 then Inl InvalidMagic
     else
     rbind (read_be_u32 bytes 8) (\<lambda>reserved.
     if reserved \<noteq> 0 then Inl InvalidJournal
     else
     rbind (read_be_u32 bytes 12) (\<lambda>block_size.
     rbind (read_be_u32 bytes 16) (\<lambda>max_length.
     rbind (read_be_u32 bytes 20) (\<lambda>first_log_block.
     rbind (read_be_u32 bytes 28) (\<lambda>start.
     if block_size < 1024 \<or> \<not> is_power_of_two block_size \<or> first_log_block = 0
        \<or> max_length \<le> first_log_block
        \<or> (start \<noteq> 0 \<and> (start < first_log_block \<or> max_length \<le> start))
     then Inl InvalidJournal
     else
     rbind (read_be_u32 bytes 36) (\<lambda>feature_compat.
     rbind (read_be_u32 bytes 40) (\<lambda>feature_incompat.
     rbind (read_be_u32 bytes 44) (\<lambda>feature_read_only_compat.
     if feature_compat \<noteq> 0 \<or> feature_incompat \<noteq> 0 \<or> feature_read_only_compat \<noteq> 0
     then Inl UnsupportedFeature
     else
     rbind (read_be_u32 bytes 64) (\<lambda>user_count.
     if user_count = 0 then Inl InvalidJournal
     else
     rbind (read_be_u32 bytes 24) (\<lambda>sequence.
     rbind (read_be_u32 bytes 32) (\<lambda>error.
     Inr \<lparr>js_block_size = block_size, js_max_length = max_length, js_first_log_block = first_log_block,
          js_sequence = sequence, js_start = start, js_error = error,
          js_feature_compat = feature_compat, js_feature_incompat = feature_incompat,
          js_feature_read_only_compat = feature_read_only_compat, js_uuid = sub_bytes bytes 48 16,
          js_user_count = user_count\<rparr>))))))))))))))"

definition set_journal_superblock_state :: "u32 \<Rightarrow> u32 \<Rightarrow> (Ext4Error, unit) edit" where
  "set_journal_superblock_state sequence start =
     ebind (query JournalSuperblock_parse) (\<lambda>sb.
     ebind (guard (sequence = 0
        \<or> (start \<noteq> 0 \<and> (start < js_first_log_block sb \<or> js_max_length sb \<le> start))) InvalidJournal) (\<lambda>_.
     ebind (write_be_u32 24 sequence) (\<lambda>_.
     ebind (write_be_u32 28 start) (\<lambda>_.
     ebind (query JournalSuperblock_parse) (\<lambda>_. done_ok)))))"

section \<open>Descriptor blocks\<close>

definition JOURNAL_TAG_ESCAPE :: u16 where "JOURNAL_TAG_ESCAPE = 0x0001"
definition JOURNAL_TAG_SAME_UUID :: u16 where "JOURNAL_TAG_SAME_UUID = 0x0002"
definition JOURNAL_TAG_DELETED :: u16 where "JOURNAL_TAG_DELETED = 0x0004"
definition JOURNAL_TAG_LAST :: u16 where "JOURNAL_TAG_LAST = 0x0008"
definition JOURNAL_TAG_SUPPORTED :: u16 where
  "JOURNAL_TAG_SUPPORTED = JOURNAL_TAG_ESCAPE OR JOURNAL_TAG_SAME_UUID OR JOURNAL_TAG_LAST"

record JournalTag =
  jt_target_block :: u32
  jt_escaped :: bool

record ParsedJournalTag =
  pj_tag :: JournalTag
  pj_flags :: u16
  pj_uuid :: "u8 list option"
  pj_next_offset :: nat

definition parse_journal_tag :: "u8 list \<Rightarrow> nat \<Rightarrow> u8 list option \<Rightarrow> Ext4Error + ParsedJournalTag" where
  "parse_journal_tag bytes offs transaction_uuid =
     rbind (ok_or InvalidJournal (usize_add offs 8)) (\<lambda>fin.
     if length bytes < fin then Inl Truncated
     else
     rbind (read_be_u16 bytes (offs + 4)) (\<lambda>checksum.
     rbind (read_be_u16 bytes (offs + 6)) (\<lambda>flags.
     if checksum \<noteq> 0 \<or> flags AND JOURNAL_TAG_DELETED \<noteq> 0 \<or> flags AND NOT JOURNAL_TAG_SUPPORTED \<noteq> 0
        \<or> (transaction_uuid = None \<and> flags AND JOURNAL_TAG_SAME_UUID \<noteq> 0)
     then Inl InvalidJournal
     else
     rbind (if flags AND JOURNAL_TAG_SAME_UUID = 0
            then rbind (ok_or InvalidJournal (usize_add (offs + 8) 16)) (\<lambda>uuid_end.
              if length bytes < uuid_end then Inl Truncated
              else Inr (Some (sub_bytes bytes (offs + 8) 16), offs + 24))
            else Inr (None, offs + 8)) (\<lambda>(uuid, next_offset).
     rbind (read_be_u32 bytes offs) (\<lambda>target_block.
     Inr \<lparr>pj_tag = \<lparr>jt_target_block = target_block, jt_escaped = (flags AND JOURNAL_TAG_ESCAPE \<noteq> 0)\<rparr>,
          pj_flags = flags, pj_uuid = uuid, pj_next_offset = next_offset\<rparr>)))))"

record JournalDescriptorBlock =
  jd_bytes :: "u8 list"
  jd_sequence :: u32
  jd_uuid :: "u8 list"
  jd_tag_count :: nat

text \<open>The agreement of a tag's own identifier with the one of the transaction.\<close>

definition join_uuid :: "u8 list option \<Rightarrow> u8 list option \<Rightarrow> Ext4Error + u8 list option" where
  "join_uuid transaction_uuid own =
    (case own of
       None \<Rightarrow> Inr transaction_uuid
     | Some uuid \<Rightarrow>
         (case transaction_uuid of
            Some expected \<Rightarrow> if uuid \<noteq> expected then Inl InvalidJournal else Inr transaction_uuid
          | None \<Rightarrow> Inr (Some uuid)))"

text \<open>The loop over the tags; each round moves the offset forward inside the block.\<close>

function descriptor_loop ::
  "u8 list \<Rightarrow> nat \<Rightarrow> nat \<Rightarrow> u8 list option \<Rightarrow> Ext4Error + nat \<times> u8 list option" where
  "descriptor_loop bytes offs tag_count transaction_uuid =
     rbind (parse_journal_tag bytes offs transaction_uuid) (\<lambda>parsed.
     rbind (join_uuid transaction_uuid (pj_uuid parsed)) (\<lambda>transaction_uuid'.
     if pj_flags parsed AND JOURNAL_TAG_LAST \<noteq> 0 then Inr (tag_count + 1, transaction_uuid')
     else descriptor_loop bytes (pj_next_offset parsed) (tag_count + 1) transaction_uuid'))"
  by pat_completeness auto

lemma parse_journal_tag_advances:
  "parse_journal_tag bytes offs u = Inr p \<Longrightarrow> offs < pj_next_offset p \<and> pj_next_offset p \<le> length bytes \<and> offs < length bytes"
  by (auto simp: parse_journal_tag_def result_simps checked_simps split: if_splits)

termination descriptor_loop
  by (relation "measure (\<lambda>(bytes, offs, _). length bytes - offs)")
    (auto dest: parse_journal_tag_advances)

declare descriptor_loop.simps [simp del]

definition JournalDescriptorBlock_parse :: "u8 list \<Rightarrow> Ext4Error + JournalDescriptorBlock" where
  "JournalDescriptorBlock_parse bytes =
    (if length bytes < 36 then Inl Truncated
     else
     rbind (read_be_u32 bytes 0) (\<lambda>magic.
     rbind (if magic \<noteq> JOURNAL_MAGIC then Inr True
            else rbind (read_be_u32 bytes 4) (\<lambda>kind. Inr (kind \<noteq> JOURNAL_DESCRIPTOR_BLOCK))) (\<lambda>foreign.
     if foreign then Inl InvalidMagic
     else
     rbind (read_be_u32 bytes 8) (\<lambda>sequence.
     if sequence = 0 then Inl InvalidJournal
     else
     rbind (descriptor_loop bytes 12 0 None) (\<lambda>(tag_count, transaction_uuid).
     rbind (ok_or InvalidJournal transaction_uuid) (\<lambda>uuid.
     Inr \<lparr>jd_bytes = bytes, jd_sequence = sequence, jd_uuid = uuid, jd_tag_count = tag_count\<rparr>))))))"

text \<open>The loop of \<open>tag\<close>; the number counts the rounds left before the wanted tag.\<close>

primrec tag_loop :: "nat \<Rightarrow> u8 list \<Rightarrow> nat \<Rightarrow> u8 list option \<Rightarrow> Ext4Error + JournalTag" where
  "tag_loop 0 bytes offs transaction_uuid =
     rbind (parse_journal_tag bytes offs transaction_uuid) (\<lambda>parsed. Inr (pj_tag parsed))"
| "tag_loop (Suc n) bytes offs transaction_uuid =
     rbind (parse_journal_tag bytes offs transaction_uuid) (\<lambda>parsed.
     tag_loop n bytes (pj_next_offset parsed)
       (case pj_uuid parsed of Some uuid \<Rightarrow> Some uuid | None \<Rightarrow> transaction_uuid))"

definition descriptor_tag :: "JournalDescriptorBlock \<Rightarrow> nat \<Rightarrow> Ext4Error + JournalTag" where
  "descriptor_tag block i =
    (if jd_tag_count block \<le> i then Inl InvalidJournal else tag_loop i (jd_bytes block) 12 None)"

record JournalDescriptor =
  jr_sequence :: u32
  jr_target_block :: u32
  jr_escaped :: bool
  jr_uuid :: "u8 list"

definition JournalDescriptor_parse :: "u8 list \<Rightarrow> Ext4Error + JournalDescriptor" where
  "JournalDescriptor_parse bytes =
     rbind (JournalDescriptorBlock_parse bytes) (\<lambda>descriptor.
     if jd_tag_count descriptor \<noteq> 1 then Inl InvalidJournal
     else
     rbind (descriptor_tag descriptor 0) (\<lambda>tag.
     Inr \<lparr>jr_sequence = jd_sequence descriptor, jr_target_block = jt_target_block tag,
          jr_escaped = jt_escaped tag, jr_uuid = jd_uuid descriptor\<rparr>))"

record JournalCommit =
  jc_sequence :: u32

definition JournalCommit_parse :: "u8 list \<Rightarrow> Ext4Error + JournalCommit" where
  "JournalCommit_parse bytes =
    (if length bytes < 12 then Inl Truncated
     else
     rbind (read_be_u32 bytes 0) (\<lambda>magic.
     rbind (if magic \<noteq> JOURNAL_MAGIC then Inr True
            else rbind (read_be_u32 bytes 4) (\<lambda>kind. Inr (kind \<noteq> JOURNAL_COMMIT_BLOCK))) (\<lambda>foreign.
     if foreign then Inl InvalidMagic
     else
     rbind (read_be_u32 bytes 8) (\<lambda>sequence.
     if sequence = 0 then Inl InvalidJournal else Inr \<lparr>jc_sequence = sequence\<rparr>))))"

section \<open>Encoding and decoding a transaction\<close>

definition usize_is_power_of_two :: "nat \<Rightarrow> bool" where
  "usize_is_power_of_two n \<longleftrightarrow> list_ex (\<lambda>k. n = 2 ^ k) [0..<64]"

definition encode_journal_data_block :: "u8 list \<Rightarrow> (Ext4Error, bool) edit" where
  "encode_journal_data_block home_block journal_data_block =
    (if length journal_data_block \<noteq> length home_block \<or> length home_block < 1024
        \<or> \<not> usize_is_power_of_two (length home_block)
     then (Inl InvalidJournal, journal_data_block)
     else
     let escaped = (take 4 home_block = to_be_bytes JOURNAL_MAGIC) in
     (Inr escaped, if escaped then copy_at home_block 0 (replicate 4 0) else home_block))"

definition tag_flags :: "nat \<Rightarrow> nat \<Rightarrow> bool \<Rightarrow> u16" where
  "tag_flags i count escaped =
     (if escaped then JOURNAL_TAG_ESCAPE else 0) OR (if i \<noteq> 0 then JOURNAL_TAG_SAME_UUID else 0)
       OR (if i + 1 = count then JOURNAL_TAG_LAST else 0)"

text \<open>The loop over the target blocks, with the index and the offset of the next tag.\<close>

fun encode_tags :: "nat \<Rightarrow> u8 list \<Rightarrow> nat \<Rightarrow> nat \<Rightarrow> (u32 \<times> bool) list \<Rightarrow> (Ext4Error, unit) edit" where
  "encode_tags count uuid i offs [] = done_ok"
| "encode_tags count uuid i offs ((target_block, escaped) # tags) =
     ebind (write_be_u32 offs target_block) (\<lambda>_.
     ebind (write_be_u16 (offs + 4) 0) (\<lambda>_.
     ebind (write_be_u16 (offs + 6) (tag_flags i count escaped)) (\<lambda>_.
     if i = 0 then
       ebind (overwrite Truncated (offs + 8) uuid) (\<lambda>_. encode_tags count uuid (i + 1) (offs + 24) tags)
     else encode_tags count uuid (i + 1) (offs + 8) tags)))"

definition encode_journal_descriptor_block ::
  "u32 \<Rightarrow> u32 list \<Rightarrow> bool list \<Rightarrow> u8 list \<Rightarrow> (Ext4Error, unit) edit" where
  "encode_journal_descriptor_block sequence target_blocks escaped_tags uuid =
     ebind (query (\<lambda>descriptor_block.
       if length descriptor_block < 1024 \<or> \<not> usize_is_power_of_two (length descriptor_block) \<or> sequence = 0
          \<or> target_blocks = [] \<or> length target_blocks \<noteq> length escaped_tags
       then Inl InvalidJournal else Inr ())) (\<lambda>_.
     ebind (query (\<lambda>descriptor_block.
       ok_or InvalidJournal
         (Option.bind (usize_add 12 24) (\<lambda>sz.
          Option.bind (usize_sub (length target_blocks) 1) (\<lambda>remaining.
          Option.bind (usize_mul remaining 8) (\<lambda>remaining. usize_add sz remaining)))))) (\<lambda>encoded_size.
     ebind (query (\<lambda>descriptor_block.
       if length descriptor_block < encoded_size then Inl InvalidJournal else Inr ())) (\<lambda>_.
     ebind (\<lambda>descriptor_block. (Inr (), replicate (length descriptor_block) 0)) (\<lambda>_.
     ebind (write_be_u32 0 JOURNAL_MAGIC) (\<lambda>_.
     ebind (write_be_u32 4 JOURNAL_DESCRIPTOR_BLOCK) (\<lambda>_.
     ebind (write_be_u32 8 sequence) (\<lambda>_.
     ebind (encode_tags (length target_blocks) uuid 0 12 (zip target_blocks escaped_tags)) (\<lambda>_.
     ebind (query JournalDescriptorBlock_parse) (\<lambda>_. done_ok)))))))))"

definition encode_journal_commit_block :: "u32 \<Rightarrow> (Ext4Error, unit) edit" where
  "encode_journal_commit_block sequence =
     ebind (query (\<lambda>commit_block.
       if length commit_block < 1024 \<or> \<not> usize_is_power_of_two (length commit_block) \<or> sequence = 0
       then Inl InvalidJournal else Inr ())) (\<lambda>_.
     ebind (\<lambda>commit_block. (Inr (), replicate (length commit_block) 0)) (\<lambda>_.
     ebind (write_be_u32 0 JOURNAL_MAGIC) (\<lambda>_.
     ebind (write_be_u32 4 JOURNAL_COMMIT_BLOCK) (\<lambda>_.
     ebind (write_be_u32 8 sequence) (\<lambda>_.
     ebind (query JournalCommit_parse) (\<lambda>_. done_ok))))))"

text \<open>The three buffers of a transaction are edited in turn; an error leaves the later ones alone.\<close>

definition encode_single_block_journal_transaction ::
  "u32 \<Rightarrow> u32 \<Rightarrow> u8 list \<Rightarrow> u8 list \<Rightarrow> u8 list \<Rightarrow> u8 list \<Rightarrow> u8 list \<Rightarrow>
     (Ext4Error + unit) \<times> u8 list \<times> u8 list \<times> u8 list" where
  "encode_single_block_journal_transaction sequence target_block uuid home_block
     descriptor_block journal_data_block commit_block =
    (if length descriptor_block \<noteq> length home_block \<or> length journal_data_block \<noteq> length home_block
        \<or> length commit_block \<noteq> length home_block \<or> length home_block < 1024
        \<or> \<not> usize_is_power_of_two (length home_block) \<or> sequence = 0
     then (Inl InvalidJournal, descriptor_block, journal_data_block, commit_block)
     else
     case encode_journal_data_block home_block journal_data_block of
       (Inl e, data) \<Rightarrow> (Inl e, descriptor_block, data, commit_block)
     | (Inr escaped, data) \<Rightarrow>
         (case encode_journal_descriptor_block sequence [target_block] [escaped] uuid descriptor_block of
            (Inl e, descriptor) \<Rightarrow> (Inl e, descriptor, data, commit_block)
          | (Inr _, descriptor) \<Rightarrow>
              (case encode_journal_commit_block sequence commit_block of (r, commit) \<Rightarrow> (r, descriptor, data, commit))))"

definition decode_journal_tag_data :: "u8 list \<Rightarrow> JournalTag \<Rightarrow> (Ext4Error, unit) edit" where
  "decode_journal_tag_data journal_data_block tag out =
    (if length out \<noteq> length journal_data_block \<or> length out < 4 then (Inl InvalidJournal, out)
     else (Inr (), if jt_escaped tag then copy_at journal_data_block 0 (to_be_bytes JOURNAL_MAGIC)
                   else journal_data_block))"

definition decode_journal_data_block :: "u8 list \<Rightarrow> JournalDescriptor \<Rightarrow> (Ext4Error, unit) edit" where
  "decode_journal_data_block journal_data_block descriptor =
     decode_journal_tag_data journal_data_block
       \<lparr>jt_target_block = jr_target_block descriptor, jt_escaped = jr_escaped descriptor\<rparr>"

definition decode_single_block_journal_transaction ::
  "u8 list \<Rightarrow> u8 list \<Rightarrow> u8 list \<Rightarrow> u32 \<Rightarrow> u8 list \<Rightarrow> (Ext4Error, JournalDescriptor) edit" where
  "decode_single_block_journal_transaction descriptor_block journal_data_block commit_block
     expected_sequence expected_uuid =
     ebind (guard (expected_sequence = 0 \<or> length descriptor_block \<noteq> length journal_data_block
        \<or> length commit_block \<noteq> length journal_data_block) InvalidJournal) (\<lambda>_.
     ebind (query (\<lambda>_. JournalDescriptor_parse descriptor_block)) (\<lambda>descriptor.
     ebind (query (\<lambda>_. JournalCommit_parse commit_block)) (\<lambda>commit.
     ebind (guard (jr_sequence descriptor \<noteq> expected_sequence \<or> jc_sequence commit \<noteq> expected_sequence
        \<or> jr_uuid descriptor \<noteq> expected_uuid) InvalidJournal) (\<lambda>_.
     ebind (decode_journal_data_block journal_data_block descriptor) (\<lambda>_.
     query (\<lambda>_. Inr descriptor))))))"

section \<open>Reading what was encoded\<close>

lemmas journal_tag_bits = JOURNAL_TAG_ESCAPE_def JOURNAL_TAG_SAME_UUID_def JOURNAL_TAG_DELETED_def
  JOURNAL_TAG_LAST_def JOURNAL_TAG_SUPPORTED_def

lemma read_be_u32_sub: "off + 4 \<le> length b \<Longrightarrow> read_be_u32 b off = Inr (from_be_bytes (sub_bytes b off 4))"
  by (simp add: read_be_u32_def get_range_sub_bytes)

lemma read_be_u16_sub: "off + 2 \<le> length b \<Longrightarrow> read_be_u16 b off = Inr (from_be_bytes (sub_bytes b off 2))"
  by (simp add: read_be_u16_def get_range_sub_bytes del: add_2_eq_Suc add_2_eq_Suc')

lemma flag_bits:
  fixes escape same final :: bool
  defines "w \<equiv> (if escape then 1 else 0) OR (if same then 2 else 0) OR (if final then 8 else (0 :: u16))"
  shows "w AND 4 = 0" "w AND NOT 11 = 0" "w AND 2 = 0 \<longleftrightarrow> \<not> same" "w AND 8 = 0 \<longleftrightarrow> \<not> final" "w AND 1 = 0 \<longleftrightarrow> \<not> escape"
  unfolding w_def by (cases escape; cases same; cases final; simp)+

lemma tag_flags_bits:
  "tag_flags i count escaped AND JOURNAL_TAG_DELETED = 0"
  "tag_flags i count escaped AND NOT JOURNAL_TAG_SUPPORTED = 0"
  "tag_flags i count escaped AND JOURNAL_TAG_SAME_UUID = 0 \<longleftrightarrow> i = 0"
  "tag_flags i count escaped AND JOURNAL_TAG_LAST = 0 \<longleftrightarrow> i + 1 \<noteq> count"
  "tag_flags i count escaped AND JOURNAL_TAG_ESCAPE = 0 \<longleftrightarrow> \<not> escaped"
  using flag_bits [of escaped "i \<noteq> 0" "i + 1 = count"]
  unfolding tag_flags_def journal_tag_bits by simp_all

text \<open>The bytes of one tag at an offset.\<close>

definition tag_at :: "u8 list \<Rightarrow> nat \<Rightarrow> nat \<Rightarrow> nat \<Rightarrow> u32 \<times> bool \<Rightarrow> u8 list \<Rightarrow> bool" where
  "tag_at b offs count i = (\<lambda>(target, escaped) uuid.
     sub_bytes b offs 4 = to_be_bytes target \<and> sub_bytes b (offs + 4) 2 = to_be_bytes (0 :: u16)
     \<and> sub_bytes b (offs + 6) 2 = to_be_bytes (tag_flags i count escaped)
     \<and> (i = 0 \<longrightarrow> sub_bytes b (offs + 8) 16 = uuid))"

definition tag_size :: "nat \<Rightarrow> nat" where
  "tag_size i = (if i = 0 then 24 else 8)"

lemma parse_tag_at:
  assumes "tag_at b offs count i (target, escaped) uuid" and "offs + tag_size i \<le> length b"
    and "length b < usize_limit" and "u = (if i = 0 then None else Some uuid)"
  shows "parse_journal_tag b offs u =
    Inr \<lparr>pj_tag = \<lparr>jt_target_block = target, jt_escaped = escaped\<rparr>, pj_flags = tag_flags i count escaped,
         pj_uuid = (if i = 0 then Some uuid else None), pj_next_offset = offs + tag_size i\<rparr>"
  using assms
  by (cases "i = 0")
    (simp_all add: parse_journal_tag_def tag_at_def tag_size_def usize_add_def read_be_u32_sub read_be_u16_sub
      tag_flags_bits)

lemma tag_at_prefix:
  assumes "take n b' = take n b" and "offs + tag_size i \<le> n"
  shows "tag_at b' offs count i t uuid = tag_at b offs count i t uuid"
proof -
  have "sub_bytes b' a k = sub_bytes b a k" if "a + k \<le> n" for a k
    using sub_bytes_take [OF that, of b'] sub_bytes_take [OF that, of b] assms(1) by simp
  then show ?thesis using assms(2) by (cases t) (auto simp: tag_at_def tag_size_def split: if_splits)
qed

lemma encode_tags_Cons:
  assumes "offs + tag_size i \<le> length b" and "length uuid = 16"
  obtains b1 where "encode_tags count uuid i offs (t # ts) b = encode_tags count uuid (i + 1) (offs + tag_size i) ts b1"
    and "length b1 = length b" and "take offs b1 = take offs b" and "tag_at b1 offs count i t uuid"
proof -
  obtain target escaped where t: "t = (target, escaped)" by (cases t)
  define b1 where "b1 = copy_at (copy_at (copy_at b offs (to_be_bytes target)) (offs + 4) (to_be_bytes (0 :: u16)))
    (offs + 6) (to_be_bytes (tag_flags i count escaped))"
  define b2 where "b2 = (if i = 0 then copy_at b1 (offs + 8) uuid else b1)"
  have fits: "offs + 8 \<le> length b" using assms(1) by (simp add: tag_size_def split: if_splits)
  then have len: "length b1 = length b" by (simp add: b1_def)
  have "encode_tags count uuid i offs (t # ts) b = encode_tags count uuid (i + 1) (offs + tag_size i) ts b2"
    using assms fits len
    by (cases "i = 0") (simp_all add: t write_be_u32_def write_be_u16_def ebind_overwrite b2_def b1_def tag_size_def)
  moreover have "length b2 = length b" using assms len by (simp add: b2_def tag_size_def split: if_splits)
  moreover have "take offs b2 = take offs b" using assms fits len
    by (cases "i = 0") (simp_all add: b2_def b1_def take_copy_at tag_size_def)
  moreover have "tag_at b1 offs count i t uuid" if "i \<noteq> 0"
    using that fits by (simp add: tag_at_def t b1_def sub_bytes_copy_other)
  moreover have "tag_at b2 offs count i t uuid" if "i = 0"
  proof -
    have "offs + 24 \<le> length b" using assms(1) that by (simp add: tag_size_def)
    then show ?thesis using that assms(2) fits len
      by (simp add: tag_at_def t b2_def b1_def sub_bytes_copy_other)
  qed
  ultimately show ?thesis using that by (cases "i = 0") (auto simp: b2_def)
qed

lemma join_uuid_first: "join_uuid (if i = 0 then None else Some uuid) (if i = 0 then Some uuid else None) = Inr (Some uuid)"
  by (simp add: join_uuid_def)

lemma encode_tags_parse:
  assumes "offs + (if tags = [] then 0 else tag_size i + 8 * (length tags - 1)) \<le> length b" and "length uuid = 16"
    and "count = i + length tags" and "length b < usize_limit"
  shows "\<exists>b'. encode_tags count uuid i offs tags b = (Inr (), b') \<and> length b' = length b
    \<and> take offs b' = take offs b
    \<and> (tags \<noteq> [] \<longrightarrow> descriptor_loop b' offs i (if i = 0 then None else Some uuid) = Inr (count, Some uuid))
    \<and> (\<forall>k<length tags. tag_loop k b' offs (if i = 0 then None else Some uuid)
          = Inr \<lparr>jt_target_block = fst (tags ! k), jt_escaped = snd (tags ! k)\<rparr>)"
  using assms
proof (induction tags arbitrary: i offs b)
  case Nil
  then show ?case by (simp add: done_ok_def)
next
  case (Cons t ts)
  have fits: "offs + tag_size i \<le> length b" using Cons.prems(1) by simp
  obtain b1 where b1: "encode_tags count uuid i offs (t # ts) b = encode_tags count uuid (i + 1) (offs + tag_size i) ts b1"
    "length b1 = length b" "take offs b1 = take offs b" "tag_at b1 offs count i t uuid"
    using encode_tags_Cons [OF fits Cons.prems(2)] by blast
  have "offs + tag_size i + (if ts = [] then 0 else tag_size (i + 1) + 8 * (length ts - 1)) \<le> length b1"
    using Cons.prems(1) b1(2) by (cases ts) (auto simp: tag_size_def)
  with Cons.IH [where i = "i + 1" and offs = "offs + tag_size i" and b = b1] Cons.prems b1(2)
  obtain b' where b': "encode_tags count uuid (i + 1) (offs + tag_size i) ts b1 = (Inr (), b')" "length b' = length b"
    "take (offs + tag_size i) b' = take (offs + tag_size i) b1"
    "ts \<noteq> [] \<Longrightarrow> descriptor_loop b' (offs + tag_size i) (i + 1) (Some uuid) = Inr (count, Some uuid)"
    "\<forall>k<length ts. tag_loop k b' (offs + tag_size i) (Some uuid)
          = Inr \<lparr>jt_target_block = fst (ts ! k), jt_escaped = snd (ts ! k)\<rparr>"
    by auto
  have at: "tag_at b' offs count i t uuid" using b1(4) tag_at_prefix [OF b'(3)] by simp
  have parse: "parse_journal_tag b' offs (if i = 0 then None else Some uuid) =
    Inr \<lparr>pj_tag = \<lparr>jt_target_block = fst t, jt_escaped = snd t\<rparr>, pj_flags = tag_flags i count (snd t),
         pj_uuid = (if i = 0 then Some uuid else None), pj_next_offset = offs + tag_size i\<rparr>"
    using parse_tag_at [of b' offs count i "fst t" "snd t" uuid] at fits b'(2) Cons.prems(4) by simp
  have pre: "take offs b' = take offs b"
    using arg_cong [OF b'(3), of "take offs"] b1(3) by (simp add: min_def)
  have loop: "descriptor_loop b' offs i (if i = 0 then None else Some uuid) = Inr (count, Some uuid)"
    using b'(4) Cons.prems(3)
    by (cases ts) (simp_all add: descriptor_loop.simps [of b' offs] parse join_uuid_first tag_flags_bits)
  have tags: "tag_loop k b' offs (if i = 0 then None else Some uuid)
          = Inr \<lparr>jt_target_block = fst ((t # ts) ! k), jt_escaped = snd ((t # ts) ! k)\<rparr>" if "k < length (t # ts)" for k
    using that b'(5) parse by (cases k; cases "i = 0") simp_all
  show ?case using b1(1) b'(1,2) pre loop tags by auto
qed

section \<open>Transactions\<close>

lemma usize_power_limit: "usize_is_power_of_two n \<Longrightarrow> n < usize_limit"
proof -
  assume "usize_is_power_of_two n"
  then obtain k where "k < 64" "n = 2 ^ k" by (auto simp: usize_is_power_of_two_def list_ex_iff)
  then show ?thesis unfolding usize_limit_def by (metis one_less_numeral_iff power_strict_increasing semiring_norm(76))
qed

lemma header_fields:
  fixes x y z :: u32
  assumes "36 \<le> length b"
  defines "h \<equiv> copy_at (copy_at (copy_at b 0 (to_be_bytes x)) 4 (to_be_bytes y)) 8 (to_be_bytes z)"
  shows "length h = length b" and "sub_bytes h 0 4 = to_be_bytes x" and "sub_bytes h 4 4 = to_be_bytes y"
    and "sub_bytes h 8 4 = to_be_bytes z"
  using assms by (simp_all add: sub_bytes_copy_other)

lemma encode_descriptor_block:
  assumes "1024 \<le> length d" and "usize_is_power_of_two (length d)" and "sequence \<noteq> 0" and "targets \<noteq> []"
    and "length escaped = length targets" and "length uuid = 16" and "36 + 8 * (length targets - 1) \<le> length d"
  shows "\<exists>block. encode_journal_descriptor_block sequence targets escaped uuid d = (Inr (), block)
    \<and> length block = length d
    \<and> JournalDescriptorBlock_parse block =
        Inr \<lparr>jd_bytes = block, jd_sequence = sequence, jd_uuid = uuid, jd_tag_count = length targets\<rparr>
    \<and> (\<forall>i<length targets. tag_loop i block 12 None = Inr \<lparr>jt_target_block = targets ! i, jt_escaped = escaped ! i\<rparr>)"
proof -
  define z where "z = (replicate (length d) 0 :: u8 list)"
  define h where "h = copy_at (copy_at (copy_at z 0 (to_be_bytes JOURNAL_MAGIC)) 4 (to_be_bytes JOURNAL_DESCRIPTOR_BLOCK))
    8 (to_be_bytes sequence)"
  have z: "36 \<le> length z" "length z = length d" using assms(1) by (simp_all add: z_def)
  note h = header_fields [OF z(1), of JOURNAL_MAGIC JOURNAL_DESCRIPTOR_BLOCK sequence, folded h_def]
  have lim: "length d < usize_limit" using assms(2) by (rule usize_power_limit)
  have zip: "zip targets escaped \<noteq> []" "length (zip targets escaped) = length targets" using assms(4,5) by (cases targets; cases escaped; simp)+
  have fits: "12 + (if zip targets escaped = [] then 0 else tag_size 0 + 8 * (length (zip targets escaped) - 1)) \<le> length h"
    using zip assms(7) h(1) z(2) by (simp add: tag_size_def)
  obtain b where b: "encode_tags (length targets) uuid 0 12 (zip targets escaped) h = (Inr (), b)" "length b = length h"
    "take 12 b = take 12 h" "descriptor_loop b 12 0 None = Inr (length targets, Some uuid)"
    "\<forall>k<length targets. tag_loop k b 12 None
          = Inr \<lparr>jt_target_block = fst (zip targets escaped ! k), jt_escaped = snd (zip targets escaped ! k)\<rparr>"
    using encode_tags_parse [OF fits assms(6), of "length targets"] zip lim h(1) z(2) by auto
  have "sub_bytes b a 4 = sub_bytes h a 4" if "a + 4 \<le> 12" for a
    using sub_bytes_take [OF that, of b] sub_bytes_take [OF that, of h] b(3) by simp
  then have fields: "sub_bytes b 0 4 = to_be_bytes JOURNAL_MAGIC" "sub_bytes b 4 4 = to_be_bytes JOURNAL_DESCRIPTOR_BLOCK"
    "sub_bytes b 8 4 = to_be_bytes sequence"
    using h by simp_all
  have len: "length b = length d" using b(2) h(1) z(2) by simp
  have parse: "JournalDescriptorBlock_parse b =
        Inr \<lparr>jd_bytes = b, jd_sequence = sequence, jd_uuid = uuid, jd_tag_count = length targets\<rparr>"
    using assms(1,3) len by (simp add: JournalDescriptorBlock_parse_def read_be_u32_sub fields b(4))
  have size: "usize_mul (length targets - Suc 0) 8 = Some (8 * (length targets - 1))"
    "usize_add 36 (8 * (length targets - 1)) = Some (36 + 8 * (length targets - 1))"
    using assms(7) lim by (simp_all add: usize_mul_def usize_add_def)
  have runs: "ebind (\<lambda>buf. (Inr (), replicate (length buf) 0)) f d = f () z"
    "ebind (encode_tags (length targets) uuid 0 12 (zip targets escaped)) f h = f () b"
    for f :: "unit \<Rightarrow> (Ext4Error, unit) edit"
    using b(1) by (simp_all add: ebind_def z_def)
  have start: "usize_add 12 24 = Some 36" "usize_sub (length targets) 1 = Some (length targets - 1)"
    using assms(4) by (simp_all add: usize_add_def usize_limit_def usize_sub_def Suc_le_eq)
  have "encode_journal_descriptor_block sequence targets escaped uuid d = (Inr (), b)"
    using assms z h(1) len
    by (simp add: encode_journal_descriptor_block_def edit_early start [simplified] size [simplified] runs write_be_u32_def ebind_overwrite
      parse done_ok_def flip: h_def)
  then show ?thesis using parse len b(5) assms(5) by auto
qed

text \<open>Escaping: a data block in the journal never starts with the magic number, and undoing the escape
  gives the home block back.\<close>

lemma encode_data_block:
  assumes "length home = length buf" and "1024 \<le> length home" and "usize_is_power_of_two (length home)"
  defines "escaped \<equiv> take 4 home = to_be_bytes JOURNAL_MAGIC"
  shows "\<exists>data. encode_journal_data_block home buf = (Inr escaped, data) \<and> length data = length home
    \<and> take 4 data \<noteq> to_be_bytes JOURNAL_MAGIC
    \<and> (\<forall>out target. length out = length home \<longrightarrow>
         decode_journal_tag_data data \<lparr>jt_target_block = target, jt_escaped = escaped\<rparr> out = (Inr (), home))"
proof (cases escaped)
  case True
  define data where "data = copy_at home 0 (replicate 4 (0 :: u8))"
  have "take 4 data = replicate 4 0" using assms(2) by (simp add: data_def copy_at_def)
  moreover have "replicate 4 0 \<noteq> to_be_bytes JOURNAL_MAGIC"
  proof
    assume "replicate 4 0 = to_be_bytes JOURNAL_MAGIC"
    then have "from_be_bytes (replicate 4 0) = (from_be_bytes (to_be_bytes JOURNAL_MAGIC) :: u32)" by (rule arg_cong)
    then show False by (simp add: from_be_bytes_zeros JOURNAL_MAGIC_def)
  qed
  moreover have "copy_at data 0 (to_be_bytes JOURNAL_MAGIC) = home"
    using True assms(2) append_take_drop_id [of 4 home] by (simp add: data_def copy_at_def escaped_def)
  moreover have "length data = length home" using assms(2) by (simp add: data_def)
  ultimately show ?thesis
    using assms True by (auto simp: encode_journal_data_block_def decode_journal_tag_data_def simp flip: data_def)
next
  case False
  then show ?thesis
    using assms by (auto simp: encode_journal_data_block_def decode_journal_tag_data_def)
qed

text \<open>\<^bold>\<open>C40\<close>. Recovery replays exactly what was journalled. For any home blocks of one block size,
  their target blocks, a non-zero sequence number and a 16-byte identifier that fit a descriptor block:
  encoding the data blocks and the descriptor block succeeds, the descriptor block parses to the sequence
  number, the identifier and the number of blocks, and for every block its tag names its target and
  decoding the journalled data with the tag gives the home block. No journalled data block starts with
  the magic number, so recovery cannot mistake data for a journal block.\<close>

theorem journal_transactions_roundtrip:
  assumes "1024 \<le> length d" and "usize_is_power_of_two (length d)" and "\<forall>h\<in>set homes. length h = length d"
    and "sequence \<noteq> 0" and "length uuid = 16" and "homes \<noteq> []" and "length targets = length homes"
    and "36 + 8 * (length homes - 1) \<le> length d"
  shows "\<exists>escaped data block descriptor.
      length data = length homes \<and> length escaped = length homes
    \<and> (\<forall>i<length homes. encode_journal_data_block (homes ! i) d = (Inr (escaped ! i), data ! i)
         \<and> take 4 (data ! i) \<noteq> to_be_bytes JOURNAL_MAGIC)
    \<and> encode_journal_descriptor_block sequence targets escaped uuid d = (Inr (), block)
    \<and> JournalDescriptorBlock_parse block = Inr descriptor
    \<and> jd_sequence descriptor = sequence \<and> jd_uuid descriptor = uuid \<and> jd_tag_count descriptor = length homes
    \<and> (\<forall>i<length homes. \<exists>tag. descriptor_tag descriptor i = Inr tag \<and> jt_target_block tag = targets ! i
         \<and> decode_journal_tag_data (data ! i) tag d = (Inr (), homes ! i))"
proof -
  define escaped where "escaped = map (\<lambda>h. take 4 h = to_be_bytes JOURNAL_MAGIC) homes"
  define data where "data = map (\<lambda>h. snd (encode_journal_data_block h d)) homes"
  have enc: "encode_journal_data_block (homes ! i) d = (Inr (escaped ! i), data ! i)
      \<and> take 4 (data ! i) \<noteq> to_be_bytes JOURNAL_MAGIC
      \<and> decode_journal_tag_data (data ! i) \<lparr>jt_target_block = targets ! i, jt_escaped = escaped ! i\<rparr> d = (Inr (), homes ! i)"
    if "i < length homes" for i
    using encode_data_block [of "homes ! i" d] assms(1-3) that by (auto simp: escaped_def data_def)
  have "length escaped = length targets" "targets \<noteq> []" using assms(6,7) by (auto simp: escaped_def)
  then obtain block where "encode_journal_descriptor_block sequence targets escaped uuid d = (Inr (), block)"
    "JournalDescriptorBlock_parse block =
        Inr \<lparr>jd_bytes = block, jd_sequence = sequence, jd_uuid = uuid, jd_tag_count = length targets\<rparr>"
    "\<forall>i<length targets. tag_loop i block 12 None = Inr \<lparr>jt_target_block = targets ! i, jt_escaped = escaped ! i\<rparr>"
    using encode_descriptor_block [of d sequence targets escaped uuid] assms by auto
  then show ?thesis using enc assms(7)
    by (intro exI [of _ escaped] exI [of _ data] exI [of _ block] exI)
      (auto simp: descriptor_tag_def escaped_def data_def)
qed

lemma power_1024: "usize_is_power_of_two 1024"
  by (auto simp: usize_is_power_of_two_def list_ex_iff intro!: bexI [of _ 10])

theorem journal_transactions_roundtrip_witness:
  "\<exists>escaped data block descriptor.
      length data = 2 \<and> length escaped = 2
    \<and> (\<forall>i<2. encode_journal_data_block ([to_be_bytes JOURNAL_MAGIC @ replicate 1020 7, replicate 1024 1] ! i) (replicate 1024 0)
           = (Inr (escaped ! i), data ! i)
         \<and> take 4 (data ! i) \<noteq> to_be_bytes JOURNAL_MAGIC)
    \<and> encode_journal_descriptor_block 1 [100, 200] escaped (replicate 16 9) (replicate 1024 0) = (Inr (), block)
    \<and> JournalDescriptorBlock_parse block = Inr descriptor
    \<and> jd_sequence descriptor = 1 \<and> jd_uuid descriptor = replicate 16 9 \<and> jd_tag_count descriptor = 2
    \<and> (\<forall>i<2. \<exists>tag. descriptor_tag descriptor i = Inr tag \<and> jt_target_block tag = [100, 200] ! i
         \<and> decode_journal_tag_data (data ! i) tag (replicate 1024 0)
             = (Inr (), [to_be_bytes JOURNAL_MAGIC @ replicate 1020 7, replicate 1024 1] ! i))"
  using journal_transactions_roundtrip [where d = "replicate 1024 0" and sequence = 1 and uuid = "replicate 16 9"
      and homes = "[to_be_bytes JOURNAL_MAGIC @ replicate 1020 7, replicate 1024 1]" and targets = "[100, 200]"]
  by (simp add: power_1024 numeral_2_eq_2)

lemma encode_commit_block:
  assumes "1024 \<le> length c" and "usize_is_power_of_two (length c)" and "sequence \<noteq> 0"
  shows "\<exists>commit. encode_journal_commit_block sequence c = (Inr (), commit) \<and> length commit = length c
    \<and> JournalCommit_parse commit = Inr \<lparr>jc_sequence = sequence\<rparr>"
proof -
  define z where "z = (replicate (length c) 0 :: u8 list)"
  define h where "h = copy_at (copy_at (copy_at z 0 (to_be_bytes JOURNAL_MAGIC)) 4 (to_be_bytes JOURNAL_COMMIT_BLOCK))
    8 (to_be_bytes sequence)"
  have z: "36 \<le> length z" "length z = length c" using assms(1) by (simp_all add: z_def)
  note h = header_fields [OF z(1), of JOURNAL_MAGIC JOURNAL_COMMIT_BLOCK sequence, folded h_def]
  have parse: "JournalCommit_parse h = Inr \<lparr>jc_sequence = sequence\<rparr>"
    using assms z h by (simp add: JournalCommit_parse_def read_be_u32_sub)
  have fill: "ebind (\<lambda>buf. (Inr (), replicate (length buf) 0)) f c = f () z" for f :: "unit \<Rightarrow> (Ext4Error, unit) edit"
    by (simp add: ebind_def z_def)
  have "encode_journal_commit_block sequence c = (Inr (), h)"
    using assms z h(1)
    by (simp add: encode_journal_commit_block_def edit_early fill write_be_u32_def ebind_overwrite parse done_ok_def
      flip: h_def)
  then show ?thesis using parse h(1) z(2) by auto
qed

lemma single_block_transaction_roundtrip:
  assumes "1024 \<le> length home" and "usize_is_power_of_two (length home)" and "sequence \<noteq> 0" and "length uuid = 16"
    and "length d = length home" and "length j = length home" and "length c = length home" and "length out = length home"
  shows "\<exists>descriptor data commit.
      encode_single_block_journal_transaction sequence target uuid home d j c = (Inr (), descriptor, data, commit)
    \<and> decode_single_block_journal_transaction descriptor data commit sequence uuid out =
        (Inr \<lparr>jr_sequence = sequence, jr_target_block = target,
              jr_escaped = (take 4 home = to_be_bytes JOURNAL_MAGIC), jr_uuid = uuid\<rparr>, home)"
proof -
  let ?e = "take 4 home = to_be_bytes JOURNAL_MAGIC"
  obtain data where data: "encode_journal_data_block home j = (Inr ?e, data)" "length data = length home"
    "decode_journal_tag_data data \<lparr>jt_target_block = target, jt_escaped = ?e\<rparr> out = (Inr (), home)"
    using encode_data_block [of home j] assms by auto
  obtain b where b: "encode_journal_descriptor_block sequence [target] [?e] uuid d = (Inr (), b)" "length b = length d"
    "JournalDescriptorBlock_parse b = Inr \<lparr>jd_bytes = b, jd_sequence = sequence, jd_uuid = uuid, jd_tag_count = 1\<rparr>"
    "tag_loop 0 b 12 None = Inr \<lparr>jt_target_block = target, jt_escaped = ?e\<rparr>"
    using encode_descriptor_block [of d sequence "[target]" "[?e]" uuid] assms by auto
  obtain commit where c: "encode_journal_commit_block sequence c = (Inr (), commit)" "length commit = length c"
    "JournalCommit_parse commit = Inr \<lparr>jc_sequence = sequence\<rparr>"
    using encode_commit_block [of c sequence] assms by auto
  have parse: "JournalDescriptor_parse b = Inr \<lparr>jr_sequence = sequence, jr_target_block = target, jr_escaped = ?e, jr_uuid = uuid\<rparr>"
    using b(3,4) by (simp add: JournalDescriptor_parse_def descriptor_tag_def)
  show ?thesis
    using assms data b c parse
    by (intro exI [of _ b] exI [of _ data] exI [of _ commit])
      (simp add: encode_single_block_journal_transaction_def decode_single_block_journal_transaction_def edit_early
        decode_journal_data_block_def ebind_Inr query_def)
qed

end
