(* ===== verification/Ext4_Proofs.thy ===== *)
theory Ext4_Proofs
  imports Ext4 "HOL-Library.Code_Target_Nat"
begin

text \<open>
  Properties of the superblock, inode and extent operations of the ext4 crate: the operations that edit a
  superblock or an inode change what they are meant to change and nothing else and leave it valid, inode
  slots do not overlap, and the extent searches agree with a search of the list of extents.
\<close>

section \<open>Fields\<close>

lemma read_u16_at: "off + 2 \<le> length b \<Longrightarrow> ext4_read_u16 b off = Inr (le16_at b off)"
  by (simp add: ext4_read_u16_def le16_at_def get_range_sub_bytes del: add_2_eq_Suc add_2_eq_Suc')

lemma read_u32_at: "off + 4 \<le> length b \<Longrightarrow> ext4_read_u32 b off = Inr (le32_at b off)"
  by (simp add: ext4_read_u32_def le32_at_def get_range_sub_bytes)

lemma read_if_at:
  "off + 2 \<le> length b \<Longrightarrow> (if c then ext4_read_u16 b off else Inr v) = Inr (if c then le16_at b off else v)"
  "off + 2 \<le> length b \<Longrightarrow> (if c then Inr v else ext4_read_u16 b off) = Inr (if c then v else le16_at b off)"
  "off + 4 \<le> length b \<Longrightarrow> (if c then ext4_read_u32 b off else Inr w) = Inr (if c then le32_at b off else w)"
  by (simp_all add: read_u16_at read_u32_at)

lemma read_u16_short: "length b < off + 2 \<Longrightarrow> ext4_read_u16 b off = Inl Truncated"
  by (simp add: ext4_read_u16_def get_range_def)

lemma write_u16_at: "off + 2 \<le> length b \<Longrightarrow> ebind (ext4_write_u16 off v) f b = f () (copy_at b off (to_le_bytes v))"
  by (simp add: ext4_write_u16_def ebind_overwrite)

lemma write_u32_at: "off + 4 \<le> length b \<Longrightarrow> ebind (ext4_write_u32 off v) f b = f () (copy_at b off (to_le_bytes v))"
  by (simp add: ext4_write_u32_def ebind_overwrite)

lemma join_split_u64: "join_u64 (ucast v) (ucast (drop_bit 32 v)) = v"
  unfolding join_u64_def by (rule bit_word_eqI) (auto simp: bit_simps)

lemma join_split_u32: "join_u32 (ucast v) (ucast (drop_bit 16 v)) = v"
  unfolding join_u32_def by (rule bit_word_eqI) (auto simp: bit_simps)

lemma join_u64_low: "drop_bit 32 v = 0 \<Longrightarrow> join_u64 (ucast v) 0 = v"
  using join_split_u64 [of v] by simp

lemma nth_copy_other:
  "a + length ys \<le> length b \<Longrightarrow> i < length b \<Longrightarrow> i < a \<or> a + length ys \<le> i \<Longrightarrow> copy_at b a ys ! i = b ! i"
  by (auto simp: nth_copy_at)

section \<open>The superblock\<close>

text \<open>On a buffer that is long enough the parser reads every field and checks what it read.\<close>

definition superblock_of :: "u8 list \<Rightarrow> Superblock" where
  "superblock_of b =
    (let wide = le32_at b 96 AND FEATURE_INCOMPAT_64BIT \<noteq> 0 in
     \<lparr>sb_inode_count = le32_at b 0,
      sb_block_count = join_u64 (le32_at b 4) (if wide then le32_at b 336 else 0),
      sb_free_block_count = join_u64 (le32_at b 12) (if wide then le32_at b 344 else 0),
      sb_free_inode_count = le32_at b 16, sb_first_data_block = le32_at b 20,
      sb_block_size = push_bit (unat (le32_at b 24)) 1024,
      sb_blocks_per_group = le32_at b 32, sb_inodes_per_group = le32_at b 40,
      sb_state = le16_at b 58, sb_errors = le16_at b 60, sb_revision = le32_at b 76,
      sb_inode_size = (if le32_at b 76 = 0 then 128 else le16_at b 88),
      sb_descriptor_size = (if wide then le16_at b 254 else 32), sb_feature_compat = le32_at b 92,
      sb_feature_incompat = le32_at b 96, sb_feature_read_only_compat = le32_at b 100,
      sb_uuid = sub_bytes b 104 16, sb_volume_name = sub_bytes b 120 16, sb_checksum_type = b ! 373,
      sb_checksum = le32_at b 1020,
      sb_checksum_seed = (if le32_at b 96 AND FEATURE_INCOMPAT_CHECKSUM_SEED \<noteq> 0 then le32_at b 624
        else crc32c (- 1) (sub_bytes b 104 16)),
      sb_journal_inode = le32_at b 224\<rparr>)"

text \<open>The checks on the values, in the order of the source; \<open>crc\<close> is the checksum of the bytes.\<close>

definition superblock_check :: "bool \<Rightarrow> u16 \<Rightarrow> u32 \<Rightarrow> u32 \<Rightarrow> Superblock \<Rightarrow> Ext4Error option" where
  "superblock_check ar magic logarithm crc sb =
    (if magic \<noteq> SUPERBLOCK_MAGIC then Some InvalidMagic
     else if 6 < logarithm then Some InvalidBlockSize
     else if sb_inode_size sb < 128 \<or> \<not> is_power_of_two (sb_inode_size sb) \<or> sb_block_size sb < ucast (sb_inode_size sb)
     then Some InvalidInodeSize
     else if sb_feature_incompat sb AND NOT SUPPORTED_INCOMPAT_FEATURES \<noteq> 0 then Some UnsupportedFeature
     else if sb_descriptor_size sb < 32 \<or> \<not> is_power_of_two (sb_descriptor_size sb)
       \<or> sb_block_size sb < ucast (sb_descriptor_size sb) then Some InvalidDescriptorSize
     else if has_metadata_checksums sb \<and> sb_checksum_type sb \<noteq> 1 then Some UnsupportedChecksum
     else if has_metadata_checksums sb \<and> crc \<noteq> sb_checksum sb then Some InvalidChecksum
     else if sb_inode_count sb = 0 \<or> sb_block_count sb \<le> ucast (sb_first_data_block sb)
       \<or> sb_block_count sb < sb_free_block_count sb \<or> sb_blocks_per_group sb = 0 \<or> sb_inodes_per_group sb = 0
     then Some InvalidGeometry
     else if sb_state sb AND FILESYSTEM_STATE_CLEAN = 0
       \<or> (\<not> ar \<and> sb_feature_incompat sb AND FEATURE_INCOMPAT_RECOVER \<noteq> 0) then Some DirtyFilesystem
     else None)"

lemma parse_internal_at:
  assumes "1024 \<le> length b"
  shows "parse_internal b ar =
    (case superblock_check ar (le16_at b 56) (le32_at b 24) (crc32c (- 1) (take 1020 b)) (superblock_of b) of
       Some e \<Rightarrow> Inl e | None \<Rightarrow> Inr (superblock_of b))"
  using assms unfolding parse_internal_def Let_def SUPERBLOCK_SIZE_def
  by (simp add: read_u16_at read_u32_at read_if_at superblock_check_def superblock_of_def Let_def has_metadata_checksums_def)

lemma parse_internal_Inr:
  "parse_internal b ar = Inr sb \<longleftrightarrow> 1024 \<le> length b \<and> sb = superblock_of b
    \<and> superblock_check ar (le16_at b 56) (le32_at b 24) (crc32c (- 1) (take 1020 b)) sb = None"
proof (cases "1024 \<le> length b")
  case True
  then show ?thesis by (auto simp: parse_internal_at split: option.splits)
next
  case False
  then show ?thesis by (simp add: parse_internal_def SUPERBLOCK_SIZE_def)
qed

text \<open>Refreshing the checksum changes at most the last four bytes and makes the checksum valid.\<close>

definition resummed :: "bool \<Rightarrow> u8 list \<Rightarrow> u8 list" where
  "resummed summed b = (if summed then copy_at b 1020 (to_le_bytes (crc32c (- 1) (take 1020 b))) else b)"

lemma resummed_fields:
  assumes "1024 \<le> length b"
  shows "length (resummed c b) = length b" and "off + 2 \<le> 1020 \<Longrightarrow> le16_at (resummed c b) off = le16_at b off"
    and "off + 4 \<le> 1020 \<Longrightarrow> le32_at (resummed c b) off = le32_at b off"
    and "off + n \<le> 1020 \<Longrightarrow> sub_bytes (resummed c b) off n = sub_bytes b off n"
    and "take 1020 (resummed c b) = take 1020 b" and "i < 1020 \<Longrightarrow> resummed c b ! i = b ! i"
    and "c \<Longrightarrow> le32_at (resummed c b) 1020 = crc32c (- 1) (take 1020 b)"
  using assms by (simp_all add: resummed_def field_simps_other take_copy_at nth_copy_other)

lemma ebind_refresh:
  "1024 \<le> length b \<Longrightarrow>
   ebind (refresh_superblock_checksum sb) f b = f () (resummed (has_metadata_checksums sb) b)"
  by (simp add: ebind_def refresh_superblock_checksum_def resummed_def ext4_write_u32_def overwrite_def done_ok_def)

text \<open>The superblock after each edit; only the checksum changes besides.\<close>

lemmas superblock_edit = superblock_of_def Let_def resummed_fields field_simps_other nth_copy_other

lemma superblock_of_free_inodes:
  fixes n :: u32 and c :: bool
  assumes "1024 \<le> length b"
  defines "b' \<equiv> resummed c (copy_at b 16 (to_le_bytes n))"
  shows "superblock_of b' = (superblock_of b)\<lparr>sb_free_inode_count := n, sb_checksum := le32_at b' 1020\<rparr>"
  unfolding b'_def using assms(1) by (simp add: superblock_edit)

definition write_free_blocks :: "bool \<Rightarrow> u64 \<Rightarrow> u8 list \<Rightarrow> u8 list" where
  "write_free_blocks wide n b =
    (let b1 = copy_at b 12 (to_le_bytes (ucast n :: u32))
     in if wide then copy_at b1 344 (to_le_bytes (ucast (drop_bit 32 n) :: u32)) else b1)"

lemma superblock_of_free_blocks:
  fixes c wide :: bool and n :: u64
  assumes "1024 \<le> length b" and "wide \<longleftrightarrow> le32_at b 96 AND FEATURE_INCOMPAT_64BIT \<noteq> 0" and "wide \<or> drop_bit 32 n = 0"
  defines "b' \<equiv> resummed c (write_free_blocks wide n b)"
  shows "superblock_of b' = (superblock_of b)\<lparr>sb_free_block_count := n, sb_checksum := le32_at b' 1020\<rparr>"
proof (cases wide)
  case True
  then show ?thesis
    unfolding b'_def write_free_blocks_def using assms(1,2) by (simp add: superblock_edit join_split_u64)
next
  case False
  then show ?thesis
    unfolding b'_def write_free_blocks_def using assms(1-3) by (simp add: superblock_edit join_u64_low)
qed

lemma recovery_bit:
  "((w :: u32) OR FEATURE_INCOMPAT_RECOVER) AND FEATURE_INCOMPAT_64BIT = w AND FEATURE_INCOMPAT_64BIT"
  "(w AND NOT FEATURE_INCOMPAT_RECOVER) AND FEATURE_INCOMPAT_64BIT = w AND FEATURE_INCOMPAT_64BIT"
  "(w OR FEATURE_INCOMPAT_RECOVER) AND FEATURE_INCOMPAT_CHECKSUM_SEED = w AND FEATURE_INCOMPAT_CHECKSUM_SEED"
  "(w AND NOT FEATURE_INCOMPAT_RECOVER) AND FEATURE_INCOMPAT_CHECKSUM_SEED = w AND FEATURE_INCOMPAT_CHECKSUM_SEED"
  "(w OR FEATURE_INCOMPAT_RECOVER) AND NOT SUPPORTED_INCOMPAT_FEATURES = w AND NOT SUPPORTED_INCOMPAT_FEATURES"
  "(w AND NOT FEATURE_INCOMPAT_RECOVER) AND NOT SUPPORTED_INCOMPAT_FEATURES = w AND NOT SUPPORTED_INCOMPAT_FEATURES"
  "(w OR FEATURE_INCOMPAT_RECOVER) AND FEATURE_INCOMPAT_RECOVER = FEATURE_INCOMPAT_RECOVER"
  "(w AND NOT FEATURE_INCOMPAT_RECOVER) AND FEATURE_INCOMPAT_RECOVER = 0"
  unfolding FEATURE_INCOMPAT_RECOVER_def FEATURE_INCOMPAT_64BIT_def FEATURE_INCOMPAT_CHECKSUM_SEED_def
    SUPPORTED_INCOMPAT_FEATURES_def FEATURE_INCOMPAT_FILETYPE_def FEATURE_INCOMPAT_EXTENTS_def FEATURE_INCOMPAT_FLEX_BG_def
  by (simp_all add: bit.conj_disj_distrib2 and.assoc)

lemma recovery_nonzero: "FEATURE_INCOMPAT_RECOVER \<noteq> 0"
  by (simp add: FEATURE_INCOMPAT_RECOVER_def)

lemma superblock_of_features:
  fixes c :: bool and f :: u32
  assumes "1024 \<le> length b" and "f AND FEATURE_INCOMPAT_64BIT = le32_at b 96 AND FEATURE_INCOMPAT_64BIT"
    and "f AND FEATURE_INCOMPAT_CHECKSUM_SEED = le32_at b 96 AND FEATURE_INCOMPAT_CHECKSUM_SEED"
  defines "b' \<equiv> resummed c (copy_at b 96 (to_le_bytes f))"
  shows "superblock_of b' = (superblock_of b)\<lparr>sb_feature_incompat := f, sb_checksum := le32_at b' 1020\<rparr>"
  unfolding b'_def using assms(1-3) by (simp add: superblock_edit)

text \<open>The checks are met again after each edit.\<close>

lemma check_free_blocks:
  assumes "superblock_check ar m l crc sb = None" and "n \<le> sb_block_count sb" and "has_metadata_checksums sb \<Longrightarrow> x = c"
  shows "superblock_check ar m l c (sb\<lparr>sb_free_block_count := n, sb_checksum := x\<rparr>) = None"
  using assms by (auto simp: superblock_check_def has_metadata_checksums_def split: if_splits)

lemma check_free_inodes:
  assumes "superblock_check ar m l crc sb = None" and "has_metadata_checksums sb \<Longrightarrow> x = c"
  shows "superblock_check ar m l c (sb\<lparr>sb_free_inode_count := n, sb_checksum := x\<rparr>) = None"
  using assms by (auto simp: superblock_check_def has_metadata_checksums_def split: if_splits)

lemma check_features:
  assumes "superblock_check True m l crc sb = None" and "has_metadata_checksums sb \<Longrightarrow> x = c"
    and "f AND NOT SUPPORTED_INCOMPAT_FEATURES = sb_feature_incompat sb AND NOT SUPPORTED_INCOMPAT_FEATURES"
  shows "superblock_check ar m l c (sb\<lparr>sb_feature_incompat := f, sb_checksum := x\<rparr>) =
    (if \<not> ar \<and> f AND FEATURE_INCOMPAT_RECOVER \<noteq> 0 then Some DirtyFilesystem else None)"
  using assms by (auto simp: superblock_check_def has_metadata_checksums_def split: if_splits)

lemma check_dirty:
  "superblock_check True m l crc sb = None \<Longrightarrow> superblock_check False m l crc sb =
    (if sb_feature_incompat sb AND FEATURE_INCOMPAT_RECOVER \<noteq> 0 then Some DirtyFilesystem else None)"
  by (auto simp: superblock_check_def split: if_splits)

lemma parse_dirty:
  assumes "parse_for_recovery b = Inr sb"
  shows "Superblock_parse b = (if sb_feature_incompat sb AND FEATURE_INCOMPAT_RECOVER \<noteq> 0 then Inl DirtyFilesystem else Inr sb)"
  using assms
  by (auto simp: Superblock_parse_def parse_for_recovery_def parse_internal_Inr parse_internal_at check_dirty)

lemma set_free_blocks:
  assumes "Superblock_parse b = Inr sb" and "n \<le> sb_block_count sb"
    and "sb_feature_incompat sb AND FEATURE_INCOMPAT_64BIT \<noteq> 0 \<or> drop_bit 32 n = 0"
  shows "\<exists>b' c. set_superblock_free_block_count n b = (Inr (), b') \<and> length b' = length b
    \<and> Superblock_parse b' = Inr (sb\<lparr>sb_free_block_count := n, sb_checksum := c\<rparr>)"
proof -
  let ?wide = "sb_feature_incompat sb AND FEATURE_INCOMPAT_64BIT \<noteq> 0" and ?summed = "has_metadata_checksums sb"
  define b1 where "b1 = write_free_blocks ?wide n b"
  have p: "1024 \<le> length b" "sb = superblock_of b"
    "superblock_check False (le16_at b 56) (le32_at b 24) (crc32c (- 1) (take 1020 b)) sb = None"
    using assms(1) by (auto simp: Superblock_parse_def parse_internal_Inr)
  have b1: "length b1 = length b" "le16_at b1 56 = le16_at b 56" "le32_at b1 24 = le32_at b 24"
    using p(1) by (simp_all add: b1_def write_free_blocks_def field_simps_other Let_def)
  let ?sb = "sb\<lparr>sb_free_block_count := n, sb_checksum := le32_at (resummed ?summed b1) 1020\<rparr>"
  have "sb_feature_incompat sb = le32_at b 96" by (simp add: p(2) superblock_of_def Let_def)
  then have sb': "superblock_of (resummed ?summed b1) = ?sb"
    using superblock_of_free_blocks [OF p(1) _ assms(3), of "?summed"] p(2) by (simp add: b1_def)
  have parse: "Superblock_parse (resummed ?summed b1) = Inr ?sb"
    using p(1,3) b1 assms(2)
    by (auto simp: Superblock_parse_def parse_internal_Inr resummed_fields sb' intro!: check_free_blocks)
  have "set_superblock_free_block_count n b = (Inr (), resummed ?summed b1)"
    using assms p(1) b1 parse
    by (cases ?wide)
      (simp_all add: set_superblock_free_block_count_def edit_early write_u32_at ebind_refresh b1_def write_free_blocks_def guard_def)
  then show ?thesis using parse b1(1) p(1) by (auto simp: resummed_fields)
qed

lemma set_free_inodes:
  assumes "Superblock_parse b = Inr sb" and "n \<le> sb_inode_count sb"
  shows "\<exists>b' c. set_superblock_free_inode_count n b = (Inr (), b') \<and> length b' = length b
    \<and> Superblock_parse b' = Inr (sb\<lparr>sb_free_inode_count := n, sb_checksum := c\<rparr>)"
proof -
  let ?summed = "has_metadata_checksums sb"
  define b1 where "b1 = copy_at b 16 (to_le_bytes n)"
  have p: "1024 \<le> length b" "sb = superblock_of b"
    "superblock_check False (le16_at b 56) (le32_at b 24) (crc32c (- 1) (take 1020 b)) sb = None"
    using assms(1) by (auto simp: Superblock_parse_def parse_internal_Inr)
  have b1: "length b1 = length b" "le16_at b1 56 = le16_at b 56" "le32_at b1 24 = le32_at b 24"
    using p(1) by (simp_all add: b1_def field_simps_other)
  let ?sb = "sb\<lparr>sb_free_inode_count := n, sb_checksum := le32_at (resummed ?summed b1) 1020\<rparr>"
  have sb': "superblock_of (resummed ?summed b1) = ?sb"
    using superblock_of_free_inodes [OF p(1), of "?summed" n] p(2) by (simp add: b1_def)
  have parse: "Superblock_parse (resummed ?summed b1) = Inr ?sb"
    using p(1,3) b1
    by (auto simp: Superblock_parse_def parse_internal_Inr resummed_fields sb' intro!: check_free_inodes)
  have "set_superblock_free_inode_count n b = (Inr (), resummed ?summed b1)"
    using assms p(1) b1 parse
    by (simp add: set_superblock_free_inode_count_def edit_early write_u32_at ebind_refresh guard_def flip: b1_def)
  then show ?thesis using parse b1(1) p(1) by (auto simp: resummed_fields)
qed

lemma set_recovery:
  fixes required :: bool
  assumes "parse_for_recovery b = Inr sb"
  defines "f \<equiv> (if required then sb_feature_incompat sb OR FEATURE_INCOMPAT_RECOVER
    else sb_feature_incompat sb AND NOT FEATURE_INCOMPAT_RECOVER)"
  shows "\<exists>b' c. set_superblock_recovery required b = (Inr (), b') \<and> length b' = length b
    \<and> parse_for_recovery b' = Inr (sb\<lparr>sb_feature_incompat := f, sb_checksum := c\<rparr>)
    \<and> Superblock_parse b' = (if required then Inl DirtyFilesystem else parse_for_recovery b')"
proof -
  let ?summed = "has_metadata_checksums sb"
  define b1 where "b1 = copy_at b 96 (to_le_bytes f)"
  have p: "1024 \<le> length b" "sb = superblock_of b"
    "superblock_check True (le16_at b 56) (le32_at b 24) (crc32c (- 1) (take 1020 b)) sb = None"
    using assms(1) by (auto simp: parse_for_recovery_def parse_internal_Inr)
  have b1: "length b1 = length b" "le16_at b1 56 = le16_at b 56" "le32_at b1 24 = le32_at b 24"
    using p(1) by (simp_all add: b1_def field_simps_other)
  let ?sb = "sb\<lparr>sb_feature_incompat := f, sb_checksum := le32_at (resummed ?summed b1) 1020\<rparr>"
  have "sb_feature_incompat sb = le32_at b 96" by (simp add: p(2) superblock_of_def Let_def)
  then have sb': "superblock_of (resummed ?summed b1) = ?sb"
    using superblock_of_features [OF p(1), of f "?summed"] p(2) by (simp add: b1_def f_def recovery_bit split: if_splits)
  have check: "superblock_check ar (le16_at b 56) (le32_at b 24) (crc32c (- 1) (take 1020 b1)) ?sb =
    (if \<not> ar \<and> required then Some DirtyFilesystem else None)" for ar
    using p(1) b1(1)
    by (subst check_features [OF p(3)]) (simp_all add: f_def recovery_bit recovery_nonzero resummed_fields)
  have parse: "parse_internal (resummed ?summed b1) ar = (if \<not> ar \<and> required then Inl DirtyFilesystem else Inr ?sb)" for ar
    using p(1) b1 check [of ar] by (simp add: parse_internal_at resummed_fields sb')
  have "set_superblock_recovery required b = (Inr (), resummed ?summed b1)"
    using assms(1) p(1) b1 parse [of True]
    by (simp add: set_superblock_recovery_def edit_early write_u32_at ebind_refresh done_ok_def parse_for_recovery_def
      flip: f_def b1_def)
  then show ?thesis using parse b1(1) p(1)
    by (auto simp: resummed_fields Superblock_parse_def parse_for_recovery_def)
qed

lemma set_free_blocks_total:
  assumes "parse_for_recovery b = Inr sb"
  defines "clean \<equiv> sb_feature_incompat sb AND FEATURE_INCOMPAT_RECOVER = 0"
    and "wide \<equiv> sb_feature_incompat sb AND FEATURE_INCOMPAT_64BIT \<noteq> 0"
  shows "\<exists>b' c. set_superblock_free_block_count n b =
        (if \<not> clean then (Inl DirtyFilesystem, b)
         else if sb_block_count sb < n \<or> (\<not> wide \<and> drop_bit 32 n \<noteq> 0) then (Inl InvalidGeometry, b)
         else (Inr (), b'))
      \<and> (clean \<longrightarrow> n \<le> sb_block_count sb \<longrightarrow> wide \<or> drop_bit 32 n = 0 \<longrightarrow>
         Superblock_parse b' = Inr (sb\<lparr>sb_free_block_count := n, sb_checksum := c\<rparr>))"
proof (cases "clean \<and> n \<le> sb_block_count sb \<and> (wide \<or> drop_bit 32 n = 0)")
  case True
  then show ?thesis using set_free_blocks [of b sb n] parse_dirty [OF assms(1)] by (auto simp: clean_def wide_def)
next
  case False
  then show ?thesis using parse_dirty [OF assms(1)]
    by (auto simp: set_superblock_free_block_count_def edit_early Let_def clean_def wide_def)
qed

lemma set_free_inodes_total:
  assumes "parse_for_recovery b = Inr sb"
  defines "clean \<equiv> sb_feature_incompat sb AND FEATURE_INCOMPAT_RECOVER = 0"
  shows "\<exists>b' c. set_superblock_free_inode_count k b =
        (if \<not> clean then (Inl DirtyFilesystem, b)
         else if sb_inode_count sb < k then (Inl InvalidGeometry, b) else (Inr (), b'))
      \<and> (clean \<longrightarrow> k \<le> sb_inode_count sb \<longrightarrow>
         Superblock_parse b' = Inr (sb\<lparr>sb_free_inode_count := k, sb_checksum := c\<rparr>))"
proof (cases "clean \<and> k \<le> sb_inode_count sb")
  case True
  then show ?thesis using set_free_inodes [of b sb k] parse_dirty [OF assms(1)] by (auto simp: clean_def)
next
  case False
  then show ?thesis using parse_dirty [OF assms(1)]
    by (auto simp: set_superblock_free_inode_count_def edit_early clean_def)
qed

text \<open>\<^bold>\<open>C32\<close>. The edits of a superblock are exact and keep it valid, checksum included. On a superblock that
  parses for recovery: setting or clearing the recovery flag succeeds, the superblock then parses for
  recovery with that flag and is otherwise the same, and it is refused for a normal mount exactly when the
  flag was set. The two counters can be set on a clean superblock to any value within the block count (the
  inode count) that the layout can hold; the superblock then parses with the new counter and is otherwise the
  same up to its checksum. Every refusal leaves the buffer as it was.\<close>

theorem superblock_edits_are_exact:
  fixes required :: bool
  assumes "parse_for_recovery b = Inr sb"
  defines "clean \<equiv> sb_feature_incompat sb AND FEATURE_INCOMPAT_RECOVER = 0"
    and "wide \<equiv> sb_feature_incompat sb AND FEATURE_INCOMPAT_64BIT \<noteq> 0"
    and "f \<equiv> (if required then sb_feature_incompat sb OR FEATURE_INCOMPAT_RECOVER
      else sb_feature_incompat sb AND NOT FEATURE_INCOMPAT_RECOVER)"
  shows "(\<exists>b' c. set_superblock_recovery required b = (Inr (), b')
      \<and> parse_for_recovery b' = Inr (sb\<lparr>sb_feature_incompat := f, sb_checksum := c\<rparr>)
      \<and> Superblock_parse b' = (if required then Inl DirtyFilesystem else parse_for_recovery b'))
    \<and> (\<exists>b' c. set_superblock_free_block_count n b =
        (if \<not> clean then (Inl DirtyFilesystem, b)
         else if sb_block_count sb < n \<or> (\<not> wide \<and> drop_bit 32 n \<noteq> 0) then (Inl InvalidGeometry, b)
         else (Inr (), b'))
      \<and> (clean \<longrightarrow> n \<le> sb_block_count sb \<longrightarrow> wide \<or> drop_bit 32 n = 0 \<longrightarrow>
         Superblock_parse b' = Inr (sb\<lparr>sb_free_block_count := n, sb_checksum := c\<rparr>)))
    \<and> (\<exists>b' c. set_superblock_free_inode_count k b =
        (if \<not> clean then (Inl DirtyFilesystem, b)
         else if sb_inode_count sb < k then (Inl InvalidGeometry, b) else (Inr (), b'))
      \<and> (clean \<longrightarrow> k \<le> sb_inode_count sb \<longrightarrow>
         Superblock_parse b' = Inr (sb\<lparr>sb_free_inode_count := k, sb_checksum := c\<rparr>)))"
  unfolding clean_def wide_def f_def
  using set_recovery [OF assms(1), of required] set_free_blocks_total [OF assms(1), of n]
    set_free_inodes_total [OF assms(1), of k]
  by blast

text \<open>A small superblock: 16 inodes, 64 blocks of 1024 bytes, no checksums.\<close>

definition sample_superblock_bytes :: "u8 list" where
  "sample_superblock_bytes =
     copy_at (copy_at (copy_at (copy_at (copy_at (copy_at (replicate 1024 0)
       0 (to_le_bytes (16 :: u32))) 4 (to_le_bytes (64 :: u32))) 32 (to_le_bytes (8192 :: u32)))
       40 (to_le_bytes (16 :: u32))) 56 (to_le_bytes SUPERBLOCK_MAGIC)) 58 (to_le_bytes (1 :: u16))"

lemma field_zeros: "le16_at (replicate n 0) off = 0" "le32_at (replicate n 0) off = 0"
  by (simp_all add: le16_at_def le32_at_def sub_bytes_def from_le_bytes_zeros)

lemma sample_powers: "is_power_of_two (128 :: u16)" "is_power_of_two (32 :: u16)"
  by (auto simp: is_power_of_two_iff intro: exI [of _ 7] exI [of _ 5])

lemma sample_parses: "parse_for_recovery sample_superblock_bytes = Inr (superblock_of sample_superblock_bytes)"
  by (simp add: parse_for_recovery_def parse_internal_Inr superblock_check_def superblock_of_def Let_def
    sample_superblock_bytes_def field_simps_other field_zeros join_u64_def sample_powers
    has_metadata_checksums_def FILESYSTEM_STATE_CLEAN_def)

theorem superblock_edits_are_exact_witness:
  "(\<exists>b' c. set_superblock_recovery True sample_superblock_bytes = (Inr (), b')
      \<and> parse_for_recovery b' = Inr ((superblock_of sample_superblock_bytes)
          \<lparr>sb_feature_incompat := 4, sb_checksum := c\<rparr>)
      \<and> Superblock_parse b' = Inl DirtyFilesystem)
    \<and> (\<exists>b' c. set_superblock_free_block_count 20 sample_superblock_bytes = (Inr (), b')
      \<and> Superblock_parse b' = Inr ((superblock_of sample_superblock_bytes)\<lparr>sb_free_block_count := 20, sb_checksum := c\<rparr>))
    \<and> set_superblock_free_inode_count 17 sample_superblock_bytes = (Inl InvalidGeometry, sample_superblock_bytes)"
proof -
  have sb: "sb_feature_incompat (superblock_of sample_superblock_bytes) = 0"
    "sb_block_count (superblock_of sample_superblock_bytes) = 64" "sb_inode_count (superblock_of sample_superblock_bytes) = 16"
    unfolding superblock_of_def Let_def Superblock.select_convs
    by (simp_all add: sample_superblock_bytes_def field_simps_other field_zeros join_u64_def)
  have "drop_bit 32 (20 :: u64) = 0" by simp
  with sb superblock_edits_are_exact [OF sample_parses, where required = True and n = 20 and k = 17]
  show ?thesis by (simp add: FEATURE_INCOMPAT_RECOVER_def)
qed

section \<open>Extents\<close>

text \<open>The extents of a node as a list; \<open>covers\<close> is the test of the search.\<close>

definition extent_list :: "u8 list \<Rightarrow> nat \<Rightarrow> Extent list \<Rightarrow> bool" where
  "extent_list bytes n es \<longleftrightarrow> length es = n \<and> (\<forall>i<n. parse_extent bytes i = Inr (es ! i))"

definition extent_stop :: "Extent \<Rightarrow> nat" where
  "extent_stop e = unat (ex_logical_block e) + unat (ex_block_count e)"

definition covers :: "Extent \<Rightarrow> u32 \<Rightarrow> bool" where
  "covers e logical_block \<longleftrightarrow> unat (ex_logical_block e) \<le> unat logical_block \<and> unat logical_block < extent_stop e"

text \<open>In order, without overlap and inside the 32-bit block range.\<close>

definition ordered_extents :: "Extent list \<Rightarrow> bool" where
  "ordered_extents es \<longleftrightarrow> (\<forall>e\<in>set es. extent_stop e < 2 ^ 32)
     \<and> sorted_wrt (\<lambda>e e'. extent_stop e \<le> unat (ex_logical_block e')) es"

lemma extent_end_Inr: "extent_end e = Inr fin \<longleftrightarrow> extent_stop e < 2 ^ 32 \<and> fin = ex_logical_block e + ucast (ex_block_count e)"
  by (auto simp: extent_end_def result_simps checked_simps extent_stop_def unat_ucast_up)

lemma extent_end_unat: "extent_end e = Inr fin \<Longrightarrow> unat fin = extent_stop e"
  by (auto simp: extent_end_def result_simps extent_stop_def unat_ucast_up dest: checked_add_unat)

lemma parse_extent_positive: "parse_extent bytes i = Inr e \<Longrightarrow> 0 < unat (ex_block_count e)"
  by (auto simp: parse_extent_def result_simps Let_def unat_gt_0 split: if_splits)

lemma ordered_extents_snoc:
  assumes "ordered_extents es" and "\<And>e'. e' \<in> set es \<Longrightarrow> extent_stop e' \<le> unat (ex_logical_block e)" and "extent_stop e < 2 ^ 32"
  shows "ordered_extents (es @ [e])"
  using assms by (auto simp: ordered_extents_def sorted_wrt_append)

lemma ordered_extents_last: "ordered_extents es \<Longrightarrow> e \<in> set es \<Longrightarrow> extent_stop e \<le> extent_stop (last es)"
  by (cases es rule: rev_cases) (auto simp: ordered_extents_def sorted_wrt_append extent_stop_def intro: trans_le_add1)

lemma validate_fold:
  "fold_result (validate_extents_step bytes) [0..<n] 0 = Inr x \<longleftrightarrow>
    (\<exists>es. extent_list bytes n es \<and> ordered_extents es \<and> unat x = (if es = [] then 0 else extent_stop (last es)))"
proof (induction n arbitrary: x)
  case 0
  then show ?case by (auto simp: extent_list_def ordered_extents_def unat_eq_0)
next
  case (Suc n)
  show ?case
  proof
    assume "fold_result (validate_extents_step bytes) [0..<Suc n] 0 = Inr x"
    then obtain y where y: "fold_result (validate_extents_step bytes) [0..<n] 0 = Inr y" "validate_extents_step bytes n y = Inr x"
      by (auto simp: fold_result_append result_simps)
    from y(1) Suc.IH obtain es where es: "extent_list bytes n es" "ordered_extents es"
      "unat y = (if es = [] then 0 else extent_stop (last es))" by auto
    from y(2) obtain e where e: "parse_extent bytes n = Inr e" "extent_end e = Inr x" "n = 0 \<or> y \<le> ex_logical_block e"
      by (auto simp: validate_extents_step_def result_simps not_less split: if_splits)
    have stops: "extent_stop e' \<le> unat (ex_logical_block e)" if "e' \<in> set es" for e'
      using ordered_extents_last [OF es(2) that] es that e(3)
      by (auto simp: word_le_nat_alt extent_list_def split: if_splits)
    have "extent_list bytes (Suc n) (es @ [e])" using es(1) e(1) by (auto simp: extent_list_def nth_append less_Suc_eq)
    moreover have "ordered_extents (es @ [e])"
      using ordered_extents_snoc [OF es(2) stops] e(2) by (simp add: extent_end_Inr)
    ultimately show "\<exists>es. extent_list bytes (Suc n) es \<and> ordered_extents es
        \<and> unat x = (if es = [] then 0 else extent_stop (last es))"
      using extent_end_unat [OF e(2)] by (intro exI [of _ "es @ [e]"]) simp
  next
    assume "\<exists>es. extent_list bytes (Suc n) es \<and> ordered_extents es
        \<and> unat x = (if es = [] then 0 else extent_stop (last es))"
    then obtain es where es: "extent_list bytes (Suc n) es" "ordered_extents es"
        "unat x = (if es = [] then 0 else extent_stop (last es))" by blast
    then obtain fs e where fs: "es = fs @ [e]" by (cases es rule: rev_cases) (auto simp: extent_list_def)
    have list: "extent_list bytes n fs" "parse_extent bytes n = Inr e"
      using es(1) by (auto simp: extent_list_def fs nth_append less_Suc_eq split: if_splits)
    have ordered: "ordered_extents fs" "\<And>e'. e' \<in> set fs \<Longrightarrow> extent_stop e' \<le> unat (ex_logical_block e)" "extent_stop e < 2 ^ 32"
      using es(2) by (auto simp: ordered_extents_def fs sorted_wrt_append)
    define y where "y = (word_of_nat (if fs = [] then 0 else extent_stop (last fs)) :: u32)"
    have y: "unat y = (if fs = [] then 0 else extent_stop (last fs))"
      using ordered(1) last_in_set [of fs] by (auto simp: y_def ordered_extents_def unat_of_nat)
    then have "fold_result (validate_extents_step bytes) [0..<n] 0 = Inr y" using Suc.IH list(1) ordered(1) by blast
    moreover have "extent_end e = Inr x"
      using ordered(3) es(3) extent_end_unat [of e] by (auto simp: extent_end_Inr fs intro!: word_unat_eq_iff [THEN iffD2])
    moreover have "n = 0 \<or> y \<le> ex_logical_block e"
      using y ordered(2) last_in_set [of fs] list(1) by (auto simp: word_le_nat_alt extent_list_def)
    ultimately show "fold_result (validate_extents_step bytes) [0..<Suc n] 0 = Inr x"
      using list(2) by (auto simp: fold_result_append validate_extents_step_def)
  qed
qed

lemma covers_end: "extent_end e = Inr fin \<Longrightarrow> covers e b \<longleftrightarrow> ex_logical_block e \<le> b \<and> b < fin"
  by (auto simp: covers_def word_le_nat_alt word_less_nat_alt dest: extent_end_unat)

lemma search_extent_find:
  assumes "\<And>i. i \<in> set is \<Longrightarrow> parse_extent bytes i = Inr (es ! i) \<and> extent_stop (es ! i) < 2 ^ 32"
  shows "search_extent bytes b is = Inr (find (\<lambda>e. covers e b) (map ((!) es) is))"
  using assms
proof (induction "is")
  case Nil
  then show ?case by simp
next
  case (Cons i "is")
  then have "parse_extent bytes i = Inr (es ! i)" "extent_stop (es ! i) < 2 ^ 32" by auto
  moreover from this obtain fin where "extent_end (es ! i) = Inr fin" by (auto simp: extent_end_Inr)
  ultimately show ?case using Cons by (simp add: covers_end)
qed

lemma covers_unique:
  assumes "ordered_extents es" and "e \<in> set es" and "e' \<in> set es" and "covers e b" and "covers e' b"
  shows "e = e'"
proof -
  obtain i j where ij: "i < length es" "e = es ! i" "j < length es" "e' = es ! j" using assms(2,3) by (metis in_set_conv_nth)
  have "\<not> i < j" "\<not> j < i"
    using assms(1,4,5) ij sorted_wrt_nth_less [of _ es i j] sorted_wrt_nth_less [of _ es j i]
    by (fastforce simp: ordered_extents_def covers_def)+
  then show ?thesis using ij by (metis linorder_neqE_nat)
qed

lemma find_covers:
  assumes "ordered_extents es"
  shows "find (\<lambda>e. covers e b) es = Some e \<longleftrightarrow> e \<in> set es \<and> covers e b"
proof
  show "find (\<lambda>e. covers e b) es = Some e \<Longrightarrow> e \<in> set es \<and> covers e b"
    by (auto simp: find_Some_iff)
  assume e: "e \<in> set es \<and> covers e b"
  then obtain e' where "find (\<lambda>e. covers e b) es = Some e'" by (cases "find (\<lambda>e. covers e b) es") (auto simp: find_None_iff)
  moreover from this have "e' \<in> set es" "covers e' b" by (auto simp: find_Some_iff)
  ultimately show "find (\<lambda>e. covers e b) es = Some e" using covers_unique [OF assms] e by blast
qed

lemma extent_list_unique: "extent_list bytes n es \<Longrightarrow> extent_list bytes n es' \<Longrightarrow> es = es'"
  by (auto simp: extent_list_def intro: nth_equalityI)

lemma extent_search:
  "extent_for_logical_block bytes header b = Inr r \<longleftrightarrow>
    (\<exists>es. extent_list bytes (eh_entries header) es \<and> ordered_extents es \<and> r = find (\<lambda>e. covers e b) es)"
proof -
  have search: "search_extent bytes b [0..<eh_entries header] = Inr (find (\<lambda>e. covers e b) es)"
    if es: "extent_list bytes (eh_entries header) es" "ordered_extents es" for es
  proof -
    have "search_extent bytes b [0..<eh_entries header] = Inr (find (\<lambda>e. covers e b) (map ((!) es) [0..<eh_entries header]))"
      using es by (intro search_extent_find) (auto simp: extent_list_def ordered_extents_def)
    then show ?thesis using es(1) map_nth [of es] by (simp add: extent_list_def)
  qed
  have valid: "(\<exists>x. fold_result (validate_extents_step bytes) [0..<eh_entries header] 0 = Inr x) \<longleftrightarrow>
    (\<exists>es. extent_list bytes (eh_entries header) es \<and> ordered_extents es)"
  proof
    assume "\<exists>es. extent_list bytes (eh_entries header) es \<and> ordered_extents es"
    then obtain es where es: "extent_list bytes (eh_entries header) es" "ordered_extents es" by blast
    define x where "x = (word_of_nat (if es = [] then 0 else extent_stop (last es)) :: u32)"
    have "unat x = (if es = [] then 0 else extent_stop (last es))"
      using es(2) last_in_set [of es] by (auto simp: x_def ordered_extents_def unat_of_nat)
    then show "\<exists>x. fold_result (validate_extents_step bytes) [0..<eh_entries header] 0 = Inr x"
      using es by (intro exI [of _ x]) (auto simp: validate_fold)
  qed (auto simp: validate_fold)
  show ?thesis
    unfolding extent_for_logical_block_def validate_extents_def
    using search valid by (auto simp: result_simps)
qed

text \<open>The same for the indexes of an inner node.\<close>

definition index_list :: "u8 list \<Rightarrow> nat \<Rightarrow> ExtentIndex list \<Rightarrow> bool" where
  "index_list bytes n xs \<longleftrightarrow> length xs = n \<and> (\<forall>i<n. parse_extent_index bytes i = Inr (xs ! i))"

definition ordered_indexes :: "ExtentIndex list \<Rightarrow> bool" where
  "ordered_indexes xs \<longleftrightarrow> sorted_wrt (\<lambda>x y. ei_logical_block x < ei_logical_block y) xs"

lemma validate_indexes_fold:
  "fold_result (validate_indexes_step bytes) [0..<n] 0 = Inr x \<longleftrightarrow>
    (\<exists>xs. index_list bytes n xs \<and> ordered_indexes xs \<and> x = (if xs = [] then 0 else ei_logical_block (last xs)))"
proof (induction n arbitrary: x)
  case 0
  then show ?case by (auto simp: index_list_def ordered_indexes_def)
next
  case (Suc n)
  show ?case
  proof
    assume "fold_result (validate_indexes_step bytes) [0..<Suc n] 0 = Inr x"
    then obtain y where y: "fold_result (validate_indexes_step bytes) [0..<n] 0 = Inr y" "validate_indexes_step bytes n y = Inr x"
      by (auto simp: fold_result_append result_simps)
    from y(1) Suc.IH obtain xs where xs: "index_list bytes n xs" "ordered_indexes xs"
      "y = (if xs = [] then 0 else ei_logical_block (last xs))" by auto
    from y(2) obtain e where e: "parse_extent_index bytes n = Inr e" "x = ei_logical_block e" "n = 0 \<or> y < ei_logical_block e"
      by (auto simp: validate_indexes_step_def result_simps not_le split: if_splits)
    have "index_list bytes (Suc n) (xs @ [e])" using xs(1) e(1) by (auto simp: index_list_def nth_append less_Suc_eq)
    moreover have "ordered_indexes (xs @ [e])"
      using xs e(3) by (cases xs rule: rev_cases) (auto simp: ordered_indexes_def sorted_wrt_append index_list_def intro: less_trans)
    ultimately show "\<exists>xs. index_list bytes (Suc n) xs \<and> ordered_indexes xs
        \<and> x = (if xs = [] then 0 else ei_logical_block (last xs))"
      using e(2) by (intro exI [of _ "xs @ [e]"]) simp
  next
    assume "\<exists>xs. index_list bytes (Suc n) xs \<and> ordered_indexes xs
        \<and> x = (if xs = [] then 0 else ei_logical_block (last xs))"
    then obtain xs where xs: "index_list bytes (Suc n) xs" "ordered_indexes xs"
        "x = (if xs = [] then 0 else ei_logical_block (last xs))" by blast
    then obtain ys e where ys: "xs = ys @ [e]" by (cases xs rule: rev_cases) (auto simp: index_list_def)
    have "index_list bytes n ys" "parse_extent_index bytes n = Inr e" "ordered_indexes ys"
      "ys \<noteq> [] \<Longrightarrow> ei_logical_block (last ys) < ei_logical_block e"
      using xs by (auto simp: index_list_def ordered_indexes_def ys nth_append less_Suc_eq sorted_wrt_append split: if_splits)
    moreover from this have "fold_result (validate_indexes_step bytes) [0..<n] 0
        = Inr (if ys = [] then 0 else ei_logical_block (last ys))"
      using Suc.IH by blast
    ultimately show "fold_result (validate_indexes_step bytes) [0..<Suc n] 0 = Inr x"
      using xs(3) by (auto simp: fold_result_append validate_indexes_step_def index_list_def ys not_le)
  qed
qed

lemma search_index_takeWhile:
  fixes b :: u32
  assumes "\<And>i. i \<in> set is \<Longrightarrow> parse_extent_index bytes i = Inr (xs ! i)"
  defines "ys \<equiv> takeWhile (\<lambda>x. ei_logical_block x \<le> b) (map ((!) xs) is)"
  shows "search_index bytes b selected is = Inr (if ys = [] then selected else Some (last ys))"
  using assms(1) unfolding ys_def
proof (induction "is" arbitrary: selected)
  case Nil
  then show ?case by simp
next
  case (Cons i "is")
  then show ?case by (auto simp: not_le)
qed

lemma last_takeWhile:
  fixes b :: u32
  assumes "ordered_indexes xs"
  defines "ys \<equiv> takeWhile (\<lambda>x. ei_logical_block x \<le> b) xs"
  shows "(if ys = [] then None else Some (last ys)) = Some x \<longleftrightarrow>
    x \<in> set xs \<and> ei_logical_block x \<le> b
    \<and> (\<forall>y\<in>set xs. ei_logical_block y \<le> b \<longrightarrow> ei_logical_block y \<le> ei_logical_block x)"
  using assms(1) unfolding ys_def
proof (induction xs)
  case Nil
  then show ?case by simp
next
  case (Cons a xs)
  then have IH: "(if takeWhile (\<lambda>x. ei_logical_block x \<le> b) xs = [] then None
      else Some (last (takeWhile (\<lambda>x. ei_logical_block x \<le> b) xs))) = Some x \<longleftrightarrow>
      x \<in> set xs \<and> ei_logical_block x \<le> b \<and> (\<forall>y\<in>set xs. ei_logical_block y \<le> b \<longrightarrow> ei_logical_block y \<le> ei_logical_block x)"
    and above: "\<And>y. y \<in> set xs \<Longrightarrow> ei_logical_block a < ei_logical_block y"
    by (auto simp: ordered_indexes_def)
  show ?case
  proof (cases "takeWhile (\<lambda>x. ei_logical_block x \<le> b) xs = []")
    case True
    then have "y \<notin> set xs \<or> \<not> ei_logical_block y \<le> b" for y
      using Cons.prems by (cases xs) (auto simp: ordered_indexes_def split: if_splits)
    then show ?thesis using True above by auto
  next
    case False
    then have "ei_logical_block a \<le> b" "\<exists>y\<in>set xs. ei_logical_block y \<le> b"
      using above by (cases xs; force split: if_splits)+
    then show ?thesis using False IH above by (auto simp: less_imp_le not_le [symmetric])
  qed
qed

lemma index_search:
  "extent_index_for_logical_block bytes header b = Inr r \<longleftrightarrow>
    (\<exists>xs. index_list bytes (eh_entries header) xs \<and> ordered_indexes xs
      \<and> (\<forall>x. r = Some x \<longleftrightarrow> x \<in> set xs \<and> ei_logical_block x \<le> b
          \<and> (\<forall>y\<in>set xs. ei_logical_block y \<le> b \<longrightarrow> ei_logical_block y \<le> ei_logical_block x)))"
proof -
  have search: "(search_index bytes b None [0..<eh_entries header] = Inr r) \<longleftrightarrow>
      (\<forall>x. r = Some x \<longleftrightarrow> x \<in> set xs \<and> ei_logical_block x \<le> b
          \<and> (\<forall>y\<in>set xs. ei_logical_block y \<le> b \<longrightarrow> ei_logical_block y \<le> ei_logical_block x))"
    if xs: "index_list bytes (eh_entries header) xs" "ordered_indexes xs" for xs
  proof -
    let ?ys = "takeWhile (\<lambda>x. ei_logical_block x \<le> b) xs"
    have "search_index bytes b None [0..<eh_entries header] = Inr (if ?ys = [] then None else Some (last ?ys))"
      using search_index_takeWhile [of "[0..<eh_entries header]" bytes xs b None] xs(1) map_nth [of xs]
      by (simp add: index_list_def)
    then have "search_index bytes b None [0..<eh_entries header] = Inr r \<longleftrightarrow>
        (\<forall>x. r = Some x \<longleftrightarrow> (if ?ys = [] then None else Some (last ?ys)) = Some x)"
      by (cases r) auto
    then show ?thesis unfolding last_takeWhile [OF xs(2)] .
  qed
  have valid: "(\<exists>x. fold_result (validate_indexes_step bytes) [0..<eh_entries header] 0 = Inr x) \<longleftrightarrow>
    (\<exists>xs. index_list bytes (eh_entries header) xs \<and> ordered_indexes xs)"
    by (auto simp: validate_indexes_fold)
  have "extent_index_for_logical_block bytes header b = Inr r \<longleftrightarrow>
      (\<exists>x. fold_result (validate_indexes_step bytes) [0..<eh_entries header] 0 = Inr x)
      \<and> search_index bytes b None [0..<eh_entries header] = Inr r"
    by (auto simp: extent_index_for_logical_block_def validate_extent_indexes_def result_simps)
  then show ?thesis unfolding valid using search by metis
qed

lemma fold_unit_Inr: "fold_result f xs () = Inr u \<Longrightarrow> x \<in> set xs \<Longrightarrow> f x () = Inr ()"
  by (induction xs) (auto simp: result_simps)

lemma parsed_node_blocks:
  assumes "ExtentNode_parse bytes depth inode sb = Inr node" and "ExtentNode_extent_for_logical_block node b = Inr (Some e)"
  shows "ex_physical_block e \<noteq> 0 \<and> unat (ex_physical_block e) + unat (ex_block_count e) \<le> unat (sb_block_count sb)"
proof -
  from assms(2) have leaf: "eh_depth (en_header node) = 0"
    and found: "extent_for_logical_block (en_bytes node) (en_header node) b = Inr (Some e)"
    by (auto simp: ExtentNode_extent_for_logical_block_def split: if_splits)
  from found obtain es where es: "extent_list (en_bytes node) (eh_entries (en_header node)) es" "ordered_extents es"
    "find (\<lambda>e. covers e b) es = Some e" unfolding extent_search by metis
  then have "e \<in> set es" by (simp add: find_covers)
  then obtain i where i: "i < eh_entries (en_header node)" "parse_extent (en_bytes node) i = Inr e"
    using es(1) by (auto simp: extent_list_def in_set_conv_nth)
  from assms(1) have "validate_entries node sb = Inr ()"
    by (auto simp: ExtentNode_parse_def Let_def result_simps split: if_splits)
  then have "fold_result (check_extent_blocks (en_bytes node) sb) [0..<eh_entries (en_header node)] () = Inr ()"
    using leaf by (auto simp: validate_entries_def Let_def result_simps)
  from fold_unit_Inr [OF this, of i] i
  obtain fin where "checked_add (ex_physical_block e) (ucast (ex_block_count e)) = Some fin" "ex_physical_block e \<noteq> 0"
    "fin \<le> sb_block_count sb"
    by (auto simp: check_extent_blocks_def result_simps not_less split: if_splits)
  then show ?thesis using checked_add_unat by (fastforce simp: word_le_nat_alt unat_ucast_up)
qed

text \<open>\<^bold>\<open>C33\<close>. Block lookup in an extent tree is exact. A search of a leaf succeeds exactly when its
  entries are well-formed extents in increasing order without overlap inside the 32-bit block range, and it
  answers with the one extent that covers the block, or with nothing when none does. A search of an inner
  node succeeds exactly when its indexes increase strictly, and answers with the last index that starts at or
  before the block. The extent a parsed tree node answers with lies inside the filesystem.\<close>

theorem extent_lookup_is_exact:
  "(extent_for_logical_block bytes header b = Inr r \<longleftrightarrow>
      (\<exists>es. extent_list bytes (eh_entries header) es \<and> ordered_extents es
        \<and> (\<forall>e. r = Some e \<longleftrightarrow> e \<in> set es \<and> covers e b)))
   \<and> (extent_index_for_logical_block bytes header b = Inr x \<longleftrightarrow>
      (\<exists>is. index_list bytes (eh_entries header) is \<and> ordered_indexes is
        \<and> (\<forall>i. x = Some i \<longleftrightarrow> i \<in> set is \<and> ei_logical_block i \<le> b
            \<and> (\<forall>j\<in>set is. ei_logical_block j \<le> b \<longrightarrow> ei_logical_block j \<le> ei_logical_block i))))
   \<and> (ExtentNode_parse block depth inode sb = Inr node \<and> ExtentNode_extent_for_logical_block node b = Inr (Some e) \<longrightarrow>
      ex_physical_block e \<noteq> 0 \<and> unat (ex_physical_block e) + unat (ex_block_count e) \<le> unat (sb_block_count sb))"
proof -
  have "(r = find (\<lambda>e. covers e b) es) \<longleftrightarrow> (\<forall>e. r = Some e \<longleftrightarrow> e \<in> set es \<and> covers e b)" if "ordered_extents es" for es
    unfolding find_covers [OF that, symmetric] by (metis option.exhaust)
  then have leaf: "extent_for_logical_block bytes header b = Inr r \<longleftrightarrow>
      (\<exists>es. extent_list bytes (eh_entries header) es \<and> ordered_extents es \<and> (\<forall>e. r = Some e \<longleftrightarrow> e \<in> set es \<and> covers e b))"
    unfolding extent_search by blast
  show ?thesis using parsed_node_blocks [of block depth inode sb node b e] by (intro conjI leaf index_search) blast
qed

text \<open>A leaf with the extents 0 to 2 at block 100 and 5 to 6 at block 200.\<close>

definition sample_leaf :: "u8 list" where
  "sample_leaf = [0x0a, 0xf3, 2, 0, 4, 0, 0, 0, 0, 0, 0, 0, 0, 0, 0, 0, 3, 0, 0, 0, 100, 0, 0, 0,
     5, 0, 0, 0, 2, 0, 0, 0, 200, 0, 0, 0] @ replicate 28 0"

definition sample_superblock :: Superblock where
  "sample_superblock = \<lparr>sb_inode_count = 16, sb_block_count = 1000, sb_free_block_count = 10, sb_free_inode_count = 5,
     sb_first_data_block = 1, sb_block_size = 64, sb_blocks_per_group = 64, sb_inodes_per_group = 16, sb_state = 1,
     sb_errors = 0, sb_revision = 1, sb_inode_size = 128, sb_descriptor_size = 64, sb_feature_compat = 0,
     sb_feature_incompat = 0x80, sb_feature_read_only_compat = 0x400, sb_uuid = replicate 16 7,
     sb_volume_name = replicate 16 0, sb_checksum_type = 1, sb_checksum = 0, sb_checksum_seed = 0x1234,
     sb_journal_inode = 8\<rparr>"

definition sample_inode :: Inode where
  "sample_inode = \<lparr>in_number = 12, in_mode = 0x8000, in_uid = 0, in_gid = 0, in_size = 448, in_block_count_512 = 1,
     in_flags = 0x80000, in_generation = 3, in_extent_root = take 60 sample_leaf\<rparr>"

lemmas sample_reads = parse_extent_def parse_extent_header_def sample_leaf_def ext4_read_u16_def ext4_read_u32_def
  get_range_def from_le_bytes_def EXTENT_HEADER_SIZE_def EXTENT_ENTRY_SIZE_def EXTENT_HEADER_MAGIC_def MAX_EXTENT_DEPTH_def
  checked_add_def join_u64_def

lemma sample_extent_0:
  "parse_extent sample_leaf 0 = Inr \<lparr>ex_logical_block = 0, ex_physical_block = 100, ex_block_count = 3, ex_unwritten = False\<rparr>"
  by (simp add: sample_reads)

lemma sample_extent_1:
  "parse_extent sample_leaf 1 = Inr \<lparr>ex_logical_block = 5, ex_physical_block = 200, ex_block_count = 2, ex_unwritten = False\<rparr>"
  by (simp add: sample_reads)

lemma sample_header: "parse_extent_header sample_leaf 4 = Inr \<lparr>eh_entries = 2, eh_maximum = 4, eh_depth = 0\<rparr>"
  by (simp add: sample_reads)

theorem extent_lookup_is_exact_witness:
  "(\<exists>es. extent_list sample_leaf 2 es \<and> ordered_extents es
      \<and> \<lparr>ex_logical_block = 5, ex_physical_block = 200, ex_block_count = 2, ex_unwritten = False\<rparr> \<in> set es
      \<and> covers \<lparr>ex_logical_block = 5, ex_physical_block = 200, ex_block_count = 2, ex_unwritten = False\<rparr> 6)
   \<and> ExtentNode_extent_for_logical_block \<lparr>en_bytes = sample_leaf, en_header = \<lparr>eh_entries = 2, eh_maximum = 4, eh_depth = 0\<rparr>\<rparr> 6
       = Inr (Some \<lparr>ex_logical_block = 5, ex_physical_block = 200, ex_block_count = 2, ex_unwritten = False\<rparr>)
   \<and> (200 :: nat) + 2 \<le> 1000"
proof -
  let ?e = "\<lparr>ex_logical_block = 5, ex_physical_block = 200, ex_block_count = 2, ex_unwritten = False\<rparr>"
  let ?h = "\<lparr>eh_entries = 2, eh_maximum = 4, eh_depth = 0\<rparr>"
  let ?n = "\<lparr>en_bytes = sample_leaf, en_header = ?h\<rparr>"
  let ?sb = "sample_superblock\<lparr>sb_feature_read_only_compat := 0\<rparr>"
  have valid: "validate_extents sample_leaf ?h = Inr ()"
    by (simp add: validate_extents_def validate_extents_step_def sample_extent_0 sample_extent_1 [simplified] extent_end_def checked_add_def upt_conv_Cons)
  have found: "extent_for_logical_block sample_leaf ?h 6 = Inr (Some ?e)"
    by (simp add: extent_for_logical_block_def valid sample_extent_0 sample_extent_1 [simplified] extent_end_def checked_add_def upt_conv_Cons)
  then have node: "ExtentNode_extent_for_logical_block ?n 6 = Inr (Some ?e)" by (simp add: ExtentNode_extent_for_logical_block_def)
  have "length sample_leaf = 64" by (simp add: sample_leaf_def)
  then have parse: "ExtentNode_parse sample_leaf 0 sample_inode ?sb = Inr ?n"
    by (simp add: ExtentNode_parse_def sample_superblock_def sample_extent_0 sample_header valid validate_entries_def check_extent_blocks_def checked_add_def
      EXTENT_HEADER_SIZE_def EXTENT_ENTRY_SIZE_def EXTENT_TAIL_SIZE_def MAX_EXTENT_DEPTH_def has_metadata_checksums_def
      upt_conv_Cons sample_extent_1 [simplified])
  note exact = extent_lookup_is_exact [of sample_leaf ?h 6 "Some ?e" None sample_leaf 0 sample_inode ?sb ?n ?e]
  have blocks: "unat (200 :: u64) + unat (2 :: u16) \<le> unat (sb_block_count ?sb)" using exact parse node by (auto simp del: unat_numeral)
  show ?thesis using exact found node blocks by (auto simp: sample_superblock_def)
qed

end
