(* ===== verification/Ext4_Inode_Proofs.thy ===== *)
theory Ext4_Inode_Proofs
  imports Ext4_Proofs
begin

text \<open>
  Inodes of the ext4 crate: where they lie on disk, and what the operations that edit an inode in place
  leave behind. The checksum of an inode covers every byte but its own; an inode of the short format keeps
  only the low half of it, which the comparison in \<open>Inode::parse\<close> does not take into account.
\<close>

section \<open>Inodes as values\<close>

definition inode_of :: "u8 list \<Rightarrow> u32 \<Rightarrow> Inode" where
  "inode_of b num =
     \<lparr>in_number = num, in_mode = le16_at b 0, in_uid = join_u32 (le16_at b 2) (le16_at b 120),
      in_gid = join_u32 (le16_at b 24) (le16_at b 122), in_size = join_u64 (le32_at b 4) (le32_at b 108),
      in_block_count_512 = join_u64 (le32_at b 28) (ucast (le16_at b 116)), in_flags = le32_at b 32,
      in_generation = le32_at b 100, in_extent_root = sub_bytes b 40 60\<rparr>"

definition high_summed :: "u8 list \<Rightarrow> bool" where
  "high_summed b \<longleftrightarrow> 131 < length b \<and> 4 \<le> le16_at b 128"

definition inode_crc :: "u8 list \<Rightarrow> u32 \<Rightarrow> Superblock \<Rightarrow> u32" where
  "inode_crc b num sb =
    (let c = crc32c (crc32c (crc32c (crc32c (sb_checksum_seed sb) (to_le_bytes num)) (to_le_bytes (le32_at b 100)))
               (take 124 b)) [0, 0]
     in if high_summed b then crc32c (crc32c (crc32c c (sub_bytes b 126 4)) [0, 0]) (drop 132 b)
        else crc32c c (drop 126 b))"

definition stored_crc :: "u8 list \<Rightarrow> u32" where
  "stored_crc b = join_u32 (le16_at b 124) (if high_summed b then le16_at b 130 else 0)"

lemma has_high_at: "has_high_checksum b = Inr (high_summed b)"
  by (simp add: has_high_checksum_def high_summed_def read_u16_at)

lemma inode_checksum_at: "126 \<le> length b \<Longrightarrow> inode_checksum b num (le32_at b 100) sb = Inr (inode_crc b num sb)"
  by (simp add: inode_checksum_def has_high_at inode_crc_def Let_def)

lemma inode_stored_at: "126 \<le> length b \<Longrightarrow> inode_stored_checksum b = Inr (stored_crc b)"
  by (auto simp: inode_stored_checksum_def has_high_at stored_crc_def read_u16_at high_summed_def)

lemma or_zero_at: "off + 2 \<le> length b \<Longrightarrow> read_u16_or_zero b off = le16_at b off"
  by (simp add: read_u16_or_zero_def read_u16_at)

text \<open>The parser on an inode size the superblock parser lets through.\<close>

lemma Inode_parse_at:
  fixes b :: "u8 list"
  assumes "128 \<le> unat (sb_inode_size sb)"
  defines "i \<equiv> take (unat (sb_inode_size sb)) b"
  shows "Inode_parse b num sb =
    (if num = 0 \<or> sb_inode_count sb < num then Inl InvalidInode
     else if length b < unat (sb_inode_size sb) then Inl Truncated
     else if has_metadata_checksums sb \<and> inode_crc i num sb \<noteq> stored_crc i then Inl InvalidChecksum
     else Inr (inode_of i num))"
proof (cases "length b < unat (sb_inode_size sb)")
  case True
  then show ?thesis by (simp add: Inode_parse_def)
next
  case False
  then have len: "128 \<le> length i" using assms(1) by (simp add: i_def)
  show ?thesis
    unfolding Inode_parse_def Let_def i_def [symmetric]
    using False len by (simp add: read_u32_at read_u16_at or_zero_at inode_checksum_at inode_stored_at inode_of_def)
qed

section \<open>Refreshing the checksum\<close>

definition resealed :: "u32 \<Rightarrow> Superblock \<Rightarrow> u8 list \<Rightarrow> u8 list" where
  "resealed num sb b =
    (if has_metadata_checksums sb then
       let b1 = copy_at b 124 (to_le_bytes (ucast (inode_crc b num sb) :: u16))
       in if high_summed b then copy_at b1 130 (to_le_bytes (ucast (drop_bit 16 (inode_crc b num sb)) :: u16)) else b1
     else b)"

lemma refresh_resealed:
  assumes "128 \<le> length b"
  shows "refresh_inode_checksum num sb b = (Inr (), resealed num sb b)"
proof -
  define c where "c = inode_crc b num sb"
  define b1 where "b1 = copy_at b 124 (to_le_bytes (ucast c :: u16))"
  have "high_summed b1 = high_summed b" using assms by (simp add: b1_def high_summed_def le16_copy_other)
  moreover have "length b1 = length b" using assms by (simp add: b1_def)
  ultimately show ?thesis
    using assms
    by (auto simp: refresh_inode_checksum_def resealed_def edit_early has_high_at inode_checksum_at read_u32_at ebind_overwrite
      ext4_write_u16_def overwrite_def when_edit_def done_ok_def Let_def high_summed_def simp flip: c_def b1_def)
qed

lemma ebind_reseal: "128 \<le> length b \<Longrightarrow> ebind (refresh_inode_checksum num sb) f b = f () (resealed num sb b)"
  by (simp add: ebind_def refresh_resealed)

lemma length_resealed [simp]: "128 \<le> length b \<Longrightarrow> length (resealed num sb b) = length b"
  by (auto simp: resealed_def Let_def high_summed_def)

lemma resealed_fields:
  assumes "128 \<le> length b"
  shows "off + 2 \<le> 124 \<or> 126 \<le> off \<and> off + 2 \<le> 130 \<Longrightarrow> le16_at (resealed num sb b) off = le16_at b off"
    and "off + 4 \<le> 124 \<Longrightarrow> le32_at (resealed num sb b) off = le32_at b off"
    and "off + n \<le> 124 \<or> 126 \<le> off \<and> off + n \<le> 130 \<Longrightarrow> sub_bytes (resealed num sb b) off n = sub_bytes b off n"
    and "take 124 (resealed num sb b) = take 124 b" and "drop 132 (resealed num sb b) = drop 132 b"
    and "\<not> high_summed b \<Longrightarrow> drop 126 (resealed num sb b) = drop 126 b"
  using assms by (auto simp: resealed_def Let_def high_summed_def field_simps_other take_copy_at drop_copy_at)

lemma high_resealed: "128 \<le> length b \<Longrightarrow> high_summed (resealed num sb b) = high_summed b"
  by (simp add: high_summed_def resealed_fields)

lemma crc_resealed: "128 \<le> length b \<Longrightarrow> inode_crc (resealed num sb b) num sb = inode_crc b num sb"
  by (auto simp: inode_crc_def high_resealed resealed_fields Let_def)

lemma stored_resealed:
  assumes "128 \<le> length b" and "has_metadata_checksums sb"
  shows "stored_crc (resealed num sb b) =
    (if high_summed b then inode_crc b num sb else inode_crc b num sb AND 0xffff)"
proof (cases "high_summed b")
  case True
  then show ?thesis using assms
    by (simp add: stored_crc_def high_resealed) (simp add: resealed_def Let_def high_summed_def field_simps_other join_split_u32)
next
  case False
  have "join_u32 (ucast w) 0 = w AND 0xffff" for w :: u32
  proof -
    have "join_u32 (ucast w) 0 = w AND mask 16" unfolding join_u32_def by (rule bit_word_eqI) (auto simp: bit_simps)
    then show ?thesis by (simp add: mask_eq_exp_minus_1)
  qed
  then show ?thesis using assms False
    by (simp add: stored_crc_def high_resealed) (simp add: resealed_def Let_def)
qed

lemma inode_of_resealed: "128 \<le> length b \<Longrightarrow> inode_of (resealed num sb b) n = inode_of b n"
  by (simp add: inode_of_def resealed_fields)

text \<open>After the checksum is refreshed the inode parses, provided its format keeps the whole checksum.\<close>

lemma parse_resealed:
  assumes "128 \<le> unat (sb_inode_size sb)" and "length b = unat (sb_inode_size sb)" and "num \<noteq> 0" and "num \<le> sb_inode_count sb"
    and "has_metadata_checksums sb \<Longrightarrow> high_summed b"
  shows "Inode_parse (resealed num sb b) num sb = Inr (inode_of b num)"
  using assms by (simp add: Inode_parse_at crc_resealed stored_resealed inode_of_resealed not_less [symmetric])

section \<open>Changing the size of a file\<close>

lemma on_prefix_at: "n \<le> length b \<Longrightarrow> m (take n b) = (r, p) \<Longrightarrow> on_prefix n m b = (r, p @ drop n b)"
  by (simp add: on_prefix_def)

lemma Inode_parse_prefix:
  assumes "128 \<le> unat (sb_inode_size sb)" and "length p = unat (sb_inode_size sb)"
  shows "Inode_parse (p @ q) num sb = Inode_parse p num sb"
  using assms by (simp add: Inode_parse_at)

lemma sub_bytes_sub: "k + m \<le> n \<Longrightarrow> sub_bytes (sub_bytes b off n) k m = sub_bytes b (off + k) m"
  by (simp add: sub_bytes_def drop_take add.commute)

lemma sub_bytes_copy_inside:
  assumes "off \<le> a" and "a + length ys \<le> off + n" and "off + n \<le> length b"
  shows "sub_bytes (copy_at b a ys) off n = copy_at (sub_bytes b off n) (a - off) ys"
  using assms by (intro nth_equalityI) (auto simp: sub_bytes_def nth_copy_at add.commute)

definition resized :: "u64 \<Rightarrow> u64 \<Rightarrow> u16 \<Rightarrow> u8 list \<Rightarrow> u8 list" where
  "resized new_size new_count new_length b =
     copy_at (copy_at (copy_at (copy_at (copy_at b 4 (to_le_bytes (ucast new_size :: u32)))
       108 (to_le_bytes (ucast (drop_bit 32 new_size) :: u32))) 28 (to_le_bytes (ucast new_count :: u32)))
       116 (to_le_bytes (ucast (drop_bit 32 new_count) :: u16))) 56 (to_le_bytes new_length)"

lemma join_split_48:
  assumes "drop_bit 48 v = (0 :: u64)"
  shows "join_u64 (ucast v) (ucast (ucast (drop_bit 32 v) :: u16)) = v"
proof -
  have "\<not> bit v n" if "48 \<le> n" for n
  proof -
    have "bit (drop_bit 48 v) (n - 48) = bit v n" using that by (simp add: bit_drop_bit_eq)
    then show ?thesis using assms by simp
  qed
  then show ?thesis unfolding join_u64_def by (intro bit_word_eqI) (auto simp: bit_simps not_le [symmetric])
qed

lemma length_resized [simp]: "128 \<le> length b \<Longrightarrow> length (resized s c l b) = length b"
  by (simp add: resized_def)

lemma high_resized: "128 \<le> length b \<Longrightarrow> high_summed (resized s c l b) = high_summed b"
  by (simp add: high_summed_def resized_def le16_copy_other)

lemma inode_of_resized:
  assumes "128 \<le> length b" and "drop_bit 48 c = 0"
  shows "inode_of (resized s c l b) num = (inode_of b num)
    \<lparr>in_size := s, in_block_count_512 := c, in_extent_root := copy_at (sub_bytes b 40 60) 16 (to_le_bytes l)\<rparr>"
  using assms
  by (simp add: inode_of_def resized_def field_simps_other sub_bytes_copy_inside join_split_u64 join_split_48)

lemma physical_bound: "unat (join_u64 low (ucast (high :: u16))) < 2 ^ 48"
proof -
  let ?w = "join_u64 low (ucast high)"
  have "take_bit 48 ?w = ?w"
    unfolding join_u64_def by (rule bit_word_eqI) (auto simp: bit_simps dest: bit_imp_le_length)
  then have "unat ?w = take_bit 48 (unat ?w)" by (metis unsigned_take_bit_eq)
  then show ?thesis by (metis take_bit_nat_less_exp)
qed

lemma physical_sum: "checked_add (join_u64 low (ucast (high :: u16))) (ucast (n :: u16)) \<noteq> None"
  using physical_bound [of low high] unsigned_less [of n, where ?'a = nat] by (simp add: checked_add_def unat_ucast_up)

lemma parse_extent_root:
  assumes "length root = 60"
  shows "parse_extent root 0 =
    (if le16_at root 16 = 0 then Inl InvalidExtent
     else Inr \<lparr>ex_logical_block = le32_at root 12, ex_physical_block = join_u64 (le32_at root 20) (ucast (le16_at root 18)),
       ex_block_count = (if le16_at root 16 \<le> 0x8000 then le16_at root 16 else le16_at root 16 - 0x8000),
       ex_unwritten = (\<not> le16_at root 16 \<le> 0x8000)\<rparr>)"
  using assms
  by (simp add: parse_extent_def EXTENT_HEADER_SIZE_def EXTENT_ENTRY_SIZE_def read_u16_at read_u32_at physical_sum Let_def)

lemma parse_header_root:
  "length root = 60 \<Longrightarrow> length root' = 60 \<Longrightarrow> take 8 root' = take 8 root \<Longrightarrow> parse_extent_header root' n = parse_extent_header root n"
proof -
  assume *: "length root = 60" "length root' = 60" "take 8 root' = take 8 root"
  have "le16_at root' off = le16_at root off" if "off + 2 \<le> 8" for off
    using le16_take [OF that, of root'] le16_take [OF that, of root] *(3) by simp
  then show ?thesis using *(1,2) by (simp add: parse_extent_header_def read_u16_at)
qed

text \<open>A file with one written extent, as the resizing operations see it.\<close>

lemma single_extent_search:
  assumes "parse_extent root 0 = Inr e" and "eh_entries h = 1" and "extent_stop e < 2 ^ 32"
  shows "extent_for_logical_block root h b = Inr (if covers e b then Some e else None)"
proof -
  have "extent_list root 1 [e]" "ordered_extents [e]" using assms by (simp_all add: extent_list_def ordered_extents_def)
  then show ?thesis using assms(2) unfolding extent_search by (intro exI [of _ "[e]"]) simp
qed

lemma single_extent_overflow:
  assumes "parse_extent root 0 = Inr e" and "eh_entries h = 1" and "extent_for_logical_block root h b = Inr r"
  shows "extent_stop e < 2 ^ 32"
  using assms unfolding extent_search by (auto simp: extent_list_def ordered_extents_def)

text \<open>What the checks before a resize establish.\<close>

lemma resize_checks_Inr:
  assumes "resize_checks b num sb = Inr (ino, ext, lb)" and "128 \<le> unat (sb_inode_size sb)"
  defines "i \<equiv> take (unat (sb_inode_size sb)) b"
  shows "length i = unat (sb_inode_size sb)" and "num \<noteq> 0" and "num \<le> sb_inode_count sb" and "ino = inode_of i num"
    and "is_regular_file ino" and "in_flags ino AND INODE_FLAG_HUGE_FILE = 0"
    and "\<exists>h. Inode_extent_header ino = Inr h \<and> eh_depth h = 0 \<and> eh_entries h = 1"
    and "parse_extent (in_extent_root ino) 0 = Inr ext" and "\<not> ex_unwritten ext"
    and "in_size ino \<noteq> 0" and "in_size ino mod ucast (sb_block_size sb) = 0"
    and "lb = in_size ino div ucast (sb_block_size sb)"
    and "lb = ucast (ex_logical_block ext) + ucast (ex_block_count ext)"
proof -
  from assms(1) have parse: "Inode_parse b num sb = Inr ino"
    and checks: "is_regular_file ino" "in_flags ino AND INODE_FLAG_HUGE_FILE = 0" "\<not> ex_unwritten ext" "in_size ino \<noteq> 0"
      "in_size ino mod ucast (sb_block_size sb) = 0" "lb = in_size ino div ucast (sb_block_size sb)"
      "lb = ucast (ex_logical_block ext) + ucast (ex_block_count ext)"
    and depth: "extent_depth ino = Inr 0" and entries: "ext4_read_u16 b 42 = Inr 1" and first: "first_extent ino = Inr ext"
    by (auto simp: resize_checks_def result_simps Let_def split: if_splits del: mod_0_imp_dvd)
  from parse assms(2) have i: "length b \<ge> unat (sb_inode_size sb)" "num \<noteq> 0" "num \<le> sb_inode_count sb" "ino = inode_of i num"
    by (auto simp: Inode_parse_at i_def not_less split: if_splits)
  then show "length i = unat (sb_inode_size sb)" "num \<noteq> 0" "num \<le> sb_inode_count sb" "ino = inode_of i num"
    by (auto simp: i_def)
  have root: "in_extent_root ino = sub_bytes i 40 60" "length (in_extent_root ino) = 60"
    using i(1,4) assms(2) by (simp_all add: inode_of_def i_def)
  from depth obtain h where h: "Inode_extent_header ino = Inr h" "eh_depth h = 0" by (auto simp: extent_depth_def result_simps)
  then have "unat (le16_at (in_extent_root ino) 2) = eh_entries h"
    using root(2) by (auto simp: Inode_extent_header_def parse_extent_header_def read_u16_at split: if_splits)
  moreover have "le16_at (in_extent_root ino) 2 = le16_at b 42"
    using i(1) assms(2) by (simp add: root(1) i_def le16_at_def sub_bytes_sub sub_bytes_take)
  moreover have "le16_at b 42 = 1" using entries i(1) assms(2) by (simp add: read_u16_at)
  ultimately show "\<exists>h. Inode_extent_header ino = Inr h \<and> eh_depth h = 0 \<and> eh_entries h = 1" using h by auto
  with first show "parse_extent (in_extent_root ino) 0 = Inr ext"
    by (auto simp: first_extent_def extent_at_def)
  show "is_regular_file ino" "in_flags ino AND INODE_FLAG_HUGE_FILE = 0" "\<not> ex_unwritten ext" "in_size ino \<noteq> 0"
      "in_size ino mod ucast (sb_block_size sb) = 0" "lb = in_size ino div ucast (sb_block_size sb)"
      "lb = ucast (ex_logical_block ext) + ucast (ex_block_count ext)"
    using checks by auto
qed

lemma resize_target_Inr:
  assumes "resize_target ino ext sb pb grow = Inr (ns, nc, nl)" and "0 < unat (ex_block_count ext)" "unat (ex_block_count ext) \<le> 0x8000"
  shows "unat nl = (if grow then unat (ex_block_count ext) + 1 else unat (ex_block_count ext) - 1)"
    and "0 < unat nl" and "unat nl \<le> 0x8000"
    and "pb = ex_physical_block ext + ucast (ex_block_count ext) - (if grow then 0 else 1)"
    and "if grow then checked_add (in_size ino) (ucast (sb_block_size sb)) = Some ns
         else ns = in_size ino - ucast (sb_block_size sb)"
    and "if grow then checked_add (in_block_count_512 ino) (ucast (sb_block_size sb div 512)) = Some nc
         else checked_sub (in_block_count_512 ino) (ucast (sb_block_size sb div 512)) = Some nc"
proof -
  let ?c = "ex_block_count ext"
  have "grow \<Longrightarrow> nl = ?c + 1 \<and> ?c < 32768" "\<not> grow \<Longrightarrow> nl = ?c - 1 \<and> 1 < ?c"
    using assms(1) by (auto simp: resize_target_def Let_def result_simps not_le split: if_splits)
  then have "unat nl = (if grow then unat ?c + 1 else unat ?c - 1) \<and> 0 < unat nl \<and> unat nl \<le> 0x8000"
    using assms(3) by (cases grow) (auto simp: word_less_nat_alt unat_word_ariths unat_sub word_le_nat_alt)
  then show "unat nl = (if grow then unat ?c + 1 else unat ?c - 1)" "0 < unat nl" "unat nl \<le> 0x8000" by auto
  show "pb = ex_physical_block ext + ucast ?c - (if grow then 0 else 1)"
    "if grow then checked_add (in_size ino) (ucast (sb_block_size sb)) = Some ns
         else ns = in_size ino - ucast (sb_block_size sb)"
    "if grow then checked_add (in_block_count_512 ino) (ucast (sb_block_size sb div 512)) = Some nc
         else checked_sub (in_block_count_512 ino) (ucast (sb_block_size sb div 512)) = Some nc"
    using assms(1) by (auto simp: resize_target_def Let_def result_simps split: if_splits)
qed

lemma root_extent:
  assumes "length root = 60" and "parse_extent root 0 = Inr ext" and "\<not> ex_unwritten ext"
  shows "unat (ex_block_count ext) \<le> 0x8000" and "0 < unat (ex_block_count ext)" and "ex_block_count ext = le16_at root 16"
    and "0 < unat nl \<Longrightarrow> unat nl \<le> 0x8000 \<Longrightarrow>
      parse_extent (copy_at root 16 (to_le_bytes nl)) 0 = Inr (ext\<lparr>ex_block_count := nl\<rparr>)"
  using assms
  by (auto simp: parse_extent_root word_le_nat_alt field_simps_other unat_gt_0 split: if_splits)

lemma header_copy:
  "length (in_extent_root ino) = 60 \<Longrightarrow>
   Inode_extent_header (ino\<lparr>in_size := s, in_block_count_512 := c, in_extent_root := copy_at (in_extent_root ino) 16 (to_le_bytes (l :: u16))\<rparr>)
     = Inode_extent_header ino"
  using parse_header_root [of "in_extent_root ino" "copy_at (in_extent_root ino) 16 (to_le_bytes l)"]
  by (simp add: Inode_extent_header_def take_copy_at)

text \<open>The last check of a resize: the block at the old end is found exactly after growing.\<close>

lemma resize_end_lookup:
  fixes lb :: u64
  assumes ext: "parse_extent (in_extent_root ino) 0 = Inr e" and h: "Inode_extent_header ino = Inr h" "eh_depth h = 0" "eh_entries h = 1"
    and bound: "extent_stop e < 2 ^ 32" and old: "lb = ucast (ex_logical_block e) + ucast (old_length :: u16)"
    and len: "unat (ex_block_count e) = (if grow then unat old_length + 1 else unat old_length - 1)" "0 < unat old_length"
  shows "Inode_extent_for_logical_block ino (ucast (lb - (if grow then 0 else 1))) = Inr (if grow then Some e else None)"
proof -
  have "unat old_length < 2 ^ 16" "unat (ex_logical_block e) < 2 ^ 32" using unsigned_less [of old_length, where ?'a = nat]
    unsigned_less [of "ex_logical_block e", where ?'a = nat] by simp_all
  then have lb: "unat lb = unat (ex_logical_block e) + unat old_length"
    unfolding old by (simp add: unat_word_ariths unat_ucast_up)
  then have "unat (lb - (if grow then 0 else 1)) = unat (ex_logical_block e) + unat old_length - (if grow then 0 else 1)"
    using len(2) by (auto simp: unat_sub word_le_nat_alt)
  moreover have "\<dots> < 2 ^ 32" using bound len by (auto simp: extent_stop_def split: if_splits)
  ultimately have "unat (ucast (lb - (if grow then 0 else 1)) :: u32) = unat (ex_logical_block e) + unat old_length - (if grow then 0 else 1)"
    by (simp add: unsigned_ucast_eq take_bit_nat_eq_self)
  then have "covers e (ucast (lb - (if grow then 0 else 1))) = grow" using len by (auto simp: covers_def extent_stop_def)
  then show ?thesis
    using single_extent_search [OF ext h(3) bound] h by (simp add: Inode_extent_for_logical_block_def)
qed

text \<open>A resize whose checks and new values are fine, up to its last check.\<close>

lemma resize_run:
  assumes size: "128 \<le> unat (sb_inode_size sb)" and checks: "resize_checks b num sb = Inr (ino, ext, lb)"
    and target: "resize_target ino ext sb pb grow = Inr (ns, nc, nl)" and sectors: "drop_bit 48 nc = 0"
    and format: "has_metadata_checksums sb \<Longrightarrow> high_summed (take (unat (sb_inode_size sb)) b)"
  defines "p \<equiv> resealed num sb (resized ns nc nl (take (unat (sb_inode_size sb)) b))"
    and "new \<equiv> ino\<lparr>in_size := ns, in_block_count_512 := nc, in_extent_root := copy_at (in_extent_root ino) 16 (to_le_bytes nl)\<rparr>"
  shows "resize_regular_file_by_one_block num sb pb grow b =
      (case Inode_extent_for_logical_block new (ucast (lb - (if grow then 0 else 1))) of
         Inl e \<Rightarrow> Inl e
       | Inr found \<Rightarrow> if found \<noteq> (if grow then Some (ext\<lparr>ex_block_count := nl\<rparr>) else None) then Inl InvalidInode else Inr (),
       p @ drop (unat (sb_inode_size sb)) b)"
    and "length p = unat (sb_inode_size sb)" and "Inode_parse p num sb = Inr new"
    and "parse_extent (in_extent_root new) 0 = Inr (ext\<lparr>ex_block_count := nl\<rparr>)"
    and "Inode_extent_header new = Inode_extent_header ino"
    and "has_metadata_checksums sb \<Longrightarrow> high_summed p"
proof -
  let ?n = "unat (sb_inode_size sb)"
  define i where "i = take ?n b"
  note c = resize_checks_Inr [OF checks size, folded i_def]
  have len: "128 \<le> length i" using c(1) size by simp
  have root: "in_extent_root ino = sub_bytes i 40 60" "length (in_extent_root ino) = 60" using c(1,4) size by (simp_all add: inode_of_def)
  note e = root_extent [OF root(2) c(8,9)]
  note t = resize_target_Inr [OF target e(2,1)]
  have i': "length (resized ns nc nl i) = ?n" using len c(1) by simp
  have new: "inode_of (resized ns nc nl i) num = new"
    using inode_of_resized [OF len sectors] c(4) root(1) by (simp add: new_def inode_of_def)
  show p: "length p = ?n" using i' size by (simp add: p_def i_def)
  show parse: "Inode_parse p num sb = Inr new"
    unfolding p_def using parse_resealed [OF size i' c(2,3)] format len new by (simp add: high_resized flip: i_def)
  show "parse_extent (in_extent_root new) 0 = Inr (ext\<lparr>ex_block_count := nl\<rparr>)"
    using e(4) [OF t(2,3)] by (simp add: new_def)
  show "Inode_extent_header new = Inode_extent_header ino" using header_copy [OF root(2)] by (simp add: new_def)
  show "has_metadata_checksums sb \<Longrightarrow> high_summed p"
    using format i' size len by (simp add: p_def high_resealed high_resized flip: i_def)
  have "length b \<ge> ?n" using c(1) by (simp add: i_def)
  moreover have "ext\<lparr>ex_block_count := nl\<rparr> = \<lparr>ex_logical_block = ex_logical_block ext, ex_physical_block = ex_physical_block ext,
      ex_block_count = nl, ex_unwritten = False\<rparr>" using c(9) by simp
  moreover have "in_size new = ns" "in_block_count_512 new = nc" by (simp_all add: new_def)
  ultimately show "resize_regular_file_by_one_block num sb pb grow b =
      (case Inode_extent_for_logical_block new (ucast (lb - (if grow then 0 else 1))) of
         Inl e \<Rightarrow> Inl e
       | Inr found \<Rightarrow> if found \<noteq> (if grow then Some (ext\<lparr>ex_block_count := nl\<rparr>) else None) then Inl InvalidInode else Inr (),
       p @ drop ?n b)"
    using checks target sectors len parse
    by (simp add: resize_regular_file_by_one_block_def edit_early on_prefix_def write_u32_at write_u16_at ebind_reseal
      guard_def p_def resized_def flip: i_def split: sum.split)
qed

lemma resize_exact:
  assumes size: "128 \<le> unat (sb_inode_size sb)" and checks: "resize_checks b num sb = Inr (ino, ext, lb)"
    and target: "resize_target ino ext sb pb grow = Inr (ns, nc, nl)" and sectors: "drop_bit 48 nc = 0"
    and format: "has_metadata_checksums sb \<Longrightarrow> high_summed (take (unat (sb_inode_size sb)) b)"
  shows "fst (resize_regular_file_by_one_block num sb pb grow b) = Inr () \<longleftrightarrow> unat (ex_logical_block ext) + unat nl < 2 ^ 32"
proof -
  let ?new = "ino\<lparr>in_size := ns, in_block_count_512 := nc, in_extent_root := copy_at (in_extent_root ino) 16 (to_le_bytes nl)\<rparr>"
  note c = resize_checks_Inr [OF checks size]
  note run = resize_run [OF size checks target sectors format]
  have root: "length (in_extent_root ino) = 60" using c(1,4) size by (simp add: inode_of_def)
  note e = root_extent [OF root c(8,9)]
  note t = resize_target_Inr [OF target e(2,1)]
  obtain h where h: "Inode_extent_header ino = Inr h" "eh_depth h = 0" "eh_entries h = 1" using c(7) by blast
  then have header: "Inode_extent_header ?new = Inr h" using run(5) by simp
  let ?e = "ext\<lparr>ex_block_count := nl\<rparr>"
  have stop: "extent_stop ?e < 2 ^ 32 \<longleftrightarrow> unat (ex_logical_block ext) + unat nl < 2 ^ 32" by (simp add: extent_stop_def)
  show ?thesis
  proof
    assume "unat (ex_logical_block ext) + unat nl < 2 ^ 32"
    then have "Inode_extent_for_logical_block ?new (ucast (lb - (if grow then 0 else 1))) = Inr (if grow then Some ?e else None)"
      using resize_end_lookup [OF run(4) header h(2,3), of lb "ex_block_count ext" grow] c(13) t(1) e(2) stop by simp
    then show "fst (resize_regular_file_by_one_block num sb pb grow b) = Inr ()" using run(1) by simp
  next
    assume "fst (resize_regular_file_by_one_block num sb pb grow b) = Inr ()"
    then obtain r where "Inode_extent_for_logical_block ?new (ucast (lb - (if grow then 0 else 1))) = Inr r"
      using run(1) by (auto split: sum.splits)
    then have "extent_for_logical_block (in_extent_root ?new) h (ucast (lb - (if grow then 0 else 1))) = Inr r"
      using header h(2) by (simp add: Inode_extent_for_logical_block_def)
    from single_extent_overflow [OF run(4) h(3) this] show "unat (ex_logical_block ext) + unat nl < 2 ^ 32"
      using stop by simp
  qed
qed


lemma copy_at_twice: "length ys = length zs \<Longrightarrow> a + length ys \<le> length b \<Longrightarrow> copy_at (copy_at b a ys) a zs = copy_at b a zs"
  by (simp add: copy_at_def)

lemma copy_at_same: "a + n \<le> length b \<Longrightarrow> copy_at b a (sub_bytes b a n) = b"
  by (simp add: copy_at_def sub_bytes_def drop_drop add.commute append_take_drop_id flip: append_assoc take_add)

lemma write_back_u16: "a + 2 \<le> length b \<Longrightarrow> copy_at b a (to_le_bytes (le16_at b a)) = b"
proof -
  assume *: "a + 2 \<le> length b"
  then have "to_le_bytes (le16_at b a) = sub_bytes b a 2"
    unfolding le16_at_def by (intro to_from_le_bytes) simp
  then show ?thesis using * copy_at_same [of a 2 b] by simp
qed

lemma high_zero_48: "unat (w :: u64) < 2 ^ 48 \<Longrightarrow> drop_bit 48 w = 0"
  by (simp add: drop_bit_eq_div unat_eq_0 [symmetric] unat_div)

text \<open>A grown file has one more block.\<close>

lemma grown_size:
  fixes s bs ns :: u64
  assumes "checked_add s bs = Some ns" and "s \<noteq> 0" and "s mod bs = 0"
  shows "ns \<noteq> 0" and "ns mod bs = 0" and "ns div bs = s div bs + 1" and "ns - bs = s"
proof -
  have ns: "unat ns = unat s + unat bs" using assms(1) by (rule checked_add_unat)
  have bs: "0 < unat bs" using assms(2,3) by (cases "bs = 0") (auto simp: unat_gt_0)
  have dvd: "unat s mod unat bs = 0" using assms(3) by (metis unat_0 unat_mod)
  show "ns \<noteq> 0" using ns bs by auto
  have "unat (ns mod bs) = 0" using ns dvd by (simp add: unat_mod)
  then show "ns mod bs = 0" by (simp add: unat_eq_0)
  have "unat (ns div bs) = unat s div unat bs + 1" using ns bs div_add_self2 [of "unat bs" "unat s"] by (simp add: unat_div)
  moreover have "unat (s div bs + 1) = unat s div unat bs + 1"
  proof -
    have "unat s div unat bs + 1 \<le> unat ns" using ns bs by (metis add_mono div_le_dividend Suc_leI One_nat_def)
    then have "unat s div unat bs + 1 < 2 ^ 64" using unat_lt_64 [of ns] by linarith
    then show ?thesis by (simp add: unat_word_ariths unat_div)
  qed
  ultimately show "ns div bs = s div bs + 1" by (simp add: word_unat_eq_iff)
  show "ns - bs = s" using assms(1) by (simp add: checked_simps)
qed

lemma resize_success:
  assumes "resize_regular_file_by_one_block num sb pb grow b = (Inr (), b')"
  obtains ino ext lb ns nc nl where "resize_checks b num sb = Inr (ino, ext, lb)"
    and "resize_target ino ext sb pb grow = Inr (ns, nc, nl)" and "drop_bit 48 nc = 0"
proof -
  obtain ino ext lb where c: "resize_checks b num sb = Inr (ino, ext, lb)"
    using assms by (cases "resize_checks b num sb") (auto simp: resize_regular_file_by_one_block_def edit_early)
  moreover obtain ns nc nl where t: "resize_target ino ext sb pb grow = Inr (ns, nc, nl)"
    using assms c by (cases "resize_target ino ext sb pb grow") (auto simp: resize_regular_file_by_one_block_def edit_early)
  moreover have "drop_bit 48 nc = 0"
    using assms c t by (auto simp: resize_regular_file_by_one_block_def edit_early split: if_splits)
  ultimately show ?thesis by (rule that)
qed

text \<open>The checks of a resize on the inode that growing left behind.\<close>

lemma resize_checks_grown:
  assumes size: "128 \<le> unat (sb_inode_size sb)" and checks: "resize_checks b num sb = Inr (ino, ext, lb)"
    and target: "resize_target ino ext sb pb True = Inr (ns, nc, nl)"
    and p: "length p = unat (sb_inode_size sb)" "Inode_parse p num sb = Inr new" "in_size new = ns"
      "in_mode new = in_mode ino" "in_flags new = in_flags ino" "Inode_extent_header new = Inode_extent_header ino"
      "parse_extent (in_extent_root new) 0 = Inr (ext\<lparr>ex_block_count := nl\<rparr>)"
      "in_extent_root new = copy_at (in_extent_root ino) 16 (to_le_bytes nl)"
  shows "resize_checks (p @ q) num sb = Inr (new, ext\<lparr>ex_block_count := nl\<rparr>, lb + 1)"
proof -
  note c = resize_checks_Inr [OF checks size]
  have root: "length (in_extent_root ino) = 60" using c(1,4) size by (simp add: inode_of_def)
  note e = root_extent [OF root c(8,9)]
  note t = resize_target_Inr [OF target e(2,1)]
  note g = grown_size [OF t(5) [simplified] c(10,11)]
  obtain h where h: "Inode_extent_header ino = Inr h" "eh_depth h = 0" "eh_entries h = 1" using c(7) by blast
  have new: "new = inode_of p num" using p(1,2) size by (auto simp: Inode_parse_at split: if_splits)
  have "unat (le16_at (in_extent_root ino) 2) = 1"
    using h root by (auto simp: Inode_extent_header_def parse_extent_header_def read_u16_at split: if_splits)
  then have "le16_at (in_extent_root new) 2 = 1" using root by (simp add: p(8) le16_copy_other word_unat_eq_iff)
  moreover have "le16_at (in_extent_root new) 2 = le16_at p 42"
    using p(1) size by (simp add: new inode_of_def le16_at_def sub_bytes_sub)
  ultimately have entries: "ext4_read_u16 (p @ q) 42 = Inr 1"
    using p(1) size by (simp add: read_u16_at le16_at_def sub_bytes_def)
  have "nl = ex_block_count ext + 1" using t(1) e(1) by (auto simp: word_unat_eq_iff unat_word_ariths)
  moreover have "(ucast (ex_block_count ext + 1) :: u64) = ucast (ex_block_count ext) + 1"
    using e(1) by (auto simp: word_unat_eq_iff unat_ucast_up unat_word_ariths)
  ultimately have fin: "lb + 1 = ucast (ex_logical_block ext) + ucast nl" using c(13) by simp
  have "extent_depth new = Inr 0" "first_extent new = Inr (ext\<lparr>ex_block_count := nl\<rparr>)"
    using h p(6,7) by (simp_all add: extent_depth_def first_extent_def extent_at_def)
  moreover have "is_regular_file new" "in_flags new AND INODE_FLAG_HUGE_FILE = 0"
    using c(5,6) p(4,5) by (simp_all add: is_regular_file_def)
  moreover have "Inode_parse (p @ q) num sb = Inr new" using Inode_parse_prefix [OF size p(1)] p(2) by simp
  ultimately show ?thesis
    using g c(9,12) fin entries p(1,3) by (simp add: resize_checks_def Let_def del: mod_0_imp_dvd)
qed

lemma shrink_target:
  assumes "pb = ex_physical_block ext + ucast (ex_block_count ext)"
    and "checked_add (in_size ino) (ucast (sb_block_size sb)) = Some ns"
    and "checked_add (in_block_count_512 ino) (ucast (sb_block_size sb div 512)) = Some nc"
    and "ns - ucast (sb_block_size sb) = in_size ino"
    and "unat (ex_block_count ext) \<le> 0x8000" and "0 < unat (ex_block_count ext)"
  shows "resize_target (ino\<lparr>in_size := ns, in_block_count_512 := nc, in_extent_root := r\<rparr>)
      (ext\<lparr>ex_block_count := ex_block_count ext + 1\<rparr>) sb pb False
    = Inr (in_size ino, in_block_count_512 ino, ex_block_count ext)"
proof -
  have "(ucast (ex_block_count ext + 1) :: u64) = ucast (ex_block_count ext) + 1"
    using assms(5) by (auto simp: word_unat_eq_iff unat_ucast_up unat_word_ariths)
  moreover have "\<not> ex_block_count ext + 1 \<le> 1"
    using assms(5,6) by (auto simp: word_le_nat_alt unat_word_ariths)
  moreover have "checked_sub nc (ucast (sb_block_size sb div 512)) = Some (in_block_count_512 ino)"
    using assms(3) checked_add_unat [OF assms(3)] by (auto simp: checked_simps word_le_nat_alt)
  ultimately show ?thesis using assms(1,4) by (simp add: resize_target_def)
qed

text \<open>\<^bold>\<open>C34\<close>. Growing a file by a block and shrinking it by the same block restores its inode. Whenever
  growing succeeds (on an inode whose format keeps the whole checksum), the inode parses with one block
  more in its size, its sector count and its only extent; shrinking by that block then succeeds, and the inode
  parses to exactly what it was before.\<close>

theorem grow_then_shrink_restores_inode:
  assumes "128 \<le> unat (sb_inode_size sb)"
    and "has_metadata_checksums sb \<longrightarrow> high_summed (take (unat (sb_inode_size sb)) b)"
    and "resize_regular_file_by_one_block num sb pb True b = (Inr (), b')"
  shows "\<exists>ino new ext b''. Inode_parse b num sb = Inr ino \<and> Inode_parse b' num sb = Inr new
    \<and> unat (in_size new) = unat (in_size ino) + unat (sb_block_size sb)
    \<and> unat (in_block_count_512 new) = unat (in_block_count_512 ino) + unat (sb_block_size sb) div 512
    \<and> first_extent ino = Inr ext \<and> first_extent new = Inr (ext\<lparr>ex_block_count := ex_block_count ext + 1\<rparr>)
    \<and> resize_regular_file_by_one_block num sb pb False b' = (Inr (), b'')
    \<and> Inode_parse b'' num sb = Inr ino"
proof -
  let ?n = "unat (sb_inode_size sb)"
  obtain ino ext lb ns nc nl where g: "resize_checks b num sb = Inr (ino, ext, lb)"
    "resize_target ino ext sb pb True = Inr (ns, nc, nl)" "drop_bit 48 nc = 0"
    using resize_success [OF assms(3)] .
  define new where "new = ino\<lparr>in_size := ns, in_block_count_512 := nc, in_extent_root := copy_at (in_extent_root ino) 16 (to_le_bytes nl)\<rparr>"
  define p where "p = resealed num sb (resized ns nc nl (take ?n b))"
  note c = resize_checks_Inr [OF g(1) assms(1)]
  note run = resize_run [OF assms(1) g assms(2) [rule_format], folded p_def new_def]
  have root: "length (in_extent_root ino) = 60" using c(1,4) assms(1) by (simp add: inode_of_def)
  note e = root_extent [OF root c(8,9)]
  note t = resize_target_Inr [OF g(2) e(2,1)]
  have nl: "nl = ex_block_count ext + 1" using t(1) e(1) by (auto simp: word_unat_eq_iff unat_word_ariths)
  have b': "b' = p @ drop ?n b" using run(1) assms(3) by simp
  have bound: "unat (ex_logical_block ext) + unat nl < 2 ^ 32"
    using resize_exact [OF assms(1) g assms(2) [rule_format]] assms(3) by simp
  let ?ext = "ext\<lparr>ex_block_count := nl\<rparr>"
  have checks: "resize_checks b' num sb = Inr (new, ?ext, lb + 1)"
    unfolding b' using run(2-5) by (intro resize_checks_grown [OF assms(1) g(1,2)]) (simp_all add: new_def)
  note s = grown_size [OF t(5) [simplified] c(10,11)]
  have sectors: "drop_bit 48 (in_block_count_512 ino) = 0"
    using physical_bound by (auto simp: c(4) inode_of_def intro: high_zero_48)
  have target: "resize_target new ?ext sb pb False = Inr (in_size ino, in_block_count_512 ino, ex_block_count ext)"
    using shrink_target [OF t(4-6) [simplified] s(4) e(1,2)] by (simp add: new_def nl)
  have format: "has_metadata_checksums sb \<Longrightarrow> high_summed (take ?n b')" using run(2,6) by (simp add: b')
  note undone = resize_run [OF assms(1) checks target sectors format]
  let ?p = "resealed num sb (resized (in_size ino) (in_block_count_512 ino) (ex_block_count ext) (take ?n b'))"
  have "fst (resize_regular_file_by_one_block num sb pb False b') = Inr ()"
    using resize_exact [OF assms(1) checks target sectors format] bound t(1) by simp
  moreover have "snd (resize_regular_file_by_one_block num sb pb False b') = ?p @ drop ?n b'" using undone(1) by simp
  ultimately have shrink: "resize_regular_file_by_one_block num sb pb False b' = (Inr (), ?p @ drop ?n b')"
    by (simp add: prod_eq_iff)
  have "copy_at (in_extent_root new) 16 (to_le_bytes (ex_block_count ext)) = in_extent_root ino"
    using root by (simp add: new_def copy_at_twice e(3) write_back_u16)
  then have "Inode_parse (?p @ drop ?n b') num sb = Inr ino"
    using Inode_parse_prefix [OF assms(1) undone(2)] undone(3) by (simp add: new_def)
  moreover have "first_extent ino = Inr ext" "first_extent new = Inr ?ext"
    using c(7,8) run(4,5) by (auto simp: first_extent_def extent_at_def)
  moreover have "Inode_parse b num sb = Inr ino" using g(1) by (auto simp: resize_checks_def result_simps Let_def split: if_splits)
  moreover have "Inode_parse b' num sb = Inr new" unfolding b' using Inode_parse_prefix [OF assms(1) run(2)] run(3) by simp
  moreover have "unat (in_size new) = unat (in_size ino) + unat (sb_block_size sb)"
    using checked_add_unat [OF t(5) [simplified]] by (simp add: new_def unat_ucast_up)
  moreover have "unat (in_block_count_512 new) = unat (in_block_count_512 ino) + unat (sb_block_size sb) div 512"
    using checked_add_unat [OF t(6) [simplified]] by (simp add: new_def unat_ucast_up unat_div)
  ultimately show ?thesis using shrink unfolding nl by blast
qed

text \<open>A regular file of one block at block 100, in an inode of 128 bytes.\<close>

definition sample_inode_bytes :: "u8 list" where
  "sample_inode_bytes = [0, 0x80, 0, 0, 0, 4, 0, 0] @ replicate 20 0 @ [2, 0, 0, 0, 0, 0, 8, 0] @ replicate 4 0
     @ [0x0a, 0xf3, 1, 0, 4, 0, 0, 0, 0, 0, 0, 0, 0, 0, 0, 0, 1, 0, 0, 0, 100, 0, 0, 0] @ replicate 64 0"

definition plain_superblock :: Superblock where
  "plain_superblock = sample_superblock\<lparr>sb_block_size := 1024, sb_feature_read_only_compat := 0\<rparr>"

lemma length_sample_inode: "length sample_inode_bytes = 128"
  by (simp add: sample_inode_bytes_def)

lemma sample_resize_checks:
  "resize_checks sample_inode_bytes 12 plain_superblock = Inr (inode_of sample_inode_bytes 12,
     \<lparr>ex_logical_block = 0, ex_physical_block = 100, ex_block_count = 1, ex_unwritten = False\<rparr>, 1)"
  by (simp add: resize_checks_def Inode_parse_at length_sample_inode plain_superblock_def sample_superblock_def
    has_metadata_checksums_def inode_of_def sample_inode_bytes_def le16_at_def le32_at_def sub_bytes_def from_le_bytes_def
    is_regular_file_def extent_depth_def Inode_extent_header_def parse_extent_header_def ext4_read_u16_def ext4_read_u32_def
    get_range_def first_extent_def extent_at_def parse_extent_root join_u32_def join_u64_def REGULAR_FILE_MODE_def
    MODE_TYPE_MASK_def le_nat_zeros INODE_FLAG_HUGE_FILE_def INODE_FLAG_EXTENTS_def EXTENT_HEADER_MAGIC_def
    MAX_EXTENT_DEPTH_def)

lemma sample_resize_target:
  "resize_target (inode_of sample_inode_bytes 12)
     \<lparr>ex_logical_block = 0, ex_physical_block = 100, ex_block_count = 1, ex_unwritten = False\<rparr> plain_superblock 101 True
   = Inr (2048, 4, 2)"
  by (simp add: resize_target_def inode_of_def sample_inode_bytes_def le32_at_def le16_at_def sub_bytes_def from_le_bytes_def
    le_nat_zeros join_u64_def checked_add_def plain_superblock_def sample_superblock_def word_le_nat_alt)

theorem grow_then_shrink_restores_inode_witness:
  "\<exists>b' new b''. resize_regular_file_by_one_block 12 plain_superblock 101 True sample_inode_bytes = (Inr (), b')
    \<and> Inode_parse b' 12 plain_superblock = Inr new \<and> first_extent new =
        Inr \<lparr>ex_logical_block = 0, ex_physical_block = 100, ex_block_count = 2, ex_unwritten = False\<rparr>
    \<and> resize_regular_file_by_one_block 12 plain_superblock 101 False b' = (Inr (), b'')
    \<and> Inode_parse b'' 12 plain_superblock = Inode_parse sample_inode_bytes 12 plain_superblock"
proof -
  have sb: "128 \<le> unat (sb_inode_size plain_superblock)" "\<not> has_metadata_checksums plain_superblock"
    by (simp_all add: plain_superblock_def sample_superblock_def has_metadata_checksums_def)
  have "drop_bit 48 (4 :: u64) = 0" by simp
  with resize_exact [OF sb(1) sample_resize_checks sample_resize_target] sb(2)
  have "fst (resize_regular_file_by_one_block 12 plain_superblock 101 True sample_inode_bytes) = Inr ()" by simp
  then obtain b' where b': "resize_regular_file_by_one_block 12 plain_superblock 101 True sample_inode_bytes = (Inr (), b')"
    by (metis prod.collapse)
  have "first_extent (inode_of sample_inode_bytes 12)
      = Inr \<lparr>ex_logical_block = 0, ex_physical_block = 100, ex_block_count = 1, ex_unwritten = False\<rparr>"
    using sample_resize_checks by (auto simp: resize_checks_def result_simps Let_def split: if_splits)
  moreover have "Inode_parse sample_inode_bytes 12 plain_superblock = Inr (inode_of sample_inode_bytes 12)"
    using sample_resize_checks by (auto simp: resize_checks_def result_simps Let_def split: if_splits)
  ultimately show ?thesis
    using grow_then_shrink_restores_inode [OF sb(1) _ b'] sb(2) b' by auto
qed

section \<open>Setting the size and creating a file\<close>

lemma set_inode_size_exact:
  assumes "128 \<le> unat (sb_inode_size sb)" and "Inode_parse b num sb = Inr ino"
    and "has_metadata_checksums sb \<Longrightarrow> high_summed (take (unat (sb_inode_size sb)) b)"
  shows "\<exists>b'. set_inode_size num sb s b = (Inr (), b') \<and> Inode_parse b' num sb = Inr (ino\<lparr>in_size := s\<rparr>)
    \<and> drop (unat (sb_inode_size sb)) b' = drop (unat (sb_inode_size sb)) b"
proof -
  let ?n = "unat (sb_inode_size sb)"
  define i where "i = take ?n b"
  define j where "j = copy_at (copy_at i 4 (to_le_bytes (ucast s :: u32))) 108 (to_le_bytes (ucast (drop_bit 32 s) :: u32))"
  have i: "length i = ?n" "?n \<le> length b" "num \<noteq> 0" "num \<le> sb_inode_count sb" "ino = inode_of i num"
    using assms(1,2) by (auto simp: Inode_parse_at i_def not_less split: if_splits)
  have j: "length j = ?n" "inode_of j num = ino\<lparr>in_size := s\<rparr>" "high_summed j = high_summed i"
    using i(1,5) assms(1) by (simp_all add: j_def inode_of_def field_simps_other join_split_u64 high_summed_def)
  have parse: "Inode_parse (resealed num sb j) num sb = Inr (ino\<lparr>in_size := s\<rparr>)"
    using parse_resealed [OF assms(1) j(1) i(3,4)] j assms(3) by (simp add: i_def)
  have "set_inode_size num sb s b = (Inr (), resealed num sb j @ drop ?n b)"
    using assms(1,2) i(1,2) j(1) parse
    by (simp add: set_inode_size_def Let_def edit_early on_prefix_def write_u32_at ebind_reseal done_ok_def flip: i_def j_def)
  moreover have "length (resealed num sb j) = ?n" using j(1) assms(1) by simp
  ultimately show ?thesis using Inode_parse_prefix [OF assms(1), of "resealed num sb j"] parse by auto
qed

text \<open>The bytes of a new file before its checksum is written.\<close>

definition new_inode_writes :: "nat \<Rightarrow> u16 \<Rightarrow> u32 \<Rightarrow> u32 \<Rightarrow> (nat \<times> u8 list) list" where
  "new_inode_writes n permissions timestamp generation =
     (if 160 \<le> n then [(144, to_le_bytes timestamp), (128, to_le_bytes (32 :: u16))] else [])
     @ [(100, to_le_bytes generation), (48, to_le_bytes (0 :: u32)), (46, to_le_bytes (0 :: u16)),
        (44, to_le_bytes (4 :: u16)), (42, to_le_bytes (0 :: u16)), (40, to_le_bytes EXTENT_HEADER_MAGIC),
        (32, to_le_bytes INODE_FLAG_EXTENTS), (26, to_le_bytes (1 :: u16)), (16, to_le_bytes timestamp),
        (12, to_le_bytes timestamp), (8, to_le_bytes timestamp), (0, to_le_bytes (REGULAR_FILE_MODE OR permissions))]"

definition new_inode_bytes :: "nat \<Rightarrow> u16 \<Rightarrow> u32 \<Rightarrow> u32 \<Rightarrow> u8 list" where
  "new_inode_bytes n permissions timestamp generation =
     written (new_inode_writes n permissions timestamp generation) (replicate n 0)"

lemma sub_zeros: "from_le_bytes (sub_bytes (replicate n 0) off k) = 0"
  by (simp add: sub_bytes_def from_le_bytes_zeros)

lemma new_inode_length: "128 \<le> n \<Longrightarrow> length (new_inode_bytes n permissions timestamp generation) = n"
  unfolding new_inode_bytes_def by (subst length_written) (simp_all add: new_inode_writes_def)

lemma new_inode_fields:
  fixes permissions :: u16 and timestamp generation :: u32
  assumes "128 \<le> n"
  defines "b \<equiv> new_inode_bytes n permissions timestamp generation"
  shows "le16_at b 0 = REGULAR_FILE_MODE OR permissions" and "le16_at b 26 = 1"
    and "le32_at b 32 = INODE_FLAG_EXTENTS" and "le32_at b 100 = generation" and "160 \<le> n \<Longrightarrow> le16_at b 128 = 32"
    and "le16_at b 116 = 0" and "le32_at b 4 = 0" and "le32_at b 28 = 0" and "le32_at b 108 = 0"
    and "le16_at b 40 = EXTENT_HEADER_MAGIC" and "le16_at b 42 = 0" and "le16_at b 44 = 4" and "le16_at b 46 = 0"
  using assms(1) unfolding b_def new_inode_bytes_def new_inode_writes_def
  by (cases "160 \<le> n";
      simp add: le16_at_def le32_at_def written_simps sub_zeros del: written.simps(2))+

lemma run_write_u16:
  "fits (length b) ((off, to_le_bytes v) # ws) \<Longrightarrow>
   ebind (ext4_write_u16 off v) f (written ws b) = f () (written ((off, to_le_bytes v) # ws) b)"
  by (simp add: write_u16_at length_written)

lemma run_write_u32:
  "fits (length b) ((off, to_le_bytes v) # ws) \<Longrightarrow>
   ebind (ext4_write_u32 off v) f (written ws b) = f () (written ((off, to_le_bytes v) # ws) b)"
  by (simp add: write_u32_at length_written)

lemma initialize_writes:
  assumes "128 \<le> n" and "length i = n"
  shows "ebind (\<lambda>inode. (Inr (), replicate (length inode) 0)) (\<lambda>_.
       ebind (ext4_write_u16 0 (REGULAR_FILE_MODE OR permissions)) (\<lambda>_.
       ebind (ext4_write_u32 8 timestamp) (\<lambda>_.
       ebind (ext4_write_u32 12 timestamp) (\<lambda>_.
       ebind (ext4_write_u32 16 timestamp) (\<lambda>_.
       ebind (ext4_write_u16 26 1) (\<lambda>_.
       ebind (ext4_write_u32 32 INODE_FLAG_EXTENTS) (\<lambda>_.
       ebind (ext4_write_u16 40 EXTENT_HEADER_MAGIC) (\<lambda>_.
       ebind (ext4_write_u16 42 0) (\<lambda>_.
       ebind (ext4_write_u16 44 4) (\<lambda>_.
       ebind (ext4_write_u16 46 0) (\<lambda>_.
       ebind (ext4_write_u32 48 0) (\<lambda>_.
       ebind (ext4_write_u32 100 generation) (\<lambda>_.
       ebind (when_edit (160 \<le> n) (ebind (ext4_write_u16 128 32) (\<lambda>_. ext4_write_u32 144 timestamp))) f)))))))))))))
       i = f () (new_inode_bytes n permissions timestamp generation)"
proof -
  have zeros: "ebind (\<lambda>inode. (Inr (), replicate (length inode) 0)) g i = g () (written [] (replicate n 0))"
    for g :: "unit \<Rightarrow> (Ext4Error, 'a) edit"
    using assms(2) by (simp add: ebind_def)
  show ?thesis
    using assms(1)
    by (cases "160 \<le> n")
      (simp_all add: zeros run_write_u16 run_write_u32 ebind_when ebind_assoc new_inode_bytes_def new_inode_writes_def
        del: written.simps)
qed

lemma initialize_inode_exact:
  assumes "128 \<le> unat (sb_inode_size sb)" and "num \<noteq> 0" and "num \<le> sb_inode_count sb"
    and "unat (sb_inode_size sb) \<le> length b" and "permissions AND NOT 0x0fff = 0"
    and "has_metadata_checksums sb \<Longrightarrow> 160 \<le> unat (sb_inode_size sb)"
  shows "\<exists>b' ino. initialize_empty_regular_inode num sb permissions timestamp generation b = (Inr (), b')
    \<and> drop (unat (sb_inode_size sb)) b' = drop (unat (sb_inode_size sb)) b
    \<and> Inode_parse b' num sb = Inr ino \<and> is_regular_file ino \<and> in_mode ino = REGULAR_FILE_MODE OR permissions
    \<and> in_size ino = 0 \<and> in_block_count_512 ino = 0 \<and> in_generation ino = generation
    \<and> Inode_extent_header ino = Inr \<lparr>eh_entries = 0, eh_maximum = 4, eh_depth = 0\<rparr>"
proof -
  let ?n = "unat (sb_inode_size sb)"
  define j where "j = new_inode_bytes ?n permissions timestamp generation"
  define ino where "ino = inode_of j num"
  have len: "length j = ?n" unfolding j_def by (rule new_inode_length [OF assms(1)])
  note f = new_inode_fields [OF assms(1), where permissions = permissions and timestamp = timestamp
      and generation = generation, folded j_def]
  have "has_metadata_checksums sb \<Longrightarrow> high_summed j" using len f(5) assms(6) by (simp add: high_summed_def)
  then have parse: "Inode_parse (resealed num sb j) num sb = Inr ino"
    unfolding ino_def using assms(1-3) len by (intro parse_resealed) simp_all
  have mode: "in_mode ino = REGULAR_FILE_MODE OR permissions" by (simp add: ino_def inode_of_def f)
  have "(permissions AND NOT 0x0fff) AND MODE_TYPE_MASK = 0" using assms(5) by simp
  then have "permissions AND MODE_TYPE_MASK = 0" by (simp add: MODE_TYPE_MASK_def and.assoc)
  then have regular: "is_regular_file ino"
    by (simp add: is_regular_file_def mode bit.conj_disj_distrib2) (simp add: REGULAR_FILE_MODE_def MODE_TYPE_MASK_def)
  have zero: "in_size ino = 0" "in_block_count_512 ino = 0" "in_generation ino = generation" "in_flags ino = INODE_FLAG_EXTENTS"
    using f by (simp_all add: ino_def inode_of_def join_u64_def)
  have root: "in_extent_root ino = sub_bytes j 40 60" "length (in_extent_root ino) = 60"
    using len assms(1) by (simp_all add: ino_def inode_of_def)
  have header: "Inode_extent_header ino = Inr \<lparr>eh_entries = 0, eh_maximum = 4, eh_depth = 0\<rparr>"
    using root f(10-13)
    by (simp add: Inode_extent_header_def zero(4) INODE_FLAG_EXTENTS_def parse_extent_header_def read_u16_at le16_at_def
      sub_bytes_sub MAX_EXTENT_DEPTH_def)
  have links: "le16_at (resealed num sb j) 26 = 1" using len f(2) assms(1) by (simp add: resealed_fields)
  have "initialize_empty_regular_inode num sb permissions timestamp generation b = (Inr (), resealed num sb j @ drop ?n b)"
    using assms(1-5) len parse regular zero header links
    by (simp add: initialize_empty_regular_inode_def Let_def edit_early on_prefix_def initialize_writes ebind_reseal
      extent_depth_def read_u16_at guard_def del: not_less flip: j_def)
  moreover have "length (resealed num sb j) = ?n" using len assms(1) by simp
  ultimately show ?thesis
    using Inode_parse_prefix [OF assms(1), of "resealed num sb j"] parse mode regular zero header by auto
qed


section \<open>Where inodes lie\<close>

lemma parsed_sizes:
  assumes "parse_internal b ar = Inr sb"
  shows "\<exists>j k. unat (sb_inode_size sb) = 2 ^ j \<and> unat (sb_block_size sb) = 2 ^ k \<and> 7 \<le> j \<and> j \<le> k"
proof -
  have check: "superblock_check ar (le16_at b 56) (le32_at b 24) (crc32c (- 1) (take 1020 b)) sb = None" and sb: "sb = superblock_of b"
    using assms by (auto simp: parse_internal_Inr)
  from check obtain j where j: "unat (sb_inode_size sb) = 2 ^ j"
    by (auto simp: superblock_check_def split: if_splits dest!: is_power_of_two_unat)
  have log: "unat (le32_at b 24) \<le> 6" using check by (auto simp: superblock_check_def word_less_nat_alt split: if_splits)
  have "sb_block_size sb = push_bit (unat (le32_at b 24)) (1024 :: u32)" by (simp add: sb superblock_of_def Let_def)
  then have "sb_block_size sb = word_of_nat (2 ^ (10 + unat (le32_at b 24)))" by (simp add: push_bit_eq_mult power_add)
  moreover have "(2 :: nat) ^ (10 + unat (le32_at b 24)) < 2 ^ 32" using log by (intro power_strict_increasing) auto
  ultimately have k: "unat (sb_block_size sb) = 2 ^ (10 + unat (le32_at b 24))"
    by (simp only: unat_of_nat len_bit0 len_num1 mod_less mult_1_right) simp
  have "(2 :: nat) ^ 7 \<le> 2 ^ j" using check j by (auto simp: superblock_check_def word_less_nat_alt split: if_splits)
  then have "7 \<le> j" by (simp only: power_increasing_iff one_less_numeral_iff semiring_norm)
  moreover have "(2 :: nat) ^ j \<le> 2 ^ (10 + unat (le32_at b 24))"
    using check j k by (auto simp: superblock_check_def word_less_nat_alt unat_ucast_up split: if_splits)
  then have "j \<le> 10 + unat (le32_at b 24)" by (simp only: power_increasing_iff one_less_numeral_iff semiring_norm)
  ultimately show ?thesis using j k by blast
qed

text \<open>The slot of an inode in terms of natural numbers.\<close>

definition inode_byte :: "Superblock \<Rightarrow> u32 \<Rightarrow> GroupDescriptor \<Rightarrow> nat" where
  "inode_byte sb num g = unat (gd_inode_table_block g) * unat (sb_block_size sb)
     + (unat num - 1) mod unat (sb_inodes_per_group sb) * unat (sb_inode_size sb)"

lemma inode_location_at:
  assumes "inode_location sb num g = Inr loc" and "sb_block_size sb \<noteq> 0"
  shows "unat (il_block loc) = inode_byte sb num g div unat (sb_block_size sb)"
    and "unat (il_offset loc) = inode_byte sb num g mod unat (sb_block_size sb)"
    and "num \<noteq> 0" and "(unat num - 1) div unat (sb_inodes_per_group sb) = unat (gd_group_index g)"
proof -
  obtain start offs pos where valid: "num \<noteq> 0" "(num - 1) div sb_inodes_per_group sb = gd_group_index g"
    and ops: "checked_mul (gd_inode_table_block g) (ucast (sb_block_size sb)) = Some start"
      "checked_mul (ucast ((num - 1) mod sb_inodes_per_group sb)) (ucast (sb_inode_size sb) :: u64) = Some offs"
      "checked_add start offs = Some pos"
    and loc: "loc = \<lparr>il_block = pos div ucast (sb_block_size sb), il_offset = ucast (pos mod ucast (sb_block_size sb))\<rparr>"
    using assms(1) by (auto simp: inode_location_def Let_def result_simps bind_eq_Some_conv split: if_splits)
  have pos: "unat pos = inode_byte sb num g"
    using checked_add_unat [OF ops(3)] checked_mul_unat [OF ops(1)] checked_mul_unat [OF ops(2)] valid(1)
    by (simp add: inode_byte_def unat_ucast_up unat_mod unat_minus_one)
  show "unat (il_block loc) = inode_byte sb num g div unat (sb_block_size sb)"
    by (simp add: loc unat_div pos unat_ucast_up)
  have "unat pos mod unat (sb_block_size sb) < unat (sb_block_size sb)" using assms(2) by (simp add: unat_gt_0)
  also have "\<dots> < 2 ^ 32" using unsigned_less [of "sb_block_size sb", where ?'a = nat] by simp
  finally have small: "unat pos mod unat (sb_block_size sb) < 2 ^ 32" .
  have "unat (pos mod ucast (sb_block_size sb)) = unat pos mod unat (sb_block_size sb)" by (simp add: unat_mod unat_ucast_up)
  with small show "unat (il_offset loc) = inode_byte sb num g mod unat (sb_block_size sb)"
    by (simp add: loc unsigned_ucast_eq [of "pos mod ucast (sb_block_size sb)"] take_bit_nat_eq_self pos)
  show "num \<noteq> 0" by (rule valid(1))
  show "(unat num - 1) div unat (sb_inodes_per_group sb) = unat (gd_group_index g)"
    using valid by (metis unat_div unat_minus_one)
qed

lemma multiple_in_block:
  assumes "(s :: nat) dvd bs" and "s dvd x" and "0 < bs"
  shows "s dvd x mod bs" and "x mod bs + s \<le> bs"
proof -
  show d: "s dvd x mod bs" using assms by (simp add: dvd_mod)
  have "x mod bs < bs" using assms(3) by simp
  moreover from d assms(1) have "s dvd bs - x mod bs" by (rule dvd_diff_nat [rotated])
  ultimately show "x mod bs + s \<le> bs" using dvd_imp_le [of s "bs - x mod bs"] by simp
qed

text \<open>\<^bold>\<open>C35\<close>. Every inode has a slot of its own in the inode table of its group. With a superblock the parser
  accepted, the location of inode \<open>m\<close> (numbered from one) is that of the entry \<open>(m - 1) mod inodes_per_group\<close> of the
  table that starts at the group's inode table block, its range of the inode size lies inside one block, the group is the
  one the number belongs to, and two different inodes of one group have ranges that do not overlap.\<close>

theorem inode_slots_are_disjoint:
  assumes "parse_internal b ar = Inr sb" and "inode_location sb m g = Inr l" and "inode_location sb n g = Inr l'" and "m \<noteq> n"
  shows "unat (il_block l) * unat (sb_block_size sb) + unat (il_offset l)
      = unat (gd_inode_table_block g) * unat (sb_block_size sb)
        + (unat m - 1) mod unat (sb_inodes_per_group sb) * unat (sb_inode_size sb)
    \<and> m \<noteq> 0 \<and> (unat m - 1) div unat (sb_inodes_per_group sb) = unat (gd_group_index g)
    \<and> unat (il_offset l) + unat (sb_inode_size sb) \<le> unat (sb_block_size sb)
    \<and> (il_block l \<noteq> il_block l'
       \<or> unat (il_offset l) + unat (sb_inode_size sb) \<le> unat (il_offset l')
       \<or> unat (il_offset l') + unat (sb_inode_size sb) \<le> unat (il_offset l))"
proof -
  let ?s = "unat (sb_inode_size sb)" and ?bs = "unat (sb_block_size sb)" and ?per = "unat (sb_inodes_per_group sb)"
  obtain j k where sizes: "?s = 2 ^ j" "?bs = 2 ^ k" "j \<le> k" using parsed_sizes [OF assms(1)] by blast
  then have bs: "?s dvd ?bs" "0 < ?bs" "0 < ?s" by (simp_all add: le_imp_power_dvd)
  then have nz: "sb_block_size sb \<noteq> 0" by (auto simp: unat_gt_0)
  note l = inode_location_at [OF assms(2) nz] and l' = inode_location_at [OF assms(3) nz]
  have dvd: "?s dvd inode_byte sb n g" for n using bs(1) by (simp add: inode_byte_def)
  have "unat m \<noteq> unat n" using assms(4) by (simp add: word_unat_eq_iff)
  moreover have "unat m \<noteq> 0" "unat n \<noteq> 0" using l(3) l'(3) by (simp_all add: unat_eq_0)
  ultimately have "(unat m - 1) mod ?per \<noteq> (unat n - 1) mod ?per"
    using l(4) l'(4) by (metis Suc_pred' bot_nat_0.not_eq_extremum div_mult_mod_eq diff_Suc_1)
  then have "inode_byte sb m g \<noteq> inode_byte sb n g" using bs(3) by (simp add: inode_byte_def)
  then have "inode_byte sb m g mod ?bs \<noteq> inode_byte sb n g mod ?bs" if "il_block l = il_block l'"
    using that l(1) l'(1) by (metis div_mult_mod_eq)
  moreover have "x + ?s \<le> y" if "?s dvd x" "?s dvd y" "x < y" for x y :: nat
    using that by (metis dvd_diff_nat dvd_imp_le le_add_diff_inverse less_imp_le_nat nat_add_left_cancel_le zero_less_diff)
  ultimately have "unat (il_offset l) + ?s \<le> ?bs \<and> (il_block l \<noteq> il_block l'
      \<or> unat (il_offset l) + ?s \<le> unat (il_offset l') \<or> unat (il_offset l') + ?s \<le> unat (il_offset l))"
    using multiple_in_block [OF bs(1) dvd bs(2)] l(2) l'(2) by (metis linorder_neqE_nat)
  moreover have "unat (il_block l) * ?bs + unat (il_offset l) = inode_byte sb m g"
    unfolding l(1,2) by (rule div_mult_mod_eq)
  ultimately show ?thesis using l(3,4) unfolding inode_byte_def by blast
qed

definition sample_group :: GroupDescriptor where
  "sample_group = \<lparr>gd_group_index = 0, gd_block_bitmap_block = 3, gd_inode_bitmap_block = 4, gd_inode_table_block = 5,
     gd_free_block_count = 10, gd_free_inode_count = 5, gd_used_directory_count = 2, gd_unused_inode_count = 4, gd_checksum = 0\<rparr>"

lemma sample_superblock_fields:
  "sb_inode_count (superblock_of sample_superblock_bytes) = 16"
  "sb_inodes_per_group (superblock_of sample_superblock_bytes) = 16"
  "sb_block_size (superblock_of sample_superblock_bytes) = 1024"
  "sb_inode_size (superblock_of sample_superblock_bytes) = 128"
  unfolding superblock_of_def Let_def Superblock.select_convs
  by (simp_all add: sample_superblock_bytes_def field_simps_other field_zeros)

lemma sample_locations:
  "inode_location (superblock_of sample_superblock_bytes) 2 sample_group = Inr \<lparr>il_block = 5, il_offset = 128\<rparr>"
  "inode_location (superblock_of sample_superblock_bytes) 3 sample_group = Inr \<lparr>il_block = 5, il_offset = 256\<rparr>"
  by (simp_all add: inode_location_def sample_superblock_fields sample_group_def checked_mul_def checked_add_def)

theorem inode_slots_are_disjoint_witness:
  "inode_location (superblock_of sample_superblock_bytes) 2 sample_group = Inr \<lparr>il_block = 5, il_offset = 128\<rparr>
   \<and> inode_location (superblock_of sample_superblock_bytes) 3 sample_group = Inr \<lparr>il_block = 5, il_offset = 256\<rparr>
   \<and> 5 * 1024 + unat (128 :: u32) = 5 * 1024 + (2 - 1) mod 16 * 128
   \<and> unat (128 :: u32) + 128 \<le> unat (256 :: u32)"
  using inode_slots_are_disjoint [OF sample_parses [unfolded parse_for_recovery_def] sample_locations]
    sample_locations sample_superblock_fields by simp

section \<open>Inodes of the short format\<close>

text \<open>Zero bytes do not move a zero checksum.\<close>

lemma crc32c_byte_0: "crc32c_byte b (ucast b) = 0"
  by (simp add: crc32c_byte_def crc32c_bit_def numeral_eq_Suc)

lemma crc32c_zeros: "crc32c 0 (replicate n 0) = 0"
  using crc32c_byte_0 [of 0] by (induction n) (simp_all add: crc32c_def)

lemma crc32c_Nil: "crc32c s [] = s"
  and crc32c_zero_Cons: "crc32c 0 (0 # xs) = crc32c 0 xs"
  using crc32c_byte_0 [of 0] by (simp_all add: crc32c_def)

lemma le_bytes_4: "le_bytes 4 n = [word_of_nat (n mod 256), word_of_nat (n div 256 mod 256),
    word_of_nat (n div 256 div 256 mod 256), word_of_nat (n div 256 div 256 div 256 mod 256)]"
proof -
  have "(4 :: nat) = Suc (Suc (Suc (Suc 0)))" by simp
  then show ?thesis by (simp only: le_bytes.simps)
qed

text \<open>\<^bold>\<open>C36\<close>. With metadata checksums an inode of 128 bytes, which has room for the low half of its checksum
  only, is refused with \<open>InvalidChecksum\<close> whenever the high half of the checksum is not zero, whatever it
  stores; refreshing its checksum does not help.\<close>

theorem short_inode_checksum_is_refused:
  assumes "has_metadata_checksums sb" and "sb_inode_size sb = 128" and "num \<noteq> 0" and "num \<le> sb_inode_count sb"
    and "128 \<le> length b" and "drop_bit 16 (inode_crc (take 128 b) num sb) \<noteq> 0"
  shows "Inode_parse b num sb = Inl InvalidChecksum
    \<and> (\<exists>i. refresh_inode_checksum num sb (take 128 b) = (Inr (), i) \<and> Inode_parse i num sb = Inl InvalidChecksum)"
proof -
  let ?i = "take 128 b"
  have i: "length ?i = 128" using assms(5) by simp
  have short: "\<not> high_summed x" if "length x = 128" for x using that by (simp add: high_summed_def)
  have "drop_bit 16 (join_u32 w 0) = (0 :: u32)" for w
    unfolding join_u32_def by (rule bit_word_eqI) (auto simp: bit_simps dest: bit_imp_le_length)
  then have stored: "drop_bit 16 (stored_crc x) = 0" if "length x = 128" for x
    using short [OF that] by (simp add: stored_crc_def)
  have "inode_crc ?i num sb \<noteq> stored_crc ?i" using assms(6) stored [OF i] by metis
  moreover have "inode_crc (resealed num sb ?i) num sb \<noteq> stored_crc (resealed num sb ?i)"
    using assms(6) i stored [of "resealed num sb ?i"] crc_resealed [of ?i num sb] by (metis le_refl length_resealed)
  ultimately show ?thesis
    using assms(1-5) i refresh_resealed [of ?i num sb] by (auto simp: Inode_parse_at not_less [symmetric])
qed

theorem short_inode_checksum_is_refused_witness:
  "Inode_parse (replicate 127 0 @ [128]) 12 (sample_superblock\<lparr>sb_checksum_seed := 12\<rparr>) = Inl InvalidChecksum"
proof -
  let ?sb = "sample_superblock\<lparr>sb_checksum_seed := 12\<rparr>" and ?b = "replicate 127 0 @ [128] :: u8 list"
  have sb: "has_metadata_checksums ?sb" "sb_inode_size ?sb = 128" "12 \<le> sb_inode_count ?sb" "sb_checksum_seed ?sb = 12"
    by (simp_all add: sample_superblock_def has_metadata_checksums_def FEATURE_READ_ONLY_COMPAT_METADATA_CHECKSUM_def)
  have num: "crc32c 12 (to_le_bytes (12 :: u32)) = 0"
  proof -
    have "to_le_bytes (12 :: u32) = [12, 0, 0, 0]" by (simp add: to_le_bytes_def le_bytes_4)
    then show ?thesis using crc32c_byte_0 [of 12] crc32c_byte_0 [of 0] by (simp add: crc32c_def)
  qed
  have gen: "le32_at ?b 100 = 0" by (simp add: le32_at_def sub_bytes_def from_le_bytes_zeros)
  have zero: "to_le_bytes (0 :: u32) = [0, 0, 0, 0]" by (simp add: to_le_bytes_def le_bytes_4)
  have eight: "(8 :: nat) = Suc (Suc (Suc (Suc (Suc (Suc (Suc (Suc 0)))))))" by simp
  have last: "drop_bit 16 (crc32c_byte 128 0) \<noteq> 0"
    unfolding crc32c_byte_def eight funpow.simps by (simp add: crc32c_bit_def)
  have short: "\<not> high_summed ?b" by (simp add: high_summed_def)
  have "inode_crc ?b 12 ?sb = crc32c 0 [128]"
    by (simp add: inode_crc_def short sb num gen zero crc32c_zeros crc32c_zero_Cons crc32c_Nil)
  also have "\<dots> = crc32c_byte 128 0" by (simp add: crc32c_def)
  finally have "drop_bit 16 (inode_crc (take 128 ?b) 12 ?sb) \<noteq> 0" using last by simp
  then show ?thesis using short_inode_checksum_is_refused [OF sb(1,2) _ sb(3), of ?b]
    by simp
qed

end
