(* ===== verification/Ext4_Allocation.thy ===== *)
theory Ext4_Allocation
  imports Ext4_Inode_Proofs
begin

text \<open>
  The block and inode allocators of the ext4 crate: each flips one bit of a group's bitmap and updates the
  counters and the checksums of the group descriptor. The two buffers are edited in the order of the
  source, so an error after the bitmap was changed leaves it changed.
\<close>

section \<open>The allocators\<close>

definition GROUP_FLAG_INODE_UNINITIALIZED :: u16 where "GROUP_FLAG_INODE_UNINITIALIZED = 1"
definition GROUP_FLAG_BLOCK_UNINITIALIZED :: u16 where "GROUP_FLAG_BLOCK_UNINITIALIZED = 2"

text \<open>A bit of a bitmap: byte \<open>bit / 8\<close>, mask \<open>1 << (bit % 8)\<close>.\<close>

definition bitmap_mask :: "'a::len word \<Rightarrow> u8" where
  "bitmap_mask k = push_bit (unat (k mod 8)) 1"

definition bitmap_test :: "u8 list \<Rightarrow> 'a::len word \<Rightarrow> bool" where
  "bitmap_test bitmap k \<longleftrightarrow> bitmap ! unat (k div 8) AND bitmap_mask k \<noteq> 0"

definition bitmap_assign :: "u8 list \<Rightarrow> 'a::len word \<Rightarrow> bool \<Rightarrow> u8 list" where
  "bitmap_assign bitmap k allocated =
     bitmap[unat (k div 8) := (if allocated then bitmap ! unat (k div 8) OR bitmap_mask k
                               else bitmap ! unat (k div 8) AND NOT (bitmap_mask k))]"

definition refresh_group_descriptor_checksum :: "u32 \<Rightarrow> Superblock \<Rightarrow> (Ext4Error, unit) edit" where
  "refresh_group_descriptor_checksum group_index sb =
     when_edit (has_metadata_checksums sb)
      (ebind (query (\<lambda>descriptor. if length descriptor < 32 then Inl Truncated else Inr ())) (\<lambda>_.
       ebind (ext4_write_u16 30 0) (\<lambda>_.
       ebind (query (\<lambda>descriptor.
         Inr (crc32c (crc32c (sb_checksum_seed sb) (to_le_bytes group_index)) descriptor))) (\<lambda>checksum.
       ext4_write_u16 30 (ucast checksum)))))"

text \<open>The stored checksum of the bitmap, in two halves of the descriptor.\<close>

definition check_bitmap_checksum :: "u8 list \<Rightarrow> nat \<Rightarrow> nat \<Rightarrow> u8 list \<Rightarrow> Superblock \<Rightarrow> Ext4Error + unit" where
  "check_bitmap_checksum descriptor_bytes low high bitmap sb =
    (if has_metadata_checksums sb then
       rbind (ext4_read_u16 descriptor_bytes low) (\<lambda>low.
       rbind (ext4_read_u16 descriptor_bytes high) (\<lambda>high.
       if join_u32 low high \<noteq> crc32c (sb_checksum_seed sb) bitmap then Inl InvalidChecksum else Inr ()))
     else Inr ())"

text \<open>The new value of a counter of free blocks or inodes; freeing may not exceed what the group has.\<close>

definition new_free_count :: "bool \<Rightarrow> u32 \<Rightarrow> (u32 \<Rightarrow> bool) \<Rightarrow> u32 option" where
  "new_free_count allocated count within =
    (if allocated then checked_sub count 1
     else Option.bind (checked_add count 1) (\<lambda>count. if within count then Some count else None))"

definition group_first_block :: "u32 \<Rightarrow> Superblock \<Rightarrow> u64 option" where
  "group_first_block group_index sb =
     Option.bind (checked_mul (ucast group_index) (ucast (sb_blocks_per_group sb)))
       (checked_add (ucast (sb_first_data_block sb)))"

definition group_block_count :: "u64 \<Rightarrow> Superblock \<Rightarrow> u64" where
  "group_block_count group_first sb =
     min (saturating_sub (sb_block_count sb) group_first) (ucast (sb_blocks_per_group sb))"

definition group_first_inode :: "u32 \<Rightarrow> Superblock \<Rightarrow> u32 option" where
  "group_first_inode group_index sb =
     Option.bind (checked_mul group_index (sb_inodes_per_group sb)) (\<lambda>v. checked_add v 1)"

definition group_inode_count :: "u32 \<Rightarrow> Superblock \<Rightarrow> u32" where
  "group_inode_count first_inode sb =
     min (saturating_sub (sb_inode_count sb) (first_inode - 1)) (sb_inodes_per_group sb)"

text \<open>The checks of \<open>set_block_allocation\<close> before it writes: the bit in the group and the new number of
  free blocks.\<close>

definition block_allocation_checks ::
  "u8 list \<Rightarrow> u8 list \<Rightarrow> u32 \<Rightarrow> u64 \<Rightarrow> bool \<Rightarrow> Superblock \<Rightarrow> Ext4Error + u64 \<times> u32" where
  "block_allocation_checks block_bitmap descriptors group_index physical_block allocated sb =
    (if sb_feature_read_only_compat sb AND FEATURE_READ_ONLY_COMPAT_BIGALLOC \<noteq> 0
        \<or> sb_blocks_per_group sb mod 8 \<noteq> 0
     then Inl UnsupportedFeature
     else
     let descriptor_size = unat (sb_descriptor_size sb);
         bitmap_size = unat (sb_blocks_per_group sb div 8) in
     if length descriptors < descriptor_size \<or> length block_bitmap < bitmap_size then Inl Truncated
     else
     rbind (GroupDescriptor_parse descriptors group_index sb) (\<lambda>descriptor.
     let descriptor_bytes = take descriptor_size descriptors in
     rbind (ext4_read_u16 descriptor_bytes 18) (\<lambda>flags.
     if flags AND GROUP_FLAG_BLOCK_UNINITIALIZED \<noteq> 0 then Inl UnsupportedFeature
     else
     rbind (check_bitmap_checksum descriptor_bytes 24 56 (take bitmap_size block_bitmap) sb) (\<lambda>_.
     rbind (ok_or InvalidGeometry (group_first_block group_index sb)) (\<lambda>group_first.
     let group_blocks = group_block_count group_first sb in
     rbind (ok_or InvalidGeometry
       (Option.bind (checked_sub physical_block group_first)
         (\<lambda>k. if k < group_blocks then Some k else None))) (\<lambda>k.
     if bitmap_test block_bitmap k = allocated then Inl InvalidGeometry
     else
     rbind (ok_or InvalidGeometry (new_free_count allocated (gd_free_block_count descriptor)
       (\<lambda>count. ucast count \<le> group_blocks))) (\<lambda>free_blocks.
     Inr (k, free_blocks))))))))"

definition set_block_allocation ::
  "u32 \<Rightarrow> u64 \<Rightarrow> bool \<Rightarrow> Superblock \<Rightarrow> u8 list \<times> u8 list \<Rightarrow> (Ext4Error + unit) \<times> u8 list \<times> u8 list" where
  "set_block_allocation group_index physical_block allocated sb =
    (\<lambda>(block_bitmap, descriptors).
     case block_allocation_checks block_bitmap descriptors group_index physical_block allocated sb of
       Inl e \<Rightarrow> (Inl e, block_bitmap, descriptors)
     | Inr (k, free_blocks) \<Rightarrow>
        (let block_bitmap' = bitmap_assign block_bitmap k allocated;
             bitmap_size = unat (sb_blocks_per_group sb div 8);
             checksum = crc32c (sb_checksum_seed sb) (take bitmap_size block_bitmap');
             (r, descriptors') = on_prefix (unat (sb_descriptor_size sb))
               (ebind (ext4_write_u16 12 (ucast free_blocks)) (\<lambda>_.
                ebind (ext4_write_u16 44 (ucast (drop_bit 16 free_blocks))) (\<lambda>_.
                ebind (when_edit (has_metadata_checksums sb)
                  (ebind (ext4_write_u16 24 (ucast checksum)) (\<lambda>_.
                   ext4_write_u16 56 (ucast (drop_bit 16 checksum))))) (\<lambda>_.
                ebind (refresh_group_descriptor_checksum group_index sb) (\<lambda>_.
                ebind (query (\<lambda>descriptor. GroupDescriptor_parse descriptor group_index sb)) (\<lambda>updated.
                guard (gd_free_block_count updated \<noteq> free_blocks) InvalidGeometry)))))) descriptors
         in (r, block_bitmap', descriptors')))"

definition inode_allocation_checks ::
  "u8 list \<Rightarrow> u8 list \<Rightarrow> u32 \<Rightarrow> u32 \<Rightarrow> bool \<Rightarrow> Superblock \<Rightarrow> Ext4Error + u32 \<times> u32 \<times> u32" where
  "inode_allocation_checks inode_bitmap descriptors group_index inode_number allocated sb =
    (if sb_inodes_per_group sb mod 8 \<noteq> 0 then Inl UnsupportedFeature
     else
     let descriptor_size = unat (sb_descriptor_size sb);
         bitmap_size = unat (sb_inodes_per_group sb div 8) in
     if length descriptors < descriptor_size \<or> length inode_bitmap < bitmap_size then Inl Truncated
     else
     rbind (GroupDescriptor_parse descriptors group_index sb) (\<lambda>descriptor.
     let descriptor_bytes = take descriptor_size descriptors in
     rbind (ext4_read_u16 descriptor_bytes 18) (\<lambda>flags.
     if flags AND GROUP_FLAG_INODE_UNINITIALIZED \<noteq> 0 then Inl UnsupportedFeature
     else
     rbind (check_bitmap_checksum descriptor_bytes 26 58 (take bitmap_size inode_bitmap) sb) (\<lambda>_.
     rbind (ok_or InvalidGeometry (group_first_inode group_index sb)) (\<lambda>first_inode.
     let group_inodes = group_inode_count first_inode sb in
     rbind (ok_or InvalidInode
       (Option.bind (checked_sub inode_number first_inode)
         (\<lambda>k. if k < group_inodes then Some k else None))) (\<lambda>k.
     if bitmap_test inode_bitmap k = allocated then Inl InvalidGeometry
     else
     rbind (ok_or InvalidGeometry (new_free_count allocated (gd_free_inode_count descriptor)
       (\<lambda>count. count \<le> group_inodes))) (\<lambda>free_inodes.
     Inr (k, group_inodes, free_inodes))))))))"

text \<open>\<open>for candidate in (0..group_inode_count).rev()\<close> up to the first allocated one.\<close>

primrec highest_allocated :: "u8 list \<Rightarrow> nat \<Rightarrow> u32 option" where
  "highest_allocated inode_bitmap 0 = None"
| "highest_allocated inode_bitmap (Suc n) =
    (let candidate = word_of_nat n :: u32 in
     if bitmap_test inode_bitmap candidate then Some candidate else highest_allocated inode_bitmap n)"

definition set_inode_allocation ::
  "u32 \<Rightarrow> u32 \<Rightarrow> bool \<Rightarrow> Superblock \<Rightarrow> u8 list \<times> u8 list \<Rightarrow> (Ext4Error + unit) \<times> u8 list \<times> u8 list" where
  "set_inode_allocation group_index inode_number allocated sb =
    (\<lambda>(inode_bitmap, descriptors).
     case inode_allocation_checks inode_bitmap descriptors group_index inode_number allocated sb of
       Inl e \<Rightarrow> (Inl e, inode_bitmap, descriptors)
     | Inr (k, group_inodes, free_inodes) \<Rightarrow>
        (let inode_bitmap' = bitmap_assign inode_bitmap k allocated in
         case checked_sub group_inodes
                (case highest_allocated inode_bitmap' (unat group_inodes) of
                   None \<Rightarrow> 0 | Some highest \<Rightarrow> highest + 1) of
           None \<Rightarrow> (Inl InvalidGeometry, inode_bitmap', descriptors)
         | Some unused_inodes \<Rightarrow>
        (let bitmap_size = unat (sb_inodes_per_group sb div 8);
             checksum = crc32c (sb_checksum_seed sb) (take bitmap_size inode_bitmap');
             (r, descriptors') = on_prefix (unat (sb_descriptor_size sb))
               (ebind (ext4_write_u16 14 (ucast free_inodes)) (\<lambda>_.
                ebind (ext4_write_u16 46 (ucast (drop_bit 16 free_inodes))) (\<lambda>_.
                ebind (ext4_write_u16 28 (ucast unused_inodes)) (\<lambda>_.
                ebind (ext4_write_u16 50 (ucast (drop_bit 16 unused_inodes))) (\<lambda>_.
                ebind (when_edit (has_metadata_checksums sb)
                  (ebind (ext4_write_u16 26 (ucast checksum)) (\<lambda>_.
                   ext4_write_u16 58 (ucast (drop_bit 16 checksum))))) (\<lambda>_.
                ebind (refresh_group_descriptor_checksum group_index sb) (\<lambda>_.
                ebind (query (\<lambda>descriptor. GroupDescriptor_parse descriptor group_index sb)) (\<lambda>updated.
                guard (gd_free_inode_count updated \<noteq> free_inodes \<or> gd_unused_inode_count updated \<noteq> unused_inodes)
                  InvalidGeometry)))))))) descriptors
         in (r, inode_bitmap', descriptors'))))"

section \<open>Bits of a bitmap\<close>

definition bitmap_bit :: "u8 list \<Rightarrow> nat \<Rightarrow> bool" where
  "bitmap_bit bitmap i \<longleftrightarrow> bit (bitmap ! (i div 8)) (i mod 8)"

lemma unat_8:
  assumes "(8 :: nat) < 2 ^ LENGTH('a::len)"
  shows "unat ((k :: 'a word) div 8) = unat k div 8" and "unat (k mod 8) = unat k mod 8"
proof -
  have "unat (8 :: 'a word) = 8" using assms by (simp add: unsigned_numeral take_bit_nat_eq_self)
  then show "unat (k div 8) = unat k div 8" "unat (k mod 8) = unat k mod 8" by (simp_all add: unat_div unat_mod)
qed

lemma bitmap_test_bit:
  "(8 :: nat) < 2 ^ LENGTH('a::len) \<Longrightarrow> bitmap_test bitmap (k :: 'a word) \<longleftrightarrow> bitmap_bit bitmap (unat k)"
  by (simp add: bitmap_test_def bitmap_bit_def bitmap_mask_def unat_8 bit_iff_and_push_bit_not_eq_0)

lemma length_bitmap_assign [simp]: "length (bitmap_assign bitmap k allocated) = length bitmap"
  by (simp add: bitmap_assign_def)

lemma bit_bitmap_mask:
  "(8 :: nat) < 2 ^ LENGTH('a::len) \<Longrightarrow> n < 8 \<Longrightarrow> bit (bitmap_mask (k :: 'a word)) n \<longleftrightarrow> n = unat k mod 8"
  by (auto simp: bitmap_mask_def unat_8 bit_simps)

lemma bitmap_assign_bit:
  assumes "(8 :: nat) < 2 ^ LENGTH('a::len)" and "unat (k :: 'a word) div 8 < length bitmap"
  shows "bitmap_bit (bitmap_assign bitmap k allocated) i = (if i = unat k then allocated else bitmap_bit bitmap i)"
proof (cases "i div 8 = unat k div 8")
  case True
  then have "i = unat k \<longleftrightarrow> i mod 8 = unat k mod 8" by (metis div_mult_mod_eq)
  then show ?thesis
    using True assms by (auto simp: bitmap_bit_def bitmap_assign_def unat_8 bit_simps bit_bitmap_mask)
next
  case False
  then show ?thesis using assms by (auto simp: bitmap_bit_def bitmap_assign_def unat_8)
qed

lemma bitmap_assign_undo:
  assumes "(8 :: nat) < 2 ^ LENGTH('a::len)" and "unat (k :: 'a word) div 8 < length bitmap"
    and "bitmap_test bitmap k \<noteq> allocated"
  shows "bitmap_assign (bitmap_assign bitmap k allocated) k (\<not> allocated) = bitmap"
proof -
  let ?j = "unat k div 8"
  have "(if \<not> allocated then (if allocated then bitmap ! ?j OR bitmap_mask k else bitmap ! ?j AND NOT (bitmap_mask k)) OR bitmap_mask k
         else (if allocated then bitmap ! ?j OR bitmap_mask k else bitmap ! ?j AND NOT (bitmap_mask k)) AND NOT (bitmap_mask k)) = bitmap ! ?j"
    using assms by (intro bit_word_eqI) (auto simp: bit_simps bit_bitmap_mask bitmap_test_bit bitmap_bit_def)
  then show ?thesis using assms(1,2) by (auto simp: bitmap_assign_def unat_8)
qed

section \<open>Group descriptors\<close>

definition descriptor_crc :: "u8 list \<Rightarrow> u32 \<Rightarrow> Superblock \<Rightarrow> u16" where
  "descriptor_crc d group_index sb =
     ucast (crc32c (crc32c (crc32c (crc32c (sb_checksum_seed sb) (to_le_bytes group_index)) (take 30 d)) [0, 0]) (drop 32 d))"

definition descriptor_of :: "u8 list \<Rightarrow> u32 \<Rightarrow> Superblock \<Rightarrow> GroupDescriptor" where
  "descriptor_of d group_index sb =
    (let wide = sb_feature_incompat sb AND FEATURE_INCOMPAT_64BIT \<noteq> 0 in
     \<lparr>gd_group_index = group_index,
      gd_block_bitmap_block = join_u64 (le32_at d 0) (if wide then le32_at d 32 else 0),
      gd_inode_bitmap_block = join_u64 (le32_at d 4) (if wide then le32_at d 36 else 0),
      gd_inode_table_block = join_u64 (le32_at d 8) (if wide then le32_at d 40 else 0),
      gd_free_block_count = join_u32 (le16_at d 12) (le16_at d 44),
      gd_free_inode_count = join_u32 (le16_at d 14) (le16_at d 46),
      gd_used_directory_count = join_u32 (le16_at d 16) (le16_at d 48),
      gd_unused_inode_count = join_u32 (le16_at d 28) (le16_at d 50),
      gd_checksum = le16_at d 30\<rparr>)"

lemma GroupDescriptor_parse_at:
  fixes b :: "u8 list"
  assumes "64 \<le> unat (sb_descriptor_size sb)"
  defines "d \<equiv> take (unat (sb_descriptor_size sb)) b"
  shows "GroupDescriptor_parse b group_index sb =
    (if length b < unat (sb_descriptor_size sb) then Inl Truncated
     else if has_metadata_checksums sb \<and> descriptor_crc d group_index sb \<noteq> le16_at d 30 then Inl InvalidChecksum
     else if gd_inode_table_block (descriptor_of d group_index sb) = 0
             \<or> sb_block_count sb \<le> gd_inode_table_block (descriptor_of d group_index sb) then Inl InvalidGeometry
     else Inr (descriptor_of d group_index sb))"
proof (cases "length b < unat (sb_descriptor_size sb)")
  case True
  then show ?thesis by (simp add: GroupDescriptor_parse_def)
next
  case False
  then have len: "64 \<le> length d" using assms(1) by (simp add: d_def)
  show ?thesis
    unfolding GroupDescriptor_parse_def Let_def d_def [symmetric] descriptor_of_def GroupDescriptor.select_convs
    using False len by (simp add: read_u32_at read_u16_at or_zero_at read_if_at descriptor_crc_def Let_def)
qed

definition resealed_descriptor :: "u32 \<Rightarrow> Superblock \<Rightarrow> u8 list \<Rightarrow> u8 list" where
  "resealed_descriptor group_index sb d =
    (if has_metadata_checksums sb then copy_at d 30 (to_le_bytes (descriptor_crc d group_index sb)) else d)"

lemma le_bytes_0: "le_bytes n 0 = replicate n 0"
  by (induction n) auto

lemma to_le_bytes_0_u16: "to_le_bytes (0 :: u16) = [0, 0]"
  by (simp add: to_le_bytes_def le_bytes_0 numeral_2_eq_2)

lemma refresh_resealed_descriptor:
  assumes "32 \<le> length d"
  shows "refresh_group_descriptor_checksum group_index sb d = (Inr (), resealed_descriptor group_index sb d)"
proof -
  have "copy_at d 30 [0, 0] = take 30 d @ [0, 0] @ drop 32 d" by (simp add: copy_at_def)
  then have crc: "ucast (crc32c c (copy_at d 30 [0, 0])) = (ucast (crc32c (crc32c (crc32c c (take 30 d)) [0, 0]) (drop 32 d)) :: u16)" for c
    by (simp add: crc32c_def)
  have twice: "copy_at (copy_at d 30 [0, 0]) 30 (to_le_bytes (v :: u16)) = copy_at d 30 (to_le_bytes v)" for v
    using assms by (simp add: copy_at_def)
  show ?thesis
    using assms unfolding refresh_group_descriptor_checksum_def resealed_descriptor_def
    by (simp add: when_edit_def done_ok_def edit_early write_u16_at ext4_write_u16_def overwrite_def
        to_le_bytes_0_u16 crc twice descriptor_crc_def ebind_overwrite)
qed

lemma length_resealed_descriptor: "32 \<le> length d \<Longrightarrow> length (resealed_descriptor group_index sb d) = length d"
  by (simp add: resealed_descriptor_def)

lemma descriptor_crc_resealed:
  "32 \<le> length d \<Longrightarrow> descriptor_crc (copy_at d 30 (to_le_bytes (v :: u16))) group_index sb = descriptor_crc d group_index sb"
  by (simp add: descriptor_crc_def take_copy_at drop_copy_at)

lemma resealed_descriptor_valid:
  assumes "64 \<le> length d" and "has_metadata_checksums sb"
  shows "descriptor_crc (resealed_descriptor group_index sb d) group_index sb = le16_at (resealed_descriptor group_index sb d) 30"
  using assms by (simp add: resealed_descriptor_def descriptor_crc_resealed)

lemma descriptor_of_resealed:
  assumes "64 \<le> length d"
  shows "descriptor_of (resealed_descriptor group_index sb d) group_index sb =
    (descriptor_of d group_index sb)\<lparr>gd_checksum :=
       (if has_metadata_checksums sb then descriptor_crc d group_index sb else le16_at d 30)\<rparr>"
  using assms by (simp add: descriptor_of_def resealed_descriptor_def field_simps_other Let_def)

end
