(* ===== verification/Ext4_Block_Allocation.thy ===== *)
theory Ext4_Block_Allocation
  imports Ext4_Allocation
begin

text \<open>
  The block allocator: \<open>set_block_allocation\<close> on a group with descriptors of 64 bytes or more,
  in terms of the bits of the bitmap and of the parsed descriptor.
\<close>

section \<open>Counters in two halves\<close>

definition pair_at :: "u8 list \<Rightarrow> nat \<Rightarrow> nat \<Rightarrow> u32" where
  "pair_at d a b = join_u32 (le16_at d a) (le16_at d b)"

definition pair_written :: "nat \<Rightarrow> nat \<Rightarrow> u32 \<Rightarrow> u8 list \<Rightarrow> u8 list" where
  "pair_written a b v d =
     copy_at (copy_at d a (to_le_bytes (ucast v :: u16))) b (to_le_bytes (ucast (drop_bit 16 v) :: u16))"

lemma split_join_u32: "(ucast (join_u32 low high) :: u16) = low" "(ucast (drop_bit 16 (join_u32 low high)) :: u16) = high"
  unfolding join_u32_def by (rule bit_word_eqI; auto simp: bit_simps dest: bit_imp_le_length)+

lemma length_pair_written [simp]: "a + 2 \<le> length d \<Longrightarrow> b + 2 \<le> length d \<Longrightarrow> length (pair_written a b v d) = length d"
  by (simp add: pair_written_def)

lemma pair_at_written: "a + 2 \<le> b \<Longrightarrow> b + 2 \<le> length d \<Longrightarrow> pair_at (pair_written a b v d) a b = v"
  by (simp add: pair_at_def pair_written_def field_simps_other join_split_u32)

lemma le16_pair_written:
  assumes "a + 2 \<le> b" and "b + 2 \<le> length d"
  shows "le16_at (pair_written a b v d) a = ucast v" and "le16_at (pair_written a b v d) b = ucast (drop_bit 16 v)"
    and "off + 2 \<le> a \<or> a + 2 \<le> off \<Longrightarrow> off + 2 \<le> b \<or> b + 2 \<le> off \<Longrightarrow> le16_at (pair_written a b v d) off = le16_at d off"
    and "off + 4 \<le> a \<or> a + 2 \<le> off \<Longrightarrow> off + 4 \<le> b \<or> b + 2 \<le> off \<Longrightarrow> le32_at (pair_written a b v d) off = le32_at d off"
  using assms by (simp_all add: pair_written_def field_simps_other)

lemma nth_pair_written:
  "a + 2 \<le> b \<Longrightarrow> b + 2 \<le> length d \<Longrightarrow> i < length d \<Longrightarrow> i < a \<or> a + 2 \<le> i \<Longrightarrow> i < b \<or> b + 2 \<le> i \<Longrightarrow>
   pair_written a b v d ! i = d ! i"
  by (auto simp: pair_written_def nth_copy_at)

text \<open>Two buffers are equal if they agree on some two-byte fields and outside of them.\<close>

lemma eq_by_fields:
  fixes x y :: "u8 list"
  assumes len: "length x = length y"
    and fields: "\<And>a. a \<in> set fs \<Longrightarrow> a + 2 \<le> length x \<and> le16_at x a = le16_at y a"
    and outside: "\<And>i. i < length x \<Longrightarrow> \<forall>a\<in>set fs. i < a \<or> a + 2 \<le> i \<Longrightarrow> x ! i = y ! i"
  shows "x = y"
proof (rule nth_equalityI [OF len])
  fix i assume i: "i < length x"
  show "x ! i = y ! i"
  proof (cases "\<forall>a\<in>set fs. i < a \<or> a + 2 \<le> i")
    case True
    then show ?thesis by (rule outside [OF i])
  next
    case False
    then obtain a where a: "a \<in> set fs" "a \<le> i" "i < a + 2" by (auto simp: not_less not_le)
    have "to_le_bytes (le16_at z a) = sub_bytes z a 2" if "a + 2 \<le> length z" for z
      using that by (simp add: le16_at_def to_from_le_bytes)
    then have "sub_bytes x a 2 = sub_bytes y a 2" using fields [OF a(1)] len by metis
    then have "sub_bytes x a 2 ! (i - a) = sub_bytes y a 2 ! (i - a)" by simp
    then show ?thesis using a fields [OF a(1)] len by (simp add: nth_sub_bytes)
  qed
qed

section \<open>The block allocator\<close>

definition block_descriptor :: "u32 \<Rightarrow> u32 \<Rightarrow> u32 \<Rightarrow> Superblock \<Rightarrow> u8 list \<Rightarrow> u8 list" where
  "block_descriptor free crc group_index sb d =
     resealed_descriptor group_index sb
       (if has_metadata_checksums sb then pair_written 24 56 crc (pair_written 12 44 free d)
        else pair_written 12 44 free d)"

lemma resealed_simps:
  assumes "64 \<le> length d"
  shows "length (resealed_descriptor group_index sb d) = length d"
    and "off + 2 \<le> 30 \<or> 32 \<le> off \<Longrightarrow> le16_at (resealed_descriptor group_index sb d) off = le16_at d off"
    and "off + 4 \<le> 30 \<or> 32 \<le> off \<Longrightarrow> le32_at (resealed_descriptor group_index sb d) off = le32_at d off"
    and "i < length d \<Longrightarrow> i < 30 \<or> 32 \<le> i \<Longrightarrow> resealed_descriptor group_index sb d ! i = d ! i"
  using assms by (auto simp: resealed_descriptor_def field_simps_other nth_copy_at)

lemma block_descriptor_facts:
  fixes d :: "u8 list" and free crc group_index :: u32 and sb :: Superblock
  assumes "64 \<le> length d"
  defines "e \<equiv> block_descriptor free crc group_index sb d"
  shows "length e = length d"
    and "descriptor_of e group_index sb = (descriptor_of d group_index sb)\<lparr>gd_free_block_count := free, gd_checksum := le16_at e 30\<rparr>"
    and "has_metadata_checksums sb \<Longrightarrow> descriptor_crc e group_index sb = le16_at e 30"
    and "has_metadata_checksums sb \<Longrightarrow> pair_at e 24 56 = crc"
    and "le16_at e 18 = le16_at d 18"
    and "i < length d \<Longrightarrow> \<forall>a\<in>{12, 44, 24, 56, 30}. i < a \<or> a + 2 \<le> i \<Longrightarrow> e ! i = d ! i"
proof -
  show "length e = length d" using assms by (simp add: block_descriptor_def resealed_simps)
  show "descriptor_of e group_index sb = (descriptor_of d group_index sb)\<lparr>gd_free_block_count := free, gd_checksum := le16_at e 30\<rparr>"
    using assms unfolding e_def block_descriptor_def descriptor_of_def Let_def
    by (simp add: resealed_simps le16_pair_written join_split_u32)
  show "descriptor_crc e group_index sb = le16_at e 30" if "has_metadata_checksums sb"
    using that assms(1) unfolding e_def block_descriptor_def by (simp add: resealed_descriptor_valid)
  show "pair_at e 24 56 = crc" if "has_metadata_checksums sb"
    using that assms(1) unfolding e_def block_descriptor_def pair_at_def
    by (simp add: resealed_simps le16_pair_written join_split_u32)
  show "le16_at e 18 = le16_at d 18"
    using assms(1) unfolding e_def block_descriptor_def by (simp add: resealed_simps le16_pair_written)
  show "e ! i = d ! i" if "i < length d" "\<forall>a\<in>{12, 44, 24, 56, 30}. i < a \<or> a + 2 \<le> i"
    using that assms(1) unfolding e_def block_descriptor_def by (simp add: resealed_simps nth_pair_written)
qed

text \<open>Writing back the old values restores the descriptor, byte by byte.\<close>

lemma block_descriptor_undo:
  assumes "64 \<le> length d" and "has_metadata_checksums sb \<Longrightarrow> le16_at d 30 = descriptor_crc d group_index sb"
  shows "block_descriptor (pair_at d 12 44) (pair_at d 24 56) group_index sb (block_descriptor free crc group_index sb d) = d"
proof -
  let ?e = "block_descriptor free crc group_index sb d"
  let ?w = "if has_metadata_checksums sb then pair_written 24 56 (pair_at d 24 56) (pair_written 12 44 (pair_at d 12 44) ?e)
            else pair_written 12 44 (pair_at d 12 44) ?e"
  let ?x = "copy_at ?w 30 (to_le_bytes (le16_at d 30))"
  note e = block_descriptor_facts [OF assms(1), where free = free and crc = crc and group_index = group_index and sb = sb]
  have len: "length ?w = length d" using assms(1) e(1) by simp
  have "?x = d"
  proof (rule eq_by_fields [where fs = "[12, 44, 24, 56, 30]"])
    show "length ?x = length d" using len assms(1) by simp
    show "a + 2 \<le> length ?x \<and> le16_at ?x a = le16_at d a" if "a \<in> set [12, 44, 24, 56, 30]" for a
      using that len assms(1) e(1)
      by (auto simp: field_simps_other le16_pair_written pair_at_def split_join_u32 block_descriptor_def resealed_simps)
    show "?x ! i = d ! i" if "i < length ?x" "\<forall>a\<in>set [12, 44, 24, 56, 30]. i < a \<or> a + 2 \<le> i" for i
      using that len assms(1) e(1) e(6) by (auto simp: nth_copy_at nth_pair_written)
  qed
  moreover have "descriptor_crc ?w group_index sb = descriptor_crc ?x group_index sb"
    using descriptor_crc_resealed [of ?w] len assms(1) by simp
  moreover have "?w = ?x" if "\<not> has_metadata_checksums sb"
  proof -
    have "le16_at ?w 30 = le16_at d 30" using that assms(1) e(1)
      by (simp add: le16_pair_written block_descriptor_def resealed_descriptor_def)
    then show ?thesis using write_back_u16 [of 30 ?w] len assms(1) by simp
  qed
  ultimately show ?thesis
    using assms(2) unfolding block_descriptor_def [of "pair_at d 12 44"] resealed_descriptor_def [of _ _ ?w] by auto
qed

lemma check_bitmap_checksum_at:
  "low + 2 \<le> length d \<Longrightarrow> high + 2 \<le> length d \<Longrightarrow> check_bitmap_checksum d low high bitmap sb =
    (if has_metadata_checksums sb \<and> pair_at d low high \<noteq> crc32c (sb_checksum_seed sb) bitmap then Inl InvalidChecksum else Inr ())"
  by (simp add: check_bitmap_checksum_def read_u16_at pair_at_def)

lemma GroupDescriptor_parse_Inr:
  fixes b :: "u8 list" and sb :: Superblock
  assumes "64 \<le> unat (sb_descriptor_size sb)"
  defines "d \<equiv> take (unat (sb_descriptor_size sb)) b"
  shows "GroupDescriptor_parse b group_index sb = Inr x \<longleftrightarrow>
    unat (sb_descriptor_size sb) \<le> length b \<and> (has_metadata_checksums sb \<longrightarrow> le16_at d 30 = descriptor_crc d group_index sb)
    \<and> gd_inode_table_block (descriptor_of d group_index sb) \<noteq> 0
    \<and> gd_inode_table_block (descriptor_of d group_index sb) < sb_block_count sb \<and> x = descriptor_of d group_index sb"
  using GroupDescriptor_parse_at [OF assms(1)] by (auto simp: d_def)

text \<open>When the block allocator passes its checks.\<close>

definition allocatable_block :: "u8 list \<Rightarrow> u8 list \<Rightarrow> u32 \<Rightarrow> u64 \<Rightarrow> bool \<Rightarrow> Superblock \<Rightarrow> u64 \<Rightarrow> GroupDescriptor \<Rightarrow> u64 \<Rightarrow> u32 \<Rightarrow> bool" where
  "allocatable_block bm ds gi p a sb first grp k free \<longleftrightarrow>
     sb_feature_read_only_compat sb AND FEATURE_READ_ONLY_COMPAT_BIGALLOC = 0 \<and> sb_blocks_per_group sb mod 8 = 0
     \<and> unat (sb_blocks_per_group sb) div 8 \<le> length bm \<and> GroupDescriptor_parse ds gi sb = Inr grp
     \<and> le16_at ds 18 AND GROUP_FLAG_BLOCK_UNINITIALIZED = 0
     \<and> (has_metadata_checksums sb \<longrightarrow>
          pair_at ds 24 56 = crc32c (sb_checksum_seed sb) (take (unat (sb_blocks_per_group sb) div 8) bm))
     \<and> group_first_block gi sb = Some first \<and> first \<le> p \<and> k = p - first \<and> k < group_block_count first sb
     \<and> bitmap_test bm k \<noteq> a
     \<and> new_free_count a (gd_free_block_count grp) (\<lambda>n. ucast n \<le> group_block_count first sb) = Some free"

lemma pair_at_take: "a + 2 \<le> n \<Longrightarrow> b + 2 \<le> n \<Longrightarrow> pair_at (take n d) a b = pair_at d a b"
  by (simp add: pair_at_def le16_take)

lemma block_checks_Inr:
  assumes "64 \<le> unat (sb_descriptor_size sb)"
  shows "block_allocation_checks bm ds gi p a sb = Inr (k, free) \<longleftrightarrow> (\<exists>first grp. allocatable_block bm ds gi p a sb first grp k free)"
proof
  assume checks: "block_allocation_checks bm ds gi p a sb = Inr (k, free)"
  then have "unat (sb_descriptor_size sb) \<le> length ds" by (auto simp: block_allocation_checks_def Let_def split: if_splits)
  with checks assms show "\<exists>first grp. allocatable_block bm ds gi p a sb first grp k free"
    unfolding block_allocation_checks_def allocatable_block_def Let_def
    by (auto simp: result_simps read_u16_at check_bitmap_checksum_at le16_take pair_at_take unat_8 not_less
        checked_sub_Some bind_eq_Some_conv split: if_splits del: mod_0_imp_dvd)
next
  assume "\<exists>first grp. allocatable_block bm ds gi p a sb first grp k free"
  then obtain first grp where *: "allocatable_block bm ds gi p a sb first grp k free" by blast
  moreover have "unat (sb_descriptor_size sb) \<le> length ds"
    using * assms by (auto simp: allocatable_block_def GroupDescriptor_parse_Inr)
  ultimately show "block_allocation_checks bm ds gi p a sb = Inr (k, free)"
    using assms unfolding block_allocation_checks_def allocatable_block_def Let_def
    by (auto simp: read_u16_at check_bitmap_checksum_at le16_take pair_at_take unat_8 checked_sub_def del: mod_0_imp_dvd)
qed

lemma block_parse_updated:
  assumes "64 \<le> unat (sb_descriptor_size sb)" and "GroupDescriptor_parse ds gi sb = Inr grp"
  defines "n \<equiv> unat (sb_descriptor_size sb)"
  shows "GroupDescriptor_parse (block_descriptor free crc gi sb (take n ds) @ q) gi sb
    = Inr (grp\<lparr>gd_free_block_count := free, gd_checksum := le16_at (block_descriptor free crc gi sb (take n ds)) 30\<rparr>)"
proof -
  note g = iffD1 [OF GroupDescriptor_parse_Inr [OF assms(1)] assms(2), folded n_def]
  then have len: "64 \<le> length (take n ds)" using assms(1) by (simp add: n_def)
  note e = block_descriptor_facts [OF len, where free = free and crc = crc and group_index = gi and sb = sb]
  have "take n (block_descriptor free crc gi sb (take n ds) @ q) = block_descriptor free crc gi sb (take n ds)"
    using e(1) g by simp
  then show ?thesis
    using g e(1-3) unfolding n_def [symmetric] by (subst GroupDescriptor_parse_Inr [OF assms(1)]) (auto simp flip: n_def)
qed

lemma set_block_allocation_run:
  fixes bm ds :: "u8 list" and sb :: Superblock and a :: bool and k :: u64
  assumes "64 \<le> unat (sb_descriptor_size sb)" and "allocatable_block bm ds gi p a sb first grp k free"
  defines "n \<equiv> unat (sb_descriptor_size sb)"
    and "crc \<equiv> crc32c (sb_checksum_seed sb) (take (unat (sb_blocks_per_group sb) div 8) (bitmap_assign bm k a))"
  shows "set_block_allocation gi p a sb (bm, ds) =
    (Inr (), bitmap_assign bm k a, block_descriptor free crc gi sb (take n ds) @ drop n ds)"
proof -
  have checks: "block_allocation_checks bm ds gi p a sb = Inr (k, free)" using block_checks_Inr [OF assms(1)] assms(2) by blast
  have parse: "GroupDescriptor_parse ds gi sb = Inr grp" using assms(2) by (simp add: allocatable_block_def)
  then have len: "n \<le> length ds" "64 \<le> n" using assms(1) by (simp_all add: GroupDescriptor_parse_Inr n_def)
  let ?d = "take n ds"
  have d: "64 \<le> length ?d" using len by simp
  note upd = block_parse_updated [OF assms(1) parse, where free = free and crc = crc and q = "[]", folded n_def]
  have "on_prefix n (ebind (ext4_write_u16 12 (ucast free)) (\<lambda>_.
       ebind (ext4_write_u16 44 (ucast (drop_bit 16 free))) (\<lambda>_.
       ebind (when_edit (has_metadata_checksums sb)
         (ebind (ext4_write_u16 24 (ucast crc)) (\<lambda>_. ext4_write_u16 56 (ucast (drop_bit 16 crc))))) (\<lambda>_.
       ebind (refresh_group_descriptor_checksum gi sb) (\<lambda>_.
       ebind (query (\<lambda>descriptor. GroupDescriptor_parse descriptor gi sb)) (\<lambda>updated.
       guard (gd_free_block_count updated \<noteq> free) InvalidGeometry)))))) ds
    = (Inr (), block_descriptor free crc gi sb ?d @ drop n ds)"
    using upd d len(1)
    by (intro on_prefix_at, simp, cases "has_metadata_checksums sb")
      (simp_all add: edit_early ebind_assoc write_u16_at pair_written_def [symmetric]
        refresh_resealed_descriptor ebind_Inr block_descriptor_def guard_def)
  then show ?thesis
    unfolding set_block_allocation_def by (simp add: checks Let_def unat_8 crc_def n_def)
qed

lemma div_less_multiple: "k < n \<Longrightarrow> n mod d = 0 \<Longrightarrow> k div d < n div (d :: nat)"
  by (rule less_mult_imp_div_less) (metis add.right_neutral div_mult_mod_eq)

lemma allocatable_in_bitmap:
  assumes "allocatable_block bm ds gi p a sb first grp k free"
  shows "unat k div 8 < length bm"
proof -
  have k: "k < ucast (sb_blocks_per_group sb)" and m: "sb_blocks_per_group sb mod 8 = 0" and l: "unat (sb_blocks_per_group sb) div 8 \<le> length bm"
    using assms by (auto simp: allocatable_block_def group_block_count_def simp del: mod_0_imp_dvd)
  have "unat k < unat (sb_blocks_per_group sb)" using k by (simp add: word_less_nat_alt unat_ucast_up)
  moreover have "unat (sb_blocks_per_group sb) mod 8 = 0"
    using arg_cong [OF m, of unat] by (simp add: unat_8 del: mod_0_imp_dvd unat_eq_0)
  ultimately have "unat k div 8 < unat (sb_blocks_per_group sb) div 8" by (rule div_less_multiple)
  with l show ?thesis by simp
qed

lemma new_free_count_undo:
  assumes "new_free_count a n P = Some m" and "a \<Longrightarrow> P n"
  shows "new_free_count (\<not> a) m P = Some n" and "m = (if a then n - 1 else n + 1)"
proof -
  show "m = (if a then n - 1 else n + 1)" using assms(1) by (auto simp: new_free_count_def checked_simps bind_eq_Some_conv split: if_splits)
  show "new_free_count (\<not> a) m P = Some n"
  proof (cases a)
    case True
    then have m: "1 \<le> n" "m = n - 1" using assms(1) by (auto simp: new_free_count_def checked_simps)
    then have "unat m + 1 = unat n" by (simp add: unat_sub word_le_nat_alt)
    then show ?thesis using True m assms(2) unsigned_less [of n] by (simp add: new_free_count_def checked_add_def)
  next
    case False
    then have "checked_add n 1 = Some m" using assms(1) by (auto simp: new_free_count_def bind_eq_Some_conv split: if_splits)
    then have "m = n + 1" "unat m = unat n + 1" using checked_add_unat [of n 1 m] by (simp_all add: checked_simps)
    then show ?thesis using False by (simp add: new_free_count_def checked_sub_def word_le_nat_alt)
  qed
qed

lemma block_descriptor_crc: "(has_metadata_checksums sb \<Longrightarrow> c = c') \<Longrightarrow> block_descriptor f c gi sb d = block_descriptor f c' gi sb d"
  by (simp add: block_descriptor_def)

lemma set_block_allocation_undo:
  assumes size: "64 \<le> unat (sb_descriptor_size sb)" and block: "allocatable_block bm ds gi p a sb first grp k free"
    and run: "set_block_allocation gi p a sb (bm, ds) = (Inr (), bm', ds')"
    and count: "unat (gd_free_block_count grp) \<le> unat (group_block_count first sb)"
  shows "set_block_allocation gi p (\<not> a) sb (bm', ds') = (Inr (), bm, ds)"
proof -
  define n where "n = unat (sb_descriptor_size sb)"
  define w where "w = unat (sb_blocks_per_group sb) div 8"
  define crc where "crc b = crc32c (sb_checksum_seed sb) (take w b)" for b
  define e where "e = block_descriptor free (crc bm') gi sb (take n ds)"
  note b = block [unfolded allocatable_block_def, folded w_def]
  note k = allocatable_in_bitmap [OF block]
  have parse: "GroupDescriptor_parse ds gi sb = Inr grp" using b by simp
  then have len: "n \<le> length ds" "64 \<le> n" using size by (simp_all add: GroupDescriptor_parse_Inr n_def)
  then have d: "64 \<le> length (take n ds)" by simp
  have bm': "bm' = bitmap_assign bm k a" and ds': "ds' = e @ drop n ds"
    using run set_block_allocation_run [OF size block] by (auto simp: e_def n_def crc_def w_def)
  note f = block_descriptor_facts [OF d, where free = free and crc = "crc bm'" and group_index = gi and sb = sb, folded e_def]
  have split: "take n ds' = e" "drop n ds' = drop n ds" using f(1) len by (simp_all add: ds')
  have field: "le16_at ds' off = le16_at e off" if "off + 2 \<le> n" for off
    using le16_take [OF that, of ds'] by (simp add: split)
  have undo: "new_free_count (\<not> a) free (\<lambda>n. ucast n \<le> group_block_count first sb) = Some (gd_free_block_count grp)"
    using b count by (intro new_free_count_undo(1)) (auto simp: word_le_nat_alt unat_ucast_up)
  have "allocatable_block bm' ds' gi p (\<not> a) sb first (grp\<lparr>gd_free_block_count := free, gd_checksum := le16_at e 30\<rparr>) k (gd_free_block_count grp)"
    unfolding allocatable_block_def w_def [symmetric]
  proof (intro conjI)
    show "GroupDescriptor_parse ds' gi sb = Inr (grp\<lparr>gd_free_block_count := free, gd_checksum := le16_at e 30\<rparr>)"
      using block_parse_updated [OF size parse, where free = free and crc = "crc bm'"] by (simp add: ds' e_def n_def)
    show "le16_at ds' 18 AND GROUP_FLAG_BLOCK_UNINITIALIZED = 0" using b f(5) field [of 18] len by (simp add: le16_take)
    show "has_metadata_checksums sb \<longrightarrow> pair_at ds' 24 56 = crc32c (sb_checksum_seed sb) (take w bm')"
      using f(4) field [of 24] field [of 56] len by (simp add: pair_at_def crc_def)
    show "bitmap_test bm' k \<noteq> (\<not> a)" using k by (simp add: bm' bitmap_test_bit bitmap_assign_bit)
    show "new_free_count (\<not> a) (gd_free_block_count (grp\<lparr>gd_free_block_count := free, gd_checksum := le16_at e 30\<rparr>))
      (\<lambda>n. ucast n \<le> group_block_count first sb) = Some (gd_free_block_count grp)" using undo by simp
  qed (use b in \<open>auto simp: bm' del: mod_0_imp_dvd\<close>)
  from set_block_allocation_run [OF size this]
  have "set_block_allocation gi p (\<not> a) sb (bm', ds') = (Inr (), bitmap_assign bm' k (\<not> a),
      block_descriptor (gd_free_block_count grp) (crc (bitmap_assign bm' k (\<not> a))) gi sb e @ drop n ds)"
    by (simp add: split crc_def w_def flip: n_def)
  moreover have "bitmap_assign bm' k (\<not> a) = bm"
    using bitmap_assign_undo [OF _ k, of a] b by (auto simp: bm')
  moreover have "block_descriptor (gd_free_block_count grp) (crc bm) gi sb e = take n ds"
  proof -
    have g: "grp = descriptor_of (take n ds) gi sb" "has_metadata_checksums sb \<Longrightarrow> le16_at (take n ds) 30 = descriptor_crc (take n ds) gi sb"
      using parse size by (simp_all add: GroupDescriptor_parse_Inr n_def)
    have "gd_free_block_count grp = pair_at (take n ds) 12 44" by (simp add: g(1) descriptor_of_def pair_at_def Let_def)
    moreover have "has_metadata_checksums sb \<Longrightarrow> crc bm = pair_at (take n ds) 24 56" using b len by (simp add: crc_def pair_at_take)
    ultimately show ?thesis
      using block_descriptor_undo [OF d g(2), of free "crc bm'"] block_descriptor_crc [of sb "crc bm" "pair_at (take n ds) 24 56"]
      by (simp add: e_def)
  qed
  ultimately show ?thesis by simp
qed

lemma wide_block_allocation:
  assumes "64 \<le> unat (sb_descriptor_size sb)" and "set_block_allocation gi p a sb (bm, ds) = (r, bm', ds')"
  shows "case r of Inl e \<Rightarrow> bm' = bm \<and> ds' = ds
    | Inr _ \<Rightarrow> \<exists>first grp c. group_first_block gi sb = Some first \<and> first \<le> p \<and> p - first < group_block_count first sb
       \<and> bitmap_bit bm (unat (p - first)) \<noteq> a
       \<and> (\<forall>i. bitmap_bit bm' i = (if i = unat (p - first) then a else bitmap_bit bm i))
       \<and> GroupDescriptor_parse ds gi sb = Inr grp
       \<and> GroupDescriptor_parse ds' gi sb = Inr (grp\<lparr>gd_free_block_count :=
            (if a then gd_free_block_count grp - 1 else gd_free_block_count grp + 1), gd_checksum := c\<rparr>)
       \<and> (unat (gd_free_block_count grp) \<le> unat (group_block_count first sb) \<longrightarrow>
            set_block_allocation gi p (\<not> a) sb (bm', ds') = (Inr (), bm, ds))"
proof (cases "block_allocation_checks bm ds gi p a sb")
  case (Inl e)
  then show ?thesis using assms(2) by (auto simp: set_block_allocation_def)
next
  case (Inr kf)
  then obtain k free first grp where block: "allocatable_block bm ds gi p a sb first grp k free"
    using block_checks_Inr [OF assms(1)] by (cases kf) blast
  note run = set_block_allocation_run [OF assms(1) block]
  have res: "set_block_allocation gi p a sb (bm, ds) = (Inr (), bm', ds')" "bm' = bitmap_assign bm k a" "r = Inr ()"
    using run assms(2) by simp_all
  note b = block [unfolded allocatable_block_def]
  have "\<exists>c. GroupDescriptor_parse ds' gi sb = Inr (grp\<lparr>gd_free_block_count := free, gd_checksum := c\<rparr>)"
    using run assms(2) b block_parse_updated [OF assms(1), of ds gi grp] by auto
  moreover have "free = (if a then gd_free_block_count grp - 1 else gd_free_block_count grp + 1)"
    using b by (auto simp: new_free_count_def checked_simps bind_eq_Some_conv split: if_splits)
  moreover have "\<forall>i. bitmap_bit bm' i = (if i = unat k then a else bitmap_bit bm i)" "bitmap_bit bm (unat k) \<noteq> a"
    using b bitmap_assign_bit [OF _ allocatable_in_bitmap [OF block]] by (auto simp: res(2) bitmap_test_bit)
  ultimately show ?thesis
    using b set_block_allocation_undo [OF assms(1) block res(1)] unfolding res(3) by auto
qed

text \<open>On descriptors shorter than 46 bytes (a file system without the 64-bit feature has 32), the block allocator fails with \<open>Truncated\<close> for every block that passes its checks, after it has
  already changed the bitmap and the low half of the free count: the high half is written unconditionally.\<close>

lemma narrow_descriptors_cannot_allocate:
  assumes "32 \<le> unat (sb_descriptor_size sb)" and "unat (sb_descriptor_size sb) < 46"
    and "block_allocation_checks bm ds gi p a sb = Inr (k, free)"
  shows "set_block_allocation gi p a sb (bm, ds) =
    (Inl Truncated, bitmap_assign bm k a, copy_at ds 12 (to_le_bytes (ucast free :: u16)))"
proof -
  let ?n = "unat (sb_descriptor_size sb)"
  have len: "?n \<le> length ds" using assms(3) by (auto simp: block_allocation_checks_def Let_def split: if_splits)
  let ?c = "copy_at (take ?n ds) 12 (to_le_bytes (ucast free :: u16))"
  have "length ?c = ?n" using len assms(1) by simp
  then have short: "ebind (ext4_write_u16 44 v) f ?c = (Inl Truncated, ?c)" for v and f :: "unit \<Rightarrow> (Ext4Error, unit) edit"
    using assms(2) by (simp add: ebind_def ext4_write_u16_def overwrite_def)
  have joined: "?c @ drop ?n ds = copy_at ds 12 (to_le_bytes (ucast free :: u16))"
    using copy_at_append [of 12 "to_le_bytes (ucast free :: u16)" "take ?n ds" "drop ?n ds"] len assms(1) by simp
  show ?thesis
    using len assms(1) unfolding set_block_allocation_def
    by (simp add: assms(3) Let_def on_prefix_def write_u16_at short joined)
qed

text \<open>The parser yields no other sizes than the two the next theorem treats.\<close>

lemma parsed_descriptor_size:
  assumes "parse_internal b ar = Inr sb"
  shows "unat (sb_descriptor_size sb) = 32 \<or> 64 \<le> unat (sb_descriptor_size sb)"
proof -
  have check: "superblock_check ar (le16_at b 56) (le32_at b 24) (crc32c (- 1) (take 1020 b)) sb = None"
    using assms by (auto simp: parse_internal_Inr)
  then obtain k where k: "unat (sb_descriptor_size sb) = 2 ^ k"
    by (auto simp: superblock_check_def split: if_splits dest!: is_power_of_two_unat)
  have "(2 :: nat) ^ 5 \<le> 2 ^ k" using check k by (auto simp: superblock_check_def word_less_nat_alt split: if_splits)
  then have "5 \<le> k" by (simp only: power_increasing_iff one_less_numeral_iff semiring_norm)
  then consider "k = 5" | "6 \<le> k" by linarith
  then show ?thesis
  proof cases
    case 2
    then have "(2 :: nat) ^ 6 \<le> 2 ^ k" by (rule power_increasing) simp
    then show ?thesis by (simp add: k)
  qed (simp add: k)
qed

text \<open>\<^bold>\<open>C37\<close>. The block allocator flips exactly one bit. On group descriptors of 64 bytes or more, a failing
  call changes neither buffer; a successful one marks the block as asked, a block of the group that was in the
  other state, and no other bit, moves the group's free count by one and leaves a descriptor that
  parses, with every other field as before. The opposite call then restores both buffers byte by byte,
  provided that the free count was within the size of the group. On the 32-byte descriptors of a file system
  without the 64-bit feature no call succeeds: one that its checks refuse changes nothing, and one that passes
  them fails with \<open>Truncated\<close> after the bit has been flipped and the low half of the free count written.\<close>

theorem block_allocation_flips_one_bit:
  assumes "set_block_allocation gi p a sb (bm, ds) = (r, bm', ds')"
  shows "(64 \<le> unat (sb_descriptor_size sb) \<longrightarrow> (case r of Inl e \<Rightarrow> bm' = bm \<and> ds' = ds
      | Inr _ \<Rightarrow> \<exists>first grp c. group_first_block gi sb = Some first \<and> first \<le> p \<and> p - first < group_block_count first sb
         \<and> bitmap_bit bm (unat (p - first)) \<noteq> a
         \<and> (\<forall>i. bitmap_bit bm' i = (if i = unat (p - first) then a else bitmap_bit bm i))
         \<and> GroupDescriptor_parse ds gi sb = Inr grp
         \<and> GroupDescriptor_parse ds' gi sb = Inr (grp\<lparr>gd_free_block_count :=
              (if a then gd_free_block_count grp - 1 else gd_free_block_count grp + 1), gd_checksum := c\<rparr>)
         \<and> (unat (gd_free_block_count grp) \<le> unat (group_block_count first sb) \<longrightarrow>
              set_block_allocation gi p (\<not> a) sb (bm', ds') = (Inr (), bm, ds))))
    \<and> (unat (sb_descriptor_size sb) = 32 \<longrightarrow> (case block_allocation_checks bm ds gi p a sb of
        Inl e \<Rightarrow> r = Inl e \<and> bm' = bm \<and> ds' = ds
      | Inr (k, free) \<Rightarrow> r = Inl Truncated \<and> bm' = bitmap_assign bm k a
           \<and> ds' = copy_at ds 12 (to_le_bytes (ucast free :: u16))))"
proof (intro conjI impI, goal_cases)
  case 1
  from wide_block_allocation [OF this assms] show ?case .
next
  case 2
  then show ?case
    using assms narrow_descriptors_cannot_allocate [of sb bm ds gi p a]
    by (cases "block_allocation_checks bm ds gi p a sb") (auto simp: set_block_allocation_def split: prod.splits)
qed

text \<open>A group of eight blocks, the first five in use.\<close>

definition tiny_superblock :: Superblock where
  "tiny_superblock = plain_superblock\<lparr>sb_first_data_block := 1, sb_block_count := 9, sb_blocks_per_group := 8,
     sb_inode_count := 8, sb_inodes_per_group := 8, sb_descriptor_size := 64\<rparr>"

definition tiny_descriptor :: "u8 list" where
  "tiny_descriptor = replicate 8 0 @ [2, 0, 0, 0, 3, 0, 4, 0] @ replicate 48 0"

lemma tiny_facts:
  "64 \<le> unat (sb_descriptor_size tiny_superblock)"
  "has_metadata_checksums tiny_superblock = False"
  "GroupDescriptor_parse tiny_descriptor 0 tiny_superblock = Inr (descriptor_of tiny_descriptor 0 tiny_superblock)"
  "gd_free_block_count (descriptor_of tiny_descriptor 0 tiny_superblock) = 3"
  "gd_free_inode_count (descriptor_of tiny_descriptor 0 tiny_superblock) = 4"
  by (simp_all add: GroupDescriptor_parse_Inr descriptor_of_def tiny_superblock_def plain_superblock_def sample_superblock_def
    has_metadata_checksums_def tiny_descriptor_def le16_at_def le32_at_def sub_bytes_def from_le_bytes_def Let_def
    join_u32_def join_u64_def le_nat_zeros)

lemma tiny_allocatable:
  "allocatable_block [0x1f] tiny_descriptor 0 6 True tiny_superblock 1 (descriptor_of tiny_descriptor 0 tiny_superblock) 5 2"
  unfolding allocatable_block_def tiny_facts
  by (simp add: tiny_superblock_def plain_superblock_def sample_superblock_def FEATURE_READ_ONLY_COMPAT_BIGALLOC_def
    tiny_descriptor_def le16_at_def sub_bytes_def from_le_bytes_def le_nat_zeros group_first_block_def checked_mul_def checked_add_def
    group_block_count_def saturating_sub_def bitmap_test_def bitmap_mask_def new_free_count_def checked_sub_def)

theorem block_allocation_flips_one_bit_witness:
  "\<exists>ds. set_block_allocation 0 6 True tiny_superblock ([0x1f], tiny_descriptor) = (Inr (), [0x3f], ds)
     \<and> set_block_allocation 0 6 False tiny_superblock ([0x3f], ds) = (Inr (), [0x1f], tiny_descriptor)"
proof -
  have assigned: "bitmap_assign [0x1f] (5 :: u64) True = [0x3f]" by (simp add: bitmap_assign_def bitmap_mask_def)
  obtain ds where run: "set_block_allocation 0 6 True tiny_superblock ([0x1f], tiny_descriptor) = (Inr (), [0x3f], ds)"
    using set_block_allocation_run [OF tiny_facts(1) tiny_allocatable] by (simp add: assigned)
  have "group_first_block 0 tiny_superblock = Some 1" "unat (group_block_count 1 tiny_superblock) = 8"
    by (simp_all add: group_first_block_def checked_mul_def checked_add_def group_block_count_def saturating_sub_def
      tiny_superblock_def plain_superblock_def)
  then show ?thesis
    using block_allocation_flips_one_bit [OF run] run tiny_facts(1,3,4) by auto
qed

end
