(* ===== verification/Ext4_Inode_Allocation.thy ===== *)
theory Ext4_Inode_Allocation
  imports Ext4_Block_Allocation
begin

text \<open>
  The inode allocator: \<open>set_inode_allocation\<close> on a group with descriptors of 64 bytes or more. Besides
  the bit and the free count it maintains the number of inodes after the last one in use.
\<close>

section \<open>The last inode in use\<close>

lemma highest_allocated_None: "n < 2 ^ 32 \<Longrightarrow> highest_allocated bm n = None \<longleftrightarrow> (\<forall>i<n. \<not> bitmap_bit bm i)"
  by (induction n) (auto simp: Let_def bitmap_test_bit unat_of_nat less_Suc_eq)

lemma highest_allocated_Some:
  "n < 2 ^ 32 \<Longrightarrow> highest_allocated bm n = Some h \<Longrightarrow>
   unat h < n \<and> bitmap_bit bm (unat h) \<and> (\<forall>i. unat h < i \<longrightarrow> i < n \<longrightarrow> \<not> bitmap_bit bm i)"
  by (induction n) (auto simp: Let_def bitmap_test_bit unat_of_nat less_Suc_eq split: if_splits)

text \<open>The subtraction of the unused count never fails, and its value counts the inodes after the last one in
  use.\<close>

definition unused_inodes :: "u8 list \<Rightarrow> u32 \<Rightarrow> u32" where
  "unused_inodes bm count =
     count - (case highest_allocated bm (unat count) of None \<Rightarrow> 0 | Some h \<Rightarrow> h + 1)"

lemma unused_inodes:
  fixes bm :: "u8 list" and count :: u32
  defines "u \<equiv> unat (unused_inodes bm count)"
  shows "checked_sub count (case highest_allocated bm (unat count) of None \<Rightarrow> 0 | Some h \<Rightarrow> h + 1) = Some (unused_inodes bm count)"
    and "u \<le> unat count" and "\<forall>i. unat count - u \<le> i \<longrightarrow> i < unat count \<longrightarrow> \<not> bitmap_bit bm i"
    and "u < unat count \<longrightarrow> bitmap_bit bm (unat count - u - 1)"
proof -
  let ?n = "case highest_allocated bm (unat count) of None \<Rightarrow> 0 | Some h \<Rightarrow> h + 1"
  have bound: "unat count < 2 ^ 32" using unsigned_less [of count] by simp
  note N = highest_allocated_None [OF bound, of bm] and S = highest_allocated_Some [OF bound, of bm]
  have n: "unat ?n = (case highest_allocated bm (unat count) of None \<Rightarrow> 0 | Some h \<Rightarrow> unat h + 1)"
    using S bound by (auto simp: unat_word_ariths split: option.splits)
  then have le: "unat ?n \<le> unat count" using S by (auto split: option.splits)
  then show "checked_sub count ?n = Some (unused_inodes bm count)"
    by (simp add: checked_sub_def unused_inodes_def word_le_nat_alt)
  have u: "u = unat count - unat ?n" using le by (simp add: u_def unused_inodes_def unat_sub word_le_nat_alt)
  show "u \<le> unat count" by (simp add: u)
  show "\<forall>i. unat count - u \<le> i \<longrightarrow> i < unat count \<longrightarrow> \<not> bitmap_bit bm i"
    using N S le n by (auto simp: u split: option.splits)
  show "u < unat count \<longrightarrow> bitmap_bit bm (unat count - u - 1)"
    using N S le n by (auto simp: u split: option.splits)
qed

section \<open>The descriptor\<close>

definition inode_descriptor :: "u32 \<Rightarrow> u32 \<Rightarrow> u32 \<Rightarrow> u32 \<Rightarrow> Superblock \<Rightarrow> u8 list \<Rightarrow> u8 list" where
  "inode_descriptor free unused crc group_index sb d =
    (let d1 = pair_written 28 50 unused (pair_written 14 46 free d) in
     resealed_descriptor group_index sb (if has_metadata_checksums sb then pair_written 26 58 crc d1 else d1))"

lemma inode_descriptor_facts:
  fixes d :: "u8 list" and free unused crc group_index :: u32 and sb :: Superblock
  assumes "64 \<le> length d"
  defines "e \<equiv> inode_descriptor free unused crc group_index sb d"
  shows "length e = length d"
    and "descriptor_of e group_index sb = (descriptor_of d group_index sb)\<lparr>gd_free_inode_count := free,
           gd_unused_inode_count := unused, gd_checksum := le16_at e 30\<rparr>"
    and "has_metadata_checksums sb \<Longrightarrow> descriptor_crc e group_index sb = le16_at e 30"
    and "has_metadata_checksums sb \<Longrightarrow> pair_at e 26 58 = crc"
proof -
  show "length e = length d" using assms by (simp add: inode_descriptor_def resealed_simps Let_def)
  show "descriptor_of e group_index sb = (descriptor_of d group_index sb)\<lparr>gd_free_inode_count := free,
      gd_unused_inode_count := unused, gd_checksum := le16_at e 30\<rparr>"
    using assms unfolding e_def inode_descriptor_def descriptor_of_def Let_def
    by (simp add: resealed_simps le16_pair_written join_split_u32)
  show "descriptor_crc e group_index sb = le16_at e 30" if "has_metadata_checksums sb"
    using that assms(1) unfolding e_def inode_descriptor_def by (simp add: resealed_descriptor_valid Let_def)
  show "pair_at e 26 58 = crc" if "has_metadata_checksums sb"
    using that assms(1) unfolding e_def inode_descriptor_def pair_at_def
    by (simp add: resealed_simps le16_pair_written join_split_u32 Let_def)
qed

lemma inode_parse_updated:
  assumes "64 \<le> unat (sb_descriptor_size sb)" and "GroupDescriptor_parse ds gi sb = Inr grp"
  defines "n \<equiv> unat (sb_descriptor_size sb)"
  shows "GroupDescriptor_parse (inode_descriptor free unused crc gi sb (take n ds) @ q) gi sb
    = Inr (grp\<lparr>gd_free_inode_count := free, gd_unused_inode_count := unused,
        gd_checksum := le16_at (inode_descriptor free unused crc gi sb (take n ds)) 30\<rparr>)"
proof -
  note g = iffD1 [OF GroupDescriptor_parse_Inr [OF assms(1)] assms(2), folded n_def]
  then have len: "64 \<le> length (take n ds)" using assms(1) by (simp add: n_def)
  note e = inode_descriptor_facts [OF len, where free = free and unused = unused and crc = crc and group_index = gi and sb = sb]
  have "take n (inode_descriptor free unused crc gi sb (take n ds) @ q) = inode_descriptor free unused crc gi sb (take n ds)"
    using e(1) g by simp
  then show ?thesis
    using g e(1-3) unfolding n_def [symmetric] by (subst GroupDescriptor_parse_Inr [OF assms(1)]) (auto simp flip: n_def)
qed

section \<open>The inode allocator\<close>

definition allocatable_inode :: "u8 list \<Rightarrow> u8 list \<Rightarrow> u32 \<Rightarrow> u32 \<Rightarrow> bool \<Rightarrow> Superblock \<Rightarrow> u32 \<Rightarrow> GroupDescriptor \<Rightarrow> u32 \<Rightarrow> u32 \<Rightarrow> bool" where
  "allocatable_inode bm ds gi num a sb first grp k free \<longleftrightarrow>
     sb_inodes_per_group sb mod 8 = 0
     \<and> unat (sb_inodes_per_group sb) div 8 \<le> length bm \<and> GroupDescriptor_parse ds gi sb = Inr grp
     \<and> le16_at ds 18 AND GROUP_FLAG_INODE_UNINITIALIZED = 0
     \<and> (has_metadata_checksums sb \<longrightarrow>
          pair_at ds 26 58 = crc32c (sb_checksum_seed sb) (take (unat (sb_inodes_per_group sb) div 8) bm))
     \<and> group_first_inode gi sb = Some first \<and> first \<le> num \<and> k = num - first \<and> k < group_inode_count first sb
     \<and> bitmap_test bm k \<noteq> a
     \<and> new_free_count a (gd_free_inode_count grp) (\<lambda>n. n \<le> group_inode_count first sb) = Some free"

lemma inode_checks_Inr:
  assumes "64 \<le> unat (sb_descriptor_size sb)"
  shows "inode_allocation_checks bm ds gi num a sb = Inr (k, count, free) \<longleftrightarrow>
    (\<exists>first grp. allocatable_inode bm ds gi num a sb first grp k free \<and> count = group_inode_count first sb)"
proof
  assume checks: "inode_allocation_checks bm ds gi num a sb = Inr (k, count, free)"
  then have "unat (sb_descriptor_size sb) \<le> length ds" by (auto simp: inode_allocation_checks_def Let_def split: if_splits)
  with checks assms show "\<exists>first grp. allocatable_inode bm ds gi num a sb first grp k free \<and> count = group_inode_count first sb"
    unfolding inode_allocation_checks_def allocatable_inode_def Let_def
    by (auto simp: result_simps read_u16_at check_bitmap_checksum_at le16_take pair_at_take unat_8 not_less
        checked_sub_Some bind_eq_Some_conv split: if_splits del: mod_0_imp_dvd)
next
  assume "\<exists>first grp. allocatable_inode bm ds gi num a sb first grp k free \<and> count = group_inode_count first sb"
  then obtain first grp where *: "allocatable_inode bm ds gi num a sb first grp k free" "count = group_inode_count first sb" by blast
  moreover have "unat (sb_descriptor_size sb) \<le> length ds"
    using * assms by (auto simp: allocatable_inode_def GroupDescriptor_parse_Inr)
  ultimately show "inode_allocation_checks bm ds gi num a sb = Inr (k, count, free)"
    using assms unfolding inode_allocation_checks_def allocatable_inode_def Let_def
    by (auto simp: read_u16_at check_bitmap_checksum_at le16_take pair_at_take unat_8 checked_sub_def del: mod_0_imp_dvd)
qed

lemma inode_in_bitmap:
  assumes "allocatable_inode bm ds gi num a sb first grp k free"
  shows "unat k div 8 < length bm"
proof -
  have k: "k < sb_inodes_per_group sb" and m: "sb_inodes_per_group sb mod 8 = 0" and l: "unat (sb_inodes_per_group sb) div 8 \<le> length bm"
    using assms by (auto simp: allocatable_inode_def group_inode_count_def simp del: mod_0_imp_dvd)
  have "unat k < unat (sb_inodes_per_group sb)" using k by (simp add: word_less_nat_alt)
  moreover have "unat (sb_inodes_per_group sb) mod 8 = 0"
    using arg_cong [OF m, of unat] by (simp add: unat_8 del: mod_0_imp_dvd unat_eq_0)
  ultimately have "unat k div 8 < unat (sb_inodes_per_group sb) div 8" by (rule div_less_multiple)
  with l show ?thesis by simp
qed

lemma set_inode_allocation_run:
  fixes bm ds :: "u8 list" and sb :: Superblock and a :: bool and k first :: u32
  assumes "64 \<le> unat (sb_descriptor_size sb)" and "allocatable_inode bm ds gi num a sb first grp k free"
  defines "n \<equiv> unat (sb_descriptor_size sb)" and "unused \<equiv> unused_inodes (bitmap_assign bm k a) (group_inode_count first sb)"
    and "crc \<equiv> crc32c (sb_checksum_seed sb) (take (unat (sb_inodes_per_group sb) div 8) (bitmap_assign bm k a))"
  shows "set_inode_allocation gi num a sb (bm, ds) =
    (Inr (), bitmap_assign bm k a, inode_descriptor free unused crc gi sb (take n ds) @ drop n ds)"
proof -
  have checks: "inode_allocation_checks bm ds gi num a sb = Inr (k, group_inode_count first sb, free)"
    using inode_checks_Inr [OF assms(1)] assms(2) by blast
  have parse: "GroupDescriptor_parse ds gi sb = Inr grp" using assms(2) by (simp add: allocatable_inode_def)
  then have len: "n \<le> length ds" "64 \<le> n" using assms(1) by (simp_all add: GroupDescriptor_parse_Inr n_def)
  let ?d = "take n ds"
  have d: "64 \<le> length ?d" using len by simp
  note upd = inode_parse_updated [OF assms(1) parse, where free = free and unused = unused and crc = crc and q = "[]", folded n_def]
  have "on_prefix n (ebind (ext4_write_u16 14 (ucast free)) (\<lambda>_.
       ebind (ext4_write_u16 46 (ucast (drop_bit 16 free))) (\<lambda>_.
       ebind (ext4_write_u16 28 (ucast unused)) (\<lambda>_.
       ebind (ext4_write_u16 50 (ucast (drop_bit 16 unused))) (\<lambda>_.
       ebind (when_edit (has_metadata_checksums sb)
         (ebind (ext4_write_u16 26 (ucast crc)) (\<lambda>_. ext4_write_u16 58 (ucast (drop_bit 16 crc))))) (\<lambda>_.
       ebind (refresh_group_descriptor_checksum gi sb) (\<lambda>_.
       ebind (query (\<lambda>descriptor. GroupDescriptor_parse descriptor gi sb)) (\<lambda>updated.
       guard (gd_free_inode_count updated \<noteq> free \<or> gd_unused_inode_count updated \<noteq> unused) InvalidGeometry)))))))) ds
    = (Inr (), inode_descriptor free unused crc gi sb ?d @ drop n ds)"
    using upd d len(1)
    by (intro on_prefix_at, simp, cases "has_metadata_checksums sb")
      (simp_all add: edit_early ebind_assoc write_u16_at pair_written_def [symmetric]
        refresh_resealed_descriptor ebind_Inr inode_descriptor_def guard_def Let_def)
  then show ?thesis
    unfolding set_inode_allocation_def
    by (simp add: checks Let_def unat_8 crc_def n_def unused_inodes(1) unused_def)
qed

lemma wide_inode_allocation:
  assumes "64 \<le> unat (sb_descriptor_size sb)" and "set_inode_allocation gi num a sb (bm, ds) = (r, bm', ds')"
  shows "case r of Inl e \<Rightarrow> bm' = bm \<and> ds' = ds
    | Inr _ \<Rightarrow> \<exists>first grp unused c. group_first_inode gi sb = Some first \<and> first \<le> num
       \<and> num - first < group_inode_count first sb \<and> bitmap_bit bm (unat (num - first)) \<noteq> a
       \<and> (\<forall>i. bitmap_bit bm' i = (if i = unat (num - first) then a else bitmap_bit bm i))
       \<and> GroupDescriptor_parse ds gi sb = Inr grp
       \<and> GroupDescriptor_parse ds' gi sb = Inr (grp\<lparr>gd_free_inode_count :=
            (if a then gd_free_inode_count grp - 1 else gd_free_inode_count grp + 1),
            gd_unused_inode_count := unused, gd_checksum := c\<rparr>)
       \<and> unat unused \<le> unat (group_inode_count first sb)
       \<and> (\<forall>i. unat (group_inode_count first sb) - unat unused \<le> i \<longrightarrow> i < unat (group_inode_count first sb) \<longrightarrow>
            \<not> bitmap_bit bm' i)
       \<and> (unat unused < unat (group_inode_count first sb) \<longrightarrow>
            bitmap_bit bm' (unat (group_inode_count first sb) - unat unused - 1))"
proof (cases "inode_allocation_checks bm ds gi num a sb")
  case (Inl e)
  then show ?thesis using assms(2) by (auto simp: set_inode_allocation_def)
next
  case (Inr kf)
  then obtain k free first grp where block: "allocatable_inode bm ds gi num a sb first grp k free"
    using inode_checks_Inr [OF assms(1)] by (cases kf) blast
  note run = set_inode_allocation_run [OF assms(1) block]
  have res: "bm' = bitmap_assign bm k a" "r = Inr ()" using run assms(2) by simp_all
  note b = block [unfolded allocatable_inode_def]
  let ?u = "unused_inodes bm' (group_inode_count first sb)"
  have "\<exists>c. GroupDescriptor_parse ds' gi sb = Inr (grp\<lparr>gd_free_inode_count := free, gd_unused_inode_count := ?u, gd_checksum := c\<rparr>)"
    using run assms(2) b inode_parse_updated [OF assms(1), of ds gi grp] by auto
  moreover have "free = (if a then gd_free_inode_count grp - 1 else gd_free_inode_count grp + 1)"
    using b by (auto simp: new_free_count_def checked_simps bind_eq_Some_conv split: if_splits)
  moreover have "\<forall>i. bitmap_bit bm' i = (if i = unat k then a else bitmap_bit bm i)" "bitmap_bit bm (unat k) \<noteq> a"
    using b bitmap_assign_bit [OF _ inode_in_bitmap [OF block]] by (auto simp: res(1) bitmap_test_bit)
  moreover have "first \<le> num" "num - first = k" "group_first_inode gi sb = Some first" "GroupDescriptor_parse ds gi sb = Inr grp"
    "k < group_inode_count first sb" using b by auto
  ultimately show ?thesis
    using unused_inodes(2-4) [where bm = bm' and count = "group_inode_count first sb"] unfolding res(2) sum.case by blast
qed

text \<open>The same on short descriptors: the high half of the free inode count, at offset 46, is written unconditionally.\<close>

lemma narrow_descriptors_cannot_allocate_inodes:
  assumes "32 \<le> unat (sb_descriptor_size sb)" and "unat (sb_descriptor_size sb) < 48"
    and "inode_allocation_checks bm ds gi num a sb = Inr (k, count, free)"
  shows "set_inode_allocation gi num a sb (bm, ds) =
    (Inl Truncated, bitmap_assign bm k a, copy_at ds 14 (to_le_bytes (ucast free :: u16)))"
proof -
  let ?n = "unat (sb_descriptor_size sb)"
  have len: "?n \<le> length ds" using assms(3) by (auto simp: inode_allocation_checks_def Let_def split: if_splits)
  let ?c = "copy_at (take ?n ds) 14 (to_le_bytes (ucast free :: u16))"
  have "length ?c = ?n" using len assms(1) by simp
  then have short: "ebind (ext4_write_u16 46 v) f ?c = (Inl Truncated, ?c)" for v and f :: "unit \<Rightarrow> (Ext4Error, unit) edit"
    using assms(2) by (simp add: ebind_def ext4_write_u16_def overwrite_def)
  have joined: "?c @ drop ?n ds = copy_at ds 14 (to_le_bytes (ucast free :: u16))"
    using copy_at_append [of 14 "to_le_bytes (ucast free :: u16)" "take ?n ds" "drop ?n ds"] len assms(1) by simp
  show ?thesis
    using len assms(1) unfolding set_inode_allocation_def
    by (simp add: assms(3) Let_def on_prefix_def write_u16_at short joined unused_inodes(1))
qed

text \<open>\<^bold>\<open>C38\<close>. The inode allocator flips exactly one bit and keeps the unused count. On group descriptors of 64 bytes or
  more, a failing call changes neither buffer; a successful one marks the inode as asked, an inode of the group
  that was in the other state, and no other bit, moves the free count by one, and stores as unused count the number of
  inodes after the last one in use: those are free and the one before them is not. Every other field of the
  parsed descriptor is as before. On the 32-byte descriptors of a file system without the 64-bit feature no call
  succeeds: one that its checks refuse changes nothing, and one that passes them fails with \<open>Truncated\<close> after
  the bit has been flipped and the low half of the free count written.\<close>

theorem inode_allocation_flips_one_bit:
  assumes "set_inode_allocation gi num a sb (bm, ds) = (r, bm', ds')"
  shows "(64 \<le> unat (sb_descriptor_size sb) \<longrightarrow> (case r of Inl e \<Rightarrow> bm' = bm \<and> ds' = ds
      | Inr _ \<Rightarrow> \<exists>first grp unused c. group_first_inode gi sb = Some first \<and> first \<le> num
         \<and> num - first < group_inode_count first sb \<and> bitmap_bit bm (unat (num - first)) \<noteq> a
         \<and> (\<forall>i. bitmap_bit bm' i = (if i = unat (num - first) then a else bitmap_bit bm i))
         \<and> GroupDescriptor_parse ds gi sb = Inr grp
         \<and> GroupDescriptor_parse ds' gi sb = Inr (grp\<lparr>gd_free_inode_count :=
              (if a then gd_free_inode_count grp - 1 else gd_free_inode_count grp + 1),
              gd_unused_inode_count := unused, gd_checksum := c\<rparr>)
         \<and> unat unused \<le> unat (group_inode_count first sb)
         \<and> (\<forall>i. unat (group_inode_count first sb) - unat unused \<le> i \<longrightarrow> i < unat (group_inode_count first sb) \<longrightarrow>
              \<not> bitmap_bit bm' i)
         \<and> (unat unused < unat (group_inode_count first sb) \<longrightarrow>
              bitmap_bit bm' (unat (group_inode_count first sb) - unat unused - 1))))
    \<and> (unat (sb_descriptor_size sb) = 32 \<longrightarrow> (case inode_allocation_checks bm ds gi num a sb of
        Inl e \<Rightarrow> r = Inl e \<and> bm' = bm \<and> ds' = ds
      | Inr (k, count, free) \<Rightarrow> r = Inl Truncated \<and> bm' = bitmap_assign bm k a
           \<and> ds' = copy_at ds 14 (to_le_bytes (ucast free :: u16))))"
proof (intro conjI impI, goal_cases)
  case 1
  from wide_inode_allocation [OF this assms] show ?case .
next
  case 2
  then show ?case
    using assms narrow_descriptors_cannot_allocate_inodes [of sb bm ds gi num a]
    by (cases "inode_allocation_checks bm ds gi num a sb") (auto simp: set_inode_allocation_def split: prod.splits)
qed

lemma tiny_inode:
  "allocatable_inode [0x0f] tiny_descriptor 0 6 True tiny_superblock 1 (descriptor_of tiny_descriptor 0 tiny_superblock) 5 3"
  unfolding allocatable_inode_def tiny_facts
  by (simp add: tiny_superblock_def plain_superblock_def sample_superblock_def
    tiny_descriptor_def le16_at_def sub_bytes_def from_le_bytes_def le_nat_zeros group_first_inode_def checked_mul_def checked_add_def
    group_inode_count_def saturating_sub_def bitmap_test_def bitmap_mask_def new_free_count_def checked_sub_def)

theorem inode_allocation_flips_one_bit_witness:
  "\<exists>ds. set_inode_allocation 0 6 True tiny_superblock ([0x0f], tiny_descriptor) = (Inr (), [0x2f], ds)
     \<and> (\<exists>grp. GroupDescriptor_parse ds 0 tiny_superblock = Inr grp \<and> gd_free_inode_count grp = 3)"
proof -
  have assigned: "bitmap_assign [0x0f] (5 :: u32) True = [0x2f]" by (simp add: bitmap_assign_def bitmap_mask_def)
  obtain ds where run: "set_inode_allocation 0 6 True tiny_superblock ([0x0f], tiny_descriptor) = (Inr (), [0x2f], ds)"
    using set_inode_allocation_run [OF tiny_facts(1) tiny_inode] by (simp add: assigned)
  then show ?thesis
    using inode_allocation_flips_one_bit [OF run] tiny_facts(1,3,5) by auto
qed

lemma narrow_checks:
  "block_allocation_checks [0x1f] (take 32 tiny_descriptor) 0 6 True (tiny_superblock\<lparr>sb_descriptor_size := 32, sb_feature_incompat := 0\<rparr>) = Inr (5, 2)"
  by (simp add: block_allocation_checks_def GroupDescriptor_parse_def ext4_read_u16_def ext4_read_u32_def get_range_def read_u16_or_zero_def
    tiny_superblock_def plain_superblock_def sample_superblock_def FEATURE_READ_ONLY_COMPAT_BIGALLOC_def has_metadata_checksums_def
    tiny_descriptor_def from_le_bytes_def le_nat_zeros group_first_block_def checked_mul_def checked_add_def
    group_block_count_def saturating_sub_def bitmap_test_def bitmap_mask_def new_free_count_def checked_sub_def
    check_bitmap_checksum_def join_u32_def join_u64_def Let_def)

lemma narrow_descriptors_cannot_allocate_witness:
  "fst (set_block_allocation 0 6 True (tiny_superblock\<lparr>sb_descriptor_size := 32, sb_feature_incompat := 0\<rparr>)
     ([0x1f], take 32 tiny_descriptor)) = Inl Truncated"
  using narrow_descriptors_cannot_allocate [OF _ _ narrow_checks] by simp

end
