(* ===== verification/Ext4_Directory.thy ===== *)
theory Ext4_Directory
  imports Ext4_Inode_Proofs
begin

text \<open>
  Linear directory blocks of the ext4 crate: parsing and validation, search, insertion and removal. A block is a
  chain of records up to its end (or up to the checksum tail). The three search loops of the source follow the
  record lengths without checking them again: a record of length zero would keep them at the same
  offset for ever, which is the value \<open>None\<close> here. On a block that parses every record has at least eight
  bytes, so there they return.
\<close>

definition DIRECTORY_ENTRY_REGULAR_FILE :: u8 where "DIRECTORY_ENTRY_REGULAR_FILE = 1"
definition DIRECTORY_ENTRY_DIRECTORY :: u8 where "DIRECTORY_ENTRY_DIRECTORY = 2"
definition DIRECTORY_ENTRY_SYMLINK :: u8 where "DIRECTORY_ENTRY_SYMLINK = 7"
definition DIRECTORY_CHECKSUM_FILE_TYPE :: u8 where "DIRECTORY_CHECKSUM_FILE_TYPE = 0xde"

record DirectoryEntry =
  de_inode :: u32
  de_file_type :: u8
  de_name :: "u8 list"

record DirectoryBlock =
  db_bytes :: "u8 list"
  db_entries_end :: nat
  db_entry_count :: nat

text \<open>\<open>x.next_multiple_of(4)\<close>.\<close>

definition next_multiple_of_4 :: "nat \<Rightarrow> nat" where
  "next_multiple_of_4 n = (n + 3) div 4 * 4"

function validate_loop :: "u8 list \<Rightarrow> nat \<Rightarrow> nat \<Rightarrow> nat \<Rightarrow> Ext4Error + nat" where
  "validate_loop bytes entries_end offs count =
    (if offs < entries_end then
       if entries_end < offs + 8 then Inl InvalidDirectory
       else
       rbind (ext4_read_u32 bytes offs) (\<lambda>inode.
       rbind (ext4_read_u16 bytes (offs + 4)) (\<lambda>record_length.
       if unat record_length < 8 \<or> record_length AND 3 \<noteq> 0 \<or> entries_end < offs + unat record_length
          \<or> unat record_length - 8 < unat (bytes ! (offs + 6))
       then Inl InvalidDirectory
       else validate_loop bytes entries_end (offs + unat record_length) (if inode \<noteq> 0 then count + 1 else count)))
     else if offs \<noteq> entries_end then Inl InvalidDirectory
     else Inr count)"
  by pat_completeness auto
termination validate_loop
  by (relation "measure (\<lambda>(bytes, fin, offs, _). fin - offs)") auto

declare validate_loop.simps [simp del]

definition validate_directory_entries :: "u8 list \<Rightarrow> nat \<Rightarrow> Ext4Error + nat" where
  "validate_directory_entries bytes entries_end = validate_loop bytes entries_end 0 0"

definition directory_checksum :: "u8 list \<Rightarrow> Inode \<Rightarrow> Superblock \<Rightarrow> u32" where
  "directory_checksum entries inode sb =
     crc32c (crc32c (crc32c (sb_checksum_seed sb) (to_le_bytes (in_number inode))) (to_le_bytes (in_generation inode))) entries"

definition directory_entries_end :: "u8 list \<Rightarrow> Inode \<Rightarrow> Superblock \<Rightarrow> Ext4Error + nat" where
  "directory_entries_end bytes inode sb =
    (if has_metadata_checksums sb then
       if length bytes < 12 then Inl Truncated
       else
       let tail = length bytes - 12 in
       rbind (ext4_read_u32 bytes tail) (\<lambda>zero.
       if zero \<noteq> 0 then Inl InvalidDirectory
       else
       rbind (ext4_read_u16 bytes (tail + 4)) (\<lambda>record_length.
       if record_length \<noteq> 12 \<or> bytes ! (tail + 6) \<noteq> 0 \<or> bytes ! (tail + 7) \<noteq> DIRECTORY_CHECKSUM_FILE_TYPE
       then Inl InvalidDirectory
       else
       rbind (ext4_read_u32 bytes (length bytes - 4)) (\<lambda>stored.
       if directory_checksum (take tail bytes) inode sb \<noteq> stored then Inl InvalidChecksum
       else Inr tail)))
     else Inr (length bytes))"

definition DirectoryBlock_parse :: "u8 list \<Rightarrow> Inode \<Rightarrow> Superblock \<Rightarrow> Ext4Error + DirectoryBlock" where
  "DirectoryBlock_parse bytes inode sb =
    (if \<not> is_directory inode then Inl NotDirectory
     else if in_flags inode AND INODE_FLAG_DIRECTORY_INDEX \<noteq> 0 then Inl UnsupportedDirectoryIndex
     else if length bytes \<noteq> unat (sb_block_size sb) then Inl InvalidDirectory
     else
     rbind (directory_entries_end bytes inode sb) (\<lambda>entries_end.
     rbind (validate_directory_entries bytes entries_end) (\<lambda>entry_count.
     Inr \<lparr>db_bytes = bytes, db_entries_end = entries_end, db_entry_count = entry_count\<rparr>)))"

function find_loop :: "u8 list \<Rightarrow> nat \<Rightarrow> u8 list \<Rightarrow> nat \<Rightarrow> DirectoryEntry option option" where
  "find_loop bytes entries_end name offs =
    (if offs < entries_end then
       case ext4_read_u32 bytes offs of
         Inl _ \<Rightarrow> Some None
       | Inr inode \<Rightarrow>
      (case ext4_read_u16 bytes (offs + 4) of
         Inl _ \<Rightarrow> Some None
       | Inr length16 \<Rightarrow>
         let record_length = unat length16; name_length = unat (bytes ! (offs + 6)); entry_name = sub_bytes bytes (offs + 8) name_length in
         if inode \<noteq> 0 \<and> entry_name = name then
           Some (Some \<lparr>de_inode = inode, de_file_type = bytes ! (offs + 7), de_name = entry_name\<rparr>)
         else if record_length = 0 then None
         else find_loop bytes entries_end name (offs + record_length))
     else Some None)"
  by pat_completeness auto
termination find_loop
  by (relation "measure (\<lambda>(bytes, fin, name, offs). fin - offs)") auto

declare find_loop.simps [simp del]

definition DirectoryBlock_find :: "DirectoryBlock \<Rightarrow> u8 list \<Rightarrow> DirectoryEntry option option" where
  "DirectoryBlock_find block name = find_loop (db_bytes block) (db_entries_end block) name 0"

definition refresh_directory_checksum :: "nat \<Rightarrow> Inode \<Rightarrow> Superblock \<Rightarrow> (Ext4Error, unit) edit" where
  "refresh_directory_checksum entries_end inode sb =
     when_edit (has_metadata_checksums sb)
      (ebind (query (\<lambda>bytes. if usize_add entries_end 8 = None \<or> entries_end + 8 + 4 \<noteq> length bytes
          then Inl InvalidDirectory else Inr (directory_checksum (take entries_end bytes) inode sb))) (\<lambda>checksum.
       ext4_write_u32 (entries_end + 8) checksum))"

function insertion_loop ::
  "u8 list \<Rightarrow> nat \<Rightarrow> nat \<Rightarrow> (nat \<times> nat \<times> nat) option \<Rightarrow> nat \<Rightarrow> (Ext4Error + (nat \<times> nat \<times> nat) option) option" where
  "insertion_loop bytes entries_end required insertion offs =
    (if offs < entries_end then
       case ext4_read_u16 bytes (offs + 4) of
         Inl e \<Rightarrow> Some (Inl e)
       | Inr length16 \<Rightarrow>
      (case ext4_read_u32 bytes offs of
         Inl e \<Rightarrow> Some (Inl e)
       | Inr inode \<Rightarrow>
         let record_length = unat length16;
             actual_length = next_multiple_of_4 (8 + unat (bytes ! (offs + 6)));
             insertion' = (if inode \<noteq> 0 \<and> actual_length \<le> record_length \<and> required \<le> record_length - actual_length
                           then Some (offs, actual_length, record_length) else insertion) in
         if record_length = 0 then None
         else if usize_limit \<le> offs + record_length then Some (Inl InvalidDirectory)
         else insertion_loop bytes entries_end required insertion' (offs + record_length))
     else Some (Inr insertion))"
  by pat_completeness auto
termination insertion_loop
  by (relation "measure (\<lambda>(bytes, fin, req, ins, offs). fin - offs)") auto

declare insertion_loop.simps [simp del]

text \<open>The writes of an insertion, the new checksum, and the block parsed again.\<close>

definition insertion_edit ::
  "Inode \<Rightarrow> Superblock \<Rightarrow> nat \<Rightarrow> u8 list \<Rightarrow> u32 \<Rightarrow> u8 \<Rightarrow> nat \<times> nat \<times> nat \<Rightarrow> (Ext4Error, DirectoryBlock) edit" where
  "insertion_edit directory_inode sb entries_end name inode_number file_type =
    (\<lambda>(previous_offset, previous_length, previous_record_length).
     let new_offset = previous_offset + previous_length;
         new_record_length = previous_record_length - previous_length in
     ebind (ext4_write_u16 (previous_offset + 4) (word_of_nat previous_length)) (\<lambda>_.
     ebind (overwrite Truncated new_offset (replicate new_record_length 0)) (\<lambda>_.
     ebind (ext4_write_u32 new_offset inode_number) (\<lambda>_.
     ebind (ext4_write_u16 (new_offset + 4) (word_of_nat new_record_length)) (\<lambda>_.
     ebind (guard (255 < length name) InvalidDirectory) (\<lambda>_.
     ebind (overwrite Truncated (new_offset + 6) [word_of_nat (length name)]) (\<lambda>_.
     ebind (overwrite Truncated (new_offset + 7) [file_type]) (\<lambda>_.
     ebind (overwrite Truncated (new_offset + 8) name) (\<lambda>_.
     ebind (refresh_directory_checksum entries_end directory_inode sb) (\<lambda>_.
     query (\<lambda>bytes. DirectoryBlock_parse bytes directory_inode sb)))))))))))"

definition insert_linear_directory_entry ::
  "Inode \<Rightarrow> Superblock \<Rightarrow> u8 list \<Rightarrow> u32 \<Rightarrow> u8 \<Rightarrow> u8 list \<Rightarrow> ((Ext4Error + unit) \<times> u8 list) option" where
  "insert_linear_directory_entry directory_inode sb name inode_number file_type bytes =
    (case rbind (validate_path_component name) (\<lambda>_.
       if inode_number = 0 \<or> sb_inode_count sb < inode_number
          \<or> file_type \<notin> set [DIRECTORY_ENTRY_REGULAR_FILE, DIRECTORY_ENTRY_DIRECTORY, DIRECTORY_ENTRY_SYMLINK]
       then Inl InvalidDirectory
       else DirectoryBlock_parse bytes directory_inode sb) of
       Inl e \<Rightarrow> Some (Inl e, bytes)
     | Inr parsed \<Rightarrow>
    (case DirectoryBlock_find parsed name of
       None \<Rightarrow> None
     | Some (Some _) \<Rightarrow> Some (Inl InvalidDirectory, bytes)
     | Some None \<Rightarrow>
    (case insertion_loop bytes (db_entries_end parsed) (next_multiple_of_4 (8 + length name)) None 0 of
       None \<Rightarrow> None
     | Some (Inl e) \<Rightarrow> Some (Inl e, bytes)
     | Some (Inr None) \<Rightarrow> Some (Inl InvalidDirectory, bytes)
     | Some (Inr (Some insertion)) \<Rightarrow>
    (case insertion_edit directory_inode sb (db_entries_end parsed) name inode_number file_type insertion bytes of
       (Inl e, bytes') \<Rightarrow> Some (Inl e, bytes')
     | (Inr updated, bytes') \<Rightarrow>
    (case DirectoryBlock_find updated name of
       None \<Rightarrow> None
     | Some None \<Rightarrow> Some (Inl InvalidDirectory, bytes')
     | Some (Some inserted) \<Rightarrow>
        Some (if de_inode inserted \<noteq> inode_number \<or> de_file_type inserted \<noteq> file_type then Inl InvalidDirectory
              else Inr (), bytes'))))))"

function removal_loop ::
  "u8 list \<Rightarrow> nat \<Rightarrow> u8 list \<Rightarrow> u32 \<Rightarrow> nat option \<Rightarrow> nat \<Rightarrow> (Ext4Error + (nat \<times> nat \<times> nat option) option) option" where
  "removal_loop bytes entries_end name inode_number previous_offset offs =
    (if offs < entries_end then
       case ext4_read_u16 bytes (offs + 4) of
         Inl e \<Rightarrow> Some (Inl e)
       | Inr length16 \<Rightarrow>
      (case ext4_read_u32 bytes offs of
         Inl e \<Rightarrow> Some (Inl e)
       | Inr inode \<Rightarrow>
         let record_length = unat length16 in
         if inode = inode_number \<and> sub_bytes bytes (offs + 8) (unat (bytes ! (offs + 6))) = name then
           Some (Inr (Some (offs, record_length, previous_offset)))
         else if record_length = 0 then None
         else if usize_limit \<le> offs + record_length then Some (Inl InvalidDirectory)
         else removal_loop bytes entries_end name inode_number (Some offs) (offs + record_length))
     else Some (Inr None))"
  by pat_completeness auto
termination removal_loop
  by (relation "measure (\<lambda>(bytes, fin, name, num, prev, offs). fin - offs)") auto

declare removal_loop.simps [simp del]

definition removal_edit ::
  "Inode \<Rightarrow> Superblock \<Rightarrow> nat \<Rightarrow> nat \<times> nat \<times> nat option \<Rightarrow> (Ext4Error, DirectoryBlock) edit" where
  "removal_edit directory_inode sb entries_end =
    (\<lambda>(removed_offset, removed_length, previous_offset).
     ebind (case previous_offset of
         Some previous_offset \<Rightarrow>
          ebind (query (\<lambda>bytes. ext4_read_u16 bytes (previous_offset + 4))) (\<lambda>previous_length.
          ebind (guard (65535 < unat previous_length + removed_length) InvalidDirectory) (\<lambda>_.
          ebind (overwrite Truncated removed_offset (replicate removed_length 0)) (\<lambda>_.
          ext4_write_u16 (previous_offset + 4) (word_of_nat (unat previous_length + removed_length)))))
       | None \<Rightarrow>
          ebind (ext4_write_u32 removed_offset 0) (\<lambda>_.
          overwrite Truncated (removed_offset + 6) (replicate (removed_length - 6) 0))) (\<lambda>_.
     ebind (refresh_directory_checksum entries_end directory_inode sb) (\<lambda>_.
     query (\<lambda>bytes. DirectoryBlock_parse bytes directory_inode sb))))"

definition remove_linear_directory_entry ::
  "Inode \<Rightarrow> Superblock \<Rightarrow> u8 list \<Rightarrow> u32 \<Rightarrow> u8 list \<Rightarrow> ((Ext4Error + unit) \<times> u8 list) option" where
  "remove_linear_directory_entry directory_inode sb name inode_number bytes =
    (case rbind (validate_path_component name) (\<lambda>_. DirectoryBlock_parse bytes directory_inode sb) of
       Inl e \<Rightarrow> Some (Inl e, bytes)
     | Inr parsed \<Rightarrow>
    (case removal_loop bytes (db_entries_end parsed) name inode_number None 0 of
       None \<Rightarrow> None
     | Some (Inl e) \<Rightarrow> Some (Inl e, bytes)
     | Some (Inr None) \<Rightarrow> Some (Inl InvalidDirectory, bytes)
     | Some (Inr (Some removal)) \<Rightarrow>
    (case removal_edit directory_inode sb (db_entries_end parsed) removal bytes of
       (Inl e, bytes') \<Rightarrow> Some (Inl e, bytes')
     | (Inr updated, bytes') \<Rightarrow>
    (case DirectoryBlock_find updated name of
       None \<Rightarrow> None
     | Some (Some _) \<Rightarrow> Some (Inl InvalidDirectory, bytes')
     | Some None \<Rightarrow> Some (Inr (), bytes')))))"

end
