(* ===== verification/Ext4_Directory_Records.thy ===== *)
theory Ext4_Directory_Records
  imports Ext4_Directory
begin

text \<open>
  Directory blocks as lists of records: \<open>walk\<close> relates a block to its records. Validation accepts exactly the
  blocks with a walk, the loops of the source are searches of the list of records, and a walk depends on the
  bytes it passes only, so a change of one record changes one element of the list.
\<close>

section \<open>The records of a block\<close>

record DirRecord =
  dr_inode :: u32
  dr_length :: nat
  dr_type :: u8
  dr_name :: "u8 list"

definition record_at :: "u8 list \<Rightarrow> nat \<Rightarrow> DirRecord" where
  "record_at b off = \<lparr>dr_inode = le32_at b off, dr_length = unat (le16_at b (off + 4)), dr_type = b ! (off + 7),
     dr_name = sub_bytes b (off + 8) (unat (b ! (off + 6)))\<rparr>"

definition record_ok :: "u8 list \<Rightarrow> nat \<Rightarrow> nat \<Rightarrow> bool" where
  "record_ok b fin off \<longleftrightarrow> off + 8 \<le> fin \<and> 8 \<le> dr_length (record_at b off) \<and> dr_length (record_at b off) mod 4 = 0
     \<and> off + dr_length (record_at b off) \<le> fin \<and> 8 + unat (b ! (off + 6)) \<le> dr_length (record_at b off)"

inductive walk :: "u8 list \<Rightarrow> nat \<Rightarrow> nat \<Rightarrow> DirRecord list \<Rightarrow> bool" for b where
  walk_Nil: "walk b fin fin []"
| walk_Cons: "record_ok b fin off \<Longrightarrow> walk b fin (off + dr_length (record_at b off)) rs \<Longrightarrow> walk b fin off (record_at b off # rs)"

inductive_simps walk_Nil_iff [simp]: "walk b fin off []"
inductive_simps walk_Cons_iff: "walk b fin off (r # rs)"

abbreviation live :: "DirRecord \<Rightarrow> bool" where
  "live r \<equiv> dr_inode r \<noteq> 0"

abbreviation span :: "DirRecord list \<Rightarrow> nat" where
  "span rs \<equiv> sum_list (map dr_length rs)"

lemma walk_span: "walk b fin off rs \<Longrightarrow> off + span rs = fin"
  by (induction rule: walk.induct) auto

lemma record_ok_less: "record_ok b fin off \<Longrightarrow> off < fin \<and> off < off + dr_length (record_at b off)"
  by (simp add: record_ok_def)

lemma and_3_mod: "(w :: u16) AND 3 = 0 \<longleftrightarrow> unat w mod 4 = 0"
proof -
  have "(3 :: u16) = mask 2" by (simp add: mask_eq_exp_minus_1)
  then show ?thesis using and_mask_eq_0 [of w 2] by (simp add: dvd_eq_mod_eq_0)
qed

lemma validate_walk:
  assumes "fin \<le> length b"
  shows "validate_loop b fin off c = Inr n \<longleftrightarrow> (\<exists>rs. walk b fin off rs \<and> n = c + length (filter live rs))"
  using assms
proof (induction b fin off c rule: validate_loop.induct)
  case (1 b fin off c)
  show ?case
  proof (cases "record_ok b fin off")
    case True
    then have ok: "off < fin" "\<not> fin < off + 8" "off + 8 \<le> length b" using 1(2) by (auto simp: record_ok_def)
    then have rd: "ext4_read_u32 b off = Inr (le32_at b off)" "ext4_read_u16 b (off + 4) = Inr (le16_at b (off + 4))"
      by (simp_all add: read_u32_at read_u16_at)
    have step: "validate_loop b fin off c =
        validate_loop b fin (off + dr_length (record_at b off)) (if live (record_at b off) then c + 1 else c)"
      using True ok rd by (subst validate_loop.simps) (auto simp: record_ok_def record_at_def and_3_mod)
    have "validate_loop b fin (off + unat (le16_at b (off + 4))) (if le32_at b off \<noteq> 0 then c + 1 else c) = Inr n \<longleftrightarrow>
        (\<exists>rs. walk b fin (off + unat (le16_at b (off + 4))) rs \<and> n = (if le32_at b off \<noteq> 0 then c + 1 else c) + length (filter live rs))"
      using True 1(2) by (intro 1(1) [OF ok(1,2) rd]) (auto simp: record_ok_def record_at_def and_3_mod)
    then have "validate_loop b fin off c = Inr n \<longleftrightarrow>
        (\<exists>rs. walk b fin off (record_at b off # rs) \<and> n = c + length (filter live (record_at b off # rs)))"
      unfolding step using True
      by (cases "le32_at b off = 0") (simp_all add: walk_Cons_iff, simp_all add: record_at_def)
    also have "\<dots> \<longleftrightarrow> (\<exists>rs. walk b fin off rs \<and> n = c + length (filter live rs))"
    proof
      assume "\<exists>rs. walk b fin off rs \<and> n = c + length (filter live rs)"
      then obtain rs where rs: "walk b fin off rs" "n = c + length (filter live rs)" by blast
      then obtain rs' where "rs = record_at b off # rs'" using ok(1) by (cases rs) (auto simp: walk_Cons_iff)
      then show "\<exists>rs. walk b fin off (record_at b off # rs) \<and> n = c + length (filter live (record_at b off # rs))" using rs by blast
    qed blast
    finally show ?thesis .
  next
    case False
    have "walk b fin off rs \<longleftrightarrow> off = fin \<and> rs = []" for rs using False by (auto elim: walk.cases)
    moreover have "validate_loop b fin off c = Inr n \<longleftrightarrow> off = fin \<and> n = c"
    proof (cases "off + 8 \<le> fin")
      case True
      then show ?thesis using False 1(2)
        by (subst validate_loop.simps) (auto simp: read_u32_at read_u16_at record_ok_def record_at_def and_3_mod)
    next
      case short: False
      then show ?thesis by (subst validate_loop.simps) auto
    qed
    ultimately show ?thesis by simp
  qed
qed

definition entry_of :: "DirRecord \<Rightarrow> DirectoryEntry" where
  "entry_of r = \<lparr>de_inode = dr_inode r, de_file_type = dr_type r, de_name = dr_name r\<rparr>"

lemma record_reads:
  assumes "record_ok b fin off" and "fin \<le> length b"
  shows "off < fin" and "ext4_read_u32 b off = Inr (dr_inode (record_at b off))"
    and "ext4_read_u16 b (off + 4) = Inr (le16_at b (off + 4))"
    and "unat (le16_at b (off + 4)) = dr_length (record_at b off)" and "0 < dr_length (record_at b off)"
    and "sub_bytes b (off + 8) (unat (b ! (off + 6))) = dr_name (record_at b off)" and "b ! (off + 7) = dr_type (record_at b off)"
    and "unat (b ! (off + 6)) = length (dr_name (record_at b off))"
  using assms by (auto simp: record_ok_def record_at_def read_u32_at read_u16_at)

lemma find_walk:
  assumes "walk b fin off rs" and "fin \<le> length b"
  shows "find_loop b fin name off = Some (map_option entry_of (find (\<lambda>r. live r \<and> dr_name r = name) rs))"
  using assms
proof (induction rule: walk.induct)
  case (walk_Nil fin)
  then show ?case by (subst find_loop.simps) simp
next
  case (walk_Cons fin off rs)
  note r = record_reads [OF walk_Cons.hyps(1) walk_Cons.prems]
  have "entry_of (record_at b off) = \<lparr>de_inode = dr_inode (record_at b off), de_file_type = dr_type (record_at b off),
      de_name = dr_name (record_at b off)\<rparr>" by (simp add: entry_of_def)
  then show ?case using r(1-7) walk_Cons.IH [OF walk_Cons.prems]
    by (subst find_loop.simps) (auto simp: Let_def)
qed

definition actual :: "DirRecord \<Rightarrow> nat" where
  "actual r = next_multiple_of_4 (8 + length (dr_name r))"

definition slack :: "nat \<Rightarrow> DirRecord \<Rightarrow> bool" where
  "slack required r \<longleftrightarrow> live r \<and> actual r \<le> dr_length r \<and> required \<le> dr_length r - actual r"

fun last_slack :: "nat \<Rightarrow> (nat \<times> nat \<times> nat) option \<Rightarrow> nat \<Rightarrow> DirRecord list \<Rightarrow> (nat \<times> nat \<times> nat) option" where
  "last_slack required ins off [] = ins"
| "last_slack required ins off (r # rs) =
     last_slack required (if slack required r then Some (off, actual r, dr_length r) else ins) (off + dr_length r) rs"

lemma insertion_walk:
  assumes "walk b fin off rs" and "fin \<le> length b" and "fin < usize_limit"
  shows "insertion_loop b fin required ins off = Some (Inr (last_slack required ins off rs))"
  using assms
proof (induction arbitrary: ins rule: walk.induct)
  case (walk_Nil fin)
  then show ?case by (subst insertion_loop.simps) simp
next
  case (walk_Cons fin off rs)
  note r = record_reads [OF walk_Cons.hyps(1) walk_Cons.prems(1)]
  have "off + dr_length (record_at b off) < usize_limit"
    using walk_Cons.hyps(1) walk_Cons.prems(2) by (simp add: record_ok_def)
  then show ?case using r walk_Cons.IH [OF walk_Cons.prems]
    by (subst insertion_loop.simps) (simp add: Let_def slack_def actual_def)
qed

lemma last_slack_None: "last_slack required ins off rs = None \<longleftrightarrow> ins = None \<and> \<not> (\<exists>r\<in>set rs. slack required r)"
  by (induction rs arbitrary: ins off) auto

lemma last_slack_Some:
  assumes "last_slack required ins off rs = Some (o', a, l)"
  shows "ins = Some (o', a, l) \<or> (\<exists>pre r post. rs = pre @ r # post \<and> o' = off + span pre \<and> slack required r
    \<and> a = actual r \<and> l = dr_length r)"
  using assms
proof (induction rs arbitrary: ins off)
  case Nil
  then show ?case by simp
next
  case (Cons r rs)
  let ?ins = "if slack required r then Some (off, actual r, dr_length r) else ins"
  from Cons.IH [of ?ins "off + dr_length r"] Cons.prems
  consider "?ins = Some (o', a, l)"
    | pre x post where "rs = pre @ x # post" "o' = off + dr_length r + span pre" "slack required x" "a = actual x" "l = dr_length x"
    by auto
  then show ?case
  proof cases
    case 1
    then show ?thesis by (cases "slack required r") (auto intro!: exI [of _ "[]"])
  next
    case 2
    then show ?thesis by (intro disjI2 exI [of _ "r # pre"]) auto
  qed
qed

definition matches :: "u8 list \<Rightarrow> u32 \<Rightarrow> DirRecord \<Rightarrow> bool" where
  "matches name num r \<longleftrightarrow> dr_inode r = num \<and> dr_name r = name"

fun first_match :: "u8 list \<Rightarrow> u32 \<Rightarrow> nat option \<Rightarrow> nat \<Rightarrow> DirRecord list \<Rightarrow> (nat \<times> nat \<times> nat option) option" where
  "first_match name num prev off [] = None"
| "first_match name num prev off (r # rs) =
    (if matches name num r then Some (off, dr_length r, prev) else first_match name num (Some off) (off + dr_length r) rs)"

lemma removal_walk:
  assumes "walk b fin off rs" and "fin \<le> length b" and "fin < usize_limit"
  shows "removal_loop b fin name num prev off = Some (Inr (first_match name num prev off rs))"
  using assms
proof (induction arbitrary: prev rule: walk.induct)
  case (walk_Nil fin)
  then show ?case by (subst removal_loop.simps) simp
next
  case (walk_Cons fin off rs)
  note r = record_reads [OF walk_Cons.hyps(1) walk_Cons.prems(1)]
  have "off + dr_length (record_at b off) < usize_limit"
    using walk_Cons.hyps(1) walk_Cons.prems(2) by (simp add: record_ok_def)
  then show ?case using r walk_Cons.IH [OF walk_Cons.prems]
    by (subst removal_loop.simps) (simp add: Let_def matches_def)
qed

lemma first_match_None: "first_match name num prev off rs = None \<longleftrightarrow> \<not> (\<exists>r\<in>set rs. matches name num r)"
  by (induction rs arbitrary: prev off) auto

lemma first_match_Some:
  "first_match name num prev off rs = Some (o', l, p) \<Longrightarrow>
   \<exists>pre r post. rs = pre @ r # post \<and> o' = off + span pre \<and> l = dr_length r \<and> matches name num r
     \<and> (\<forall>x\<in>set pre. \<not> matches name num x) \<and> p = (if pre = [] then prev else Some (off + span (butlast pre)))"
proof (induction rs arbitrary: prev off)
  case Nil
  then show ?case by simp
next
  case (Cons r rs)
  show ?case
  proof (cases "matches name num r")
    case True
    then show ?thesis using Cons.prems by (intro exI [of _ "[]"]) auto
  next
    case False
    then obtain pre x post where x: "rs = pre @ x # post" "o' = off + dr_length r + span pre" "l = dr_length x" "matches name num x"
      "\<forall>y\<in>set pre. \<not> matches name num y" "p = (if pre = [] then Some off else Some (off + dr_length r + span (butlast pre)))"
      using Cons.IH [of "Some off" "off + dr_length r"] Cons.prems by auto
    then show ?thesis using False by (intro exI [of _ "r # pre"] exI [of _ x] exI [of _ post]) auto
  qed
qed

section \<open>Changing a block\<close>

lemma record_at_cong:
  assumes "record_ok b fin off" and "\<And>i. off \<le> i \<Longrightarrow> i < fin \<Longrightarrow> b' ! i = b ! i" and "length b' = length b" and "fin \<le> length b"
  shows "record_at b' off = record_at b off" and "record_ok b' fin off"
proof -
  have eight: "off + 8 \<le> fin" and name: "off + 8 + unat (b ! (off + 6)) \<le> fin" using assms(1) by (auto simp: record_ok_def)
  have same: "sub_bytes b' x n = sub_bytes b x n" if "off \<le> x" "x + n \<le> fin" for x n
    using that assms(2-4) by (intro sub_bytes_cong) auto
  have bytes: "b' ! (off + 6) = b ! (off + 6)" "b' ! (off + 7) = b ! (off + 7)" using eight by (auto intro!: assms(2))
  show eq: "record_at b' off = record_at b off"
    using same [of off 4] same [of "off + 4" 2] same [of "off + 8" "unat (b ! (off + 6))"] eight name
    by (simp add: record_at_def le32_at_def le16_at_def bytes)
  show "record_ok b' fin off" using assms(1) unfolding record_ok_def eq bytes by simp
qed

lemma walk_cong:
  assumes "walk b fin off rs" and "\<And>i. off \<le> i \<Longrightarrow> i < fin \<Longrightarrow> b' ! i = b ! i" and "length b' = length b" and "fin \<le> length b"
  shows "walk b' fin off rs"
  using assms
proof (induction rule: walk.induct)
  case (walk_Nil fin)
  then show ?case by simp
next
  case (walk_Cons fin off rs)
  note c = record_at_cong [OF walk_Cons.hyps(1) walk_Cons.prems]
  have "walk b' fin (off + dr_length (record_at b off)) rs" by (rule walk_Cons.IH) (use walk_Cons.prems in auto)
  then show ?case using c by (simp add: walk_Cons_iff)
qed

lemma record_ok_mono: "record_ok b mid off \<Longrightarrow> mid \<le> fin \<Longrightarrow> record_ok b fin off"
  by (auto simp: record_ok_def)

lemma walk_append: "walk b fin off (xs @ ys) \<longleftrightarrow> walk b (off + span xs) off xs \<and> walk b fin (off + span xs) ys"
proof (induction xs arbitrary: off)
  case Nil
  then show ?case by simp
next
  case (Cons x xs)
  have "record_ok b fin off \<longleftrightarrow> record_ok b (off + dr_length x + span xs) off"
    if "x = record_at b off" "walk b fin (off + dr_length x + span xs) ys"
    using that walk_span [OF that(2)] by (auto simp: record_ok_def)
  then show ?case using Cons.IH [of "off + dr_length x"] by (auto simp: walk_Cons_iff add.assoc)
qed

lemma sub_bytes_copy_within:
  assumes "a + length z \<le> length b" and "k + n \<le> length z"
  shows "sub_bytes (copy_at b a z) (a + k) n = sub_bytes z k n"
  using assms by (intro nth_equalityI) (auto simp: sub_bytes_def nth_copy_at)

lemma nth_copy_within: "a + length z \<le> length b \<Longrightarrow> k < length z \<Longrightarrow> copy_at b a z ! (a + k) = z ! k"
  by (simp add: nth_copy_at)

lemma copy_at_nested:
  assumes "a + length z \<le> length b" and "k + length y \<le> length z"
  shows "copy_at (copy_at b a z) (a + k) y = copy_at b a (copy_at z k y)"
  using assms by (intro nth_equalityI) (auto simp: nth_copy_at)

section \<open>Parsed blocks\<close>

definition directory_ok :: "u8 list \<Rightarrow> Inode \<Rightarrow> Superblock \<Rightarrow> nat \<Rightarrow> bool" where
  "directory_ok b ino sb fin \<longleftrightarrow> is_directory ino \<and> in_flags ino AND INODE_FLAG_DIRECTORY_INDEX = 0
     \<and> length b = unat (sb_block_size sb)
     \<and> (if has_metadata_checksums sb
        then fin + 12 = length b \<and> le32_at b fin = 0 \<and> le16_at b (fin + 4) = 12 \<and> b ! (fin + 6) = 0
          \<and> b ! (fin + 7) = DIRECTORY_CHECKSUM_FILE_TYPE \<and> le32_at b (fin + 8) = directory_checksum (take fin b) ino sb
        else fin = length b)"

lemma directory_end_Inr:
  "directory_entries_end b ino sb = Inr fin \<longleftrightarrow>
    (if has_metadata_checksums sb
     then fin + 12 = length b \<and> le32_at b fin = 0 \<and> le16_at b (fin + 4) = 12 \<and> b ! (fin + 6) = 0
       \<and> b ! (fin + 7) = DIRECTORY_CHECKSUM_FILE_TYPE \<and> le32_at b (fin + 8) = directory_checksum (take fin b) ino sb
     else fin = length b)"
proof (cases "has_metadata_checksums sb \<and> 12 \<le> length b")
  case True
  then obtain tail where t: "length b = tail + 12" by (metis le_add_diff_inverse2)
  then have "length b - 4 = tail + 8" by simp
  then have "directory_entries_end b ino sb =
      (if le32_at b tail \<noteq> 0 then Inl InvalidDirectory
       else if le16_at b (tail + 4) \<noteq> 12 \<or> b ! (tail + 6) \<noteq> 0 \<or> b ! (tail + 7) \<noteq> DIRECTORY_CHECKSUM_FILE_TYPE then Inl InvalidDirectory
       else if directory_checksum (take tail b) ino sb \<noteq> le32_at b (tail + 8) then Inl InvalidChecksum else Inr tail)"
    using True t by (simp add: directory_entries_end_def Let_def read_u32_at read_u16_at add.commute [of 8])
  then show ?thesis using True t by (auto split: if_splits)
qed (auto simp: directory_entries_end_def)

lemma directory_parse_Inr:
  "DirectoryBlock_parse b ino sb = Inr blk \<longleftrightarrow>
    (\<exists>fin rs. directory_ok b ino sb fin \<and> walk b fin 0 rs
       \<and> blk = \<lparr>db_bytes = b, db_entries_end = fin, db_entry_count = length (filter live rs)\<rparr>)"
proof -
  have "fin \<le> length b" if "directory_entries_end b ino sb = Inr fin" for fin
    using that by (auto simp: directory_end_Inr split: if_splits)
  then show ?thesis
    unfolding DirectoryBlock_parse_def directory_ok_def
    by (auto simp: result_simps validate_directory_entries_def validate_walk directory_end_Inr split: if_splits)
qed

lemma directory_bounds:
  assumes "directory_ok b ino sb fin"
  shows "fin \<le> length b" and "fin < usize_limit" and "fin < 2 ^ 32"
proof -
  show "fin \<le> length b" using assms by (auto simp: directory_ok_def split: if_splits)
  moreover have "length b < 2 ^ 32" using assms unsigned_less [of "sb_block_size sb"] by (simp add: directory_ok_def)
  ultimately show "fin < usize_limit" "fin < 2 ^ 32" by (simp_all add: usize_limit_def)
qed

definition resealed_directory :: "nat \<Rightarrow> Inode \<Rightarrow> Superblock \<Rightarrow> u8 list \<Rightarrow> u8 list" where
  "resealed_directory fin ino sb b =
    (if has_metadata_checksums sb then copy_at b (fin + 8) (to_le_bytes (directory_checksum (take fin b) ino sb)) else b)"

lemma resealed_directory_ok:
  assumes ok: "directory_ok b ino sb fin" and len: "length b1 = length b" and same: "\<And>i. fin \<le> i \<Longrightarrow> i < length b \<Longrightarrow> b1 ! i = b ! i"
  shows "directory_ok (resealed_directory fin ino sb b1) ino sb fin"
    and "refresh_directory_checksum fin ino sb b1 = (Inr (), resealed_directory fin ino sb b1)"
    and "length (resealed_directory fin ino sb b1) = length b"
    and "i < fin \<Longrightarrow> resealed_directory fin ino sb b1 ! i = b1 ! i"
proof -
  let ?r = "resealed_directory fin ino sb b1"
  note bounds = directory_bounds [OF ok]
  show l: "length ?r = length b" using ok len by (auto simp: resealed_directory_def directory_ok_def split: if_splits)
  show "?r ! i = b1 ! i" if "i < fin" using that ok len by (auto simp: resealed_directory_def directory_ok_def nth_copy_at split: if_splits)
  show "refresh_directory_checksum fin ino sb b1 = (Inr (), ?r)"
    using ok len bounds(1,3) unfolding refresh_directory_checksum_def resealed_directory_def
    by (auto simp: when_edit_def done_ok_def directory_ok_def edit_early ext4_write_u32_def overwrite_def usize_add_def usize_limit_def
      split: if_splits)
  show "directory_ok ?r ino sb fin"
  proof (cases "has_metadata_checksums sb")
    case True
    then have fin: "fin + 12 = length b" using ok by (simp add: directory_ok_def)
    have eq: "sub_bytes b1 x n = sub_bytes b x n" if "fin \<le> x" "x + n \<le> length b" for x n
      using that len same by (intro sub_bytes_cong) auto
    have "take fin ?r = take fin b1" using True fin len by (simp add: resealed_directory_def take_copy_at)
    moreover have "le32_at ?r (fin + 8) = directory_checksum (take fin b1) ino sb"
      using True fin len by (simp add: resealed_directory_def)
    moreover have "le32_at ?r fin = le32_at b fin" "le16_at ?r (fin + 4) = le16_at b (fin + 4)"
      using True fin len eq [of fin 4] eq [of "fin + 4" 2]
      by (simp_all add: resealed_directory_def field_simps_other) (simp_all add: le32_at_def le16_at_def)
    moreover have "?r ! (fin + 6) = b ! (fin + 6)" "?r ! (fin + 7) = b ! (fin + 7)"
      using True fin len same [of "fin + 6"] same [of "fin + 7"] by (simp_all add: resealed_directory_def nth_copy_at)
    ultimately show ?thesis using ok True l by (simp add: directory_ok_def)
  next
    case False
    then show ?thesis using ok len by (simp add: directory_ok_def resealed_directory_def)
  qed
qed

end
