(* ===== verification/Ext4_Directory_Proofs.thy ===== *)
theory Ext4_Directory_Proofs
  imports Ext4_Directory_Records
begin

text \<open>
  Directory blocks as maps. Insertion and removal change one record of the list of records of a block; on
  blocks that bind a name at most once they are the update and the deletion of a finite map.
\<close>

section \<open>Insertion\<close>

lemma next_multiple: "n \<le> next_multiple_of_4 n" "next_multiple_of_4 n < n + 4" "next_multiple_of_4 n mod 4 = 0"
  by (simp_all add: next_multiple_of_4_def)

text \<open>The bytes of a new record.\<close>

definition record_bytes :: "u32 \<Rightarrow> nat \<Rightarrow> u8 list \<Rightarrow> u8 \<Rightarrow> u8 list" where
  "record_bytes num n name ft = written
     [(8, name), (7, [ft]), (6, [word_of_nat (length name)]), (4, to_le_bytes (word_of_nat n :: u16)), (0, to_le_bytes num)]
     (replicate n 0)"

lemma record_bytes_fields:
  assumes "8 + length name \<le> n"
  shows "length (record_bytes num n name ft) = n" and "le32_at (record_bytes num n name ft) 0 = num"
    and "le16_at (record_bytes num n name ft) 4 = word_of_nat n" and "record_bytes num n name ft ! 6 = word_of_nat (length name)"
    and "record_bytes num n name ft ! 7 = ft" and "sub_bytes (record_bytes num n name ft) 8 (length name) = name"
proof -
  let ?w = "[(7, [ft]), (6, [word_of_nat (length name)]), (4, to_le_bytes (word_of_nat n :: u16)), (0, to_le_bytes num)]"
  have fits: "fits n ((8, name) # ?w)" using assms by simp
  show "length (record_bytes num n name ft) = n" using fits by (simp add: record_bytes_def length_written del: written.simps)
  show "le32_at (record_bytes num n name ft) 0 = num" "le16_at (record_bytes num n name ft) 4 = word_of_nat n"
    "sub_bytes (record_bytes num n name ft) 8 (length name) = name"
    using fits unfolding record_bytes_def le32_at_def le16_at_def by (simp_all add: written_simps del: written.simps)
  show "record_bytes num n name ft ! 6 = word_of_nat (length name)" "record_bytes num n name ft ! 7 = ft"
    using assms by (simp_all add: record_bytes_def nth_copy_at)
qed

definition inserted :: "nat \<Rightarrow> DirRecord \<Rightarrow> u8 list \<Rightarrow> u32 \<Rightarrow> u8 \<Rightarrow> u8 list \<Rightarrow> u8 list" where
  "inserted off r name num ft b =
     copy_at (copy_at b (off + 4) (to_le_bytes (word_of_nat (actual r) :: u16))) (off + actual r)
       (record_bytes num (dr_length r - actual r) name ft)"

lemma unat_u16: "n < 65536 \<Longrightarrow> unat (word_of_nat n :: u16) = n"
  by (simp add: unat_of_nat)

lemma record_bound: "dr_length (record_at b off) < 65536"
  using unsigned_less [of "le16_at b (off + 4)"] by (simp add: record_at_def)

lemma walk_at:
  assumes "walk b fin 0 (pre @ r # post)"
  shows "walk b (span pre) 0 pre" and "record_ok b fin (span pre)" and "r = record_at b (span pre)"
    and "walk b fin (span pre + dr_length r) post"
  using assms by (auto simp: walk_append walk_Cons_iff)

lemma inserted_walk:
  fixes name b :: "u8 list" and num :: u32 and ft :: u8 and pre post :: "DirRecord list" and r :: DirRecord
  assumes walk: "walk b fin 0 (pre @ r # post)" and fin: "fin \<le> length b"
    and slack: "slack (next_multiple_of_4 (8 + length name)) r" and name: "length name \<le> 255"
  defines "b' \<equiv> inserted (span pre) r name num ft b"
  shows "walk b' fin 0 (pre @ r\<lparr>dr_length := actual r\<rparr>
      # \<lparr>dr_inode = num, dr_length = dr_length r - actual r, dr_type = ft, dr_name = name\<rparr> # post)"
    and "length b' = length b" and "fin \<le> i \<Longrightarrow> i < length b \<Longrightarrow> b' ! i = b ! i"
proof -
  define off n where "off = span pre" and "n = dr_length r - actual r"
  define z where "z = record_bytes num n name ft"
  note w = walk_at [OF walk, folded off_def]
  note bytes = record_bytes_fields [of name n num ft, folded z_def]
  have len: "actual r \<le> dr_length r" "next_multiple_of_4 (8 + length name) \<le> n" "n + actual r = dr_length r"
    using slack by (auto simp: slack_def n_def)
  then have n: "8 + length name \<le> n" using next_multiple(1) [of "8 + length name"] by linarith
  have rl: "dr_length r < 65536" "dr_length r mod 4 = 0" "off + dr_length r \<le> fin" "unat (b ! (off + 6)) = length (dr_name r)"
    using record_bound [of b off] w(2,3) fin record_reads(8) [OF w(2) fin] by (auto simp: record_ok_def)
  have act: "8 + length (dr_name r) \<le> actual r" "actual r mod 4 = 0" using next_multiple by (simp_all add: actual_def)
  have b': "b' = copy_at (copy_at b (off + 4) (to_le_bytes (word_of_nat (actual r) :: u16))) (off + actual r) z"
    by (simp add: b'_def inserted_def off_def n_def z_def)
  have zlen: "length z = n" using bytes(1) [OF n] .
  have fit: "off + 6 \<le> length b" "off + actual r + n \<le> length b" using act len rl(3) fin by linarith+
  show lenb: "length b' = length b" using fit zlen by (simp add: b')
  have same: "b' ! i = b ! i" if "i < length b" "i < off + 4 \<or> off + 6 \<le> i" "i < off + actual r \<or> off + dr_length r \<le> i" for i
    using that fit zlen len(3) by (auto simp: b' nth_copy_at)
  show "b' ! i = b ! i" if "fin \<le> i" "i < length b" for i using that rl(3) act len by (intro same) auto
  have pre: "walk b' off 0 pre" using w(1) lenb fit by (intro walk_cong [OF w(1)]) (auto intro!: same)
  have post: "walk b' fin (off + dr_length r) post" using lenb fin act len by (intro walk_cong [OF w(4)]) (auto intro!: same)
  have r': "record_at b' off = r\<lparr>dr_length := actual r\<rparr>"
  proof -
    have sub: "sub_bytes b' x m = sub_bytes b x m" if "off + 6 \<le> x \<or> x + m \<le> off + 4" "x + m \<le> off + actual r" for x m
      using that fit lenb by (intro sub_bytes_cong) (auto intro!: same)
    have "le16_at b' (off + 4) = word_of_nat (actual r)"
      using fit zlen act by (simp add: b' le16_copy_other)
    moreover have "b' ! (off + 6) = b ! (off + 6)" "b' ! (off + 7) = b ! (off + 7)" using fit act by (auto intro!: same)
    moreover have "dr_inode r = le32_at b off" "dr_type r = b ! (off + 7)" "dr_name r = sub_bytes b (off + 8) (unat (b ! (off + 6)))"
      using w(3) by (simp_all add: record_at_def)
    moreover have "le32_at b' off = le32_at b off" "sub_bytes b' (off + 8) (unat (b ! (off + 6))) = sub_bytes b (off + 8) (unat (b ! (off + 6)))"
      using sub [of off 4] sub [of "off + 8" "unat (b ! (off + 6))"] act rl(4) by (simp_all add: le32_at_def)
    moreover have "unat (word_of_nat (actual r) :: u16) = actual r" using len rl(1) by (intro unat_u16) linarith
    ultimately show ?thesis by (intro DirRecord.equality) (simp_all add: record_at_def)
  qed
  have new: "record_at b' (off + actual r) = \<lparr>dr_inode = num, dr_length = n, dr_type = ft, dr_name = name\<rparr>"
    "b' ! (off + actual r + 6) = word_of_nat (length name)"
  proof -
    have sub: "sub_bytes b' (off + actual r + k) m = sub_bytes z k m" if "k + m \<le> n" for k m
      using that fit zlen unfolding b' by (intro sub_bytes_copy_within) auto
    have nth: "b' ! (off + actual r + k) = z ! k" if "k < n" for k
      using that fit zlen unfolding b' by (intro nth_copy_within) auto
    have k: "unat (word_of_nat (length name) :: u8) = length name" using name by (simp add: unat_of_nat)
    show "b' ! (off + actual r + 6) = word_of_nat (length name)" using nth [of 6] n bytes(4) [OF n] by simp
    then show "record_at b' (off + actual r) = \<lparr>dr_inode = num, dr_length = n, dr_type = ft, dr_name = name\<rparr>"
      using sub [of 0 4] sub [of 4 2] sub [of 8 "length name"] nth [of 7] n bytes(2-6) [OF n] len rl(1) k
      by (simp add: record_at_def le32_at_def le16_at_def unat_u16)
  qed
  have nlen: "n mod 4 = 0" using len(3) rl(2) act(2) by presburger
  have k: "unat (word_of_nat (length name) :: u8) = length name" using name by (simp add: unat_of_nat)
  have "record_ok b' fin off"
    using act rl len same [of "off + 6"] fit unfolding record_ok_def r' by auto
  moreover have "record_ok b' fin (off + actual r)"
    using n rl(3) len(3) nlen k unfolding record_ok_def new by auto
  ultimately show "walk b' fin 0 (pre @ r\<lparr>dr_length := actual r\<rparr>
      # \<lparr>dr_inode = num, dr_length = dr_length r - actual r, dr_type = ft, dr_name = name\<rparr> # post)"
    using pre post r' new len(3) by (simp add: walk_append walk_Cons_iff off_def [symmetric] n_def [symmetric] add.assoc add.commute [of n])
qed

lemma insertion_writes:
  assumes "off + 6 \<le> length b" and "off + k + n \<le> length b" and "8 + length name \<le> n" and "length name \<le> 255"
  shows "ebind (ext4_write_u16 (off + 4) v) (\<lambda>_.
      ebind (overwrite Truncated (off + k) (replicate n 0)) (\<lambda>_.
      ebind (ext4_write_u32 (off + k) num) (\<lambda>_.
      ebind (ext4_write_u16 (off + k + 4) (word_of_nat n)) (\<lambda>_.
      ebind (guard (255 < length name) InvalidDirectory) (\<lambda>_.
      ebind (overwrite Truncated (off + k + 6) [word_of_nat (length name)]) (\<lambda>_.
      ebind (overwrite Truncated (off + k + 7) [ft]) (\<lambda>_.
      ebind (overwrite Truncated (off + k + 8) name) f))))))) b
    = f () (copy_at (copy_at b (off + 4) (to_le_bytes v)) (off + k) (record_bytes num n name ft))"
proof -
  define x where "x = copy_at b (off + 4) (to_le_bytes v)"
  have x: "off + k + n \<le> length x" using assms by (simp add: x_def)
  have nest: "copy_at (copy_at x (off + k) z) (off + k + j) y = copy_at x (off + k) (copy_at z j y)"
    if "length z = n" "j + length y \<le> n" for z j y using that x by (intro copy_at_nested) auto
  note nest0 = nest [of _ 0, simplified]
  have n: "4 \<le> n" "6 \<le> n" "7 \<le> n" "8 \<le> n" using assms(3) by linarith+
  show ?thesis
    using assms x n
    by (simp add: write_u16_at write_u32_at ebind_overwrite ebind_guard nest nest0 record_bytes_def flip: x_def)
qed

lemma insertion_run:
  fixes b name :: "u8 list" and num :: u32 and ft :: u8 and ino :: Inode and sb :: Superblock and fin :: nat
  assumes ok: "directory_ok b ino sb fin" and walk: "walk b fin 0 (pre @ r # post)"
    and slack: "slack (next_multiple_of_4 (8 + length name)) r" and name: "length name \<le> 255"
  defines "b' \<equiv> resealed_directory fin ino sb (inserted (span pre) r name num ft b)"
    and "rs' \<equiv> pre @ r\<lparr>dr_length := actual r\<rparr>
      # \<lparr>dr_inode = num, dr_length = dr_length r - actual r, dr_type = ft, dr_name = name\<rparr> # post"
  shows "insertion_edit ino sb fin name num ft (span pre, actual r, dr_length r) b =
      (Inr \<lparr>db_bytes = b', db_entries_end = fin, db_entry_count = length (filter live rs')\<rparr>, b')"
    and "directory_ok b' ino sb fin" and "walk b' fin 0 rs'"
proof -
  let ?b = "inserted (span pre) r name num ft b"
  note bounds = directory_bounds [OF ok]
  note w = walk_at [OF walk]
  note ins = inserted_walk [OF walk bounds(1) slack name, where num = num and ft = ft]
  note seal = resealed_directory_ok [OF ok ins(2,3), folded b'_def]
  show ok': "directory_ok b' ino sb fin" by (rule seal(1))
  have "walk ?b fin 0 rs'" using ins(1) by (simp add: rs'_def)
  then show walk': "walk b' fin 0 rs'"
    by (rule walk_cong) (use seal(3,4) ins(2) bounds(1) in auto)
  have "8 + length name \<le> dr_length r - actual r" "actual r \<le> dr_length r"
    using slack next_multiple(1) [of "8 + length name"] unfolding slack_def by linarith+
  moreover have "8 + length (dr_name r) \<le> actual r" by (simp add: actual_def next_multiple)
  moreover have "span pre + dr_length r \<le> length b" using w(2,3) bounds(1) by (auto simp: record_ok_def)
  ultimately have "insertion_edit ino sb fin name num ft (span pre, actual r, dr_length r) b =
    ebind (refresh_directory_checksum fin ino sb) (\<lambda>_. query (\<lambda>bytes. DirectoryBlock_parse bytes ino sb)) ?b"
    using name unfolding insertion_edit_def Let_def prod.case inserted_def by (intro insertion_writes) linarith+
  moreover have "DirectoryBlock_parse b' ino sb = Inr \<lparr>db_bytes = b', db_entries_end = fin, db_entry_count = length (filter live rs')\<rparr>"
    using ok' walk' by (auto simp: directory_parse_Inr)
  ultimately show "insertion_edit ino sb fin name num ft (span pre, actual r, dr_length r) b =
      (Inr \<lparr>db_bytes = b', db_entries_end = fin, db_entry_count = length (filter live rs')\<rparr>, b')"
    using seal(2) by (simp add: ebind_Inr query_def)
qed

section \<open>The directory as a map\<close>

text \<open>What a block binds a name to; \<open>None\<close> if the block does not parse.\<close>

definition directory_map :: "Inode \<Rightarrow> Superblock \<Rightarrow> u8 list \<Rightarrow> (u8 list \<Rightarrow> (u32 \<times> u8) option) option" where
  "directory_map ino sb b =
    (case DirectoryBlock_parse b ino sb of
       Inl e \<Rightarrow> None
     | Inr block \<Rightarrow> Some (\<lambda>name. case DirectoryBlock_find block name of
          Some (Some e) \<Rightarrow> Some (de_inode e, de_file_type e) | _ \<Rightarrow> None))"

definition bound :: "DirRecord list \<Rightarrow> u8 list \<Rightarrow> (u32 \<times> u8) option" where
  "bound rs name = map_option (\<lambda>r. (dr_inode r, dr_type r)) (find (\<lambda>r. live r \<and> dr_name r = name) rs)"

lemma directory_find:
  assumes "directory_ok b ino sb fin" and "walk b fin 0 rs"
  shows "DirectoryBlock_find \<lparr>db_bytes = b, db_entries_end = fin, db_entry_count = n\<rparr> name
    = Some (map_option entry_of (find (\<lambda>r. live r \<and> dr_name r = name) rs))"
  using assms directory_bounds(1) [OF assms(1)] by (simp add: DirectoryBlock_find_def find_walk)

lemma directory_map_bound:
  assumes "directory_ok b ino sb fin" and "walk b fin 0 rs"
  shows "directory_map ino sb b = Some (bound rs)"
proof -
  have "DirectoryBlock_parse b ino sb = Inr \<lparr>db_bytes = b, db_entries_end = fin, db_entry_count = length (filter live rs)\<rparr>"
    using assms by (auto simp: directory_parse_Inr)
  then show ?thesis
    by (auto simp: directory_map_def directory_find [OF assms] bound_def entry_of_def split: option.splits)
qed

lemma find_append: "find P (xs @ ys) = (case find P xs of None \<Rightarrow> find P ys | Some x \<Rightarrow> Some x)"
  by (induction xs) auto

lemma bound_insert:
  assumes "bound (pre @ r # post) name = None" and "num \<noteq> 0"
  shows "bound (pre @ r\<lparr>dr_length := a\<rparr> # \<lparr>dr_inode = num, dr_length = n, dr_type = ft, dr_name = name\<rparr> # post)
    = (bound (pre @ r # post))(name \<mapsto> (num, ft))"
  using assms by (auto simp: bound_def find_append fun_eq_iff split: option.splits if_splits)

definition room :: "Inode \<Rightarrow> Superblock \<Rightarrow> u8 list \<Rightarrow> nat \<Rightarrow> bool" where
  "room ino sb b required \<longleftrightarrow> (\<exists>fin rs r. directory_ok b ino sb fin \<and> walk b fin 0 rs \<and> r \<in> set rs \<and> slack required r)"

lemma walk_unique: "walk b fin off rs \<Longrightarrow> walk b fin off rs' \<Longrightarrow> rs' = rs"
proof (induction arbitrary: rs' rule: walk.induct)
  case (walk_Nil fin)
  then show ?case by (cases rs') (auto simp: walk_Cons_iff record_ok_def)
next
  case (walk_Cons fin off rs)
  show ?case using walk_Cons.prems walk_Cons.IH record_ok_less [OF walk_Cons.hyps(1)]
    by (cases rs') (auto simp: walk_Cons_iff)
qed

lemma directory_unique: "directory_ok b ino sb fin \<Longrightarrow> directory_ok b ino sb fin' \<Longrightarrow> fin' = fin"
  by (auto simp: directory_ok_def split: if_splits)

abbreviation names :: "DirRecord list \<Rightarrow> u8 list list" where
  "names rs \<equiv> map dr_name (filter live rs)"

lemma bound_None: "bound rs name = None \<longleftrightarrow> name \<notin> set (names rs)"
  by (auto simp: bound_def find_None_iff)

definition unique_names :: "Inode \<Rightarrow> Superblock \<Rightarrow> u8 list \<Rightarrow> bool" where
  "unique_names ino sb b \<longleftrightarrow> (\<forall>fin rs. directory_ok b ino sb fin \<longrightarrow> walk b fin 0 rs \<longrightarrow> distinct (names rs))"

lemma unique_namesI: "directory_ok b ino sb fin \<Longrightarrow> walk b fin 0 rs \<Longrightarrow> distinct (names rs) \<Longrightarrow> unique_names ino sb b"
  using walk_unique directory_unique unfolding unique_names_def by blast

lemma insert_run:
  assumes ok: "directory_ok b ino sb fin" and walk: "walk b fin 0 rs" and distinct: "distinct (names rs)"
    and args: "validate_path_component name = Inr ()" "num \<noteq> 0" "num \<le> sb_inode_count sb"
      "ft \<in> set [DIRECTORY_ENTRY_REGULAR_FILE, DIRECTORY_ENTRY_DIRECTORY, DIRECTORY_ENTRY_SYMLINK]"
  defines "required \<equiv> next_multiple_of_4 (8 + length name)"
  shows "bound rs name \<noteq> None \<or> \<not> (\<exists>r\<in>set rs. slack required r) \<Longrightarrow>
      insert_linear_directory_entry ino sb name num ft b = Some (Inl InvalidDirectory, b)"
    and "bound rs name = None \<Longrightarrow> \<exists>r\<in>set rs. slack required r \<Longrightarrow>
      \<exists>b'. insert_linear_directory_entry ino sb name num ft b = Some (Inr (), b')
        \<and> directory_map ino sb b' = Some ((bound rs)(name \<mapsto> (num, ft))) \<and> unique_names ino sb b'"
proof -
  let ?blk = "\<lparr>db_bytes = b, db_entries_end = fin, db_entry_count = length (filter live rs)\<rparr>"
  note bounds = directory_bounds [OF ok]
  have parse: "DirectoryBlock_parse b ino sb = Inr ?blk" using ok walk by (auto simp: directory_parse_Inr)
  have len: "length name \<le> 255" using args(1) by (auto simp: validate_path_component_def split: if_splits)
  have start: "rbind (validate_path_component name) (\<lambda>_.
       if num = 0 \<or> sb_inode_count sb < num \<or> ft \<notin> set [DIRECTORY_ENTRY_REGULAR_FILE, DIRECTORY_ENTRY_DIRECTORY, DIRECTORY_ENTRY_SYMLINK]
       then Inl InvalidDirectory else DirectoryBlock_parse b ino sb) = Inr ?blk"
    using args parse by (simp add: not_less)
  note scan = insertion_walk [OF walk bounds(1,2), of required None] and find = directory_find [OF ok walk]
  show "insert_linear_directory_entry ino sb name num ft b = Some (Inl InvalidDirectory, b)"
    if "bound rs name \<noteq> None \<or> \<not> (\<exists>r\<in>set rs. slack required r)"
    using that last_slack_None [of required None 0 rs] unfolding insert_linear_directory_entry_def start
    by (auto simp: find scan bound_def simp flip: required_def split: option.splits)
  show "\<exists>b'. insert_linear_directory_entry ino sb name num ft b = Some (Inr (), b')
        \<and> directory_map ino sb b' = Some ((bound rs)(name \<mapsto> (num, ft))) \<and> unique_names ino sb b'"
    if absent: "bound rs name = None" and some: "\<exists>r\<in>set rs. slack required r"
  proof -
    obtain o' a l where last: "last_slack required None 0 rs = Some (o', a, l)"
      using some last_slack_None [of required None 0 rs] by (cases "last_slack required None 0 rs") auto
    then obtain pre r post where rs: "rs = pre @ r # post" "o' = span pre" "slack required r" "a = actual r" "l = dr_length r"
      using last_slack_Some [OF last] by auto
    note run = insertion_run [OF ok walk [unfolded rs(1)] rs(3) [unfolded required_def] len, where num = num and ft = ft]
    let ?b = "resealed_directory fin ino sb (inserted (span pre) r name num ft b)"
    let ?rs = "pre @ r\<lparr>dr_length := actual r\<rparr>
      # \<lparr>dr_inode = num, dr_length = dr_length r - actual r, dr_type = ft, dr_name = name\<rparr> # post"
    have new: "bound ?rs = (bound rs)(name \<mapsto> (num, ft))" using bound_insert absent args(2) by (simp add: rs(1))
    then obtain x where x: "find (\<lambda>r. live r \<and> dr_name r = name) ?rs = Some x" "dr_inode x = num" "dr_type x = ft"
      by (auto simp: bound_def fun_eq_iff dest!: spec [of _ name])
    have none: "find (\<lambda>r. live r \<and> dr_name r = name) rs = None" using absent by (simp add: bound_def)
    obtain n where edit: "insertion_edit ino sb fin name num ft (o', a, l) b =
        (Inr \<lparr>db_bytes = ?b, db_entries_end = fin, db_entry_count = n\<rparr>, ?b)" using run(1) unfolding rs(2,4,5) by blast
    have "DirectoryBlock_find \<lparr>db_bytes = ?b, db_entries_end = fin, db_entry_count = n\<rparr> name = Some (Some (entry_of x))"
      using directory_find [OF run(2,3)] x(1) by simp
    then have "insert_linear_directory_entry ino sb name num ft b = Some (Inr (), ?b)"
      unfolding insert_linear_directory_entry_def start
      by (simp add: find none scan last edit x(2,3) entry_of_def flip: required_def)
    moreover have "directory_map ino sb ?b = Some (bound ?rs)" using directory_map_bound [OF run(2,3)] .
    moreover have "name \<notin> set (names rs)" using absent by (simp only: bound_None not_False_eq_True)
    then have "distinct (names ?rs)" using distinct by (auto simp: rs(1) split: if_splits)
    then have "unique_names ino sb ?b" by (rule unique_namesI [OF run(2,3)])
    ultimately show ?thesis using new by auto
  qed
qed

section \<open>Removal\<close>

definition cleared :: "nat \<Rightarrow> DirRecord \<Rightarrow> u8 list \<Rightarrow> u8 list" where
  "cleared off r b = copy_at (copy_at b off (to_le_bytes (0 :: u32))) (off + 6) (replicate (dr_length r - 6) 0)"

definition merged :: "nat \<Rightarrow> DirRecord \<Rightarrow> DirRecord \<Rightarrow> u8 list \<Rightarrow> u8 list" where
  "merged off q r b = copy_at (copy_at b (off + dr_length q) (replicate (dr_length r) 0)) (off + 4)
     (to_le_bytes (word_of_nat (dr_length q + dr_length r) :: u16))"

lemma cleared_walk:
  assumes walk: "walk b fin 0 (r # post)" and fin: "fin \<le> length b"
  shows "walk (cleared 0 r b) fin 0 (r\<lparr>dr_inode := 0, dr_type := 0, dr_name := []\<rparr> # post)"
    and "length (cleared 0 r b) = length b" and "fin \<le> i \<Longrightarrow> i < length b \<Longrightarrow> cleared 0 r b ! i = b ! i"
proof -
  have r: "r = record_at b 0" "record_ok b fin 0" and post: "walk b fin (dr_length r) post"
    using walk by (auto simp: walk_Cons_iff)
  have len: "8 \<le> dr_length r" "dr_length r \<le> fin" "dr_length r \<le> length b" "dr_length r mod 4 = 0"
    using r fin by (auto simp: record_ok_def)
  show l: "length (cleared 0 r b) = length b" using len by (simp add: cleared_def)
  have same: "cleared 0 r b ! i = b ! i" if "i < length b" "i = 4 \<or> i = 5 \<or> dr_length r \<le> i" for i
    using that len by (auto simp: cleared_def nth_copy_at)
  show "cleared 0 r b ! i = b ! i" if "fin \<le> i" "i < length b" for i using that len by (intro same) auto
  have zero: "cleared 0 r b ! 6 = 0" "cleared 0 r b ! 7 = 0" using len by (simp_all add: cleared_def nth_copy_at)
  have "le32_at (cleared 0 r b) 0 = 0" using len by (simp add: cleared_def le32_copy_other)
  moreover have "le16_at (cleared 0 r b) 4 = le16_at b 4"
    using len by (simp add: cleared_def le16_copy_other)
  ultimately have new: "record_at (cleared 0 r b) 0 = r\<lparr>dr_inode := 0, dr_type := 0, dr_name := []\<rparr>"
    using r(1) zero by (simp add: record_at_def sub_bytes_def)
  have "record_ok (cleared 0 r b) fin 0"
    using len zero unfolding record_ok_def new by simp
  moreover have "walk (cleared 0 r b) fin (dr_length r) post" using fin l by (intro walk_cong [OF post]) (auto intro!: same)
  ultimately show "walk (cleared 0 r b) fin 0 (r\<lparr>dr_inode := 0, dr_type := 0, dr_name := []\<rparr> # post)"
    using new by (simp add: walk_Cons_iff)
qed

lemma merged_walk:
  fixes b :: "u8 list" and pre post :: "DirRecord list" and q r :: DirRecord
  assumes walk: "walk b fin 0 (pre @ q # r # post)" and fin: "fin \<le> length b" and small: "dr_length q + dr_length r < 65536"
  defines "b' \<equiv> merged (span pre) q r b"
  shows "walk b' fin 0 (pre @ q\<lparr>dr_length := dr_length q + dr_length r\<rparr> # post)"
    and "length b' = length b" and "fin \<le> i \<Longrightarrow> i < length b \<Longrightarrow> b' ! i = b ! i"
proof -
  define off where "off = span pre"
  note w = walk_at [OF walk, folded off_def]
  have r: "record_ok b fin (off + dr_length q)" "r = record_at b (off + dr_length q)"
    and post: "walk b fin (off + dr_length q + dr_length r) post" using w(4) by (auto simp: walk_Cons_iff)
  have len: "8 \<le> dr_length q" "off + dr_length q + dr_length r \<le> fin" "(dr_length q + dr_length r) mod 4 = 0"
    "8 + unat (b ! (off + 6)) \<le> dr_length q"
    using w(2,3) r by (auto simp: record_ok_def mod_add_eq [symmetric])
  have b': "b' = copy_at (copy_at b (off + dr_length q) (replicate (dr_length r) 0)) (off + 4)
     (to_le_bytes (word_of_nat (dr_length q + dr_length r) :: u16))" by (simp add: b'_def merged_def off_def)
  show l: "length b' = length b" using len fin by (simp add: b')
  have same: "b' ! i = b ! i" if "i < length b" "i < off + 4 \<or> off + 6 \<le> i" "i < off + dr_length q \<or> off + dr_length q + dr_length r \<le> i" for i
    using that len fin by (auto simp: b' nth_copy_at)
  show "b' ! i = b ! i" if "fin \<le> i" "i < length b" for i using that len by (intro same) auto
  have sub: "sub_bytes b' x m = sub_bytes b x m" if "off + 6 \<le> x \<or> x + m \<le> off + 4" "x + m \<le> off + dr_length q" for x m
    using that len fin l by (intro sub_bytes_cong) (auto intro!: same)
  have at: "b' ! (off + 6) = b ! (off + 6)" "b' ! (off + 7) = b ! (off + 7)" using len fin by (auto intro!: same)
  have new: "record_at b' off = q\<lparr>dr_length := dr_length q + dr_length r\<rparr>"
  proof -
    have "le16_at b' (off + 4) = word_of_nat (dr_length q + dr_length r)" using len fin by (simp add: b')
    moreover have "dr_inode q = le32_at b off" "dr_type q = b ! (off + 7)" "dr_name q = sub_bytes b (off + 8) (unat (b ! (off + 6)))"
      using w(3) by (simp_all add: record_at_def)
    moreover have "le32_at b' off = le32_at b off" "sub_bytes b' (off + 8) (unat (b ! (off + 6))) = sub_bytes b (off + 8) (unat (b ! (off + 6)))"
      using sub [of off 4] sub [of "off + 8" "unat (b ! (off + 6))"] len by (simp_all add: le32_at_def)
    moreover have "unat (word_of_nat (dr_length q + dr_length r) :: u16) = dr_length q + dr_length r" using small by (rule unat_u16)
    ultimately show ?thesis using at by (intro DirRecord.equality) (simp_all add: record_at_def)
  qed
  have "record_ok b' fin off" using len at unfolding record_ok_def new by simp
  moreover have "walk b' off 0 pre" using l len fin by (intro walk_cong [OF w(1)]) (auto intro!: same)
  moreover have "walk b' fin (off + dr_length q + dr_length r) post" using l len fin by (intro walk_cong [OF post]) (auto intro!: same)
  ultimately show "walk b' fin 0 (pre @ q\<lparr>dr_length := dr_length q + dr_length r\<rparr> # post)"
    using new by (simp add: walk_append walk_Cons_iff off_def [symmetric] add.assoc)
qed

lemma removal_run_first:
  fixes b :: "u8 list" and ino :: Inode and sb :: Superblock and fin :: nat and r :: DirRecord
  assumes ok: "directory_ok b ino sb fin" and walk: "walk b fin 0 (r # post)"
  defines "b' \<equiv> resealed_directory fin ino sb (cleared 0 r b)"
  shows "\<exists>n. removal_edit ino sb fin (0, dr_length r, None) b = (Inr \<lparr>db_bytes = b', db_entries_end = fin, db_entry_count = n\<rparr>, b')"
    and "directory_ok b' ino sb fin" and "walk b' fin 0 (r\<lparr>dr_inode := 0, dr_type := 0, dr_name := []\<rparr> # post)"
proof -
  note bounds = directory_bounds [OF ok]
  note new = cleared_walk [OF walk bounds(1)]
  note seal = resealed_directory_ok [OF ok new(2,3), folded b'_def]
  show ok': "directory_ok b' ino sb fin" by (rule seal(1))
  show walk': "walk b' fin 0 (r\<lparr>dr_inode := 0, dr_type := 0, dr_name := []\<rparr> # post)"
    by (rule walk_cong [OF new(1)]) (use seal(3,4) new(2) bounds(1) in auto)
  have "8 \<le> dr_length r" "dr_length r \<le> length b" using walk bounds(1) by (auto simp: walk_Cons_iff record_ok_def)
  then have "removal_edit ino sb fin (0, dr_length r, None) b =
      ebind (refresh_directory_checksum fin ino sb) (\<lambda>_. query (\<lambda>bytes. DirectoryBlock_parse bytes ino sb)) (cleared 0 r b)"
    unfolding removal_edit_def by (simp add: ebind_assoc write_u32_at ebind_overwrite cleared_def)
  moreover have "\<exists>n. DirectoryBlock_parse b' ino sb = Inr \<lparr>db_bytes = b', db_entries_end = fin, db_entry_count = n\<rparr>"
    using ok' walk' directory_parse_Inr by blast
  ultimately show "\<exists>n. removal_edit ino sb fin (0, dr_length r, None) b = (Inr \<lparr>db_bytes = b', db_entries_end = fin, db_entry_count = n\<rparr>, b')"
    using seal(2) by (auto simp: ebind_Inr query_def)
qed

lemma removal_run_merge:
  fixes b :: "u8 list" and ino :: Inode and sb :: Superblock and fin :: nat and q r :: DirRecord and pre :: "DirRecord list"
  assumes ok: "directory_ok b ino sb fin" and walk: "walk b fin 0 (pre @ q # r # post)" and small: "dr_length q + dr_length r < 65536"
  defines "b' \<equiv> resealed_directory fin ino sb (merged (span pre) q r b)"
  shows "\<exists>n. removal_edit ino sb fin (span pre + dr_length q, dr_length r, Some (span pre)) b
      = (Inr \<lparr>db_bytes = b', db_entries_end = fin, db_entry_count = n\<rparr>, b')"
    and "directory_ok b' ino sb fin" and "walk b' fin 0 (pre @ q\<lparr>dr_length := dr_length q + dr_length r\<rparr> # post)"
proof -
  note bounds = directory_bounds [OF ok]
  note new = merged_walk [OF walk bounds(1) small]
  note seal = resealed_directory_ok [OF ok new(2,3), folded b'_def]
  note w = walk_at [OF walk]
  show ok': "directory_ok b' ino sb fin" by (rule seal(1))
  show walk': "walk b' fin 0 (pre @ q\<lparr>dr_length := dr_length q + dr_length r\<rparr> # post)"
    by (rule walk_cong [OF new(1)]) (use seal(3,4) new(2) bounds(1) in auto)
  have len: "8 \<le> dr_length q" "span pre + dr_length q + dr_length r \<le> length b"
    using w bounds(1) by (auto simp: walk_Cons_iff record_ok_def)
  have q: "unat (le16_at b (span pre + 4)) = dr_length q" using w(3) by (simp add: record_at_def)
  have q': "le16_at b (span pre + 4) = word_of_nat (dr_length q)" by (simp flip: q)
  have "removal_edit ino sb fin (span pre + dr_length q, dr_length r, Some (span pre)) b =
      ebind (refresh_directory_checksum fin ino sb) (\<lambda>_. query (\<lambda>bytes. DirectoryBlock_parse bytes ino sb)) (merged (span pre) q r b)"
    using len small unfolding removal_edit_def
    by (simp add: ebind_assoc edit_early read_u16_at q' unat_u16 write_u16_at ebind_overwrite merged_def not_less)
  moreover have "\<exists>n. DirectoryBlock_parse b' ino sb = Inr \<lparr>db_bytes = b', db_entries_end = fin, db_entry_count = n\<rparr>"
    using ok' walk' directory_parse_Inr by blast
  ultimately show "\<exists>n. removal_edit ino sb fin (span pre + dr_length q, dr_length r, Some (span pre)) b
      = (Inr \<lparr>db_bytes = b', db_entries_end = fin, db_entry_count = n\<rparr>, b')"
    using seal(2) by (auto simp: ebind_Inr query_def)
qed

lemma bound_Some:
  assumes "distinct (names rs)"
  shows "bound rs name = Some (num, ft) \<longleftrightarrow> (\<exists>r\<in>set rs. live r \<and> dr_name r = name \<and> dr_inode r = num \<and> dr_type r = ft)"
  using assms
proof (induction rs)
  case Nil
  then show ?case by (simp add: bound_def)
next
  case (Cons r rs)
  then show ?case by (auto simp: bound_def image_iff split: if_splits)
qed

lemma bound_remove:
  assumes "distinct (names (pre @ r # post))" and "live r"
  shows "bound (pre @ post) = (bound (pre @ r # post))(dr_name r := None)"
proof
  fix name
  have "dr_name r \<notin> set (names (pre @ post))" using assms by auto
  then have "bound (pre @ post) (dr_name r) = None" by (simp only: bound_None not_False_eq_True)
  moreover have "bound (pre @ post) name = bound (pre @ r # post) name" if "name \<noteq> dr_name r"
    using that by (auto simp: bound_def find_append split: option.splits)
  ultimately show "bound (pre @ post) name = ((bound (pre @ r # post))(dr_name r := None)) name" by auto
qed

lemma bound_simps:
  "bound (pre @ q\<lparr>dr_length := n\<rparr> # post) = bound (pre @ q # post)"
  "bound (r\<lparr>dr_inode := 0, dr_type := t, dr_name := x\<rparr> # post) = bound post"
  by (auto simp: bound_def find_append fun_eq_iff split: option.splits)

lemma remove_run:
  assumes ok: "directory_ok b ino sb fin" and walk: "walk b fin 0 rs" and distinct: "distinct (names rs)"
    and args: "validate_path_component name = Inr ()" "num \<noteq> 0" and size: "unat (sb_block_size sb) < 65536"
  shows "\<not> (\<exists>r\<in>set rs. matches name num r) \<Longrightarrow> remove_linear_directory_entry ino sb name num b = Some (Inl InvalidDirectory, b)"
    and "\<exists>r\<in>set rs. matches name num r \<Longrightarrow>
      \<exists>b'. remove_linear_directory_entry ino sb name num b = Some (Inr (), b')
        \<and> directory_map ino sb b' = Some ((bound rs)(name := None)) \<and> unique_names ino sb b'"
proof -
  let ?blk = "\<lparr>db_bytes = b, db_entries_end = fin, db_entry_count = length (filter live rs)\<rparr>"
  note bounds = directory_bounds [OF ok]
  have parse: "rbind (validate_path_component name) (\<lambda>_. DirectoryBlock_parse b ino sb) = Inr ?blk"
    using ok walk args(1) by (auto simp: directory_parse_Inr)
  note scan = removal_walk [OF walk bounds(1,2), of name num None]
  show "remove_linear_directory_entry ino sb name num b = Some (Inl InvalidDirectory, b)" if "\<not> (\<exists>r\<in>set rs. matches name num r)"
    using that first_match_None [of name num None 0 rs] unfolding remove_linear_directory_entry_def parse by (simp add: scan)
  show "\<exists>b'. remove_linear_directory_entry ino sb name num b = Some (Inr (), b')
      \<and> directory_map ino sb b' = Some ((bound rs)(name := None)) \<and> unique_names ino sb b'"
    if some: "\<exists>r\<in>set rs. matches name num r"
  proof -
    obtain m where m: "first_match name num None 0 rs = Some m"
      using some first_match_None [of name num None 0 rs] by (cases "first_match name num None 0 rs") auto
    have "\<exists>b' rs' n. removal_edit ino sb fin m b = (Inr \<lparr>db_bytes = b', db_entries_end = fin, db_entry_count = n\<rparr>, b')
        \<and> directory_ok b' ino sb fin \<and> walk b' fin 0 rs' \<and> bound rs' = (bound rs)(name := None) \<and> distinct (names rs')"
    proof -
      obtain o' l p where mm: "m = (o', l, p)" by (cases m)
      obtain pre r post where rs: "rs = pre @ r # post" "o' = span pre" "l = dr_length r" "dr_inode r = num" "dr_name r = name"
          "p = (if pre = [] then None else Some (span (butlast pre)))"
        using first_match_Some [OF m [unfolded mm]] by (auto simp: matches_def)
      have gone: "bound (pre @ post) = (bound rs)(name := None)"
        using bound_remove [of pre r post] distinct rs(1,4,5) args(2) by simp
      show ?thesis
      proof (cases pre rule: rev_cases)
        case Nil
        note run = removal_run_first [OF ok walk [unfolded rs(1) Nil, simplified]]
        have "m = (0, dr_length r, None)" using mm rs Nil by simp
        then show ?thesis using run gone distinct rs(1) Nil bound_simps(2) [where r = r and post = post]
          by (intro exI [of _ "resealed_directory fin ino sb (cleared 0 r b)"]
              exI [of _ "r\<lparr>dr_inode := 0, dr_type := 0, dr_name := []\<rparr> # post"]) (auto split: if_splits)
      next
        case (snoc pre' q)
        have w: "walk b fin 0 (pre' @ q # r # post)" using walk rs(1) snoc by simp
        have "span pre' + dr_length q + dr_length r \<le> length b"
          using walk_at(4) [OF w] bounds(1) by (auto simp: walk_Cons_iff record_ok_def)
        then have small: "dr_length q + dr_length r < 65536" using ok size by (simp add: directory_ok_def)
        note run = removal_run_merge [OF ok w small]
        have "m = (span pre' + dr_length q, dr_length r, Some (span pre'))" using mm rs snoc by simp
        then show ?thesis using run gone distinct rs(1) snoc bound_simps(1) [where q = q and post = post]
          by (intro exI [of _ "resealed_directory fin ino sb (merged (span pre') q r b)"]
              exI [of _ "pre' @ q\<lparr>dr_length := dr_length q + dr_length r\<rparr> # post"]) (auto split: if_splits)
      qed
    qed
    then obtain b' rs' n where e: "removal_edit ino sb fin m b = (Inr \<lparr>db_bytes = b', db_entries_end = fin, db_entry_count = n\<rparr>, b')"
      "directory_ok b' ino sb fin" "walk b' fin 0 rs'" "bound rs' = (bound rs)(name := None)" "distinct (names rs')" by blast
    have "find (\<lambda>r. live r \<and> dr_name r = name) rs' = None" using fun_cong [OF e(4), of name] by (simp add: bound_def)
    then have "remove_linear_directory_entry ino sb name num b = Some (Inr (), b')"
      unfolding remove_linear_directory_entry_def parse by (simp add: scan m e(1) directory_find [OF e(2,3)])
    then show ?thesis using directory_map_bound [OF e(2,3)] e(4) unique_namesI [OF e(2,3,5)] by auto
  qed
qed

text \<open>\<^bold>\<open>C39\<close>. A directory block implements a finite map from names to inodes. On a block that parses and binds each name
  at most once, insertion and removal always return. Insertion succeeds exactly for a valid new name, an
  inode number of the file system and a known file type when some entry leaves enough room behind its name, and then
  adds exactly that binding. Removal of a non-zero inode number (on blocks below 64 KiB) succeeds exactly when the name is bound to the
  given inode, and then removes exactly that binding. What fails leaves the block as it was; what succeeds
  leaves a block that parses, checksum included, and again binds each name at most once.\<close>

theorem directory_block_refines_map:
  assumes "directory_map ino sb b = Some m" and "unique_names ino sb b"
  shows "(\<exists>r b'. insert_linear_directory_entry ino sb name num ft b = Some (r, b')
      \<and> (r = Inr () \<longleftrightarrow> validate_path_component name = Inr () \<and> num \<noteq> 0 \<and> num \<le> sb_inode_count sb
           \<and> ft \<in> set [DIRECTORY_ENTRY_REGULAR_FILE, DIRECTORY_ENTRY_DIRECTORY, DIRECTORY_ENTRY_SYMLINK]
           \<and> m name = None \<and> room ino sb b (next_multiple_of_4 (8 + length name)))
      \<and> (if r = Inr () then directory_map ino sb b' = Some (m(name \<mapsto> (num, ft))) \<and> unique_names ino sb b' else b' = b))
    \<and> (num \<noteq> 0 \<and> unat (sb_block_size sb) < 65536 \<longrightarrow>
       (\<exists>r b'. remove_linear_directory_entry ino sb name num b = Some (r, b')
      \<and> (r = Inr () \<longleftrightarrow> validate_path_component name = Inr () \<and> (\<exists>ft. m name = Some (num, ft)))
      \<and> (if r = Inr () then directory_map ino sb b' = Some (m(name := None)) \<and> unique_names ino sb b' else b' = b)))"
proof -
  obtain blk where "DirectoryBlock_parse b ino sb = Inr blk" using assms(1) by (auto simp: directory_map_def split: sum.splits)
  then obtain fin rs where ok: "directory_ok b ino sb fin" and walk: "walk b fin 0 rs"
    and parse: "DirectoryBlock_parse b ino sb = Inr \<lparr>db_bytes = b, db_entries_end = fin, db_entry_count = length (filter live rs)\<rparr>"
    by (auto simp: directory_parse_Inr)
  have m: "m = bound rs" using directory_map_bound [OF ok walk] assms(1) by simp
  have distinct: "distinct (names rs)" using assms(2) ok walk by (auto simp: unique_names_def)
  let ?args = "validate_path_component name = Inr () \<and> num \<noteq> 0 \<and> num \<le> sb_inode_count sb
    \<and> ft \<in> set [DIRECTORY_ENTRY_REGULAR_FILE, DIRECTORY_ENTRY_DIRECTORY, DIRECTORY_ENTRY_SYMLINK]"
  have room: "room ino sb b n \<longleftrightarrow> (\<exists>r\<in>set rs. slack n r)" for n
    unfolding room_def using ok walk directory_unique [OF ok] walk_unique [OF walk] by metis
  have bad: "\<exists>e. insert_linear_directory_entry ino sb name num ft b = Some (Inl e, b)" if "\<not> ?args"
    using that by (cases "validate_path_component name") (auto simp: insert_linear_directory_entry_def not_less)
  have insert: "\<exists>r b'. insert_linear_directory_entry ino sb name num ft b = Some (r, b')
      \<and> (r = Inr () \<longleftrightarrow> ?args \<and> m name = None \<and> room ino sb b (next_multiple_of_4 (8 + length name)))
      \<and> (if r = Inr () then directory_map ino sb b' = Some (m(name \<mapsto> (num, ft))) \<and> unique_names ino sb b' else b' = b)"
  proof (cases ?args)
    case True
    then show ?thesis
      using insert_run [OF ok walk distinct, of name num ft] unfolding m room
      by (cases "bound rs name = None \<and> (\<exists>r\<in>set rs. slack (next_multiple_of_4 (8 + length name)) r)") auto
  next
    case False
    then show ?thesis using bad by auto
  qed
  have remove: "\<exists>r b'. remove_linear_directory_entry ino sb name num b = Some (r, b')
      \<and> (r = Inr () \<longleftrightarrow> validate_path_component name = Inr () \<and> (\<exists>ft. m name = Some (num, ft)))
      \<and> (if r = Inr () then directory_map ino sb b' = Some (m(name := None)) \<and> unique_names ino sb b' else b' = b)"
    if "num \<noteq> 0" "unat (sb_block_size sb) < 65536"
  proof (cases "validate_path_component name")
    case (Inl e)
    then show ?thesis by (auto simp: remove_linear_directory_entry_def)
  next
    case (Inr u)
    note run = remove_run [OF ok walk distinct _ that, of name]
    have iff: "(\<exists>ft. m name = Some (num, ft)) \<longleftrightarrow> (\<exists>r\<in>set rs. matches name num r)"
      using that(1) unfolding m bound_Some [OF distinct] matches_def by auto
    show ?thesis
    proof (cases "\<exists>r\<in>set rs. matches name num r")
      case True
      then obtain b' where "remove_linear_directory_entry ino sb name num b = Some (Inr (), b')"
        "directory_map ino sb b' = Some (m(name := None))" "unique_names ino sb b'"
        using run(2) Inr unfolding m by auto
      then show ?thesis using True Inr by (intro exI [of _ "Inr ()"] exI [of _ b']) (simp add: iff)
    next
      case False
      then show ?thesis using run(1) Inr by (intro exI [of _ "Inl InvalidDirectory"] exI [of _ b]) (simp add: iff)
    qed
  qed
  from insert remove show ?thesis by blast
qed

text \<open>A block of 32 bytes with one entry.\<close>

definition small_superblock :: Superblock where
  "small_superblock = plain_superblock\<lparr>sb_block_size := 32\<rparr>"

definition sample_directory :: Inode where
  "sample_directory = (inode_of sample_inode_bytes 2)\<lparr>in_mode := 0x4000, in_flags := 0\<rparr>"

definition sample_block :: "u8 list" where
  "sample_block = [2, 0, 0, 0, 32, 0, 1, 2, 46] @ replicate 23 0"

definition sample_record :: DirRecord where
  "sample_record = \<lparr>dr_inode = 2, dr_length = 32, dr_type = 2, dr_name = [46]\<rparr>"

lemma sample_directory_ok: "directory_ok sample_block sample_directory small_superblock 32"
  by (simp add: directory_ok_def sample_block_def sample_directory_def small_superblock_def plain_superblock_def
    is_directory_def has_metadata_checksums_def MODE_TYPE_MASK_def DIRECTORY_MODE_def)

lemma sample_walk: "walk sample_block 32 0 [sample_record]"
proof -
  have "record_at sample_block 0 = sample_record"
    by (simp add: record_at_def sample_block_def sample_record_def le32_at_def le16_at_def sub_bytes_def from_le_bytes_def)
  moreover have "sample_block ! 6 = 1" by (simp add: sample_block_def)
  ultimately show ?thesis by (simp add: walk_Cons_iff record_ok_def sample_record_def)
qed

theorem directory_block_refines_map_witness:
  "\<exists>b b'. insert_linear_directory_entry sample_directory small_superblock [97] 12 1 sample_block = Some (Inr (), b)
     \<and> remove_linear_directory_entry sample_directory small_superblock [97] 12 b = Some (Inr (), b')
     \<and> directory_map sample_directory small_superblock b' = directory_map sample_directory small_superblock sample_block"
proof -
  let ?d = "sample_directory" and ?sb = "small_superblock"
  have map: "directory_map ?d ?sb sample_block = Some (bound [sample_record])"
    by (rule directory_map_bound [OF sample_directory_ok sample_walk])
  have unique: "unique_names ?d ?sb sample_block" by (rule unique_namesI [OF sample_directory_ok sample_walk]) (simp add: sample_record_def)
  have "slack 12 sample_record" by (simp add: slack_def actual_def next_multiple_of_4_def sample_record_def)
  then have "room ?d ?sb sample_block 12"
    unfolding room_def using sample_directory_ok sample_walk
    by (intro exI [of _ 32] exI [of _ "[sample_record]"] exI [of _ sample_record]) simp
  then have "room ?d ?sb sample_block (next_multiple_of_4 (8 + length [97 :: u8]))" by (simp add: next_multiple_of_4_def)
  moreover have name: "validate_path_component [97] = Inr ()" by (simp add: validate_path_component_def)
  moreover have "(12 :: u32) \<le> sb_inode_count ?sb" "bound [sample_record] [97] = None"
    by (simp_all add: small_superblock_def plain_superblock_def sample_superblock_def bound_def sample_record_def)
  ultimately obtain b where b: "insert_linear_directory_entry ?d ?sb [97] 12 1 sample_block = Some (Inr (), b)"
    "directory_map ?d ?sb b = Some ((bound [sample_record])([97] \<mapsto> (12, 1)))" "unique_names ?d ?sb b"
    using directory_block_refines_map [OF map unique, of "[97]" 12 1] by (auto simp: DIRECTORY_ENTRY_REGULAR_FILE_def)
  have "unat (sb_block_size ?sb) < 65536" by (simp add: small_superblock_def)
  then obtain b' where "remove_linear_directory_entry ?d ?sb [97] 12 b = Some (Inr (), b')"
    "directory_map ?d ?sb b' = Some ((bound [sample_record])([97] := None))"
    using directory_block_refines_map [OF b(2,3), of "[97]" 12 1] name by auto
  moreover have "(bound [sample_record])([97] := None) = bound [sample_record]" by (auto simp: bound_def sample_record_def)
  ultimately show ?thesis using b(1) map by auto
qed

end
