(* ===== verification/Wayland_Wire.thy ===== *)
theory Wayland_Wire
  imports Buffer_Edit
begin

text \<open>
  The wire format of the wayland crate (src/crates/wayland/src/lib.rs): message frames, the reader
  of request arguments, the builder of event messages, the interface names, the advertised globals
  and one encoder per event. A \<open>&str\<close> is a list of bytes that is valid UTF-8. The reader and the
  builder are the states of stateful computations, so a failing builder keeps what it wrote in the
  borrowed buffer.
\<close>

datatype WireError = TruncatedHeader | NullObject | InvalidSize | UnalignedSize | TruncatedMessage
  | BufferTooSmall | MessageTooLarge | TruncatedArgument | TrailingArguments | InvalidString
  | InvalidArray | MissingFileDescriptor | UnexpectedFileDescriptor | UnknownObject | WrongInterface
  | DuplicateObject | ObjectCapacity | ObjectNotRetired | UnknownOpcode | UnsupportedVersion
  | UnknownGlobal | InterfaceMismatch | InvalidVersion | InvalidArgument

definition HEADER_SIZE :: nat where
  "HEADER_SIZE = 8"

definition DISPLAY_OBJECT_ID :: u32 where
  "DISPLAY_OBJECT_ID = 1"

definition MAX_MESSAGE_SIZE :: nat where
  "MAX_MESSAGE_SIZE = 65535 div 4 * 4"

definition WL_KEYBOARD_KEYMAP_FORMAT_XKB_V1 :: u32 where
  "WL_KEYBOARD_KEYMAP_FORMAT_XKB_V1 = 1"

text \<open>The hash runs over the bytes and a final zero.\<close>

definition keymap_hash :: "u8 list \<Rightarrow> u64" where
  "keymap_hash bytes =
    fold (\<lambda>byte hash. (hash XOR ucast byte) * 0x00000100000001b3) (bytes @ [0]) 0xcbf29ce484222325"

section \<open>Frames\<close>

record Header =
  h_object_id :: u32
  h_opcode :: u16
  h_size :: u16

record Frame =
  fr_header :: Header
  fr_payload :: "u8 list"

definition Frame_decode :: "u8 list \<Rightarrow> WireError + Frame \<times> u8 list" where
  "Frame_decode bytes =
    (if length bytes < HEADER_SIZE then Inl TruncatedHeader
     else let object_id = from_le_bytes (take 4 bytes) :: u32 in
       if object_id = 0 then Inl NullObject
       else let header_word = from_le_bytes (take 4 (drop 4 bytes)) :: u32;
                opcode = ucast header_word :: u16;
                size16 = ucast (drop_bit 16 header_word) :: u16;
                size_usize = unat size16 in
         if size_usize < HEADER_SIZE then Inl InvalidSize
         else if size_usize mod 4 \<noteq> 0 then Inl UnalignedSize
         else if length bytes < size_usize then Inl TruncatedMessage
         else Inr (\<lparr>fr_header = \<lparr>h_object_id = object_id, h_opcode = opcode, h_size = size16\<rparr>,
                    fr_payload = drop HEADER_SIZE (take size_usize bytes)\<rparr>, drop size_usize bytes))"

definition align4 :: "nat \<Rightarrow> nat option" where
  "align4 v = (case usize_add v 3 of Some w \<Rightarrow> Some (w div 4 * 4) | None \<Rightarrow> None)"

section \<open>Text\<close>

text \<open>
  Validity of UTF-8 as \<open>core::str::from_utf8\<close> checks it: no overlong forms, no surrogates, nothing
  beyond U+10FFFF.
\<close>

definition utf8_cont :: "u8 \<Rightarrow> bool" where
  "utf8_cont b \<longleftrightarrow> 0x80 \<le> b \<and> b \<le> 0xbf"

fun utf8_valid :: "u8 list \<Rightarrow> bool" where
  "utf8_valid [] = True"
| "utf8_valid (a # r) =
    (if a < 0x80 then utf8_valid r
     else if 0xc2 \<le> a \<and> a \<le> 0xdf then
       (case r of b # r1 \<Rightarrow> utf8_cont b \<and> utf8_valid r1 | _ \<Rightarrow> False)
     else if 0xe0 \<le> a \<and> a \<le> 0xef then
       (case r of b # c # r2 \<Rightarrow>
          (if a = 0xe0 then 0xa0 \<le> b \<and> b \<le> 0xbf
           else if a = 0xed then 0x80 \<le> b \<and> b \<le> 0x9f else utf8_cont b)
          \<and> utf8_cont c \<and> utf8_valid r2
        | _ \<Rightarrow> False)
     else if 0xf0 \<le> a \<and> a \<le> 0xf4 then
       (case r of b # c # d # r3 \<Rightarrow>
          (if a = 0xf0 then 0x90 \<le> b \<and> b \<le> 0xbf
           else if a = 0xf4 then 0x80 \<le> b \<and> b \<le> 0x8f else utf8_cont b)
          \<and> utf8_cont c \<and> utf8_cont d \<and> utf8_valid r3
        | _ \<Rightarrow> False)
     else False)"

text \<open>A string literal of the source as its bytes.\<close>

definition ascii :: "string \<Rightarrow> u8 list" where
  "ascii s = map of_char s"

section \<open>The argument reader\<close>

record ArgumentReader =
  ar_bytes :: "u8 list"
  ar_cursor :: nat

type_synonym 'a reader = "(ArgumentReader, WireError, 'a) stateful"

definition ArgumentReader_new :: "u8 list \<Rightarrow> ArgumentReader" where
  "ArgumentReader_new bytes = \<lparr>ar_bytes = bytes, ar_cursor = 0\<rparr>"

definition ArgumentReader_take :: "nat \<Rightarrow> u8 list reader" where
  "ArgumentReader_take len r =
    (case usize_add (ar_cursor r) len of
       None \<Rightarrow> (Inl TruncatedArgument, r)
     | Some e \<Rightarrow> (case get_range (ar_bytes r) (ar_cursor r) e of
           None \<Rightarrow> (Inl TruncatedArgument, r)
         | Some bytes \<Rightarrow> (Inr bytes, r\<lparr>ar_cursor := e\<rparr>)))"

definition ArgumentReader_uint :: "u32 reader" where
  "ArgumentReader_uint = ebind (ArgumentReader_take 4) (\<lambda>bytes r. (Inr (from_le_bytes bytes), r))"

definition ArgumentReader_int :: "i32 reader" where
  "ArgumentReader_int = ArgumentReader_uint"

definition ArgumentReader_fixed :: "i32 reader" where
  "ArgumentReader_fixed = ArgumentReader_int"

definition ArgumentReader_object :: "u32 reader" where
  "ArgumentReader_object = ebind ArgumentReader_uint
    (\<lambda>object_id r. if object_id = 0 then (Inl NullObject, r) else (Inr object_id, r))"

definition ArgumentReader_nullable_object :: "u32 option reader" where
  "ArgumentReader_nullable_object = ebind ArgumentReader_uint
    (\<lambda>object_id r. if object_id = 0 then (Inr None, r) else (Inr (Some object_id), r))"

definition ArgumentReader_nullable_string :: "u8 list option reader" where
  "ArgumentReader_nullable_string = ebind ArgumentReader_uint (\<lambda>v.
    let len = unat v in
    if len = 0 then (\<lambda>r. (Inr None, r))
    else ebind (query (\<lambda>_. ok_or InvalidString (align4 len))) (\<lambda>padded.
      ebind (ArgumentReader_take padded) (\<lambda>bytes.
      ebind (query (\<lambda>_. ok_or InvalidString (get_range bytes 0 len))) (\<lambda>val.
      ebind (guard (last val \<noteq> 0 \<or> 0 \<in> set (take (len - 1) val)) InvalidString) (\<lambda>_.
      ebind (guard (\<not> utf8_valid (take (len - 1) val)) InvalidString) (\<lambda>_ r.
        (Inr (Some (take (len - 1) val)), r)))))))"

definition ArgumentReader_string :: "u8 list reader" where
  "ArgumentReader_string = ebind ArgumentReader_nullable_string
    (\<lambda>val. query (\<lambda>_. ok_or InvalidString val))"

definition ArgumentReader_array :: "u8 list reader" where
  "ArgumentReader_array = ebind ArgumentReader_uint (\<lambda>v.
    let len = unat v in
    ebind (query (\<lambda>_. ok_or InvalidArray (align4 len))) (\<lambda>padded.
    ebind (ArgumentReader_take padded) (\<lambda>bytes.
    query (\<lambda>_. ok_or InvalidArray (get_range bytes 0 len)))))"

definition ArgumentReader_finish :: "ArgumentReader \<Rightarrow> WireError + unit" where
  "ArgumentReader_finish r = (if ar_cursor r = length (ar_bytes r) then Inr () else Inl TrailingArguments)"

section \<open>The message builder\<close>

record MessageBuilder =
  mb_bytes :: "u8 list"
  mb_cursor :: nat
  mb_object_id :: u32
  mb_opcode :: u16

type_synonym builder = "(MessageBuilder, WireError, unit) stateful"

definition MessageBuilder_new :: "u8 list \<Rightarrow> u32 \<Rightarrow> u16 \<Rightarrow> WireError + MessageBuilder" where
  "MessageBuilder_new bytes object_id opcode =
    (if object_id = 0 then Inl NullObject
     else if length bytes < HEADER_SIZE then Inl BufferTooSmall
     else Inr \<lparr>mb_bytes = bytes, mb_cursor = HEADER_SIZE, mb_object_id = object_id, mb_opcode = opcode\<rparr>)"

definition MessageBuilder_write :: "u8 list \<Rightarrow> builder" where
  "MessageBuilder_write val m =
    (case usize_add (mb_cursor m) (length val) of
       None \<Rightarrow> (Inl MessageTooLarge, m)
     | Some e \<Rightarrow>
         if e \<le> length (mb_bytes m)
         then (Inr (), m\<lparr>mb_bytes := copy_at (mb_bytes m) (mb_cursor m) val, mb_cursor := e\<rparr>)
         else (Inl BufferTooSmall, m))"

primrec write_zeros :: "nat \<Rightarrow> builder" where
  "write_zeros 0 = done_ok"
| "write_zeros (Suc n) = ebind (MessageBuilder_write [0]) (\<lambda>_. write_zeros n)"

definition MessageBuilder_pad :: "nat \<Rightarrow> builder" where
  "MessageBuilder_pad unpadded_length =
    ebind (query (\<lambda>_. ok_or MessageTooLarge (align4 unpadded_length)))
      (\<lambda>padded. write_zeros (padded - unpadded_length))"

definition MessageBuilder_uint :: "u32 \<Rightarrow> builder" where
  "MessageBuilder_uint val = MessageBuilder_write (to_le_bytes val)"

definition MessageBuilder_int :: "i32 \<Rightarrow> builder" where
  "MessageBuilder_int val = MessageBuilder_uint val"

definition MessageBuilder_fixed :: "i32 \<Rightarrow> builder" where
  "MessageBuilder_fixed val = MessageBuilder_int val"

definition MessageBuilder_object :: "u32 \<Rightarrow> builder" where
  "MessageBuilder_object val = (if val = 0 then (\<lambda>m. (Inl NullObject, m)) else MessageBuilder_uint val)"

definition MessageBuilder_nullable_object :: "u32 option \<Rightarrow> builder" where
  "MessageBuilder_nullable_object val = MessageBuilder_uint (case val of Some v \<Rightarrow> v | None \<Rightarrow> 0)"

definition MessageBuilder_string :: "u8 list \<Rightarrow> builder" where
  "MessageBuilder_string val =
    ebind (query (\<lambda>_. ok_or MessageTooLarge (usize_add (length val) 1))) (\<lambda>len.
    ebind (guard (2 ^ 32 \<le> len) MessageTooLarge) (\<lambda>_.
    ebind (MessageBuilder_uint (word_of_nat len)) (\<lambda>_.
    ebind (MessageBuilder_write val) (\<lambda>_.
    ebind (MessageBuilder_write [0]) (\<lambda>_.
    MessageBuilder_pad len)))))"

definition MessageBuilder_nullable_string :: "u8 list option \<Rightarrow> builder" where
  "MessageBuilder_nullable_string val =
    (case val of Some s \<Rightarrow> MessageBuilder_string s | None \<Rightarrow> MessageBuilder_uint 0)"

definition MessageBuilder_array :: "u8 list \<Rightarrow> builder" where
  "MessageBuilder_array val =
    ebind (guard (2 ^ 32 \<le> length val) MessageTooLarge) (\<lambda>_.
    ebind (MessageBuilder_uint (word_of_nat (length val))) (\<lambda>_.
    ebind (MessageBuilder_write val) (\<lambda>_.
    MessageBuilder_pad (length val))))"

text \<open>
  The finished message is the prefix of the buffer up to the cursor; the second component is the
  borrowed buffer as the caller finds it.
\<close>

definition MessageBuilder_finish :: "MessageBuilder \<Rightarrow> (WireError + u8 list) \<times> u8 list" where
  "MessageBuilder_finish m =
    (if MAX_MESSAGE_SIZE < mb_cursor m then (Inl MessageTooLarge, mb_bytes m)
     else if 2 ^ 16 \<le> mb_cursor m then (Inl MessageTooLarge, mb_bytes m)
     else let size16 = word_of_nat (mb_cursor m) :: u16;
              header_word = push_bit 16 (ucast size16) OR ucast (mb_opcode m) :: u32;
              bytes = copy_at (copy_at (mb_bytes m) 0 (to_le_bytes (mb_object_id m))) 4 (to_le_bytes header_word) in
       (Inr (take (mb_cursor m) bytes), bytes))"

text \<open>The shape every encoder has: a new builder, its arguments, and finish.\<close>

definition message :: "u8 list \<Rightarrow> u32 \<Rightarrow> u16 \<Rightarrow> builder \<Rightarrow> (WireError + u8 list) \<times> u8 list" where
  "message bytes object_id opcode body =
    (case MessageBuilder_new bytes object_id opcode of
       Inl e \<Rightarrow> (Inl e, bytes)
     | Inr m \<Rightarrow> (case body m of
           (Inl e, m') \<Rightarrow> (Inl e, mb_bytes m')
         | (Inr _, m') \<Rightarrow> MessageBuilder_finish m'))"

primrec in_order :: "builder list \<Rightarrow> builder" where
  "in_order [] = done_ok"
| "in_order (m # ms) = ebind m (\<lambda>_. in_order ms)"

section \<open>Interfaces and globals\<close>

datatype Interface = Display | Registry | Callback | Compositor | Surface | Region | Shm | ShmPool
  | Buffer | Seat | Pointer | Keyboard | Output | XdgWmBase | XdgSurface | XdgToplevel

primrec Interface_name :: "Interface \<Rightarrow> u8 list" where
  "Interface_name Display = ascii ''wl_display''"
| "Interface_name Registry = ascii ''wl_registry''"
| "Interface_name Callback = ascii ''wl_callback''"
| "Interface_name Compositor = ascii ''wl_compositor''"
| "Interface_name Surface = ascii ''wl_surface''"
| "Interface_name Region = ascii ''wl_region''"
| "Interface_name Shm = ascii ''wl_shm''"
| "Interface_name ShmPool = ascii ''wl_shm_pool''"
| "Interface_name Buffer = ascii ''wl_buffer''"
| "Interface_name Seat = ascii ''wl_seat''"
| "Interface_name Pointer = ascii ''wl_pointer''"
| "Interface_name Keyboard = ascii ''wl_keyboard''"
| "Interface_name Output = ascii ''wl_output''"
| "Interface_name XdgWmBase = ascii ''xdg_wm_base''"
| "Interface_name XdgSurface = ascii ''xdg_surface''"
| "Interface_name XdgToplevel = ascii ''xdg_toplevel''"

definition Interface_from_name :: "u8 list \<Rightarrow> Interface option" where
  "Interface_from_name n =
    (if n = ascii ''wl_display'' then Some Display
     else if n = ascii ''wl_registry'' then Some Registry
     else if n = ascii ''wl_callback'' then Some Callback
     else if n = ascii ''wl_compositor'' then Some Compositor
     else if n = ascii ''wl_surface'' then Some Surface
     else if n = ascii ''wl_region'' then Some Region
     else if n = ascii ''wl_shm'' then Some Shm
     else if n = ascii ''wl_shm_pool'' then Some ShmPool
     else if n = ascii ''wl_buffer'' then Some Buffer
     else if n = ascii ''wl_seat'' then Some Seat
     else if n = ascii ''wl_pointer'' then Some Pointer
     else if n = ascii ''wl_keyboard'' then Some Keyboard
     else if n = ascii ''wl_output'' then Some Output
     else if n = ascii ''xdg_wm_base'' then Some XdgWmBase
     else if n = ascii ''xdg_surface'' then Some XdgSurface
     else if n = ascii ''xdg_toplevel'' then Some XdgToplevel
     else None)"

record Global =
  g_name :: u32
  g_interface :: Interface
  g_version :: u32

definition CORE_GLOBALS :: "Global list" where
  "CORE_GLOBALS =
    [\<lparr>g_name = 1, g_interface = Compositor, g_version = 6\<rparr>,
     \<lparr>g_name = 2, g_interface = Shm, g_version = 1\<rparr>,
     \<lparr>g_name = 3, g_interface = Seat, g_version = 9\<rparr>,
     \<lparr>g_name = 4, g_interface = Output, g_version = 4\<rparr>,
     \<lparr>g_name = 5, g_interface = XdgWmBase, g_version = 6\<rparr>]"

section \<open>Event encoders\<close>

type_synonym encoded = "(WireError + u8 list) \<times> u8 list"

definition encode_registry_global :: "u8 list \<Rightarrow> u32 \<Rightarrow> Global \<Rightarrow> encoded" where
  "encode_registry_global bytes registry glob =
    message bytes registry 0
      (in_order [MessageBuilder_uint (g_name glob), MessageBuilder_string (Interface_name (g_interface glob)), MessageBuilder_uint (g_version glob)])"

definition encode_registry_global_remove :: "u8 list \<Rightarrow> u32 \<Rightarrow> u32 \<Rightarrow> encoded" where
  "encode_registry_global_remove bytes registry global_name =
    message bytes registry 1
      (in_order [MessageBuilder_uint global_name])"

definition encode_display_error :: "u8 list \<Rightarrow> u32 \<Rightarrow> u32 \<Rightarrow> u8 list \<Rightarrow> encoded" where
  "encode_display_error bytes object code description =
    message bytes DISPLAY_OBJECT_ID 0
      (in_order [MessageBuilder_object object, MessageBuilder_uint code, MessageBuilder_string description])"

definition encode_display_delete_id :: "u8 list \<Rightarrow> u32 \<Rightarrow> encoded" where
  "encode_display_delete_id bytes object =
    message bytes DISPLAY_OBJECT_ID 1
      (in_order [MessageBuilder_object object])"

definition encode_callback_done :: "u8 list \<Rightarrow> u32 \<Rightarrow> u32 \<Rightarrow> encoded" where
  "encode_callback_done bytes callback callback_data =
    message bytes callback 0
      (in_order [MessageBuilder_uint callback_data])"

definition encode_shm_format :: "u8 list \<Rightarrow> u32 \<Rightarrow> u32 \<Rightarrow> encoded" where
  "encode_shm_format bytes shm format =
    message bytes shm 0
      (in_order [MessageBuilder_uint format])"

definition encode_seat_capabilities :: "u8 list \<Rightarrow> u32 \<Rightarrow> u32 \<Rightarrow> encoded" where
  "encode_seat_capabilities bytes seat capabilities =
    message bytes seat 0
      (in_order [MessageBuilder_uint capabilities])"

definition encode_seat_name :: "u8 list \<Rightarrow> u32 \<Rightarrow> u8 list \<Rightarrow> encoded" where
  "encode_seat_name bytes seat name =
    message bytes seat 1
      (in_order [MessageBuilder_string name])"

definition encode_keyboard_keymap :: "u8 list \<Rightarrow> u32 \<Rightarrow> u32 \<Rightarrow> u32 \<Rightarrow> encoded" where
  "encode_keyboard_keymap bytes keyboard format keymap_size =
    (if format \<noteq> WL_KEYBOARD_KEYMAP_FORMAT_XKB_V1 \<or> keymap_size = 0 then (Inl InvalidArgument, bytes)
     else message bytes keyboard 0
      (in_order [MessageBuilder_uint format, MessageBuilder_uint keymap_size]))"

definition encode_keyboard_enter :: "u8 list \<Rightarrow> u32 \<Rightarrow> u32 \<Rightarrow> u32 \<Rightarrow> u8 list \<Rightarrow> encoded" where
  "encode_keyboard_enter bytes keyboard serial surface pressed_keys =
    (if serial = 0 \<or> length pressed_keys mod 4 \<noteq> 0 then (Inl InvalidArgument, bytes)
     else message bytes keyboard 1
      (in_order [MessageBuilder_uint serial, MessageBuilder_object surface, MessageBuilder_array pressed_keys]))"

definition encode_keyboard_leave :: "u8 list \<Rightarrow> u32 \<Rightarrow> u32 \<Rightarrow> u32 \<Rightarrow> encoded" where
  "encode_keyboard_leave bytes keyboard serial surface =
    (if serial = 0 then (Inl InvalidArgument, bytes)
     else message bytes keyboard 2
      (in_order [MessageBuilder_uint serial, MessageBuilder_object surface]))"

definition encode_keyboard_key :: "u8 list \<Rightarrow> u32 \<Rightarrow> u32 \<Rightarrow> u32 \<Rightarrow> u32 \<Rightarrow> u32 \<Rightarrow> encoded" where
  "encode_keyboard_key bytes keyboard serial time key state =
    (if serial = 0 \<or> 1 < state then (Inl InvalidArgument, bytes)
     else message bytes keyboard 3
      (in_order [MessageBuilder_uint serial, MessageBuilder_uint time, MessageBuilder_uint key, MessageBuilder_uint state]))"

definition encode_keyboard_modifiers :: "u8 list \<Rightarrow> u32 \<Rightarrow> u32 \<Rightarrow> u32 \<Rightarrow> u32 \<Rightarrow> u32 \<Rightarrow> u32 \<Rightarrow> encoded" where
  "encode_keyboard_modifiers bytes keyboard serial depressed latched locked group_index =
    (if serial = 0 then (Inl InvalidArgument, bytes)
     else message bytes keyboard 4
      (in_order [MessageBuilder_uint serial, MessageBuilder_uint depressed, MessageBuilder_uint latched, MessageBuilder_uint locked, MessageBuilder_uint group_index]))"

definition encode_keyboard_repeat_info :: "u8 list \<Rightarrow> u32 \<Rightarrow> i32 \<Rightarrow> i32 \<Rightarrow> encoded" where
  "encode_keyboard_repeat_info bytes keyboard rate delay =
    (if sint rate < 0 \<or> sint delay < 0 then (Inl InvalidArgument, bytes)
     else message bytes keyboard 5
      (in_order [MessageBuilder_int rate, MessageBuilder_int delay]))"

definition encode_pointer_enter :: "u8 list \<Rightarrow> u32 \<Rightarrow> u32 \<Rightarrow> u32 \<Rightarrow> i32 \<Rightarrow> i32 \<Rightarrow> encoded" where
  "encode_pointer_enter bytes pointer serial surface surface_x surface_y =
    (if serial = 0 then (Inl InvalidArgument, bytes)
     else message bytes pointer 0
      (in_order [MessageBuilder_uint serial, MessageBuilder_object surface, MessageBuilder_fixed surface_x, MessageBuilder_fixed surface_y]))"

definition encode_pointer_leave :: "u8 list \<Rightarrow> u32 \<Rightarrow> u32 \<Rightarrow> u32 \<Rightarrow> encoded" where
  "encode_pointer_leave bytes pointer serial surface =
    (if serial = 0 then (Inl InvalidArgument, bytes)
     else message bytes pointer 1
      (in_order [MessageBuilder_uint serial, MessageBuilder_object surface]))"

definition encode_pointer_motion :: "u8 list \<Rightarrow> u32 \<Rightarrow> u32 \<Rightarrow> i32 \<Rightarrow> i32 \<Rightarrow> encoded" where
  "encode_pointer_motion bytes pointer time surface_x surface_y =
    message bytes pointer 2
      (in_order [MessageBuilder_uint time, MessageBuilder_fixed surface_x, MessageBuilder_fixed surface_y])"

definition encode_pointer_button :: "u8 list \<Rightarrow> u32 \<Rightarrow> u32 \<Rightarrow> u32 \<Rightarrow> u32 \<Rightarrow> u32 \<Rightarrow> encoded" where
  "encode_pointer_button bytes pointer serial time button state =
    (if serial = 0 \<or> 1 < state then (Inl InvalidArgument, bytes)
     else message bytes pointer 3
      (in_order [MessageBuilder_uint serial, MessageBuilder_uint time, MessageBuilder_uint button, MessageBuilder_uint state]))"

definition encode_pointer_axis :: "u8 list \<Rightarrow> u32 \<Rightarrow> u32 \<Rightarrow> u32 \<Rightarrow> i32 \<Rightarrow> encoded" where
  "encode_pointer_axis bytes pointer time axis val =
    (if 1 < axis then (Inl InvalidArgument, bytes)
     else message bytes pointer 4
      (in_order [MessageBuilder_uint time, MessageBuilder_uint axis, MessageBuilder_fixed val]))"

definition encode_pointer_frame :: "u8 list \<Rightarrow> u32 \<Rightarrow> encoded" where
  "encode_pointer_frame bytes pointer =
    message bytes pointer 5
      (in_order [])"

definition encode_output_geometry :: "u8 list \<Rightarrow> u32 \<Rightarrow> i32 \<Rightarrow> i32 \<Rightarrow> i32 \<Rightarrow> i32 \<Rightarrow> i32 \<Rightarrow> u8 list \<Rightarrow> u8 list \<Rightarrow> i32 \<Rightarrow> encoded" where
  "encode_output_geometry bytes output_id x y physical_width physical_height subpixel maker model_name transform =
    (if sint physical_width \<le> 0 \<or> sint physical_height \<le> 0 then (Inl InvalidArgument, bytes)
     else message bytes output_id 0
      (in_order [MessageBuilder_int x, MessageBuilder_int y, MessageBuilder_int physical_width, MessageBuilder_int physical_height, MessageBuilder_int subpixel, MessageBuilder_string maker, MessageBuilder_string model_name, MessageBuilder_int transform]))"

definition encode_output_mode :: "u8 list \<Rightarrow> u32 \<Rightarrow> u32 \<Rightarrow> i32 \<Rightarrow> i32 \<Rightarrow> i32 \<Rightarrow> encoded" where
  "encode_output_mode bytes output_id flags width height refresh =
    (if sint width \<le> 0 \<or> sint height \<le> 0 \<or> sint refresh \<le> 0 then (Inl InvalidArgument, bytes)
     else message bytes output_id 1
      (in_order [MessageBuilder_uint flags, MessageBuilder_int width, MessageBuilder_int height, MessageBuilder_int refresh]))"

definition encode_output_done :: "u8 list \<Rightarrow> u32 \<Rightarrow> encoded" where
  "encode_output_done bytes output_id =
    message bytes output_id 2
      (in_order [])"

definition encode_output_scale :: "u8 list \<Rightarrow> u32 \<Rightarrow> i32 \<Rightarrow> encoded" where
  "encode_output_scale bytes output_id factor =
    (if sint factor \<le> 0 then (Inl InvalidArgument, bytes)
     else message bytes output_id 3
      (in_order [MessageBuilder_int factor]))"

definition encode_output_name :: "u8 list \<Rightarrow> u32 \<Rightarrow> u8 list \<Rightarrow> encoded" where
  "encode_output_name bytes output_id name =
    message bytes output_id 4
      (in_order [MessageBuilder_string name])"

definition encode_output_description :: "u8 list \<Rightarrow> u32 \<Rightarrow> u8 list \<Rightarrow> encoded" where
  "encode_output_description bytes output_id description =
    message bytes output_id 5
      (in_order [MessageBuilder_string description])"

definition encode_xdg_toplevel_configure :: "u8 list \<Rightarrow> u32 \<Rightarrow> i32 \<Rightarrow> i32 \<Rightarrow> u8 list \<Rightarrow> encoded" where
  "encode_xdg_toplevel_configure bytes toplevel width height states =
    (if sint width < 0 \<or> sint height < 0 then (Inl InvalidArgument, bytes)
     else message bytes toplevel 0
      (in_order [MessageBuilder_int width, MessageBuilder_int height, MessageBuilder_array states]))"

definition encode_xdg_surface_configure :: "u8 list \<Rightarrow> u32 \<Rightarrow> u32 \<Rightarrow> encoded" where
  "encode_xdg_surface_configure bytes xdg_surface serial =
    (if serial = 0 then (Inl InvalidArgument, bytes)
     else message bytes xdg_surface 0
      (in_order [MessageBuilder_uint serial]))"

definition encode_buffer_release :: "u8 list \<Rightarrow> u32 \<Rightarrow> encoded" where
  "encode_buffer_release bytes buffer =
    message bytes buffer 0
      (in_order [])"

text \<open>What a decoded frame says of the bytes.\<close>

lemma Frame_decode_Inr:
  assumes "Frame_decode bytes = Inr (frame, rest)"
  shows "8 \<le> length bytes" and "rest = drop (unat (h_size (fr_header frame))) bytes"
    and "8 \<le> unat (h_size (fr_header frame))" and "unat (h_size (fr_header frame)) \<le> length bytes"
    and "unat (h_size (fr_header frame)) mod 4 = 0" and "h_object_id (fr_header frame) \<noteq> 0"
    and "fr_payload frame = drop 8 (take (unat (h_size (fr_header frame))) bytes)"
  using assms by (auto simp: Frame_decode_def HEADER_SIZE_def Let_def split: if_splits)

end
