(* ===== verification/Wayland.thy ===== *)
theory Wayland
  imports Wayland_Wire
begin

text \<open>
  The protocol state of the wayland crate (src/crates/wayland/src/lib.rs): the fixed-capacity object
  map, the connection that dispatches requests by the interface of the receiving object, and the
  staged session of one surface. Dispatch is a stateful computation over the argument reader and the
  connection, so an object that a request created before its arguments turned out wrong stays in the
  map, as in the source. The capacity of the map is the length of its slot list.
\<close>

section \<open>Objects\<close>

datatype ObjectState = Empty | Active | Retired

record Object =
  ob_id :: u32
  ob_interface :: Interface
  ob_version :: u32
  ob_state :: ObjectState

definition Object_EMPTY :: Object where
  "Object_EMPTY = \<lparr>ob_id = 0, ob_interface = Display, ob_version = 0, ob_state = Empty\<rparr>"

definition is_active :: "Object \<Rightarrow> bool" where
  "is_active ob \<longleftrightarrow> ob_state ob = Active"

definition is_retired :: "Object \<Rightarrow> bool" where
  "is_retired ob \<longleftrightarrow> ob_state ob = Retired"

record ObjectMap =
  om_slots :: "Object list"

definition ObjectMap_new :: "nat \<Rightarrow> WireError + ObjectMap" where
  "ObjectMap_new capacity =
    (if capacity = 0 then Inl ObjectCapacity
     else Inr \<lparr>om_slots = (replicate capacity Object_EMPTY)
       [0 := \<lparr>ob_id = DISPLAY_OBJECT_ID, ob_interface = Display, ob_version = 1, ob_state = Active\<rparr>]\<rparr>)"

definition ObjectMap_get :: "ObjectMap \<Rightarrow> u32 \<Rightarrow> WireError + Object" where
  "ObjectMap_get om i = ok_or UnknownObject (find (\<lambda>slot. ob_id slot = i \<and> is_active slot) (om_slots om))"

text \<open>The first slot that satisfies a predicate, updated in place.\<close>

definition update_first :: "(Object \<Rightarrow> bool) \<Rightarrow> WireError \<Rightarrow> (Object \<Rightarrow> Object) \<Rightarrow> (ObjectMap, WireError, unit) stateful" where
  "update_first P e f om =
    (case position P (om_slots om) of
       None \<Rightarrow> (Inl e, om)
     | Some k \<Rightarrow> (Inr (), om\<lparr>om_slots := (om_slots om)[k := f (om_slots om ! k)]\<rparr>))"

definition ObjectMap_insert :: "u32 \<Rightarrow> Interface \<Rightarrow> u32 \<Rightarrow> (ObjectMap, WireError, unit) stateful" where
  "ObjectMap_insert i interface version =
    ebind (guard (i = 0) NullObject) (\<lambda>_.
    ebind (guard (version = 0) InvalidVersion) (\<lambda>_.
    ebind (query (\<lambda>om. if list_ex (\<lambda>slot. ob_id slot = i) (om_slots om) then Inl DuplicateObject else Inr ())) (\<lambda>_.
    update_first (\<lambda>slot. ob_state slot = Empty) ObjectCapacity
      (\<lambda>_. \<lparr>ob_id = i, ob_interface = interface, ob_version = version, ob_state = Active\<rparr>))))"

definition ObjectMap_retire :: "u32 \<Rightarrow> (ObjectMap, WireError, unit) stateful" where
  "ObjectMap_retire i =
    ebind (guard (i = DISPLAY_OBJECT_ID) InvalidArgument) (\<lambda>_.
    update_first (\<lambda>slot. ob_id slot = i \<and> is_active slot) UnknownObject (\<lambda>slot. slot\<lparr>ob_state := Retired\<rparr>))"

definition ObjectMap_delete_id_sent :: "u32 \<Rightarrow> (ObjectMap, WireError, unit) stateful" where
  "ObjectMap_delete_id_sent i =
    update_first (\<lambda>slot. ob_id slot = i \<and> is_retired slot) ObjectNotRetired (\<lambda>_. Object_EMPTY)"

definition active_count :: "ObjectMap \<Rightarrow> nat" where
  "active_count om = length (filter is_active (om_slots om))"

section \<open>Requests\<close>

datatype Request =
    Sync u32
  | GetRegistry u32
  | Bind u32 u32 Interface u32 u32
  | CreateSurface u32 u32
  | CreateRegion u32 u32
  | Destroy u32 Interface
  | RegionAdd u32 i32 i32 i32 i32
  | RegionSubtract u32 i32 i32 i32 i32
  | SurfaceAttach u32 "u32 option" i32 i32
  | SurfaceDamage u32 bool i32 i32 i32 i32
  | SurfaceFrame u32 u32
  | SurfaceSetRegion u32 bool "u32 option"
  | SurfaceCommit u32
  | SurfaceSetBufferTransform u32 i32
  | SurfaceSetBufferScale u32 i32
  | SurfaceOffset u32 i32 i32
  | ShmCreatePool u32 u32 i32 i32
  | ShmPoolCreateBuffer u32 u32 i32 i32 i32 i32 u32
  | ShmPoolResize u32 i32
  | SeatGetPointer u32 u32
  | SeatGetKeyboard u32 u32
  | PointerSetCursor u32 u32 "u32 option" i32 i32
  | XdgGetSurface u32 u32 u32
  | XdgPong u32 u32
  | XdgGetToplevel u32 u32
  | XdgAckConfigure u32 u32
  | XdgSetWindowGeometry u32 i32 i32 i32 i32
  | ToplevelSetTitle u32 "u8 list"
  | ToplevelSetAppId u32 "u8 list"
  | ToplevelMove u32 u32 u32
  | ToplevelResize u32 u32 u32 u32
  | ToplevelSetMaximized u32 bool
  | ToplevelSetFullscreen u32 "u32 option"
  | ToplevelSetMinimized u32

section \<open>The connection\<close>

record Connection =
  cn_objects :: ObjectMap

definition Connection_new :: "nat \<Rightarrow> WireError + Connection" where
  "Connection_new capacity = rbind (ObjectMap_new capacity) (\<lambda>om. Inr \<lparr>cn_objects = om\<rparr>)"

definition on_objects :: "(ObjectMap, WireError, 'a) stateful \<Rightarrow> (Connection, WireError, 'a) stateful" where
  "on_objects m c = (case m (cn_objects c) of (x, om) \<Rightarrow> (x, c\<lparr>cn_objects := om\<rparr>))"

definition Connection_delete_id_sent :: "u32 \<Rightarrow> (Connection, WireError, unit) stateful" where
  "Connection_delete_id_sent i = on_objects (ObjectMap_delete_id_sent i)"

text \<open>The handlers borrow the argument reader and the connection.\<close>

type_synonym 'a dispatcher = "(ArgumentReader \<times> Connection, WireError, 'a) stateful"

definition argument :: "'a reader \<Rightarrow> 'a dispatcher" where
  "argument m = (\<lambda>(r, c). case m r of (x, r') \<Rightarrow> (x, (r', c)))"

definition objects :: "(ObjectMap, WireError, 'a) stateful \<Rightarrow> 'a dispatcher" where
  "objects m = (\<lambda>(r, c). case on_objects m c of (x, c') \<Rightarrow> (x, (r, c')))"

abbreviation uint_arg :: "u32 dispatcher" where "uint_arg \<equiv> argument ArgumentReader_uint"
abbreviation int_arg :: "i32 dispatcher" where "int_arg \<equiv> argument ArgumentReader_int"
abbreviation object_arg :: "u32 dispatcher" where "object_arg \<equiv> argument ArgumentReader_object"
abbreviation nullable_arg :: "u32 option dispatcher" where "nullable_arg \<equiv> argument ArgumentReader_nullable_object"
abbreviation string_arg :: "u8 list dispatcher" where "string_arg \<equiv> argument ArgumentReader_string"

definition Connection_expect :: "u32 \<Rightarrow> Interface \<Rightarrow> (ObjectMap, WireError, Object) stateful" where
  "Connection_expect i interface =
    ebind (query (\<lambda>om. ObjectMap_get om i)) (\<lambda>object.
    if ob_interface object \<noteq> interface then fail_with WrongInterface else return_ok object)"

definition Connection_destroy :: "Object \<Rightarrow> Request dispatcher" where
  "Connection_destroy object =
    ebind (objects (ObjectMap_retire (ob_id object)))
      (\<lambda>_. return_ok (Destroy (ob_id object) (ob_interface object)))"

text \<open>The check of an optional object argument: \<open>if let Some(id) = id { self.expect(id, interface)?; }\<close>.\<close>

definition expect_opt :: "u32 option \<Rightarrow> Interface \<Rightarrow> unit dispatcher" where
  "expect_opt i interface =
    (case i of None \<Rightarrow> return_ok ()
     | Some j \<Rightarrow> ebind (objects (Connection_expect j interface)) (\<lambda>_. return_ok ()))"

definition dispatch_display :: "u16 \<Rightarrow> Request dispatcher" where
  "dispatch_display opcode =
    (if opcode = 0 then
       ebind object_arg (\<lambda>callback.
       ebind (objects (ObjectMap_insert callback Callback 1)) (\<lambda>_.
       return_ok (Sync callback)))
     else if opcode = 1 then
       ebind object_arg (\<lambda>registry.
       ebind (objects (ObjectMap_insert registry Registry 1)) (\<lambda>_.
       return_ok (GetRegistry registry)))
     else fail_with UnknownOpcode)"

definition dispatch_registry :: "Object \<Rightarrow> u16 \<Rightarrow> Request dispatcher" where
  "dispatch_registry object opcode =
    (if opcode \<noteq> 0 then fail_with UnknownOpcode
     else
       ebind uint_arg (\<lambda>global_name.
       ebind string_arg (\<lambda>interface_name.
       ebind uint_arg (\<lambda>version.
       ebind object_arg (\<lambda>new_id.
       ebind (query (\<lambda>_. ok_or UnknownGlobal (find (\<lambda>glob. g_name glob = global_name) CORE_GLOBALS))) (\<lambda>glob.
       ebind (query (\<lambda>_. ok_or InterfaceMismatch (Interface_from_name interface_name))) (\<lambda>interface.
       ebind (guard (interface \<noteq> g_interface glob) InterfaceMismatch) (\<lambda>_.
       ebind (guard (version = 0 \<or> g_version glob < version) InvalidVersion) (\<lambda>_.
       ebind (objects (ObjectMap_insert new_id interface version)) (\<lambda>_.
       return_ok (Bind (ob_id object) global_name interface version new_id)))))))))))"

definition dispatch_compositor :: "Object \<Rightarrow> u16 \<Rightarrow> Request dispatcher" where
  "dispatch_compositor object opcode =
    ebind object_arg (\<lambda>new_id.
      if opcode = 0 then
        ebind (objects (ObjectMap_insert new_id Surface (ob_version object))) (\<lambda>_.
        return_ok (CreateSurface (ob_id object) new_id))
      else if opcode = 1 then
        ebind (objects (ObjectMap_insert new_id Region 1)) (\<lambda>_.
        return_ok (CreateRegion (ob_id object) new_id))
      else fail_with UnknownOpcode)"

definition dispatch_surface :: "Object \<Rightarrow> u16 \<Rightarrow> Request dispatcher" where
  "dispatch_surface object opcode =
    (if opcode = 0 then Connection_destroy object
     else if opcode = 1 then
       ebind nullable_arg (\<lambda>buffer.
       ebind (expect_opt buffer Buffer) (\<lambda>_.
       ebind int_arg (\<lambda>x.
       ebind int_arg (\<lambda>y.
       return_ok (SurfaceAttach (ob_id object) buffer x y)))))
     else if opcode = 2 \<or> opcode = 9 then
       ebind (guard (opcode = 9 \<and> ob_version object < 4) UnsupportedVersion) (\<lambda>_.
       ebind int_arg (\<lambda>x.
       ebind int_arg (\<lambda>y.
       ebind int_arg (\<lambda>width.
       ebind int_arg (\<lambda>height.
       return_ok (SurfaceDamage (ob_id object) (opcode = 9) x y width height))))))
     else if opcode = 3 then
       ebind object_arg (\<lambda>callback.
       ebind (objects (ObjectMap_insert callback Callback 1)) (\<lambda>_.
       return_ok (SurfaceFrame (ob_id object) callback)))
     else if opcode = 4 \<or> opcode = 5 then
       ebind nullable_arg (\<lambda>region.
       ebind (expect_opt region Region) (\<lambda>_.
       return_ok (SurfaceSetRegion (ob_id object) (opcode = 5) region)))
     else if opcode = 6 then return_ok (SurfaceCommit (ob_id object))
     else if opcode = 7 then
       ebind int_arg (\<lambda>transform. return_ok (SurfaceSetBufferTransform (ob_id object) transform))
     else if opcode = 8 then
       ebind int_arg (\<lambda>scale.
       ebind (guard (sint scale \<le> 0) InvalidArgument) (\<lambda>_.
       return_ok (SurfaceSetBufferScale (ob_id object) scale)))
     else if opcode = 10 then
       ebind (guard (ob_version object < 5) UnsupportedVersion) (\<lambda>_.
       ebind int_arg (\<lambda>x.
       ebind int_arg (\<lambda>y.
       return_ok (SurfaceOffset (ob_id object) x y))))
     else fail_with UnknownOpcode)"

definition dispatch_region :: "Object \<Rightarrow> u16 \<Rightarrow> Request dispatcher" where
  "dispatch_region object opcode =
    (if opcode = 0 then Connection_destroy object
     else if opcode = 1 \<or> opcode = 2 then
       ebind int_arg (\<lambda>x.
       ebind int_arg (\<lambda>y.
       ebind int_arg (\<lambda>width.
       ebind int_arg (\<lambda>height.
       ebind (guard (sint width < 0 \<or> sint height < 0) InvalidArgument) (\<lambda>_.
       if opcode = 1 then return_ok (RegionAdd (ob_id object) x y width height)
       else return_ok (RegionSubtract (ob_id object) x y width height))))))
     else fail_with UnknownOpcode)"

definition dispatch_shm :: "Object \<Rightarrow> u16 \<Rightarrow> i32 list \<Rightarrow> Request dispatcher" where
  "dispatch_shm object opcode file_descriptors =
    (if opcode \<noteq> 0 then fail_with UnknownOpcode
     else case file_descriptors of
       [] \<Rightarrow> fail_with MissingFileDescriptor
     | [fd] \<Rightarrow>
         ebind object_arg (\<lambda>pool.
         ebind int_arg (\<lambda>len.
         ebind (guard (sint len \<le> 0) InvalidArgument) (\<lambda>_.
         ebind (objects (ObjectMap_insert pool ShmPool 1)) (\<lambda>_.
         return_ok (ShmCreatePool (ob_id object) pool fd len)))))
     | _ \<Rightarrow> fail_with UnexpectedFileDescriptor)"

definition dispatch_shm_pool :: "Object \<Rightarrow> u16 \<Rightarrow> Request dispatcher" where
  "dispatch_shm_pool object opcode =
    (if opcode = 0 then
       ebind object_arg (\<lambda>buffer.
       ebind int_arg (\<lambda>offset.
       ebind int_arg (\<lambda>width.
       ebind int_arg (\<lambda>height.
       ebind int_arg (\<lambda>stride.
       ebind uint_arg (\<lambda>format.
       ebind (guard (sint offset < 0 \<or> sint width \<le> 0 \<or> sint height \<le> 0 \<or> sint stride \<le> 0) InvalidArgument) (\<lambda>_.
       ebind (objects (ObjectMap_insert buffer Buffer 1)) (\<lambda>_.
       return_ok (ShmPoolCreateBuffer (ob_id object) buffer offset width height stride format)))))))))
     else if opcode = 1 then Connection_destroy object
     else if opcode = 2 then
       ebind int_arg (\<lambda>len.
       ebind (guard (sint len \<le> 0) InvalidArgument) (\<lambda>_.
       return_ok (ShmPoolResize (ob_id object) len)))
     else fail_with UnknownOpcode)"

definition dispatch_destroy_only :: "Object \<Rightarrow> u16 \<Rightarrow> Request dispatcher" where
  "dispatch_destroy_only object opcode =
    (if opcode = 0 then Connection_destroy object else fail_with UnknownOpcode)"

definition dispatch_seat :: "Object \<Rightarrow> u16 \<Rightarrow> Request dispatcher" where
  "dispatch_seat object opcode =
    (if opcode = 0 then
       ebind object_arg (\<lambda>pointer.
       ebind (objects (ObjectMap_insert pointer Pointer (ob_version object))) (\<lambda>_.
       return_ok (SeatGetPointer (ob_id object) pointer)))
     else if opcode = 1 then
       ebind object_arg (\<lambda>keyboard.
       ebind (objects (ObjectMap_insert keyboard Keyboard (ob_version object))) (\<lambda>_.
       return_ok (SeatGetKeyboard (ob_id object) keyboard)))
     else if opcode = 3 \<and> 5 \<le> ob_version object then Connection_destroy object
     else fail_with UnknownOpcode)"

definition dispatch_pointer :: "Object \<Rightarrow> u16 \<Rightarrow> Request dispatcher" where
  "dispatch_pointer object opcode =
    (if opcode = 0 then
       ebind uint_arg (\<lambda>serial.
       ebind nullable_arg (\<lambda>surface.
       ebind (expect_opt surface Surface) (\<lambda>_.
       ebind int_arg (\<lambda>hotspot_x.
       ebind int_arg (\<lambda>hotspot_y.
       return_ok (PointerSetCursor (ob_id object) serial surface hotspot_x hotspot_y))))))
     else if opcode = 1 \<and> 3 \<le> ob_version object then Connection_destroy object
     else fail_with UnknownOpcode)"

definition dispatch_release :: "Object \<Rightarrow> u16 \<Rightarrow> Request dispatcher" where
  "dispatch_release object opcode =
    (if opcode \<noteq> 0 then fail_with UnknownOpcode
     else case ob_interface object of
       Keyboard \<Rightarrow> if ob_version object < 3 then fail_with UnsupportedVersion else Connection_destroy object
     | Output \<Rightarrow> if ob_version object < 3 then fail_with UnsupportedVersion else Connection_destroy object
     | _ \<Rightarrow> fail_with WrongInterface)"

definition dispatch_xdg_wm_base :: "Object \<Rightarrow> u16 \<Rightarrow> Request dispatcher" where
  "dispatch_xdg_wm_base object opcode =
    (if opcode = 0 then Connection_destroy object
     else if opcode = 2 then
       ebind object_arg (\<lambda>xdg_surface.
       ebind object_arg (\<lambda>surface.
       ebind (objects (Connection_expect surface Surface)) (\<lambda>_.
       ebind (objects (ObjectMap_insert xdg_surface XdgSurface (ob_version object))) (\<lambda>_.
       return_ok (XdgGetSurface (ob_id object) xdg_surface surface)))))
     else if opcode = 3 then
       ebind uint_arg (\<lambda>serial. return_ok (XdgPong (ob_id object) serial))
     else fail_with UnknownOpcode)"

definition dispatch_xdg_surface :: "Object \<Rightarrow> u16 \<Rightarrow> Request dispatcher" where
  "dispatch_xdg_surface object opcode =
    (if opcode = 0 then Connection_destroy object
     else if opcode = 1 then
       ebind object_arg (\<lambda>toplevel.
       ebind (objects (ObjectMap_insert toplevel XdgToplevel (ob_version object))) (\<lambda>_.
       return_ok (XdgGetToplevel (ob_id object) toplevel)))
     else if opcode = 3 then
       ebind int_arg (\<lambda>x.
       ebind int_arg (\<lambda>y.
       ebind int_arg (\<lambda>width.
       ebind int_arg (\<lambda>height.
       ebind (guard (sint width \<le> 0 \<or> sint height \<le> 0) InvalidArgument) (\<lambda>_.
       return_ok (XdgSetWindowGeometry (ob_id object) x y width height))))))
     else if opcode = 4 then
       ebind uint_arg (\<lambda>serial. return_ok (XdgAckConfigure (ob_id object) serial))
     else fail_with UnknownOpcode)"

definition dispatch_xdg_toplevel :: "Object \<Rightarrow> u16 \<Rightarrow> Request dispatcher" where
  "dispatch_xdg_toplevel object opcode =
    (if opcode = 0 then Connection_destroy object
     else if opcode = 2 then
       ebind string_arg (\<lambda>title. return_ok (ToplevelSetTitle (ob_id object) title))
     else if opcode = 3 then
       ebind string_arg (\<lambda>app_id. return_ok (ToplevelSetAppId (ob_id object) app_id))
     else if opcode = 5 then
       ebind object_arg (\<lambda>seat.
       ebind (objects (Connection_expect seat Seat)) (\<lambda>_.
       ebind uint_arg (\<lambda>serial.
       return_ok (ToplevelMove (ob_id object) seat serial))))
     else if opcode = 6 then
       ebind object_arg (\<lambda>seat.
       ebind (objects (Connection_expect seat Seat)) (\<lambda>_.
       ebind uint_arg (\<lambda>serial.
       ebind uint_arg (\<lambda>edges.
       return_ok (ToplevelResize (ob_id object) seat serial edges)))))
     else if opcode = 9 then return_ok (ToplevelSetMaximized (ob_id object) True)
     else if opcode = 10 then return_ok (ToplevelSetMaximized (ob_id object) False)
     else if opcode = 11 then
       ebind nullable_arg (\<lambda>output_id.
       ebind (expect_opt output_id Output) (\<lambda>_.
       return_ok (ToplevelSetFullscreen (ob_id object) output_id)))
     else if opcode = 12 then return_ok (ToplevelSetFullscreen (ob_id object) None)
     else if opcode = 13 then return_ok (ToplevelSetMinimized (ob_id object))
     else fail_with UnknownOpcode)"

definition dispatch_object :: "Object \<Rightarrow> u16 \<Rightarrow> i32 list \<Rightarrow> Request dispatcher" where
  "dispatch_object object opcode file_descriptors =
    (case ob_interface object of
       Display \<Rightarrow> dispatch_display opcode
     | Registry \<Rightarrow> dispatch_registry object opcode
     | Compositor \<Rightarrow> dispatch_compositor object opcode
     | Surface \<Rightarrow> dispatch_surface object opcode
     | Region \<Rightarrow> dispatch_region object opcode
     | Shm \<Rightarrow> dispatch_shm object opcode file_descriptors
     | ShmPool \<Rightarrow> dispatch_shm_pool object opcode
     | Buffer \<Rightarrow> dispatch_destroy_only object opcode
     | Seat \<Rightarrow> dispatch_seat object opcode
     | Pointer \<Rightarrow> dispatch_pointer object opcode
     | Keyboard \<Rightarrow> dispatch_release object opcode
     | Output \<Rightarrow> dispatch_release object opcode
     | XdgWmBase \<Rightarrow> dispatch_xdg_wm_base object opcode
     | XdgSurface \<Rightarrow> dispatch_xdg_surface object opcode
     | XdgToplevel \<Rightarrow> dispatch_xdg_toplevel object opcode
     | Callback \<Rightarrow> fail_with UnknownOpcode)"

definition Connection_dispatch :: "u8 list \<Rightarrow> i32 list \<Rightarrow> (Connection, WireError, Request \<times> u8 list) stateful" where
  "Connection_dispatch bytes file_descriptors =
    ebind (query (\<lambda>_. Frame_decode bytes)) (\<lambda>(frame, remaining).
    ebind (query (\<lambda>c. ObjectMap_get (cn_objects c) (h_object_id (fr_header frame)))) (\<lambda>object c.
    case dispatch_object object (h_opcode (fr_header frame)) file_descriptors
           (ArgumentReader_new (fr_payload frame), c) of
      (Inl e, (_, c')) \<Rightarrow> (Inl e, c')
    | (Inr request, (arguments, c')) \<Rightarrow>
        if ob_interface object \<noteq> Shm \<and> file_descriptors \<noteq> [] then (Inl UnexpectedFileDescriptor, c')
        else (rbind (ArgumentReader_finish arguments) (\<lambda>_. Inr (request, remaining)), c')))"

end
