(* ===== verification/Wayland_Session.thy ===== *)
theory Wayland_Session
  imports Wayland
begin

text \<open>
  The staged session of one toplevel surface (\<open>SingleSurfaceSession\<close> of
  src/crates/wayland/src/lib.rs): a batch of requests is dispatched and applied one frame at a time,
  and moves the session through registry, initial commit and configured commit; presentation
  releases the frame callback and opens the next cycle. \<open>accept_loop\<close> terminates because every
  decoded frame has at least its eight header bytes.
\<close>

definition MAX_SURFACE_METADATA_LENGTH :: nat where
  "MAX_SURFACE_METADATA_LENGTH = 31"

record SurfaceText =
  tx_bytes :: "u8 list"
  tx_length :: u8

definition SurfaceText_EMPTY :: SurfaceText where
  "SurfaceText_EMPTY = \<lparr>tx_bytes = replicate MAX_SURFACE_METADATA_LENGTH 0, tx_length = 0\<rparr>"

datatype SurfaceError = Wire WireError | UnexpectedRequest | DuplicateLifecycle | IncompleteLifecycle
  | InvalidConfigure | InvalidBuffer | InvalidMetadata

definition SurfaceText_parse :: "u8 list \<Rightarrow> SurfaceError + SurfaceText" where
  "SurfaceText_parse val =
    (if val = [] \<or> MAX_SURFACE_METADATA_LENGTH < length val then Inl InvalidMetadata
     else Inr (SurfaceText_EMPTY
       \<lparr>tx_bytes := copy_at (tx_bytes SurfaceText_EMPTY) 0 val, tx_length := word_of_nat (length val)\<rparr>))"

definition SurfaceText_as_str :: "SurfaceText \<Rightarrow> u8 list" where
  "SurfaceText_as_str t = take (unat (tx_length t)) (tx_bytes t)"

record CommittedSurface =
  co_surface :: u32
  co_buffer :: u32
  co_xdg_surface :: u32
  co_toplevel :: u32
  co_frame_callback :: u32
  co_seat :: u32
  co_pointer :: u32
  co_keyboard :: u32
  co_output :: u32
  co_width :: u32
  co_height :: u32
  co_stride :: u32
  co_format :: u32
  co_title :: SurfaceText
  co_app_id :: SurfaceText

datatype SurfaceSessionEvent =
    EvRegistry u32
  | EvConfigure u32 u32 u32 u32 u32 u32 u32 u32
  | EvCommitted CommittedSurface

record PresentedSurface =
  pr_surface :: u32
  pr_buffer :: u32
  pr_frame_callback :: u32
  pr_pointer :: u32
  pr_keyboard :: u32

datatype SurfacePhase = AwaitRegistry | AwaitInitialCommit | AwaitConfiguredCommit | PhaseCommitted

record BufferState =
  bf_id :: u32
  bf_width :: u32
  bf_height :: u32
  bf_stride :: u32
  bf_format :: u32

record SingleSurfaceSession =
  ss_connection :: Connection
  ss_phase :: SurfacePhase
  ss_configure_serial :: u32
  ss_registry :: "u32 option"
  ss_compositor :: "u32 option"
  ss_shm :: "u32 option"
  ss_seat :: "u32 option"
  ss_pointer :: "u32 option"
  ss_keyboard :: "u32 option"
  ss_output :: "u32 option"
  ss_wm_base :: "u32 option"
  ss_surface :: "u32 option"
  ss_pool :: "u32 option"
  ss_buffer :: "BufferState option"
  ss_xdg_surface :: "u32 option"
  ss_toplevel :: "u32 option"
  ss_attached :: bool
  ss_damaged :: bool
  ss_frame_callback :: "u32 option"
  ss_title :: SurfaceText
  ss_app_id :: SurfaceText
  ss_initial_committed :: bool
  ss_configure_acked :: bool
  ss_window_geometry :: bool
  ss_committed :: bool

type_synonym 'a session = "(SingleSurfaceSession, SurfaceError, 'a) stateful"

definition SingleSurfaceSession_new :: "nat \<Rightarrow> u32 \<Rightarrow> SurfaceError + SingleSurfaceSession" where
  "SingleSurfaceSession_new capacity configure_serial =
    (if configure_serial = 0 then Inl InvalidConfigure
     else rbind (map_err Wire (Connection_new capacity)) (\<lambda>connection. Inr
       \<lparr>ss_connection = connection, ss_phase = AwaitRegistry, ss_configure_serial = configure_serial,
        ss_registry = None, ss_compositor = None, ss_shm = None, ss_seat = None, ss_pointer = None,
        ss_keyboard = None, ss_output = None, ss_wm_base = None, ss_surface = None, ss_pool = None,
        ss_buffer = None, ss_xdg_surface = None, ss_toplevel = None, ss_attached = False,
        ss_damaged = False, ss_frame_callback = None, ss_title = SurfaceText_EMPTY,
        ss_app_id = SurfaceText_EMPTY, ss_initial_committed = False, ss_configure_acked = False,
        ss_window_geometry = False, ss_committed = False\<rparr>))"

text \<open>The slot is replaced even when it was set before; the error only reports it.\<close>

definition set_once :: "(SingleSurfaceSession \<Rightarrow> u32 option)
    \<Rightarrow> ((u32 option \<Rightarrow> u32 option) \<Rightarrow> SingleSurfaceSession \<Rightarrow> SingleSurfaceSession) \<Rightarrow> u32 \<Rightarrow> unit session" where
  "set_once slot slot_update v s =
    (if slot s \<noteq> None then Inl DuplicateLifecycle else Inr (), slot_update (\<lambda>_. Some v) s)"

text \<open>\<open>u32::try_from\<close> of an \<open>i32\<close>.\<close>

definition u32_try_from :: "i32 \<Rightarrow> u32 option" where
  "u32_try_from v = (if sint v < 0 then None else Some v)"

definition make_buffer :: "u32 \<Rightarrow> i32 \<Rightarrow> i32 \<Rightarrow> i32 \<Rightarrow> i32 \<Rightarrow> u32 \<Rightarrow> nat \<Rightarrow> SurfaceError + BufferState" where
  "make_buffer buffer offset width height stride format pixel_length =
    (if offset \<noteq> 0 \<or> format \<noteq> 1 then Inl InvalidBuffer
     else
       rbind (ok_or InvalidBuffer (u32_try_from width)) (\<lambda>width.
       rbind (ok_or InvalidBuffer (u32_try_from height)) (\<lambda>height.
       rbind (ok_or InvalidBuffer (u32_try_from stride)) (\<lambda>stride.
       rbind (ok_or InvalidBuffer (checked_mul width 4)) (\<lambda>row_bytes.
       rbind (ok_or InvalidBuffer (checked_mul stride height)) (\<lambda>buffer_bytes.
       if stride \<noteq> row_bytes \<or> unat buffer_bytes \<noteq> pixel_length then Inl InvalidBuffer
       else Inr \<lparr>bf_id = buffer, bf_width = width, bf_height = height, bf_stride = stride, bf_format = format\<rparr>))))))"

text \<open>A window geometry or a damage rectangle has to cover the buffer.\<close>

definition covers_buffer :: "i32 \<Rightarrow> i32 \<Rightarrow> SingleSurfaceSession \<Rightarrow> SurfaceError + unit" where
  "covers_buffer width height s =
    (case ss_buffer s of
       None \<Rightarrow> Inl IncompleteLifecycle
     | Some buffer \<Rightarrow>
         if u32_try_from width \<noteq> Some (bf_width buffer) \<or> u32_try_from height \<noteq> Some (bf_height buffer)
         then Inl InvalidBuffer else Inr ())"

definition commit_ready :: "nat \<Rightarrow> SingleSurfaceSession \<Rightarrow> SurfaceError + unit" where
  "commit_ready pixel_length s =
    rbind (ok_or IncompleteLifecycle (ss_buffer s)) (\<lambda>buffer.
    rbind (ok_or InvalidBuffer (checked_mul (bf_stride buffer) (bf_height buffer))) (\<lambda>expected.
    if unat expected \<noteq> pixel_length then Inl InvalidBuffer
    else if \<not> ss_configure_acked s \<or> \<not> ss_attached s \<or> \<not> ss_damaged s \<or> \<not> ss_window_geometry s
            \<or> ss_frame_callback s = None
    then Inl IncompleteLifecycle else Inr ()))"

definition apply_registry :: "Request \<Rightarrow> unit session" where
  "apply_registry request =
    (case request of
       GetRegistry registry \<Rightarrow> set_once ss_registry ss_registry_update registry
     | _ \<Rightarrow> fail_with UnexpectedRequest)"

definition apply_initial :: "Request \<Rightarrow> unit session" where
  "apply_initial request s =
    (case request of
       Bind registry _ interface _ new_id \<Rightarrow>
         if ss_registry s = Some registry then
           (case interface of
              Compositor \<Rightarrow> set_once ss_compositor ss_compositor_update new_id s
            | Shm \<Rightarrow> set_once ss_shm ss_shm_update new_id s
            | Seat \<Rightarrow> set_once ss_seat ss_seat_update new_id s
            | Output \<Rightarrow> set_once ss_output ss_output_update new_id s
            | XdgWmBase \<Rightarrow> set_once ss_wm_base ss_wm_base_update new_id s
            | _ \<Rightarrow> fail_with UnexpectedRequest s)
         else fail_with UnexpectedRequest s
     | SeatGetPointer seat pointer \<Rightarrow>
         if ss_seat s = Some seat then set_once ss_pointer ss_pointer_update pointer s
         else fail_with UnexpectedRequest s
     | SeatGetKeyboard seat keyboard \<Rightarrow>
         if ss_seat s = Some seat then set_once ss_keyboard ss_keyboard_update keyboard s
         else fail_with UnexpectedRequest s
     | CreateSurface compositor surface \<Rightarrow>
         if ss_compositor s = Some compositor then set_once ss_surface ss_surface_update surface s
         else fail_with UnexpectedRequest s
     | XdgGetSurface wm_base xdg_surface surface \<Rightarrow>
         if ss_wm_base s = Some wm_base \<and> ss_surface s = Some surface
         then set_once ss_xdg_surface ss_xdg_surface_update xdg_surface s
         else fail_with UnexpectedRequest s
     | XdgGetToplevel xdg_surface toplevel \<Rightarrow>
         if ss_xdg_surface s = Some xdg_surface then set_once ss_toplevel ss_toplevel_update toplevel s
         else fail_with UnexpectedRequest s
     | ToplevelSetTitle toplevel title \<Rightarrow>
         if ss_toplevel s = Some toplevel \<and> tx_length (ss_title s) = 0
         then ebind (query (\<lambda>_. SurfaceText_parse title)) (\<lambda>t. modify (ss_title_update (\<lambda>_. t))) s
         else fail_with UnexpectedRequest s
     | ToplevelSetAppId toplevel app_id \<Rightarrow>
         if ss_toplevel s = Some toplevel \<and> tx_length (ss_app_id s) = 0
         then ebind (query (\<lambda>_. SurfaceText_parse app_id)) (\<lambda>t. modify (ss_app_id_update (\<lambda>_. t))) s
         else fail_with UnexpectedRequest s
     | SurfaceCommit surface \<Rightarrow>
         if ss_surface s = Some surface then modify (ss_initial_committed_update (\<lambda>_. True)) s
         else fail_with UnexpectedRequest s
     | _ \<Rightarrow> fail_with UnexpectedRequest s)"

definition apply_configured :: "Request \<Rightarrow> i32 \<Rightarrow> nat \<Rightarrow> unit session" where
  "apply_configured request inline_file_descriptor pixel_length s =
    (case request of
       ShmCreatePool shm pool fd len \<Rightarrow>
         if ss_shm s = Some shm \<and> fd = inline_file_descriptor \<and> 0 \<le> sint len \<and> nat (sint len) = pixel_length
         then set_once ss_pool ss_pool_update pool s
         else fail_with UnexpectedRequest s
     | ShmPoolCreateBuffer pool buffer offset width height stride format \<Rightarrow>
         if ss_pool s = Some pool \<and> ss_buffer s = None
         then ebind (query (\<lambda>_. make_buffer buffer offset width height stride format pixel_length))
                (\<lambda>b. modify (ss_buffer_update (\<lambda>_. Some b))) s
         else fail_with UnexpectedRequest s
     | XdgAckConfigure xdg_surface serial \<Rightarrow>
         if ss_xdg_surface s = Some xdg_surface \<and> serial = ss_configure_serial s \<and> \<not> ss_configure_acked s
         then modify (ss_configure_acked_update (\<lambda>_. True)) s
         else fail_with UnexpectedRequest s
     | XdgSetWindowGeometry xdg_surface x y width height \<Rightarrow>
         if x = 0 \<and> y = 0 \<and> ss_xdg_surface s = Some xdg_surface \<and> \<not> ss_window_geometry s
         then ebind (query (covers_buffer width height)) (\<lambda>_. modify (ss_window_geometry_update (\<lambda>_. True))) s
         else fail_with UnexpectedRequest s
     | SurfaceAttach surface buffer x y \<Rightarrow>
         if buffer \<noteq> None \<and> x = 0 \<and> y = 0 \<and> ss_surface s = Some surface
            \<and> map_option bf_id (ss_buffer s) = buffer \<and> \<not> ss_attached s
         then modify (ss_attached_update (\<lambda>_. True)) s
         else fail_with UnexpectedRequest s
     | SurfaceDamage surface buffer_coordinates x y width height \<Rightarrow>
         if buffer_coordinates \<and> x = 0 \<and> y = 0 \<and> ss_surface s = Some surface \<and> \<not> ss_damaged s
         then ebind (query (covers_buffer width height)) (\<lambda>_. modify (ss_damaged_update (\<lambda>_. True))) s
         else fail_with UnexpectedRequest s
     | SurfaceFrame surface callback \<Rightarrow>
         if ss_surface s = Some surface \<and> ss_frame_callback s = None
         then modify (ss_frame_callback_update (\<lambda>_. Some callback)) s
         else fail_with UnexpectedRequest s
     | SurfaceCommit surface \<Rightarrow>
         if ss_surface s = Some surface
         then ebind (query (commit_ready pixel_length)) (\<lambda>_. modify (ss_committed_update (\<lambda>_. True))) s
         else fail_with UnexpectedRequest s
     | _ \<Rightarrow> fail_with UnexpectedRequest s)"

definition SingleSurfaceSession_apply :: "Request \<Rightarrow> i32 \<Rightarrow> nat \<Rightarrow> unit session" where
  "SingleSurfaceSession_apply request inline_file_descriptor pixel_length s =
    (case ss_phase s of
       AwaitRegistry \<Rightarrow> apply_registry request s
     | AwaitInitialCommit \<Rightarrow> apply_initial request s
     | AwaitConfiguredCommit \<Rightarrow> apply_configured request inline_file_descriptor pixel_length s
     | PhaseCommitted \<Rightarrow> fail_with UnexpectedRequest s)"

definition on_connection :: "(Connection, WireError, 'a) stateful \<Rightarrow> 'a session" where
  "on_connection m s = (case m (ss_connection s) of (x, c) \<Rightarrow> (map_err Wire x, s\<lparr>ss_connection := c\<rparr>))"

text \<open>One turn of the loop: the frame at the head of the batch, dispatched and applied.\<close>

definition accept_frame :: "u8 list \<Rightarrow> i32 option \<Rightarrow> nat \<Rightarrow> u8 list session" where
  "accept_frame wire inline_file_descriptor pixel_length =
    ebind (query (\<lambda>s. if ss_initial_committed s \<or> ss_committed s then Inl UnexpectedRequest else Inr ())) (\<lambda>_.
    ebind (query (\<lambda>_. map_err Wire (Frame_decode wire))) (\<lambda>(frame, _).
    ebind (query (\<lambda>s. map_err Wire (ObjectMap_get (cn_objects (ss_connection s)) (h_object_id (fr_header frame))))) (\<lambda>object.
    let supplies_fd = (ob_interface object = Shm \<and> h_opcode (fr_header frame) = 0);
        descriptor = (case inline_file_descriptor of Some fd \<Rightarrow> fd | None \<Rightarrow> 0);
        descriptors = (if supplies_fd \<and> inline_file_descriptor \<noteq> None then [descriptor] else [])
    in
    ebind (on_connection (Connection_dispatch wire descriptors)) (\<lambda>(request, remaining).
    ebind (SingleSurfaceSession_apply request descriptor pixel_length) (\<lambda>_.
    return_ok remaining)))))"

section \<open>Termination of the batch loop\<close>

lemma Connection_dispatch_rest:
  assumes "Connection_dispatch bytes fds c = (Inr (request, rest), c')"
  shows "\<exists>frame. Frame_decode bytes = Inr (frame, rest)"
  using assms
  by (auto simp: Connection_dispatch_def ebind_def query_def split: sum.splits prod.splits if_splits
      elim!: rbind.elims)

lemma accept_frame_shorter:
  assumes "accept_frame wire fd n s = (Inr rest, s')"
  shows "length rest < length wire"
proof -
  obtain fds request c c' where "Connection_dispatch wire fds c = (Inr (request, rest), c')"
    using assms
    by (auto simp: accept_frame_def ebind_eq_Inr query_def on_connection_def return_ok_def Let_def
        split: if_splits sum.splits prod.splits elim!: map_err.elims)
  then obtain frame where "Frame_decode wire = Inr (frame, rest)"
    using Connection_dispatch_rest by blast
  from Frame_decode_Inr [OF this] show ?thesis by simp
qed

section \<open>Batches\<close>

function accept_loop :: "u8 list \<Rightarrow> i32 option \<Rightarrow> nat \<Rightarrow> unit session" where
  "accept_loop wire fd n s =
    (if wire = [] then (Inr (), s)
     else case accept_frame wire fd n s of
       (Inl e, s') \<Rightarrow> (Inl e, s')
     | (Inr rest, s') \<Rightarrow> accept_loop rest fd n s')"
  by pat_completeness auto

termination
  by (relation "measure (\<lambda>(wire, _). length wire)") (auto dest!: accept_frame_shorter [OF sym])

declare accept_loop.simps [simp del]

definition SingleSurfaceSession_snapshot :: "SingleSurfaceSession \<Rightarrow> SurfaceError + CommittedSurface" where
  "SingleSurfaceSession_snapshot s =
    rbind (ok_or IncompleteLifecycle (ss_buffer s)) (\<lambda>buffer.
    rbind (ok_or IncompleteLifecycle (ss_surface s)) (\<lambda>surface.
    rbind (ok_or IncompleteLifecycle (ss_xdg_surface s)) (\<lambda>xdg_surface.
    rbind (ok_or IncompleteLifecycle (ss_toplevel s)) (\<lambda>toplevel.
    rbind (ok_or IncompleteLifecycle (ss_frame_callback s)) (\<lambda>frame_callback.
    rbind (ok_or IncompleteLifecycle (ss_seat s)) (\<lambda>seat.
    rbind (ok_or IncompleteLifecycle (ss_pointer s)) (\<lambda>pointer.
    rbind (ok_or IncompleteLifecycle (ss_keyboard s)) (\<lambda>keyboard.
    rbind (ok_or IncompleteLifecycle (ss_output s)) (\<lambda>output_id.
    Inr \<lparr>co_surface = surface, co_buffer = bf_id buffer, co_xdg_surface = xdg_surface,
         co_toplevel = toplevel, co_frame_callback = frame_callback, co_seat = seat,
         co_pointer = pointer, co_keyboard = keyboard, co_output = output_id,
         co_width = bf_width buffer, co_height = bf_height buffer, co_stride = bf_stride buffer,
         co_format = bf_format buffer, co_title = ss_title s, co_app_id = ss_app_id s\<rparr>)))))))))"

definition configure_event :: "SingleSurfaceSession \<Rightarrow> SurfaceError + SurfaceSessionEvent" where
  "configure_event s =
    rbind (ok_or IncompleteLifecycle (ss_shm s)) (\<lambda>shm.
    rbind (ok_or IncompleteLifecycle (ss_seat s)) (\<lambda>seat.
    rbind (ok_or IncompleteLifecycle (ss_pointer s)) (\<lambda>pointer.
    rbind (ok_or IncompleteLifecycle (ss_keyboard s)) (\<lambda>keyboard.
    rbind (ok_or IncompleteLifecycle (ss_output s)) (\<lambda>output_id.
    rbind (ok_or IncompleteLifecycle (ss_xdg_surface s)) (\<lambda>xdg_surface.
    rbind (ok_or IncompleteLifecycle (ss_toplevel s)) (\<lambda>toplevel.
    Inr (EvConfigure shm seat pointer keyboard output_id xdg_surface toplevel (ss_configure_serial s)))))))))"

definition finish_batch :: "SurfaceSessionEvent session" where
  "finish_batch s =
    (case ss_phase s of
       AwaitRegistry \<Rightarrow>
         (case ss_registry s of
            None \<Rightarrow> (Inl IncompleteLifecycle, s)
          | Some registry \<Rightarrow> (Inr (EvRegistry registry), s\<lparr>ss_phase := AwaitInitialCommit\<rparr>))
     | AwaitInitialCommit \<Rightarrow>
         if \<not> ss_initial_committed s \<or> ss_compositor s = None \<or> ss_shm s = None \<or> ss_seat s = None
            \<or> ss_pointer s = None \<or> ss_keyboard s = None \<or> ss_output s = None \<or> ss_wm_base s = None
            \<or> ss_surface s = None \<or> ss_xdg_surface s = None \<or> ss_toplevel s = None
            \<or> tx_length (ss_title s) = 0 \<or> tx_length (ss_app_id s) = 0
         then (Inl IncompleteLifecycle, s)
         else let s' = s\<lparr>ss_initial_committed := False, ss_phase := AwaitConfiguredCommit\<rparr>
              in (configure_event s', s')
     | AwaitConfiguredCommit \<Rightarrow>
         if \<not> ss_committed s then (Inl IncompleteLifecycle, s)
         else let s' = s\<lparr>ss_phase := PhaseCommitted\<rparr>
              in (rbind (SingleSurfaceSession_snapshot s') (\<lambda>c. Inr (EvCommitted c)), s')
     | PhaseCommitted \<Rightarrow> (Inl UnexpectedRequest, s))"

definition accept_batch :: "u8 list \<Rightarrow> i32 option \<Rightarrow> nat \<Rightarrow> SurfaceSessionEvent session" where
  "accept_batch wire inline_file_descriptor pixel_length =
    ebind (query (\<lambda>s.
      if wire = [] \<or> ss_phase s = PhaseCommitted
         \<or> (ss_phase s = AwaitConfiguredCommit) \<noteq> (pixel_length \<noteq> 0)
         \<or> (ss_phase s \<noteq> AwaitConfiguredCommit \<and> (inline_file_descriptor \<noteq> None \<or> pixel_length \<noteq> 0))
         \<or> (ss_pool s \<noteq> None \<and> inline_file_descriptor \<noteq> None)
      then Inl UnexpectedRequest else Inr ())) (\<lambda>_.
    ebind (accept_loop wire inline_file_descriptor pixel_length) (\<lambda>_.
    finish_batch))"

definition session_present :: "PresentedSurface session" where
  "session_present =
    ebind (query (\<lambda>s. if ss_phase s \<noteq> PhaseCommitted then Inl UnexpectedRequest else Inr ())) (\<lambda>_.
    ebind (query (\<lambda>s.
      rbind (ok_or IncompleteLifecycle (ss_surface s)) (\<lambda>surface.
      rbind (ok_or IncompleteLifecycle (ss_buffer s)) (\<lambda>buffer.
      rbind (ok_or IncompleteLifecycle (ss_frame_callback s)) (\<lambda>frame_callback.
      rbind (ok_or IncompleteLifecycle (ss_pointer s)) (\<lambda>pointer.
      rbind (ok_or IncompleteLifecycle (ss_keyboard s)) (\<lambda>keyboard.
      Inr \<lparr>pr_surface = surface, pr_buffer = bf_id buffer, pr_frame_callback = frame_callback,
           pr_pointer = pointer, pr_keyboard = keyboard\<rparr>))))))) (\<lambda>presentation.
    ebind (on_connection (on_objects (ObjectMap_retire (pr_frame_callback presentation)))) (\<lambda>_.
    ebind (on_connection (on_objects (ObjectMap_delete_id_sent (pr_frame_callback presentation)))) (\<lambda>_ s.
    (Inr presentation, s\<lparr>ss_attached := False, ss_damaged := False, ss_frame_callback := None,
       ss_committed := False, ss_phase := AwaitConfiguredCommit\<rparr>)))))"

end
