(* ===== verification/Wayland_Wire_Proofs.thy ===== *)
theory Wayland_Wire_Proofs
  imports Wayland_Wire
begin

text \<open>
  The two directions of the wire format agree: what the message builder writes for a list of
  arguments is a frame that decodes to the same object, opcode and size, and the argument reader
  returns the same arguments and is left at the end. An argument is one call of the builder; the
  encoders of the events are shown to be such lists.
\<close>

section \<open>Interface names\<close>

lemma Interface_from_name_name [simp]: "Interface_from_name (Interface_name i) = Some i"
  by (cases i) (simp_all add: Interface_from_name_def ascii_def)

lemma Interface_from_name_Some: "Interface_from_name n = Some i \<Longrightarrow> n = Interface_name i"
  by (auto simp: Interface_from_name_def split: if_splits)

section \<open>Arguments\<close>

datatype Arg = AUint u32 | AInt i32 | AFixed i32 | AObject u32 | ANullable "u32 option"
  | AString "u8 list" | ANullString "u8 list option" | AArray "u8 list"

primrec put_arg :: "Arg \<Rightarrow> builder" where
  "put_arg (AUint v) = MessageBuilder_uint v"
| "put_arg (AInt v) = MessageBuilder_int v"
| "put_arg (AFixed v) = MessageBuilder_fixed v"
| "put_arg (AObject v) = MessageBuilder_object v"
| "put_arg (ANullable v) = MessageBuilder_nullable_object v"
| "put_arg (AString s) = MessageBuilder_string s"
| "put_arg (ANullString s) = MessageBuilder_nullable_string s"
| "put_arg (AArray a) = MessageBuilder_array a"

text \<open>Reading an argument of the same kind as a given one.\<close>

primrec get_like :: "Arg \<Rightarrow> Arg reader" where
  "get_like (AUint _) = ebind ArgumentReader_uint (\<lambda>v. return_ok (AUint v))"
| "get_like (AInt _) = ebind ArgumentReader_int (\<lambda>v. return_ok (AInt v))"
| "get_like (AFixed _) = ebind ArgumentReader_fixed (\<lambda>v. return_ok (AFixed v))"
| "get_like (AObject _) = ebind ArgumentReader_object (\<lambda>v. return_ok (AObject v))"
| "get_like (ANullable _) = ebind ArgumentReader_nullable_object (\<lambda>v. return_ok (ANullable v))"
| "get_like (AString _) = ebind ArgumentReader_string (\<lambda>v. return_ok (AString v))"
| "get_like (ANullString _) = ebind ArgumentReader_nullable_string (\<lambda>v. return_ok (ANullString v))"
| "get_like (AArray _) = ebind ArgumentReader_array (\<lambda>v. return_ok (AArray v))"

primrec get_all_like :: "Arg list \<Rightarrow> Arg list reader" where
  "get_all_like [] = return_ok []"
| "get_all_like (a # as) = ebind (get_like a) (\<lambda>v. ebind (get_all_like as) (\<lambda>vs. return_ok (v # vs)))"

definition text_ok :: "u8 list \<Rightarrow> bool" where
  "text_ok s \<longleftrightarrow> utf8_valid s \<and> 0 \<notin> set s"

primrec arg_ok :: "Arg \<Rightarrow> bool" where
  "arg_ok (AUint _) = True"
| "arg_ok (AInt _) = True"
| "arg_ok (AFixed _) = True"
| "arg_ok (AObject v) = (v \<noteq> 0)"
| "arg_ok (ANullable v) = (v \<noteq> Some 0)"
| "arg_ok (AString s) = text_ok s"
| "arg_ok (ANullString s) = (case s of None \<Rightarrow> True | Some t \<Rightarrow> text_ok t)"
| "arg_ok (AArray a) = True"

definition pad4 :: "nat \<Rightarrow> nat" where
  "pad4 n = (n + 3) div 4 * 4 - n"

definition padded :: "u8 list \<Rightarrow> u8 list" where
  "padded s = s @ replicate (pad4 (length s)) 0"

definition sized :: "u8 list \<Rightarrow> u8 list" where
  "sized s = to_le_bytes (word_of_nat (length s) :: u32) @ padded s"

primrec arg_bytes :: "Arg \<Rightarrow> u8 list" where
  "arg_bytes (AUint v) = to_le_bytes v"
| "arg_bytes (AInt v) = to_le_bytes v"
| "arg_bytes (AFixed v) = to_le_bytes v"
| "arg_bytes (AObject v) = to_le_bytes v"
| "arg_bytes (ANullable v) = to_le_bytes (case v of Some i \<Rightarrow> i | None \<Rightarrow> 0)"
| "arg_bytes (AString s) = sized (s @ [0])"
| "arg_bytes (ANullString s) = (case s of None \<Rightarrow> to_le_bytes (0 :: u32) | Some t \<Rightarrow> sized (t @ [0]))"
| "arg_bytes (AArray a) = sized a"

definition args_bytes :: "Arg list \<Rightarrow> u8 list" where
  "args_bytes args = concat (map arg_bytes args)"

lemma pad4_mod: "(n + pad4 n) mod 4 = 0"
  and pad4_less: "pad4 n < 4"
  and pad4_end: "(n + 3) div 4 * 4 = n + pad4 n"
proof -
  have "n \<le> (n + 3) div 4 * 4" by simp
  then show e: "(n + 3) div 4 * 4 = n + pad4 n" by (simp add: pad4_def)
  then show "(n + pad4 n) mod 4 = 0" by (metis mod_mult_self2_is_0)
  have "(n + 3) div 4 * 4 \<le> n + 3" by simp
  with e show "pad4 n < 4" by linarith
qed

lemma length_sized: "length (sized s) = 4 + (length s + pad4 (length s))"
  by (simp add: sized_def padded_def)

lemma sized_mod: "length (sized s) mod 4 = 0"
  using pad4_mod [of "length s"] by (simp only: length_sized mod_add_self1)

lemma arg_bytes_mod: "length (arg_bytes a) mod 4 = 0"
  by (cases a) (auto simp: sized_mod split: option.splits)

lemma args_bytes_mod: "length (args_bytes args) mod 4 = 0"
  by (induction args) (simp_all add: args_bytes_def mod_add_eq [of _ 4, symmetric] arg_bytes_mod)

section \<open>What the builder writes\<close>

definition written_by :: "MessageBuilder \<Rightarrow> u8 list \<Rightarrow> MessageBuilder" where
  "written_by m bs = m\<lparr>mb_bytes := copy_at (mb_bytes m) (mb_cursor m) bs, mb_cursor := mb_cursor m + length bs\<rparr>"

definition room :: "MessageBuilder \<Rightarrow> nat \<Rightarrow> bool" where
  "room m n \<longleftrightarrow> mb_cursor m + n \<le> length (mb_bytes m) \<and> length (mb_bytes m) < usize_limit"

definition writes :: "builder \<Rightarrow> u8 list \<Rightarrow> bool" where
  "writes f bs \<longleftrightarrow> (\<forall>m. room m (length bs) \<longrightarrow> f m = (Inr (), written_by m bs))"

lemma room_written: "room m (length xs + n) \<Longrightarrow> room (written_by m xs) n"
  by (simp add: room_def written_by_def)

lemma written_by_append: "room m (length xs + length ys) \<Longrightarrow> written_by (written_by m xs) ys = written_by m (xs @ ys)"
  by (simp add: room_def written_by_def copy_at_def add.assoc add.commute add.left_commute)

lemma writes_run: "writes f bs \<Longrightarrow> room m (length bs) \<Longrightarrow> f m = (Inr (), written_by m bs)"
  by (simp add: writes_def)

lemma writes_write: "writes (MessageBuilder_write bs) bs"
  by (simp add: writes_def room_def written_by_def MessageBuilder_write_def usize_add_def)

lemma writes_bind:
  assumes "writes f xs" and "writes g ys"
  shows "writes (ebind f (\<lambda>_. g)) (xs @ ys)"
  unfolding writes_def
proof (intro allI impI)
  fix m assume r: "room m (length (xs @ ys))"
  then have "room m (length xs)" by (simp add: room_def)
  then have "f m = (Inr (), written_by m xs)" using assms(1) by (simp add: writes_run)
  moreover have "g (written_by m xs) = (Inr (), written_by (written_by m xs) ys)"
    using assms(2) r by (simp add: writes_run room_written)
  ultimately show "ebind f (\<lambda>_. g) m = (Inr (), written_by m (xs @ ys))"
    using r by (simp add: ebind_def written_by_append)
qed

lemma writes_done: "writes done_ok []"
  by (simp add: writes_def room_def done_ok_def written_by_def copy_at_def)

lemma writes_zeros: "writes (write_zeros n) (replicate n 0)"
proof (induction n)
  case (Suc n)
  from writes_bind [OF writes_write Suc.IH, of "[0]"] show ?case by simp
qed (simp add: writes_done)

lemma writes_pad: "n + 3 < usize_limit \<Longrightarrow> writes (MessageBuilder_pad n) (replicate (pad4 n) 0)"
  using writes_zeros [of "pad4 n"]
  by (simp add: MessageBuilder_pad_def align4_def usize_add_def ebind_query pad4_def writes_def)

lemma writes_sized:
  assumes "length s + 3 < usize_limit"
  shows "writes (ebind (MessageBuilder_uint (word_of_nat (length s))) (\<lambda>_.
    ebind (MessageBuilder_write s) (\<lambda>_. MessageBuilder_pad (length s)))) (sized s)"
  unfolding sized_def padded_def MessageBuilder_uint_def
  by (intro writes_bind writes_write writes_pad assms)

lemma writes_array: "length s < 2 ^ 32 \<Longrightarrow> writes (MessageBuilder_array s) (sized s)"
  using writes_sized [of s] by (simp add: writes_def MessageBuilder_array_def ebind_guard usize_limit_def)

lemma writes_string:
  assumes "length s + 1 < 2 ^ 32"
  shows "writes (MessageBuilder_string s) (sized (s @ [0]))"
proof -
  have lim: "length (s @ [0 :: u8]) + 3 < usize_limit" using assms by (simp add: usize_limit_def)
  have "writes (ebind (MessageBuilder_uint (word_of_nat (length (s @ [0])))) (\<lambda>_.
      ebind (MessageBuilder_write s) (\<lambda>_. ebind (MessageBuilder_write [0]) (\<lambda>_. MessageBuilder_pad (length (s @ [0]))))))
      (to_le_bytes (word_of_nat (length (s @ [0])) :: u32) @ s @ [0] @ replicate (pad4 (length (s @ [0]))) 0)"
    unfolding MessageBuilder_uint_def by (intro writes_bind writes_write writes_pad lim)
  with assms show ?thesis
    by (simp add: writes_def MessageBuilder_string_def ebind_query ebind_guard usize_add_def usize_limit_def
        sized_def padded_def)
qed

lemma writes_arg:
  assumes "arg_ok a" and "length (arg_bytes a) < 2 ^ 32"
  shows "writes (put_arg a) (arg_bytes a)"
  using assms
  by (cases a) (auto simp: MessageBuilder_uint_def MessageBuilder_int_def MessageBuilder_fixed_def
      MessageBuilder_object_def MessageBuilder_nullable_object_def MessageBuilder_nullable_string_def
      length_sized writes_write writes_array writes_string split: option.splits)

lemma writes_args:
  assumes "list_all arg_ok args" and "length (args_bytes args) < 2 ^ 32"
  shows "writes (in_order (map put_arg args)) (args_bytes args)"
  using assms
proof (induction args)
  case (Cons a args)
  then have "writes (put_arg a) (arg_bytes a)" by (intro writes_arg) (auto simp: args_bytes_def)
  moreover have "writes (in_order (map put_arg args)) (args_bytes args)"
    using Cons by (simp add: args_bytes_def)
  ultimately show ?case using writes_bind by (fastforce simp: args_bytes_def)
qed (simp add: args_bytes_def writes_done)

section \<open>What the reader returns\<close>

definition reads :: "'a reader \<Rightarrow> 'a \<Rightarrow> u8 list \<Rightarrow> bool" where
  "reads f x bs \<longleftrightarrow> (\<forall>pre post. length (pre @ bs @ post) < usize_limit \<longrightarrow>
    f \<lparr>ar_bytes = pre @ bs @ post, ar_cursor = length pre\<rparr>
    = (Inr x, \<lparr>ar_bytes = pre @ bs @ post, ar_cursor = length pre + length bs\<rparr>))"

lemma reads_take: "reads (ArgumentReader_take (length bs)) bs bs"
  by (simp add: reads_def ArgumentReader_take_def usize_add_def get_range_def)

lemma reads_bind:
  assumes "reads f x xs" and "reads (g x) y ys"
  shows "reads (ebind f g) y (xs @ ys)"
  unfolding reads_def
proof (intro allI impI)
  fix pre post :: "u8 list"
  assume l: "length (pre @ (xs @ ys) @ post) < usize_limit"
  have "f \<lparr>ar_bytes = pre @ xs @ ys @ post, ar_cursor = length pre\<rparr>
      = (Inr x, \<lparr>ar_bytes = pre @ xs @ ys @ post, ar_cursor = length pre + length xs\<rparr>)"
    using assms(1) l by (auto simp: reads_def)
  moreover have "g x \<lparr>ar_bytes = (pre @ xs) @ ys @ post, ar_cursor = length (pre @ xs)\<rparr>
      = (Inr y, \<lparr>ar_bytes = (pre @ xs) @ ys @ post, ar_cursor = length (pre @ xs) + length ys\<rparr>)"
    using assms(2) [unfolded reads_def, rule_format, of "pre @ xs" post] l by simp
  ultimately show "ebind f g \<lparr>ar_bytes = pre @ (xs @ ys) @ post, ar_cursor = length pre\<rparr>
      = (Inr y, \<lparr>ar_bytes = pre @ (xs @ ys) @ post, ar_cursor = length pre + length (xs @ ys)\<rparr>)"
    by (simp add: ebind_def)
qed

lemma reads_return: "reads (return_ok x) x []"
  by (simp add: reads_def return_ok_def)

lemma reads_then_return: "reads f x bs \<Longrightarrow> reads (ebind f (\<lambda>v. return_ok (h v))) (h x) bs"
  using reads_bind [of f x bs "\<lambda>v. return_ok (h v)" "h x" "[]"] reads_return [of "h x"] by simp

lemma reads_ok_or: "reads (h a) x bs \<Longrightarrow> reads (ebind (query (\<lambda>_. ok_or e (Some a))) h) x bs"
  by (simp add: reads_def ebind_query)

lemma reads_last:
  assumes "reads f x bs" and "\<And>r. h x r = (Inr y, r)"
  shows "reads (ebind f h) y bs"
  using reads_bind [of f x bs h y "[]"] assms by (simp add: reads_def)

lemma reads_uint: "reads ArgumentReader_uint v (to_le_bytes v)"
  using reads_then_return [OF reads_take [of "to_le_bytes v"], of "from_le_bytes :: _ \<Rightarrow> u32"]
  by (simp add: ArgumentReader_uint_def return_ok_def [abs_def])

lemma align4_length: "n + 3 < usize_limit \<Longrightarrow> align4 n = Some (n + pad4 n)"
  by (simp add: align4_def usize_add_def pad4_end)

lemma reads_padded: "reads (ArgumentReader_take (length s + pad4 (length s))) (padded s) (padded s)"
  using reads_take [of "padded s"] by (simp add: padded_def)

lemma reads_array:
  assumes "length s < 2 ^ 32"
  shows "reads ArgumentReader_array s (sized s)"
  unfolding ArgumentReader_array_def sized_def
proof (rule reads_bind [OF reads_uint])
  have n: "unat (word_of_nat (length s) :: u32) = length s" using assms by (simp add: unat_of_nat)
  have "length s + 3 < usize_limit" using assms by (simp add: usize_limit_def)
  then have a: "align4 (length s) = Some (length s + pad4 (length s))" by (rule align4_length)
  show "reads (let len = unat (word_of_nat (length s) :: u32) in
      ebind (query (\<lambda>_. ok_or InvalidArray (align4 len))) (\<lambda>padded.
      ebind (ArgumentReader_take padded) (\<lambda>bytes. query (\<lambda>_. ok_or InvalidArray (get_range bytes 0 len))))) s (padded s)"
    unfolding Let_def n a
    by (rule reads_ok_or, rule reads_last, rule reads_padded) (simp add: query_def get_range_def padded_def)
qed

lemma reads_nullable_string:
  assumes "length s + 1 < 2 ^ 32" and "text_ok s"
  shows "reads ArgumentReader_nullable_string (Some s) (sized (s @ [0]))"
  unfolding ArgumentReader_nullable_string_def sized_def
proof (rule reads_bind [OF reads_uint])
  let ?t = "s @ [0]"
  have n: "unat (word_of_nat (length ?t) :: u32) = length s + 1" using assms(1) by (simp add: unat_of_nat del: of_nat_Suc)
  have "length ?t + 3 < usize_limit" using assms(1) by (simp add: usize_limit_def)
  then have a: "align4 (length s + 1) = Some (length ?t + pad4 (length ?t))" using align4_length [of "length ?t"] by simp
  have g: "get_range (padded ?t) 0 (length s + 1) = Some ?t" by (simp add: get_range_def padded_def)
  show "reads (let len = unat (word_of_nat (length ?t) :: u32) in
    if len = 0 then (\<lambda>r. (Inr None, r))
    else ebind (query (\<lambda>_. ok_or InvalidString (align4 len))) (\<lambda>padded.
      ebind (ArgumentReader_take padded) (\<lambda>bytes.
      ebind (query (\<lambda>_. ok_or InvalidString (get_range bytes 0 len))) (\<lambda>val.
      ebind (guard (last val \<noteq> 0 \<or> 0 \<in> set (take (len - 1) val)) InvalidString) (\<lambda>_.
      ebind (guard (\<not> utf8_valid (take (len - 1) val)) InvalidString) (\<lambda>_ r.
        (Inr (Some (take (len - 1) val)), r))))))) (Some s) (padded ?t)"
    using assms(2) unfolding n Let_def
    by (simp only: a add_is_0 one_neq_zero simp_thms if_False)
      (rule reads_ok_or, rule reads_last, rule reads_padded,
       simp add: ebind_query ebind_guard g [simplified] text_ok_def)
qed

lemma reads_string:
  assumes "length s + 1 < 2 ^ 32" and "text_ok s"
  shows "reads ArgumentReader_string s (sized (s @ [0]))"
proof -
  have "reads (query (\<lambda>_. ok_or InvalidString (Some s))) s []" by (simp add: reads_def query_def)
  from reads_bind [OF reads_nullable_string [OF assms], where g = "\<lambda>val. query (\<lambda>_. ok_or InvalidString val)", OF this]
  show ?thesis by (simp add: ArgumentReader_string_def)
qed

lemma reads_object: "v \<noteq> 0 \<Longrightarrow> reads ArgumentReader_object v (to_le_bytes v)"
  and reads_nullable: "o_id \<noteq> Some 0 \<Longrightarrow>
    reads ArgumentReader_nullable_object o_id (to_le_bytes (case o_id of Some i \<Rightarrow> i | None \<Rightarrow> 0))"
  using reads_uint
  by (auto simp: ArgumentReader_object_def ArgumentReader_nullable_object_def reads_def ebind_def split: option.splits)

lemma reads_null_string: "reads ArgumentReader_nullable_string None (to_le_bytes (0 :: u32))"
  using reads_uint [of 0] by (simp add: ArgumentReader_nullable_string_def reads_def ebind_def)

lemma reads_arg:
  assumes "arg_ok a" and "length (arg_bytes a) < 2 ^ 32"
  shows "reads (get_like a) a (arg_bytes a)"
  using assms
  by (cases a) (auto simp: ArgumentReader_int_def ArgumentReader_fixed_def length_sized split: option.splits
      intro!: reads_then_return reads_uint reads_object reads_nullable [of None, simplified]
        reads_nullable [of "Some i" for i, simplified] reads_string reads_array reads_nullable_string reads_null_string)

lemma reads_args:
  assumes "list_all arg_ok args" and "length (args_bytes args) < 2 ^ 32"
  shows "reads (get_all_like args) args (args_bytes args)"
  using assms
proof (induction args)
  case (Cons a args)
  then have "reads (get_like a) a (arg_bytes a)" by (intro reads_arg) (auto simp: args_bytes_def)
  moreover have "reads (get_all_like args) args (args_bytes args)"
    using Cons by (simp add: args_bytes_def)
  ultimately show ?case using reads_bind reads_then_return by (fastforce simp: args_bytes_def)
qed (simp add: args_bytes_def reads_return)

section \<open>Whole messages\<close>

definition header_word :: "u16 \<Rightarrow> u16 \<Rightarrow> u32" where
  "header_word sz opcode = push_bit 16 (ucast sz) OR ucast opcode"

definition header_bytes :: "u32 \<Rightarrow> u16 \<Rightarrow> nat \<Rightarrow> u8 list" where
  "header_bytes object opcode n =
    to_le_bytes object @ to_le_bytes (header_word (word_of_nat n) opcode)"

lemma length_header_bytes [simp]: "length (header_bytes object opcode n) = 8"
  by (simp add: header_bytes_def)

lemma header_word_fields: "ucast (header_word sz opcode) = opcode" "ucast (drop_bit 16 (header_word sz opcode)) = sz"
  unfolding header_word_def by (rule bit_word_eqI, auto simp: bit_simps dest: bit_imp_le_length)+

lemma finished_bytes:
  assumes "8 + length bs \<le> length buf" and "length x = 4" and "length y = 4"
  shows "copy_at (copy_at (copy_at buf 8 bs) 0 x) 4 y = x @ y @ bs @ drop (8 + length bs) buf"
  using assms by (simp add: copy_at_def)

lemma message_writes:
  assumes "writes body bs" and "object \<noteq> 0" and "8 + length bs \<le> length buf"
    and "length buf < usize_limit" and "8 + length bs \<le> MAX_MESSAGE_SIZE"
  shows "message buf object opcode body =
    (Inr (header_bytes object opcode (8 + length bs) @ bs),
     header_bytes object opcode (8 + length bs) @ bs @ drop (8 + length bs) buf)"
proof -
  have "room \<lparr>mb_bytes = buf, mb_cursor = 8, mb_object_id = object, mb_opcode = opcode\<rparr> (length bs)"
    using assms by (simp add: room_def)
  from writes_run [OF assms(1) this] assms show ?thesis
    by (simp add: message_def MessageBuilder_new_def HEADER_SIZE_def MessageBuilder_finish_def MAX_MESSAGE_SIZE_def
        written_by_def finished_bytes Let_def header_bytes_def header_word_def)
qed

lemma decode_message:
  assumes "object \<noteq> 0" and "8 + length bs < 2 ^ 16" and "length bs mod 4 = 0"
  shows "Frame_decode (header_bytes object opcode (8 + length bs) @ bs @ rest) =
    Inr (\<lparr>fr_header = \<lparr>h_object_id = object, h_opcode = opcode, h_size = word_of_nat (8 + length bs)\<rparr>,
          fr_payload = bs\<rparr>, rest)"
proof -
  have n: "unat (word_of_nat (8 + length bs) :: u16) = 8 + length bs"
    using assms(2) by (simp add: unat_of_nat del: of_nat_add)
  have "(8 + length bs) mod 4 = 0" using assms(3) by (simp add: mod_add_eq [of 8 4, symmetric])
  then show ?thesis
    using assms(1)
    by (simp add: Frame_decode_def HEADER_SIZE_def Let_def header_bytes_def header_word_fields n del: of_nat_add)
qed

section \<open>The events\<close>

text \<open>The calls of the encoders, one constructor each.\<close>

datatype Event =
    EvRegistryGlobal u32 Global
  | EvRegistryGlobalRemove u32 u32
  | EvDisplayError u32 u32 "u8 list"
  | EvDisplayDeleteId u32
  | EvCallbackDone u32 u32
  | EvShmFormat u32 u32
  | EvSeatCapabilities u32 u32
  | EvSeatName u32 "u8 list"
  | EvKeyboardKeymap u32 u32 u32
  | EvKeyboardEnter u32 u32 u32 "u8 list"
  | EvKeyboardLeave u32 u32 u32
  | EvKeyboardKey u32 u32 u32 u32 u32
  | EvKeyboardModifiers u32 u32 u32 u32 u32 u32
  | EvKeyboardRepeatInfo u32 i32 i32
  | EvPointerEnter u32 u32 u32 i32 i32
  | EvPointerLeave u32 u32 u32
  | EvPointerMotion u32 u32 i32 i32
  | EvPointerButton u32 u32 u32 u32 u32
  | EvPointerAxis u32 u32 u32 i32
  | EvPointerFrame u32
  | EvOutputGeometry u32 i32 i32 i32 i32 i32 "u8 list" "u8 list" i32
  | EvOutputMode u32 u32 i32 i32 i32
  | EvOutputDone u32
  | EvOutputScale u32 i32
  | EvOutputName u32 "u8 list"
  | EvOutputDescription u32 "u8 list"
  | EvXdgToplevelConfigure u32 i32 i32 "u8 list"
  | EvXdgSurfaceConfigure u32 u32
  | EvBufferRelease u32

primrec encode_event :: "Event \<Rightarrow> u8 list \<Rightarrow> encoded" where
  "encode_event (EvRegistryGlobal registry glob) bytes = encode_registry_global bytes registry glob"
| "encode_event (EvRegistryGlobalRemove registry global_name) bytes = encode_registry_global_remove bytes registry global_name"
| "encode_event (EvDisplayError object code description) bytes = encode_display_error bytes object code description"
| "encode_event (EvDisplayDeleteId object) bytes = encode_display_delete_id bytes object"
| "encode_event (EvCallbackDone callback callback_data) bytes = encode_callback_done bytes callback callback_data"
| "encode_event (EvShmFormat shm format) bytes = encode_shm_format bytes shm format"
| "encode_event (EvSeatCapabilities seat capabilities) bytes = encode_seat_capabilities bytes seat capabilities"
| "encode_event (EvSeatName seat name) bytes = encode_seat_name bytes seat name"
| "encode_event (EvKeyboardKeymap keyboard format keymap_size) bytes = encode_keyboard_keymap bytes keyboard format keymap_size"
| "encode_event (EvKeyboardEnter keyboard serial surface pressed_keys) bytes = encode_keyboard_enter bytes keyboard serial surface pressed_keys"
| "encode_event (EvKeyboardLeave keyboard serial surface) bytes = encode_keyboard_leave bytes keyboard serial surface"
| "encode_event (EvKeyboardKey keyboard serial time key state) bytes = encode_keyboard_key bytes keyboard serial time key state"
| "encode_event (EvKeyboardModifiers keyboard serial depressed latched locked group_index) bytes = encode_keyboard_modifiers bytes keyboard serial depressed latched locked group_index"
| "encode_event (EvKeyboardRepeatInfo keyboard rate delay) bytes = encode_keyboard_repeat_info bytes keyboard rate delay"
| "encode_event (EvPointerEnter pointer serial surface surface_x surface_y) bytes = encode_pointer_enter bytes pointer serial surface surface_x surface_y"
| "encode_event (EvPointerLeave pointer serial surface) bytes = encode_pointer_leave bytes pointer serial surface"
| "encode_event (EvPointerMotion pointer time surface_x surface_y) bytes = encode_pointer_motion bytes pointer time surface_x surface_y"
| "encode_event (EvPointerButton pointer serial time button state) bytes = encode_pointer_button bytes pointer serial time button state"
| "encode_event (EvPointerAxis pointer time axis val) bytes = encode_pointer_axis bytes pointer time axis val"
| "encode_event (EvPointerFrame pointer) bytes = encode_pointer_frame bytes pointer"
| "encode_event (EvOutputGeometry output_id x y physical_width physical_height subpixel maker model_name transform) bytes = encode_output_geometry bytes output_id x y physical_width physical_height subpixel maker model_name transform"
| "encode_event (EvOutputMode output_id flags width height refresh) bytes = encode_output_mode bytes output_id flags width height refresh"
| "encode_event (EvOutputDone output_id) bytes = encode_output_done bytes output_id"
| "encode_event (EvOutputScale output_id factor) bytes = encode_output_scale bytes output_id factor"
| "encode_event (EvOutputName output_id name) bytes = encode_output_name bytes output_id name"
| "encode_event (EvOutputDescription output_id description) bytes = encode_output_description bytes output_id description"
| "encode_event (EvXdgToplevelConfigure toplevel width height states) bytes = encode_xdg_toplevel_configure bytes toplevel width height states"
| "encode_event (EvXdgSurfaceConfigure xdg_surface serial) bytes = encode_xdg_surface_configure bytes xdg_surface serial"
| "encode_event (EvBufferRelease buffer) bytes = encode_buffer_release bytes buffer"

text \<open>What an event is on the wire: its receiver, its opcode and its arguments, and when it is valid.\<close>

primrec event_valid :: "Event \<Rightarrow> bool" where
  "event_valid (EvRegistryGlobal _ _) \<longleftrightarrow> True"
| "event_valid (EvRegistryGlobalRemove _ _) \<longleftrightarrow> True"
| "event_valid (EvDisplayError _ _ _) \<longleftrightarrow> True"
| "event_valid (EvDisplayDeleteId _) \<longleftrightarrow> True"
| "event_valid (EvCallbackDone _ _) \<longleftrightarrow> True"
| "event_valid (EvShmFormat _ _) \<longleftrightarrow> True"
| "event_valid (EvSeatCapabilities _ _) \<longleftrightarrow> True"
| "event_valid (EvSeatName _ _) \<longleftrightarrow> True"
| "event_valid (EvKeyboardKeymap _ format keymap_size) \<longleftrightarrow> \<not> (format \<noteq> WL_KEYBOARD_KEYMAP_FORMAT_XKB_V1 \<or> keymap_size = 0)"
| "event_valid (EvKeyboardEnter _ serial _ pressed_keys) \<longleftrightarrow> \<not> (serial = 0 \<or> length pressed_keys mod 4 \<noteq> 0)"
| "event_valid (EvKeyboardLeave _ serial _) \<longleftrightarrow> \<not> (serial = 0)"
| "event_valid (EvKeyboardKey _ serial _ _ state) \<longleftrightarrow> \<not> (serial = 0 \<or> 1 < state)"
| "event_valid (EvKeyboardModifiers _ serial _ _ _ _) \<longleftrightarrow> \<not> (serial = 0)"
| "event_valid (EvKeyboardRepeatInfo _ rate delay) \<longleftrightarrow> \<not> (sint rate < 0 \<or> sint delay < 0)"
| "event_valid (EvPointerEnter _ serial _ _ _) \<longleftrightarrow> \<not> (serial = 0)"
| "event_valid (EvPointerLeave _ serial _) \<longleftrightarrow> \<not> (serial = 0)"
| "event_valid (EvPointerMotion _ _ _ _) \<longleftrightarrow> True"
| "event_valid (EvPointerButton _ serial _ _ state) \<longleftrightarrow> \<not> (serial = 0 \<or> 1 < state)"
| "event_valid (EvPointerAxis _ _ axis _) \<longleftrightarrow> \<not> (1 < axis)"
| "event_valid (EvPointerFrame _) \<longleftrightarrow> True"
| "event_valid (EvOutputGeometry _ _ _ physical_width physical_height _ _ _ _) \<longleftrightarrow> \<not> (sint physical_width \<le> 0 \<or> sint physical_height \<le> 0)"
| "event_valid (EvOutputMode _ _ width height refresh) \<longleftrightarrow> \<not> (sint width \<le> 0 \<or> sint height \<le> 0 \<or> sint refresh \<le> 0)"
| "event_valid (EvOutputDone _) \<longleftrightarrow> True"
| "event_valid (EvOutputScale _ factor) \<longleftrightarrow> \<not> (sint factor \<le> 0)"
| "event_valid (EvOutputName _ _) \<longleftrightarrow> True"
| "event_valid (EvOutputDescription _ _) \<longleftrightarrow> True"
| "event_valid (EvXdgToplevelConfigure _ width height _) \<longleftrightarrow> \<not> (sint width < 0 \<or> sint height < 0)"
| "event_valid (EvXdgSurfaceConfigure _ serial) \<longleftrightarrow> \<not> (serial = 0)"
| "event_valid (EvBufferRelease _) \<longleftrightarrow> True"

primrec event_object :: "Event \<Rightarrow> u32" where
  "event_object (EvRegistryGlobal registry _) = registry"
| "event_object (EvRegistryGlobalRemove registry _) = registry"
| "event_object (EvDisplayError _ _ _) = DISPLAY_OBJECT_ID"
| "event_object (EvDisplayDeleteId _) = DISPLAY_OBJECT_ID"
| "event_object (EvCallbackDone callback _) = callback"
| "event_object (EvShmFormat shm _) = shm"
| "event_object (EvSeatCapabilities seat _) = seat"
| "event_object (EvSeatName seat _) = seat"
| "event_object (EvKeyboardKeymap keyboard _ _) = keyboard"
| "event_object (EvKeyboardEnter keyboard _ _ _) = keyboard"
| "event_object (EvKeyboardLeave keyboard _ _) = keyboard"
| "event_object (EvKeyboardKey keyboard _ _ _ _) = keyboard"
| "event_object (EvKeyboardModifiers keyboard _ _ _ _ _) = keyboard"
| "event_object (EvKeyboardRepeatInfo keyboard _ _) = keyboard"
| "event_object (EvPointerEnter pointer _ _ _ _) = pointer"
| "event_object (EvPointerLeave pointer _ _) = pointer"
| "event_object (EvPointerMotion pointer _ _ _) = pointer"
| "event_object (EvPointerButton pointer _ _ _ _) = pointer"
| "event_object (EvPointerAxis pointer _ _ _) = pointer"
| "event_object (EvPointerFrame pointer) = pointer"
| "event_object (EvOutputGeometry output_id _ _ _ _ _ _ _ _) = output_id"
| "event_object (EvOutputMode output_id _ _ _ _) = output_id"
| "event_object (EvOutputDone output_id) = output_id"
| "event_object (EvOutputScale output_id _) = output_id"
| "event_object (EvOutputName output_id _) = output_id"
| "event_object (EvOutputDescription output_id _) = output_id"
| "event_object (EvXdgToplevelConfigure toplevel _ _ _) = toplevel"
| "event_object (EvXdgSurfaceConfigure xdg_surface _) = xdg_surface"
| "event_object (EvBufferRelease buffer) = buffer"

primrec event_opcode :: "Event \<Rightarrow> u16" where
  "event_opcode (EvRegistryGlobal _ _) = 0"
| "event_opcode (EvRegistryGlobalRemove _ _) = 1"
| "event_opcode (EvDisplayError _ _ _) = 0"
| "event_opcode (EvDisplayDeleteId _) = 1"
| "event_opcode (EvCallbackDone _ _) = 0"
| "event_opcode (EvShmFormat _ _) = 0"
| "event_opcode (EvSeatCapabilities _ _) = 0"
| "event_opcode (EvSeatName _ _) = 1"
| "event_opcode (EvKeyboardKeymap _ _ _) = 0"
| "event_opcode (EvKeyboardEnter _ _ _ _) = 1"
| "event_opcode (EvKeyboardLeave _ _ _) = 2"
| "event_opcode (EvKeyboardKey _ _ _ _ _) = 3"
| "event_opcode (EvKeyboardModifiers _ _ _ _ _ _) = 4"
| "event_opcode (EvKeyboardRepeatInfo _ _ _) = 5"
| "event_opcode (EvPointerEnter _ _ _ _ _) = 0"
| "event_opcode (EvPointerLeave _ _ _) = 1"
| "event_opcode (EvPointerMotion _ _ _ _) = 2"
| "event_opcode (EvPointerButton _ _ _ _ _) = 3"
| "event_opcode (EvPointerAxis _ _ _ _) = 4"
| "event_opcode (EvPointerFrame _) = 5"
| "event_opcode (EvOutputGeometry _ _ _ _ _ _ _ _ _) = 0"
| "event_opcode (EvOutputMode _ _ _ _ _) = 1"
| "event_opcode (EvOutputDone _) = 2"
| "event_opcode (EvOutputScale _ _) = 3"
| "event_opcode (EvOutputName _ _) = 4"
| "event_opcode (EvOutputDescription _ _) = 5"
| "event_opcode (EvXdgToplevelConfigure _ _ _ _) = 0"
| "event_opcode (EvXdgSurfaceConfigure _ _) = 0"
| "event_opcode (EvBufferRelease _) = 0"

primrec event_args :: "Event \<Rightarrow> Arg list" where
  "event_args (EvRegistryGlobal _ glob) = [AUint (g_name glob), AString (Interface_name (g_interface glob)), AUint (g_version glob)]"
| "event_args (EvRegistryGlobalRemove _ global_name) = [AUint global_name]"
| "event_args (EvDisplayError object code description) = [AObject object, AUint code, AString description]"
| "event_args (EvDisplayDeleteId object) = [AObject object]"
| "event_args (EvCallbackDone _ callback_data) = [AUint callback_data]"
| "event_args (EvShmFormat _ format) = [AUint format]"
| "event_args (EvSeatCapabilities _ capabilities) = [AUint capabilities]"
| "event_args (EvSeatName _ name) = [AString name]"
| "event_args (EvKeyboardKeymap _ format keymap_size) = [AUint format, AUint keymap_size]"
| "event_args (EvKeyboardEnter _ serial surface pressed_keys) = [AUint serial, AObject surface, AArray pressed_keys]"
| "event_args (EvKeyboardLeave _ serial surface) = [AUint serial, AObject surface]"
| "event_args (EvKeyboardKey _ serial time key state) = [AUint serial, AUint time, AUint key, AUint state]"
| "event_args (EvKeyboardModifiers _ serial depressed latched locked group_index) = [AUint serial, AUint depressed, AUint latched, AUint locked, AUint group_index]"
| "event_args (EvKeyboardRepeatInfo _ rate delay) = [AInt rate, AInt delay]"
| "event_args (EvPointerEnter _ serial surface surface_x surface_y) = [AUint serial, AObject surface, AFixed surface_x, AFixed surface_y]"
| "event_args (EvPointerLeave _ serial surface) = [AUint serial, AObject surface]"
| "event_args (EvPointerMotion _ time surface_x surface_y) = [AUint time, AFixed surface_x, AFixed surface_y]"
| "event_args (EvPointerButton _ serial time button state) = [AUint serial, AUint time, AUint button, AUint state]"
| "event_args (EvPointerAxis _ time axis val) = [AUint time, AUint axis, AFixed val]"
| "event_args (EvPointerFrame _) = []"
| "event_args (EvOutputGeometry _ x y physical_width physical_height subpixel maker model_name transform) = [AInt x, AInt y, AInt physical_width, AInt physical_height, AInt subpixel, AString maker, AString model_name, AInt transform]"
| "event_args (EvOutputMode _ flags width height refresh) = [AUint flags, AInt width, AInt height, AInt refresh]"
| "event_args (EvOutputDone _) = []"
| "event_args (EvOutputScale _ factor) = [AInt factor]"
| "event_args (EvOutputName _ name) = [AString name]"
| "event_args (EvOutputDescription _ description) = [AString description]"
| "event_args (EvXdgToplevelConfigure _ width height states) = [AInt width, AInt height, AArray states]"
| "event_args (EvXdgSurfaceConfigure _ serial) = [AUint serial]"
| "event_args (EvBufferRelease _) = []"

lemmas encoder_defs = encode_registry_global_def encode_registry_global_remove_def encode_display_error_def
  encode_display_delete_id_def encode_callback_done_def encode_shm_format_def
  encode_seat_capabilities_def encode_seat_name_def encode_keyboard_keymap_def
  encode_keyboard_enter_def encode_keyboard_leave_def encode_keyboard_key_def
  encode_keyboard_modifiers_def encode_keyboard_repeat_info_def encode_pointer_enter_def
  encode_pointer_leave_def encode_pointer_motion_def encode_pointer_button_def
  encode_pointer_axis_def encode_pointer_frame_def encode_output_geometry_def
  encode_output_mode_def encode_output_done_def encode_output_scale_def
  encode_output_name_def encode_output_description_def encode_xdg_toplevel_configure_def
  encode_xdg_surface_configure_def encode_buffer_release_def

lemma encode_event_invalid: "\<not> event_valid ev \<Longrightarrow> encode_event ev bytes = (Inl InvalidArgument, bytes)"
  by (cases ev) (simp_all add: encoder_defs)

lemma encode_event_message:
  "event_valid ev \<Longrightarrow> encode_event ev bytes =
    message bytes (event_object ev) (event_opcode ev) (in_order (map put_arg (event_args ev)))"
  by (cases ev) (simp_all add: encoder_defs)

text \<open>\<^bold>\<open>C27\<close>. Every event encoder round-trips through the wire format. The values an encoder
  validates before it starts a message (\<open>event_valid\<close>) it refuses with \<open>InvalidArgument\<close> and leaves the buffer alone. On valid values and well-formed
  arguments (non-null objects, UTF-8 text without zero bytes), whenever the message fits the buffer
  and the size limit, the encoder succeeds, keeps the rest of the buffer, and the message decodes,
  whatever follows it, to a frame with the event's object, opcode and size, from whose payload the
  argument reader returns exactly the event's arguments with nothing left over.\<close>

theorem events_roundtrip:
  assumes "length buf < usize_limit"
  shows "(\<not> event_valid ev \<longrightarrow> encode_event ev buf = (Inl InvalidArgument, buf))
    \<and> (event_valid ev \<and> list_all arg_ok (event_args ev) \<and> event_object ev \<noteq> 0
        \<and> 8 + length (args_bytes (event_args ev)) \<le> min (length buf) MAX_MESSAGE_SIZE \<longrightarrow>
      (\<exists>msg. encode_event ev buf = (Inr msg, msg @ drop (length msg) buf)
        \<and> (\<forall>rest. Frame_decode (msg @ rest) =
            Inr (\<lparr>fr_header = \<lparr>h_object_id = event_object ev, h_opcode = event_opcode ev,
                    h_size = word_of_nat (length msg)\<rparr>,
                  fr_payload = args_bytes (event_args ev)\<rparr>, rest))
        \<and> (\<exists>r. get_all_like (event_args ev) (ArgumentReader_new (args_bytes (event_args ev)))
              = (Inr (event_args ev), r) \<and> ArgumentReader_finish r = Inr ())))"
proof (intro conjI impI)
  show "\<not> event_valid ev \<Longrightarrow> encode_event ev buf = (Inl InvalidArgument, buf)"
    by (rule encode_event_invalid)
next
  let ?args = "event_args ev"
  let ?bs = "args_bytes ?args"
  assume "event_valid ev \<and> list_all arg_ok ?args \<and> event_object ev \<noteq> 0
    \<and> 8 + length ?bs \<le> min (length buf) MAX_MESSAGE_SIZE"
  then have v: "event_valid ev" and ok: "list_all arg_ok ?args" and ob: "event_object ev \<noteq> 0"
    and fit: "8 + length ?bs \<le> min (length buf) MAX_MESSAGE_SIZE" by simp_all
  then have small: "8 + length ?bs < 2 ^ 16" "length ?bs < 2 ^ 32" by (simp_all add: MAX_MESSAGE_SIZE_def)
  let ?msg = "header_bytes (event_object ev) (event_opcode ev) (8 + length ?bs) @ ?bs"
  have "encode_event ev buf = (Inr ?msg, ?msg @ drop (length ?msg) buf)"
    using message_writes [OF writes_args [OF ok small(2)] ob] fit assms v
    by (simp add: encode_event_message)
  moreover have "Frame_decode (?msg @ rest) = Inr (\<lparr>fr_header = \<lparr>h_object_id = event_object ev,
      h_opcode = event_opcode ev, h_size = word_of_nat (length ?msg)\<rparr>, fr_payload = ?bs\<rparr>, rest)" for rest
    using decode_message [OF ob small(1) args_bytes_mod, where rest = rest] by simp
  moreover have "\<exists>r. get_all_like ?args (ArgumentReader_new ?bs) = (Inr ?args, r) \<and> ArgumentReader_finish r = Inr ()"
    using reads_args [OF ok small(2), unfolded reads_def, rule_format, of "[]" "[]"] small(2)
    by (simp add: ArgumentReader_new_def ArgumentReader_finish_def usize_limit_def)
  ultimately show "\<exists>msg. encode_event ev buf = (Inr msg, msg @ drop (length msg) buf)
        \<and> (\<forall>rest. Frame_decode (msg @ rest) =
            Inr (\<lparr>fr_header = \<lparr>h_object_id = event_object ev, h_opcode = event_opcode ev,
                    h_size = word_of_nat (length msg)\<rparr>,
                  fr_payload = ?bs\<rparr>, rest))
        \<and> (\<exists>r. get_all_like ?args (ArgumentReader_new ?bs) = (Inr ?args, r) \<and> ArgumentReader_finish r = Inr ())"
    by blast
qed

theorem events_roundtrip_witness:
  "\<exists>msg. encode_keyboard_enter (replicate 64 0) 7 1 3 [30, 0, 0, 0] = (Inr msg, msg @ drop (length msg) (replicate 64 0))
    \<and> (\<exists>p. Frame_decode msg = Inr (\<lparr>fr_header = \<lparr>h_object_id = 7, h_opcode = 1, h_size = word_of_nat (length msg)\<rparr>,
          fr_payload = p\<rparr>, [])
        \<and> fst (get_all_like [AUint 0, AObject 0, AArray []] (ArgumentReader_new p))
            = Inr [AUint 1, AObject 3, AArray [30, 0, 0, 0]])"
proof -
  let ?ev = "EvKeyboardEnter 7 1 3 [30, 0, 0, 0]"
  have "length (args_bytes (event_args ?ev)) = 16"
    by (simp add: args_bytes_def length_sized pad4_def)
  then have "event_valid ?ev \<and> list_all arg_ok (event_args ?ev) \<and> event_object ?ev \<noteq> 0
      \<and> 8 + length (args_bytes (event_args ?ev)) \<le> min (length (replicate 64 (0 :: u8))) MAX_MESSAGE_SIZE"
    by (simp add: MAX_MESSAGE_SIZE_def)
  from events_roundtrip [where ev = ?ev and buf = "replicate 64 0", THEN conjunct2, THEN mp, OF _ this]
  obtain msg r where msg: "encode_event ?ev (replicate 64 0) = (Inr msg, msg @ drop (length msg) (replicate 64 0))"
    and dec: "\<And>rest. Frame_decode (msg @ rest) =
      Inr (\<lparr>fr_header = \<lparr>h_object_id = 7, h_opcode = 1, h_size = word_of_nat (length msg)\<rparr>,
            fr_payload = args_bytes (event_args ?ev)\<rparr>, rest)"
    and rd: "get_all_like (event_args ?ev) (ArgumentReader_new (args_bytes (event_args ?ev))) = (Inr (event_args ?ev), r)"
    by (auto simp: usize_limit_def)
  from msg dec [of "[]"] rd show ?thesis by simp
qed

end
