(* ===== verification/Object_Lifecycle.thy ===== *)
theory Object_Lifecycle
  imports Slop_Prelude
begin

text \<open>
  The contract of a table of protocol objects whose identifiers the peer chooses: an identifier is
  bound once, stays bound to the same kind while it is alive and while it is retired, and is free
  again only after the peer has been told so. A refused operation changes nothing. The client
  facts: the kind of an identifier is stable over any sequence of operations that does not delete
  it, and a retired identifier is neither revived nor rebound by such a sequence.
\<close>

datatype ('i, 'k) lifecycle_op = Insert 'i 'k | Retire 'i | Delete 'i

locale object_lifecycle =
  fixes wf :: "'m \<Rightarrow> bool"
    and view :: "'m \<Rightarrow> 'i \<Rightarrow> ('k \<times> bool) option"
    and insert_op :: "'i \<Rightarrow> 'k \<Rightarrow> 'm \<Rightarrow> ('e + unit) \<times> 'm"
    and retire_op :: "'i \<Rightarrow> 'm \<Rightarrow> ('e + unit) \<times> 'm"
    and delete_op :: "'i \<Rightarrow> 'm \<Rightarrow> ('e + unit) \<times> 'm"
  assumes insert_Ok: "wf m \<Longrightarrow> insert_op i k m = (Inr u, m') \<Longrightarrow>
      wf m' \<and> view m i = None \<and> view m' = (view m)(i \<mapsto> (k, True))"
    and insert_Err: "insert_op i k m = (Inl e, m') \<Longrightarrow> m' = m"
    and retire_Ok: "wf m \<Longrightarrow> retire_op i m = (Inr u, m') \<Longrightarrow>
      wf m' \<and> (\<exists>k. view m i = Some (k, True) \<and> view m' = (view m)(i \<mapsto> (k, False)))"
    and retire_Err: "retire_op i m = (Inl e, m') \<Longrightarrow> m' = m"
    and delete_Ok: "wf m \<Longrightarrow> delete_op i m = (Inr u, m') \<Longrightarrow>
      wf m' \<and> (\<exists>k. view m i = Some (k, False) \<and> view m' = (view m)(i := None))"
    and delete_Err: "delete_op i m = (Inl e, m') \<Longrightarrow> m' = m"
begin

primrec perform :: "('i, 'k) lifecycle_op \<Rightarrow> 'm \<Rightarrow> 'm" where
  "perform (Insert i k) m = snd (insert_op i k m)"
| "perform (Retire i) m = snd (retire_op i m)"
| "perform (Delete i) m = snd (delete_op i m)"

lemma insert_cases:
  assumes "wf m"
  obtains "perform (Insert i k) m = m"
  | "wf (perform (Insert i k) m)" "view m i = None" "view (perform (Insert i k) m) = (view m)(i \<mapsto> (k, True))"
  using insert_Ok [OF assms, of i k] insert_Err [of i k m] by (cases "insert_op i k m"; cases "fst (insert_op i k m)") auto

lemma retire_cases:
  assumes "wf m"
  obtains "perform (Retire i) m = m"
  | k where "wf (perform (Retire i) m)" "view m i = Some (k, True)"
      "view (perform (Retire i) m) = (view m)(i \<mapsto> (k, False))"
  using retire_Ok [OF assms, of i] retire_Err [of i m] by (cases "retire_op i m"; cases "fst (retire_op i m)") auto

lemma delete_cases:
  assumes "wf m"
  obtains "perform (Delete i) m = m"
  | k where "wf (perform (Delete i) m)" "view m i = Some (k, False)"
      "view (perform (Delete i) m) = (view m)(i := None)"
  using delete_Ok [OF assms, of i] delete_Err [of i m] by (cases "delete_op i m"; cases "fst (delete_op i m)") auto

lemma perform_wf: "wf m \<Longrightarrow> wf (perform opr m)"
  by (cases opr) (metis insert_cases, metis retire_cases, metis delete_cases)

lemma perform_keeps_kind:
  assumes "wf m" and "view m i = Some (k, alive)" and "opr \<noteq> Delete i"
  shows "\<exists>alive'. view (perform opr m) i = Some (k, alive') \<and> (alive' \<longrightarrow> alive)"
proof (cases opr)
  case (Insert j l)
  show ?thesis
    by (rule insert_cases [OF assms(1), of j l]; cases "i = j") (use assms Insert in \<open>simp_all del: perform.simps\<close>)
next
  case (Retire j)
  show ?thesis
    by (rule retire_cases [OF assms(1), of j]; cases "i = j") (use assms Retire in \<open>auto simp del: perform.simps\<close>)
next
  case (Delete j)
  show ?thesis
    by (rule delete_cases [OF assms(1), of j]) (use assms Delete in \<open>simp_all split: if_splits del: perform.simps\<close>)
qed

lemma fold_perform_wf: "wf m \<Longrightarrow> wf (fold perform ops m)"
  by (induction ops arbitrary: m) (simp_all add: perform_wf del: perform.simps)

lemma kind_is_stable:
  "wf m \<Longrightarrow> view m i = Some (k, alive) \<Longrightarrow> Delete i \<notin> set ops \<Longrightarrow>
    \<exists>alive'. view (fold perform ops m) i = Some (k, alive') \<and> (alive' \<longrightarrow> alive)"
proof (induction ops arbitrary: m alive)
  case (Cons opr ops)
  then obtain a where "view (perform opr m) i = Some (k, a)" and "a \<longrightarrow> alive"
    using perform_keeps_kind [of m i k alive opr] by auto
  with Cons.IH [of "perform opr m" a] Cons.prems show ?case by (auto simp: perform_wf simp del: perform.simps)
qed simp

lemma retired_is_not_rebound:
  assumes "wf m" and "view m i = Some (k, False)" and "Delete i \<notin> set ops"
  shows "\<exists>e. insert_op i l (fold perform ops m) = (Inl e, fold perform ops m)"
proof -
  from kind_is_stable [OF assms] have "view (fold perform ops m) i \<noteq> None" by auto
  with insert_Ok [OF fold_perform_wf [OF assms(1)], of i l] insert_Err [of i l] show ?thesis
    by (cases "insert_op i l (fold perform ops m)"; cases "fst (insert_op i l (fold perform ops m))") auto
qed

end

end
