(* ===== verification/Wayland_Proofs.thy ===== *)
theory Wayland_Proofs
  imports Wayland Wayland_Wire_Proofs Object_Lifecycle "HOL-Library.Code_Target_Nat"
begin

text \<open>
  The object map implements a finite map from identifiers to an interface, a version and a liveness
  flag, and is an instance of the object lifecycle; dispatch is type-safe over it: an accepted
  request names only live objects of the interfaces the request is about, and changes the map by
  exactly the object it creates or destroys.
\<close>

text \<open>The comparison of a name with the literals, on their bytes.\<close>

lemma Interface_from_name_bytes [code]:
  "Interface_from_name n =
    (if n = [119, 108, 95, 100, 105, 115, 112, 108, 97, 121] then Some Display
     else if n = [119, 108, 95, 114, 101, 103, 105, 115, 116, 114, 121] then Some Registry
     else if n = [119, 108, 95, 99, 97, 108, 108, 98, 97, 99, 107] then Some Callback
     else if n = [119, 108, 95, 99, 111, 109, 112, 111, 115, 105, 116, 111, 114] then Some Compositor
     else if n = [119, 108, 95, 115, 117, 114, 102, 97, 99, 101] then Some Surface
     else if n = [119, 108, 95, 114, 101, 103, 105, 111, 110] then Some Region
     else if n = [119, 108, 95, 115, 104, 109] then Some Shm
     else if n = [119, 108, 95, 115, 104, 109, 95, 112, 111, 111, 108] then Some ShmPool
     else if n = [119, 108, 95, 98, 117, 102, 102, 101, 114] then Some Buffer
     else if n = [119, 108, 95, 115, 101, 97, 116] then Some Seat
     else if n = [119, 108, 95, 112, 111, 105, 110, 116, 101, 114] then Some Pointer
     else if n = [119, 108, 95, 107, 101, 121, 98, 111, 97, 114, 100] then Some Keyboard
     else if n = [119, 108, 95, 111, 117, 116, 112, 117, 116] then Some Output
     else if n = [120, 100, 103, 95, 119, 109, 95, 98, 97, 115, 101] then Some XdgWmBase
     else if n = [120, 100, 103, 95, 115, 117, 114, 102, 97, 99, 101] then Some XdgSurface
     else if n = [120, 100, 103, 95, 116, 111, 112, 108, 101, 118, 101, 108] then Some XdgToplevel
     else None)"
  by (simp add: Interface_from_name_def ascii_def)

section \<open>The object map as a finite map\<close>

type_synonym object_kind = "Interface \<times> u32"

definition entry :: "Object \<Rightarrow> object_kind \<times> bool" where
  "entry ob = ((ob_interface ob, ob_version ob), is_active ob)"

definition object_view :: "ObjectMap \<Rightarrow> u32 \<Rightarrow> (object_kind \<times> bool) option" where
  "object_view om i = map_option entry (find (\<lambda>slot. ob_id slot = i \<and> ob_state slot \<noteq> Empty) (om_slots om))"

definition wf_slots :: "Object list \<Rightarrow> bool" where
  "wf_slots xs \<longleftrightarrow> (\<forall>k<length xs. ob_state (xs ! k) = Empty \<longleftrightarrow> ob_id (xs ! k) = 0)
    \<and> (\<forall>k<length xs. \<forall>l<length xs. ob_id (xs ! k) = ob_id (xs ! l) \<and> ob_id (xs ! k) \<noteq> 0 \<longrightarrow> k = l)"

definition wf_objects :: "ObjectMap \<Rightarrow> bool" where
  "wf_objects om \<longleftrightarrow> wf_slots (om_slots om) \<and> object_view om DISPLAY_OBJECT_ID = Some ((Display, 1), True)"

lemma find_nth: "find P xs = Some x \<longleftrightarrow> (\<exists>k<length xs. P (xs ! k) \<and> x = xs ! k \<and> (\<forall>j<k. \<not> P (xs ! j)))"
  by (rule find_Some_iff)

lemma ex_nth_update:
  assumes "k < length xs"
  shows "(\<exists>j<length xs. P (xs[k := x] ! j)) \<longleftrightarrow> P x \<or> (\<exists>j<length xs. j \<noteq> k \<and> P (xs ! j))"
  using assms by (metis nth_list_update_eq nth_list_update_neq)

lemma wf_slots_unique:
  "wf_slots xs \<Longrightarrow> k < length xs \<Longrightarrow> l < length xs \<Longrightarrow> ob_id (xs ! k) = ob_id (xs ! l) \<Longrightarrow> ob_id (xs ! k) \<noteq> 0 \<Longrightarrow> k = l"
  by (simp add: wf_slots_def)

lemma object_view_Some:
  assumes "wf_slots (om_slots om)"
  shows "object_view om i = Some e \<longleftrightarrow>
    i \<noteq> 0 \<and> (\<exists>k<length (om_slots om). ob_id (om_slots om ! k) = i \<and> entry (om_slots om ! k) = e)"
proof
  assume "object_view om i = Some e"
  then show "i \<noteq> 0 \<and> (\<exists>k<length (om_slots om). ob_id (om_slots om ! k) = i \<and> entry (om_slots om ! k) = e)"
    using assms by (auto simp: object_view_def find_nth wf_slots_def)
next
  assume "i \<noteq> 0 \<and> (\<exists>k<length (om_slots om). ob_id (om_slots om ! k) = i \<and> entry (om_slots om ! k) = e)"
  then obtain k where k: "i \<noteq> 0" "k < length (om_slots om)" "ob_id (om_slots om ! k) = i" "entry (om_slots om ! k) = e"
    by blast
  have "ob_id (om_slots om ! j) \<noteq> i" if "j < k" for j
    using wf_slots_unique [OF assms, of j k] k that by auto
  moreover have "ob_state (om_slots om ! k) \<noteq> Empty" using assms k by (simp add: wf_slots_def)
  ultimately have "find (\<lambda>slot. ob_id slot = i \<and> ob_state slot \<noteq> Empty) (om_slots om) = Some (om_slots om ! k)"
    using k unfolding find_nth by (intro exI [of _ k]) auto
  with k(4) show "object_view om i = Some e" by (simp add: object_view_def)
qed

lemma object_view_None:
  assumes "wf_slots (om_slots om)" and "i \<noteq> 0"
  shows "object_view om i = None \<longleftrightarrow> (\<forall>k<length (om_slots om). ob_id (om_slots om ! k) \<noteq> i)"
proof -
  have "object_view om i = None \<longleftrightarrow> (\<forall>e. object_view om i \<noteq> Some e)" by (cases "object_view om i") auto
  also have "\<dots> \<longleftrightarrow> (\<forall>k<length (om_slots om). ob_id (om_slots om ! k) \<noteq> i)"
    unfolding object_view_Some [OF assms(1)] using assms(2) by blast
  finally show ?thesis .
qed

lemma option_ext: "(\<And>e. a = Some e \<longleftrightarrow> b = Some e) \<Longrightarrow> a = b"
  by (cases a; cases b) auto

text \<open>Replacing the slot \<open>k\<close>: its old identifier is unbound and the new one is bound.\<close>

lemma object_view_update:
  assumes wf: "wf_slots xs" and k: "k < length xs"
    and new: "ob_state ob = Empty \<longleftrightarrow> ob_id ob = 0"
    and fresh: "ob_id ob \<noteq> 0 \<Longrightarrow> \<forall>j<length xs. j \<noteq> k \<longrightarrow> ob_id (xs ! j) \<noteq> ob_id ob"
  shows "wf_slots (xs[k := ob])"
    and "object_view \<lparr>om_slots = xs[k := ob]\<rparr> i =
      (if i \<noteq> 0 \<and> i = ob_id ob then Some (entry ob)
       else if i = ob_id (xs ! k) then None else object_view \<lparr>om_slots = xs\<rparr> i)"
proof -
  show wf': "wf_slots (xs[k := ob])"
    using assms unfolding wf_slots_def by (auto simp: nth_list_update)
  show "object_view \<lparr>om_slots = xs[k := ob]\<rparr> i =
      (if i \<noteq> 0 \<and> i = ob_id ob then Some (entry ob)
       else if i = ob_id (xs ! k) then None else object_view \<lparr>om_slots = xs\<rparr> i)"
  proof (rule option_ext)
    fix e
    let ?here = "\<lambda>j. ob_id (xs ! j) = i \<and> entry (xs ! j) = e"
    have new_view: "object_view \<lparr>om_slots = xs[k := ob]\<rparr> i = Some e \<longleftrightarrow>
        i \<noteq> 0 \<and> (ob_id ob = i \<and> entry ob = e \<or> (\<exists>j<length xs. j \<noteq> k \<and> ?here j))"
      using object_view_Some [of "\<lparr>om_slots = xs[k := ob]\<rparr>" i e] wf'
        ex_nth_update [OF k, of "\<lambda>ob. ob_id ob = i \<and> entry ob = e" ob] by simp
    have old_view: "object_view \<lparr>om_slots = xs\<rparr> i = Some e \<longleftrightarrow> i \<noteq> 0 \<and> (\<exists>j<length xs. ?here j)"
      using object_view_Some [of "\<lparr>om_slots = xs\<rparr>"] wf by simp
    have "\<not> ?here j" if "i \<noteq> 0" "i = ob_id ob \<or> i = ob_id (xs ! k)" "j < length xs" "j \<noteq> k" for j
      using that fresh wf_slots_unique [OF wf, of j k] k by auto
    then show "object_view \<lparr>om_slots = xs[k := ob]\<rparr> i = Some e \<longleftrightarrow>
      (if i \<noteq> 0 \<and> i = ob_id ob then Some (entry ob)
        else if i = ob_id (xs ! k) then None else object_view \<lparr>om_slots = xs\<rparr> i) = Some e"
      unfolding new_view using old_view by (cases "i = 0"; cases "i = ob_id ob"; cases "i = ob_id (xs ! k)") auto
  qed
qed

lemma ObjectMap_get_view:
  assumes "wf_slots (om_slots om)"
  shows "ObjectMap_get om i =
    (case object_view om i of
       Some ((f, v), True) \<Rightarrow> Inr \<lparr>ob_id = i, ob_interface = f, ob_version = v, ob_state = Active\<rparr>
     | _ \<Rightarrow> Inl UnknownObject)"
proof (cases "find (\<lambda>slot. ob_id slot = i \<and> is_active slot) (om_slots om)")
  case None
  then have "\<not> (\<exists>f v. object_view om i = Some ((f, v), True))"
    using assms by (auto simp: object_view_Some find_None_iff entry_def in_set_conv_nth)
  then show ?thesis using None
    by (auto simp: ObjectMap_get_def split: option.splits bool.splits)
next
  case (Some ob)
  then obtain k where k: "k < length (om_slots om)" "ob = om_slots om ! k" "ob_id ob = i" "is_active ob"
    by (auto simp: find_nth)
  then have "i \<noteq> 0" using assms by (auto simp: wf_slots_def is_active_def)
  with k assms have "object_view om i = Some ((ob_interface ob, ob_version ob), True)"
    by (auto simp: object_view_Some entry_def)
  with Some k show ?thesis by (simp add: ObjectMap_get_def is_active_def)
qed

lemma ObjectMap_get_Inr:
  assumes "wf_slots (om_slots om)" and "ObjectMap_get om i = Inr ob"
  shows "object_view om i = Some ((ob_interface ob, ob_version ob), True)" and "ob_id ob = i" and "ob_state ob = Active"
  using assms by (auto simp: ObjectMap_get_view split: option.splits prod.splits bool.splits)

lemma update_first_Inr:
  assumes "update_first P e f om = (Inr u, om')"
  obtains k where "k < length (om_slots om)" "P (om_slots om ! k)"
    "om' = \<lparr>om_slots = (om_slots om)[k := f (om_slots om ! k)]\<rparr>"
  using assms by (cases om) (auto simp: update_first_def position_Some split: option.splits)

lemma update_first_Inl: "update_first P e f om = (Inl e', om') \<Longrightarrow> om' = om \<and> e' = e"
  by (auto simp: update_first_def split: option.splits)

lemma ObjectMap_insert_Inl: "ObjectMap_insert i f v om = (Inl e, om') \<Longrightarrow> om' = om"
  by (auto simp: ObjectMap_insert_def edit_early dest: update_first_Inl split: if_splits)

lemma ObjectMap_retire_Inl: "ObjectMap_retire i om = (Inl e, om') \<Longrightarrow> om' = om"
  by (auto simp: ObjectMap_retire_def edit_early dest: update_first_Inl split: if_splits)

lemma ObjectMap_delete_Inl: "ObjectMap_delete_id_sent i om = (Inl e, om') \<Longrightarrow> om' = om"
  by (auto simp: ObjectMap_delete_id_sent_def dest: update_first_Inl)

lemma ObjectMap_insert_Inr:
  assumes wf: "wf_objects om" and ins: "ObjectMap_insert i f v om = (Inr u, om')"
  shows "wf_objects om' \<and> object_view om i = None \<and> object_view om' = (object_view om)(i \<mapsto> ((f, v), True)) \<and> i \<noteq> 0 \<and> v \<noteq> 0"
proof -
  from wf have ws: "wf_slots (om_slots om)" by (simp add: wf_objects_def)
  from ins have i: "i \<noteq> 0" "v \<noteq> 0" and fresh: "\<forall>k<length (om_slots om). ob_id (om_slots om ! k) \<noteq> i"
    and upd: "update_first (\<lambda>slot. ob_state slot = Empty) ObjectCapacity
      (\<lambda>_. \<lparr>ob_id = i, ob_interface = f, ob_version = v, ob_state = Active\<rparr>) om = (Inr u, om')"
    by (auto simp: ObjectMap_insert_def edit_early list_ex_iff all_set_conv_all_nth split: if_splits)
  from upd obtain k where k: "k < length (om_slots om)" "ob_state (om_slots om ! k) = Empty"
    and om': "om' = \<lparr>om_slots = (om_slots om)[k := \<lparr>ob_id = i, ob_interface = f, ob_version = v, ob_state = Active\<rparr>]\<rparr>"
    by (rule update_first_Inr)
  have k0: "ob_id (om_slots om ! k) = 0" using ws k by (simp add: wf_slots_def)
  have none: "object_view om i = None" using fresh i ws by (simp add: object_view_None)
  note upd_view = object_view_update [OF ws k(1), of "\<lparr>ob_id = i, ob_interface = f, ob_version = v, ob_state = Active\<rparr>"]
  have v0: "object_view om 0 = None" using ws object_view_Some [of om 0] by (cases "object_view om 0") auto
  have "object_view om' = (object_view om)(i \<mapsto> ((f, v), True))"
  proof
    fix j
    show "object_view om' j = ((object_view om)(i \<mapsto> ((f, v), True))) j"
      using upd_view(2) [of j] i fresh k0 v0 by (cases om) (auto simp: om' entry_def is_active_def)
  qed
  moreover have "wf_objects om'"
    using upd_view(1) calculation i fresh wf none by (auto simp: om' wf_objects_def)
  ultimately show ?thesis using i none by simp
qed

lemma ObjectMap_retire_Inr:
  assumes wf: "wf_objects om" and ret: "ObjectMap_retire i om = (Inr u, om')"
  shows "wf_objects om' \<and> i \<noteq> DISPLAY_OBJECT_ID
    \<and> (\<exists>fv. object_view om i = Some (fv, True) \<and> object_view om' = (object_view om)(i \<mapsto> (fv, False)))"
proof -
  from wf have ws: "wf_slots (om_slots om)" by (simp add: wf_objects_def)
  from ret have i: "i \<noteq> DISPLAY_OBJECT_ID"
    and upd: "update_first (\<lambda>slot. ob_id slot = i \<and> is_active slot) UnknownObject
      (\<lambda>slot. slot\<lparr>ob_state := Retired\<rparr>) om = (Inr u, om')"
    by (auto simp: ObjectMap_retire_def edit_early split: if_splits)
  from upd obtain k where k: "k < length (om_slots om)" "ob_id (om_slots om ! k) = i \<and> is_active (om_slots om ! k)"
    and om': "om' = \<lparr>om_slots = (om_slots om)[k := (om_slots om ! k)\<lparr>ob_state := Retired\<rparr>]\<rparr>"
    by (rule update_first_Inr)
  let ?ob = "(om_slots om ! k)\<lparr>ob_state := Retired\<rparr>"
  have i0: "i \<noteq> 0" using ws k by (auto simp: wf_slots_def is_active_def)
  have view: "object_view om i = Some (fst (entry (om_slots om ! k)), True)"
    using ws k i0 by (auto simp: object_view_Some entry_def)
  have fresh: "\<forall>j<length (om_slots om). j \<noteq> k \<longrightarrow> ob_id (om_slots om ! j) \<noteq> i"
    using ws k i0 by (auto simp: wf_slots_def)
  note upd_view = object_view_update [OF ws k(1), of ?ob]
  have "object_view om' = (object_view om)(i \<mapsto> (fst (entry (om_slots om ! k)), False))"
  proof
    fix j
    show "object_view om' j = ((object_view om)(i \<mapsto> (fst (entry (om_slots om ! k)), False))) j"
      using upd_view(2) [of j] i0 fresh k by (cases om) (auto simp: om' entry_def is_active_def)
  qed
  moreover have "wf_objects om'"
    using upd_view(1) calculation i i0 fresh k wf by (auto simp: om' wf_objects_def)
  ultimately show ?thesis using i view by auto
qed

lemma ObjectMap_delete_Inr:
  assumes wf: "wf_objects om" and del: "ObjectMap_delete_id_sent i om = (Inr u, om')"
  shows "wf_objects om' \<and> (\<exists>fv. object_view om i = Some (fv, False) \<and> object_view om' = (object_view om)(i := None))"
proof -
  from wf have ws: "wf_slots (om_slots om)" by (simp add: wf_objects_def)
  from del obtain k where k: "k < length (om_slots om)" "ob_id (om_slots om ! k) = i \<and> is_retired (om_slots om ! k)"
    and om': "om' = \<lparr>om_slots = (om_slots om)[k := Object_EMPTY]\<rparr>"
    unfolding ObjectMap_delete_id_sent_def by (rule update_first_Inr)
  have i0: "i \<noteq> 0" using ws k by (auto simp: wf_slots_def is_retired_def)
  have view: "object_view om i = Some (fst (entry (om_slots om ! k)), False)"
    using ws k i0 by (auto simp: object_view_Some entry_def is_active_def is_retired_def)
  note upd_view = object_view_update [OF ws k(1), of Object_EMPTY]
  have "object_view om' = (object_view om)(i := None)"
  proof
    fix j
    show "object_view om' j = ((object_view om)(i := None)) j"
      using upd_view(2) [of j] i0 k by (cases om) (auto simp: om' Object_EMPTY_def)
  qed
  moreover have "wf_objects om'"
    using upd_view(1) calculation view wf by (auto simp: om' wf_objects_def Object_EMPTY_def)
  ultimately show ?thesis using view by auto
qed

lemma ObjectMap_new_wf:
  assumes "ObjectMap_new capacity = Inr om"
  shows "wf_objects om" and "object_view om = [DISPLAY_OBJECT_ID \<mapsto> ((Display, 1), True)]" and "length (om_slots om) = capacity"
proof -
  let ?xs = "replicate capacity Object_EMPTY"
  let ?d = "\<lparr>ob_id = DISPLAY_OBJECT_ID, ob_interface = Display, ob_version = 1, ob_state = Active\<rparr>"
  from assms have c: "0 < length ?xs" and om: "om = \<lparr>om_slots = ?xs[0 := ?d]\<rparr>"
    by (auto simp: ObjectMap_new_def split: if_splits)
  have ws: "wf_slots ?xs" by (simp add: wf_slots_def Object_EMPTY_def)
  have "object_view \<lparr>om_slots = ?xs\<rparr> i = None" for i
    using object_view_Some [of "\<lparr>om_slots = ?xs\<rparr>" i] ws by (cases "object_view \<lparr>om_slots = ?xs\<rparr> i") (auto simp: Object_EMPTY_def)
  then have "object_view om i = [DISPLAY_OBJECT_ID \<mapsto> ((Display, 1), True)] i" for i
    using object_view_update(2) [OF ws c, of ?d i] c
    by (auto simp: om DISPLAY_OBJECT_ID_def Object_EMPTY_def entry_def is_active_def)
  then show v: "object_view om = [DISPLAY_OBJECT_ID \<mapsto> ((Display, 1), True)]" by blast
  show "wf_objects om"
    using object_view_update(1) [OF ws c, of ?d] c v
    by (simp add: wf_objects_def om DISPLAY_OBJECT_ID_def Object_EMPTY_def)
  show "length (om_slots om) = capacity" by (simp add: om)
qed

interpretation om: object_lifecycle wf_objects object_view "\<lambda>i (f, v). ObjectMap_insert i f v"
  ObjectMap_retire ObjectMap_delete_id_sent
  by unfold_locales
    (auto dest: ObjectMap_insert_Inr ObjectMap_insert_Inl ObjectMap_retire_Inr ObjectMap_retire_Inl
      ObjectMap_delete_Inr ObjectMap_delete_Inl)

text \<open>\<^bold>\<open>C28\<close>. An object identifier keeps its interface and version for as long as the client may
  use it: over any sequence of insertions, retirements and deletions, accepted or refused, on a
  well-formed object map, an identifier that is bound stays bound to the same interface and version
  and is never revived once retired, until \<open>delete_id_sent\<close> is called for it; meanwhile the map stays
  well formed and a retired identifier cannot be bound again.\<close>

theorem object_identity_is_stable:
  assumes "wf_objects objs" and "object_view objs i = Some (kind, alive)" and "Delete i \<notin> set ops"
  shows "wf_objects (fold om.perform ops objs)
    \<and> (\<exists>alive'. object_view (fold om.perform ops objs) i = Some (kind, alive') \<and> (alive' \<longrightarrow> alive))
    \<and> (\<not> alive \<longrightarrow> (\<exists>e. ObjectMap_insert i f v (fold om.perform ops objs) = (Inl e, fold om.perform ops objs)))"
  using om.fold_perform_wf [OF assms(1)] om.kind_is_stable [OF assms]
    om.retired_is_not_rebound [OF assms(1) _ assms(3), of kind "(f, v)"] assms(2) by auto

theorem object_identity_is_stable_witness:
  "\<exists>objs e. object_view objs 5 = Some ((Surface, 6), False)
    \<and> ObjectMap_insert 5 Buffer 1 (fold om.perform [Delete 4, Insert 5 (Region, 1), Insert 7 (Region, 1)] objs)
      = (Inl e, fold om.perform [Delete 4, Insert 5 (Region, 1), Insert 7 (Region, 1)] objs)"
proof -
  let ?objs = "\<lparr>om_slots = [\<lparr>ob_id = 1, ob_interface = Display, ob_version = 1, ob_state = Active\<rparr>,
    \<lparr>ob_id = 5, ob_interface = Surface, ob_version = 6, ob_state = Retired\<rparr>, Object_EMPTY]\<rparr>"
  let ?ops = "[Delete 4, Insert 5 (Region, 1), Insert 7 (Region, 1)]"
  have "wf_objects ?objs"
    by (simp add: wf_objects_def wf_slots_def All_less_Suc object_view_def entry_def is_active_def
        Object_EMPTY_def DISPLAY_OBJECT_ID_def)
  moreover have view: "object_view ?objs 5 = Some ((Surface, 6), False)"
    by (simp add: object_view_def entry_def is_active_def)
  moreover have "Delete (5 :: u32) \<notin> set ?ops" by simp
  ultimately have "\<exists>e. ObjectMap_insert 5 Buffer 1 (fold om.perform ?ops ?objs) = (Inl e, fold om.perform ?ops ?objs)"
    using object_identity_is_stable [of ?objs 5 "(Surface, 6)" False ?ops Buffer 1] by blast
  with view show ?thesis by blast
qed

section \<open>Dispatch is type-safe\<close>

text \<open>The objects a request names, with the interface it relies on, and the object it creates.\<close>

primrec request_uses :: "Request \<Rightarrow> (u32 \<times> Interface) set" where
  "request_uses (Sync _) = {}"
| "request_uses (GetRegistry _) = {}"
| "request_uses (Bind registry _ _ _ _) = {(registry, Registry)}"
| "request_uses (CreateSurface compositor _) = {(compositor, Compositor)}"
| "request_uses (CreateRegion compositor _) = {(compositor, Compositor)}"
| "request_uses (Destroy object interface) = {(object, interface)}"
| "request_uses (RegionAdd region _ _ _ _) = {(region, Region)}"
| "request_uses (RegionSubtract region _ _ _ _) = {(region, Region)}"
| "request_uses (SurfaceAttach surface buffer _ _) = insert (surface, Surface) ((\<lambda>b. (b, Buffer)) ` set_option buffer)"
| "request_uses (SurfaceDamage surface _ _ _ _ _) = {(surface, Surface)}"
| "request_uses (SurfaceFrame surface _) = {(surface, Surface)}"
| "request_uses (SurfaceSetRegion surface _ region) = insert (surface, Surface) ((\<lambda>r. (r, Region)) ` set_option region)"
| "request_uses (SurfaceCommit surface) = {(surface, Surface)}"
| "request_uses (SurfaceSetBufferTransform surface _) = {(surface, Surface)}"
| "request_uses (SurfaceSetBufferScale surface _) = {(surface, Surface)}"
| "request_uses (SurfaceOffset surface _ _) = {(surface, Surface)}"
| "request_uses (ShmCreatePool shm _ _ _) = {(shm, Shm)}"
| "request_uses (ShmPoolCreateBuffer pool _ _ _ _ _ _) = {(pool, ShmPool)}"
| "request_uses (ShmPoolResize pool _) = {(pool, ShmPool)}"
| "request_uses (SeatGetPointer seat _) = {(seat, Seat)}"
| "request_uses (SeatGetKeyboard seat _) = {(seat, Seat)}"
| "request_uses (PointerSetCursor pointer _ surface _ _) = insert (pointer, Pointer) ((\<lambda>s. (s, Surface)) ` set_option surface)"
| "request_uses (XdgGetSurface wm_base _ surface) = {(wm_base, XdgWmBase), (surface, Surface)}"
| "request_uses (XdgPong wm_base _) = {(wm_base, XdgWmBase)}"
| "request_uses (XdgGetToplevel xdg_surface _) = {(xdg_surface, XdgSurface)}"
| "request_uses (XdgAckConfigure xdg_surface _) = {(xdg_surface, XdgSurface)}"
| "request_uses (XdgSetWindowGeometry xdg_surface _ _ _ _) = {(xdg_surface, XdgSurface)}"
| "request_uses (ToplevelSetTitle toplevel _) = {(toplevel, XdgToplevel)}"
| "request_uses (ToplevelSetAppId toplevel _) = {(toplevel, XdgToplevel)}"
| "request_uses (ToplevelMove toplevel seat _) = {(toplevel, XdgToplevel), (seat, Seat)}"
| "request_uses (ToplevelResize toplevel seat _ _) = {(toplevel, XdgToplevel), (seat, Seat)}"
| "request_uses (ToplevelSetMaximized toplevel _) = {(toplevel, XdgToplevel)}"
| "request_uses (ToplevelSetFullscreen toplevel output_id) = insert (toplevel, XdgToplevel) ((\<lambda>x. (x, Output)) ` set_option output_id)"
| "request_uses (ToplevelSetMinimized toplevel) = {(toplevel, XdgToplevel)}"

fun request_creates :: "Request \<Rightarrow> (u32 \<times> Interface) option" where
  "request_creates (Sync callback) = Some (callback, Callback)"
| "request_creates (GetRegistry registry) = Some (registry, Registry)"
| "request_creates (Bind _ _ interface _ new_id) = Some (new_id, interface)"
| "request_creates (CreateSurface _ surface) = Some (surface, Surface)"
| "request_creates (CreateRegion _ region) = Some (region, Region)"
| "request_creates (SurfaceFrame _ callback) = Some (callback, Callback)"
| "request_creates (ShmCreatePool _ pool _ _) = Some (pool, ShmPool)"
| "request_creates (ShmPoolCreateBuffer _ buffer _ _ _ _ _) = Some (buffer, Buffer)"
| "request_creates (SeatGetPointer _ pointer) = Some (pointer, Pointer)"
| "request_creates (SeatGetKeyboard _ keyboard) = Some (keyboard, Keyboard)"
| "request_creates (XdgGetSurface _ xdg_surface _) = Some (xdg_surface, XdgSurface)"
| "request_creates (XdgGetToplevel _ toplevel) = Some (toplevel, XdgToplevel)"
| "request_creates _ = None"

definition live_as :: "ObjectMap \<Rightarrow> u32 \<Rightarrow> Interface \<Rightarrow> bool" where
  "live_as om i f \<longleftrightarrow> (\<exists>v. object_view om i = Some ((f, v), True))"

text \<open>The effect of an accepted request on the map.\<close>

definition request_effect :: "ObjectMap \<Rightarrow> Request \<Rightarrow> ObjectMap \<Rightarrow> bool" where
  "request_effect om request om' \<longleftrightarrow>
    (case request of
       Destroy i f \<Rightarrow> i \<noteq> DISPLAY_OBJECT_ID
         \<and> (\<exists>v. object_view om' = (object_view om)(i \<mapsto> ((f, v), False)))
     | _ \<Rightarrow> (case request_creates request of
          None \<Rightarrow> om' = om
        | Some (i, f) \<Rightarrow> object_view om i = None
            \<and> (\<exists>v. v \<noteq> 0 \<and> object_view om' = (object_view om)(i \<mapsto> ((f, v), True)))))"

definition typed_request :: "ObjectMap \<Rightarrow> Request \<Rightarrow> ObjectMap \<Rightarrow> bool" where
  "typed_request om request om' \<longleftrightarrow> wf_objects om'
    \<and> (\<forall>(i, f)\<in>request_uses request. live_as om i f) \<and> request_effect om request om'"

lemma argument_Inr: "argument m s = (Inr x, s') \<longleftrightarrow> (\<exists>r'. m (fst s) = (Inr x, r') \<and> s' = (r', snd s))"
  by (auto simp: argument_def split: prod.splits)

lemma objects_Inr: "objects m s = (Inr x, s') \<longleftrightarrow>
    (\<exists>om'. m (cn_objects (snd s)) = (Inr x, om') \<and> s' = (fst s, \<lparr>cn_objects = om'\<rparr>))"
  by (cases s; cases "snd s") (auto simp: objects_def on_objects_def split: prod.splits)

lemma Connection_expect_Inr:
  assumes "wf_objects om" and "Connection_expect i f om = (Inr ob, om')"
  shows "om' = om" and "live_as om i f"
  using assms ObjectMap_get_Inr [of om i]
  by (auto simp: Connection_expect_def ebind_query return_ok_def fail_with_def wf_objects_def live_as_def
      split: sum.splits if_splits)

lemma expect_opt_Inr:
  assumes "wf_objects (cn_objects (snd s))" and "expect_opt i f s = (Inr u, s')"
  shows "s' = s" and "\<forall>j\<in>set_option i. live_as (cn_objects (snd s)) j f"
  using assms Connection_expect_Inr [of "cn_objects (snd s)"]
  by (cases s; force simp: expect_opt_def ebind_eq_Inr objects_Inr return_ok_def split: option.splits)+

text \<open>A handler is typed at a map if every request it returns from there is.\<close>

definition typed :: "ObjectMap \<Rightarrow> Request dispatcher \<Rightarrow> bool" where
  "typed om m \<longleftrightarrow> (\<forall>s request s'. wf_objects om \<and> cn_objects (snd s) = om \<and> m s = (Inr request, s')
    \<longrightarrow> typed_request om request (cn_objects (snd s')))"

lemma typedD:
  "typed om m \<Longrightarrow> m s = (Inr request, s') \<Longrightarrow> wf_objects om \<Longrightarrow> cn_objects (snd s) = om
    \<Longrightarrow> typed_request om request (cn_objects (snd s'))"
  unfolding typed_def by blast

lemma typed_argument: "(\<And>x. typed om (f x)) \<Longrightarrow> typed om (ebind (argument m) f)"
  by (fastforce simp: typed_def ebind_eq_Inr argument_Inr)

lemma typed_guard: "(\<not> c \<Longrightarrow> typed om (f ())) \<Longrightarrow> typed om (ebind (guard c e) f)"
  by (auto simp: typed_def ebind_guard split: if_splits)

lemma typed_ok_or: "(\<And>x. y = Some x \<Longrightarrow> typed om (f x)) \<Longrightarrow> typed om (ebind (query (\<lambda>_. ok_or e y)) f)"
  by (cases y) (auto simp: typed_def ebind_query)

lemma typed_expect:
  assumes "\<And>x. live_as om i g \<Longrightarrow> typed om (f x)"
  shows "typed om (ebind (objects (Connection_expect i g)) f)"
  unfolding typed_def
proof (intro allI impI, elim conjE)
  fix s request s'
  assume wf: "wf_objects om" and om: "cn_objects (snd s) = om"
    and run: "ebind (objects (Connection_expect i g)) f s = (Inr request, s')"
  from run obtain x s1 where "objects (Connection_expect i g) s = (Inr x, s1)" and f: "f x s1 = (Inr request, s')"
    by (auto simp: ebind_eq_Inr)
  then obtain om' where "Connection_expect i g om = (Inr x, om')" "cn_objects (snd s1) = om'"
    by (auto simp: objects_Inr om)
  with Connection_expect_Inr [OF wf, of i g x om']
  show "typed_request om request (cn_objects (snd s'))" by (intro typedD [OF assms f wf]) auto
qed

lemma typed_expect_opt:
  "(\<forall>j\<in>set_option i. live_as om j g \<Longrightarrow> typed om (f ())) \<Longrightarrow> typed om (ebind (expect_opt i g) f)"
  using expect_opt_Inr [of _ i g] by (fastforce simp: typed_def ebind_eq_Inr)

lemma typed_fail: "typed om (fail_with e)"
  by (simp add: typed_def fail_with_def)

lemma typed_return:
  assumes "request_creates request = None" and "\<forall>(j, g)\<in>request_uses request. live_as om j g"
    and "\<forall>j g. request \<noteq> Destroy j g"
  shows "typed om (return_ok request)"
  using assms by (cases request) (auto simp: typed_def return_ok_def typed_request_def request_effect_def)

lemma typed_insert:
  assumes "request_creates request = Some (i, g)" and "\<forall>(j, g)\<in>request_uses request. live_as om j g"
    and "\<forall>j g. request \<noteq> Destroy j g"
  shows "typed om (ebind (objects (ObjectMap_insert i g v)) (\<lambda>_. return_ok request))"
proof -
  have "request_effect om request om' \<longleftrightarrow> object_view om i = None
      \<and> (\<exists>v. v \<noteq> 0 \<and> object_view om' = (object_view om)(i \<mapsto> ((g, v), True)))" for om'
    using assms(1,3) by (cases request) (auto simp: request_effect_def)
  then show ?thesis
    using assms(2) ObjectMap_insert_Inr [of om i g v]
    by (fastforce simp: typed_def ebind_eq_Inr objects_Inr return_ok_def typed_request_def)
qed

lemma typed_destroy: "live_as om (ob_id ob) (ob_interface ob) \<Longrightarrow> typed om (Connection_destroy ob)"
  using ObjectMap_retire_Inr [of om "ob_id ob"]
  by (fastforce simp: typed_def Connection_destroy_def ebind_eq_Inr objects_Inr return_ok_def typed_request_def
      live_as_def request_effect_def)

lemma typed_if: "(c \<Longrightarrow> typed om m) \<Longrightarrow> (\<not> c \<Longrightarrow> typed om n) \<Longrightarrow> typed om (if c then m else n)"
  by simp

lemmas typed_intros = typed_argument typed_guard typed_ok_or typed_expect typed_expect_opt typed_fail
  typed_insert typed_return typed_destroy typed_if

lemma dispatch_display_typed: "typed om (dispatch_display opcode)"
  unfolding dispatch_display_def by (auto intro!: typed_intros)

lemma dispatch_registry_typed: "live_as om (ob_id ob) (ob_interface ob) \<Longrightarrow> ob_interface ob = Registry \<Longrightarrow> typed om (dispatch_registry ob opcode)"
  unfolding dispatch_registry_def by (auto intro!: typed_intros)

lemma dispatch_compositor_typed: "live_as om (ob_id ob) (ob_interface ob) \<Longrightarrow> ob_interface ob = Compositor \<Longrightarrow> typed om (dispatch_compositor ob opcode)"
  unfolding dispatch_compositor_def by (auto intro!: typed_intros)

lemma dispatch_surface_typed: "live_as om (ob_id ob) (ob_interface ob) \<Longrightarrow> ob_interface ob = Surface \<Longrightarrow> typed om (dispatch_surface ob opcode)"
  unfolding dispatch_surface_def by (auto intro!: typed_intros)

lemma dispatch_region_typed: "live_as om (ob_id ob) (ob_interface ob) \<Longrightarrow> ob_interface ob = Region \<Longrightarrow> typed om (dispatch_region ob opcode)"
  unfolding dispatch_region_def by (auto intro!: typed_intros)

lemma dispatch_shm_typed: "live_as om (ob_id ob) (ob_interface ob) \<Longrightarrow> ob_interface ob = Shm \<Longrightarrow> typed om (dispatch_shm ob opcode fds)"
  unfolding dispatch_shm_def by (auto split: list.splits intro!: typed_intros)

lemma dispatch_shm_pool_typed: "live_as om (ob_id ob) (ob_interface ob) \<Longrightarrow> ob_interface ob = ShmPool \<Longrightarrow> typed om (dispatch_shm_pool ob opcode)"
  unfolding dispatch_shm_pool_def by (auto intro!: typed_intros)

lemma dispatch_destroy_only_typed: "live_as om (ob_id ob) (ob_interface ob) \<Longrightarrow> typed om (dispatch_destroy_only ob opcode)"
  unfolding dispatch_destroy_only_def by (auto intro!: typed_intros)

lemma dispatch_seat_typed: "live_as om (ob_id ob) (ob_interface ob) \<Longrightarrow> ob_interface ob = Seat \<Longrightarrow> typed om (dispatch_seat ob opcode)"
  unfolding dispatch_seat_def by (auto intro!: typed_intros)

lemma dispatch_pointer_typed: "live_as om (ob_id ob) (ob_interface ob) \<Longrightarrow> ob_interface ob = Pointer \<Longrightarrow> typed om (dispatch_pointer ob opcode)"
  unfolding dispatch_pointer_def by (auto intro!: typed_intros)

lemma dispatch_release_typed: "live_as om (ob_id ob) (ob_interface ob) \<Longrightarrow> typed om (dispatch_release ob opcode)"
  unfolding dispatch_release_def by (auto split: Interface.splits intro!: typed_intros)

lemma dispatch_xdg_wm_base_typed: "live_as om (ob_id ob) (ob_interface ob) \<Longrightarrow> ob_interface ob = XdgWmBase \<Longrightarrow> typed om (dispatch_xdg_wm_base ob opcode)"
  unfolding dispatch_xdg_wm_base_def by (auto intro!: typed_intros)

lemma dispatch_xdg_surface_typed: "live_as om (ob_id ob) (ob_interface ob) \<Longrightarrow> ob_interface ob = XdgSurface \<Longrightarrow> typed om (dispatch_xdg_surface ob opcode)"
  unfolding dispatch_xdg_surface_def by (auto intro!: typed_intros)

lemma dispatch_xdg_toplevel_typed: "live_as om (ob_id ob) (ob_interface ob) \<Longrightarrow> ob_interface ob = XdgToplevel \<Longrightarrow> typed om (dispatch_xdg_toplevel ob opcode)"
  unfolding dispatch_xdg_toplevel_def by (auto intro!: typed_intros)

lemma dispatch_object_typed: "live_as om (ob_id ob) (ob_interface ob) \<Longrightarrow> typed om (dispatch_object ob opcode fds)"
  unfolding dispatch_object_def
  by (cases "ob_interface ob")
    (simp_all add: typed_fail dispatch_display_typed dispatch_registry_typed dispatch_compositor_typed
      dispatch_surface_typed dispatch_region_typed dispatch_shm_typed dispatch_shm_pool_typed
      dispatch_destroy_only_typed dispatch_seat_typed dispatch_pointer_typed dispatch_release_typed
      dispatch_xdg_wm_base_typed dispatch_xdg_surface_typed dispatch_xdg_toplevel_typed)

lemma dispatch_typed:
  assumes "wf_objects (cn_objects c)" and "Connection_dispatch bytes fds c = (Inr (request, rest), c')"
  shows "(\<forall>(i, f)\<in>request_uses request. live_as (cn_objects c) i f)
    \<and> request_effect (cn_objects c) request (cn_objects c')
    \<and> (\<exists>n\<ge>8. n mod 4 = 0 \<and> n \<le> length bytes \<and> rest = drop n bytes)"
proof -
  from assms(2) obtain frame ob r where frame: "Frame_decode bytes = Inr (frame, rest)"
    and ob: "ObjectMap_get (cn_objects c) (h_object_id (fr_header frame)) = Inr ob"
    and run: "dispatch_object ob (h_opcode (fr_header frame)) fds (ArgumentReader_new (fr_payload frame), c) = (Inr request, (r, c'))"
    by (auto simp: Connection_dispatch_def ebind_query split: sum.splits prod.splits if_splits elim!: rbind.elims)
  from assms(1) ObjectMap_get_Inr [OF _ ob] have "live_as (cn_objects c) (ob_id ob) (ob_interface ob)"
    by (auto simp: wf_objects_def live_as_def)
  from typedD [OF dispatch_object_typed [OF this] run assms(1)]
  have "typed_request (cn_objects c) request (cn_objects c')" by simp
  moreover have "\<exists>n\<ge>8. n mod 4 = 0 \<and> n \<le> length bytes \<and> rest = drop n bytes"
    using Frame_decode_Inr [OF frame] by (intro exI [of _ "unat (h_size (fr_header frame))"]) simp
  ultimately show ?thesis by (auto simp: typed_request_def)
qed

text \<open>The map stays well formed on every path, refusals after a change included.\<close>

definition keeps_wf :: "'a dispatcher \<Rightarrow> bool" where
  "keeps_wf m \<longleftrightarrow> (\<forall>s. wf_objects (cn_objects (snd s)) \<longrightarrow> wf_objects (cn_objects (snd (snd (m s)))))"

lemma keeps_bind: "keeps_wf m \<Longrightarrow> (\<And>x. keeps_wf (f x)) \<Longrightarrow> keeps_wf (ebind m f)"
  unfolding keeps_wf_def ebind_def by (auto split: prod.splits sum.splits) (metis snd_conv)+

lemma keeps_simple: "keeps_wf (argument m')" "keeps_wf (guard c e)" "keeps_wf (query g)" "keeps_wf (return_ok x)" "keeps_wf (fail_with e')"
  by (auto simp: keeps_wf_def argument_def guard_def query_def return_ok_def fail_with_def split: prod.splits)

lemma keeps_objects:
  assumes "\<And>om x om'. wf_objects om \<Longrightarrow> m om = (x, om') \<Longrightarrow> wf_objects om'"
  shows "keeps_wf (objects m)"
  using assms by (auto simp: keeps_wf_def objects_def on_objects_def split: prod.splits)

lemma keeps_insert: "keeps_wf (objects (ObjectMap_insert i g v))"
proof (rule keeps_objects)
  fix om x om' assume "wf_objects om" and "ObjectMap_insert i g v om = (x, om')"
  then show "wf_objects om'" using ObjectMap_insert_Inr [of om i g v] ObjectMap_insert_Inl [of i g v om] by (cases x) auto
qed

lemma keeps_retire: "keeps_wf (objects (ObjectMap_retire i))"
proof (rule keeps_objects)
  fix om x om' assume "wf_objects om" and "ObjectMap_retire i om = (x, om')"
  then show "wf_objects om'" using ObjectMap_retire_Inr [of om i] ObjectMap_retire_Inl [of i om] by (cases x) auto
qed

lemma keeps_expect: "keeps_wf (objects (Connection_expect i g))"
  by (rule keeps_objects)
    (auto simp: Connection_expect_def ebind_query return_ok_def fail_with_def split: sum.splits if_splits)

lemma keeps_expect_opt: "keeps_wf (expect_opt i g)"
  unfolding expect_opt_def by (auto intro!: keeps_bind keeps_simple keeps_expect split: option.splits)

lemma keeps_destroy: "keeps_wf (Connection_destroy ob)"
  unfolding Connection_destroy_def by (intro keeps_bind keeps_simple keeps_retire)

lemmas keeps_intros = keeps_bind keeps_simple keeps_insert keeps_expect keeps_expect_opt keeps_destroy

lemma dispatch_object_keeps_wf: "keeps_wf (dispatch_object ob opcode fds)"
  unfolding dispatch_object_def dispatch_display_def dispatch_registry_def dispatch_compositor_def
    dispatch_region_def dispatch_shm_def dispatch_shm_pool_def dispatch_destroy_only_def
    dispatch_seat_def dispatch_pointer_def dispatch_release_def dispatch_xdg_wm_base_def
    dispatch_xdg_surface_def dispatch_surface_def dispatch_xdg_toplevel_def
  by (cases "ob_interface ob") (auto intro!: keeps_intros split: list.splits)

lemma dispatch_keeps_wf:
  assumes "wf_objects (cn_objects c)" and "Connection_dispatch bytes fds c = (result, c')"
  shows "wf_objects (cn_objects c')"
proof -
  have run: "wf_objects (cn_objects c'')" if "dispatch_object ob opcode fds (r, c) = (x, (r', c''))" for ob opcode r x r' c''
    using dispatch_object_keeps_wf [of ob opcode fds, unfolded keeps_wf_def, rule_format, of "(r, c)"] assms(1) that by simp
  from assms show ?thesis
    by (auto simp: Connection_dispatch_def ebind_query split: sum.splits prod.splits if_splits dest!: run)
qed

text \<open>The values an accepted request may carry.\<close>

fun request_valid :: "Request \<Rightarrow> bool" where
  "request_valid (Bind _ global interface version _) \<longleftrightarrow> version \<noteq> 0
    \<and> (\<exists>glob\<in>set CORE_GLOBALS. g_name glob = global \<and> g_interface glob = interface \<and> version \<le> g_version glob)"
| "request_valid (RegionAdd _ _ _ width height) \<longleftrightarrow> 0 \<le> sint width \<and> 0 \<le> sint height"
| "request_valid (RegionSubtract _ _ _ width height) \<longleftrightarrow> 0 \<le> sint width \<and> 0 \<le> sint height"
| "request_valid (SurfaceSetBufferScale _ scale) \<longleftrightarrow> 0 < sint scale"
| "request_valid (ShmCreatePool _ _ _ len) \<longleftrightarrow> 0 < sint len"
| "request_valid (ShmPoolCreateBuffer _ _ offset width height stride _) \<longleftrightarrow>
    0 \<le> sint offset \<and> 0 < sint width \<and> 0 < sint height \<and> 0 < sint stride"
| "request_valid (ShmPoolResize _ len) \<longleftrightarrow> 0 < sint len"
| "request_valid (XdgSetWindowGeometry _ _ _ width height) \<longleftrightarrow> 0 < sint width \<and> 0 < sint height"
| "request_valid (ToplevelSetTitle _ title) \<longleftrightarrow> text_ok title"
| "request_valid (ToplevelSetAppId _ app_id) \<longleftrightarrow> text_ok app_id"
| "request_valid _ \<longleftrightarrow> True"

definition yields :: "('a \<Rightarrow> bool) \<Rightarrow> 'a dispatcher \<Rightarrow> bool" where
  "yields P m \<longleftrightarrow> (\<forall>s x s'. m s = (Inr x, s') \<longrightarrow> P x)"

lemma query_Inr: "query g s = (Inr x, s') \<longleftrightarrow> g s = Inr x \<and> s' = s"
  by (auto simp: query_def)

lemma yields_bind: "(\<And>x. yields P (f x)) \<Longrightarrow> yields P (ebind m f)"
  by (fastforce simp: yields_def ebind_eq_Inr)

lemmas yields_then = yields_bind [of P f "objects m" for P f m] yields_bind [of P f "expect_opt i g" for P f i g]

lemma yields_argument:
  "(\<And>x r r'. m r = (Inr x, r') \<Longrightarrow> yields P (f x)) \<Longrightarrow> yields P (ebind (argument m) f)"
  by (fastforce simp: yields_def ebind_eq_Inr argument_Inr)

lemma yields_guard: "(\<not> c \<Longrightarrow> yields P (f ())) \<Longrightarrow> yields P (ebind (guard c e) f)"
  by (auto simp: yields_def ebind_guard split: if_splits)

lemma yields_ok_or: "(\<And>x. y = Some x \<Longrightarrow> yields P (f x)) \<Longrightarrow> yields P (ebind (query (\<lambda>_. ok_or e y)) f)"
  by (cases y) (auto simp: yields_def ebind_query)

lemma ArgumentReader_string_text: "ArgumentReader_string r = (Inr t, r') \<Longrightarrow> text_ok t"
  by (auto simp: ArgumentReader_string_def ArgumentReader_nullable_string_def ebind_eq_Inr ebind_guard query_Inr
      Let_def text_ok_def split: if_splits option.splits elim!: ok_or.elims)

lemma yields_return: "P x \<Longrightarrow> yields P (return_ok x)"
  and yields_fail: "yields P (fail_with e)"
  and yields_destroy: "P (Destroy (ob_id ob) (ob_interface ob)) \<Longrightarrow> yields P (Connection_destroy ob)"
  by (auto simp: yields_def return_ok_def fail_with_def Connection_destroy_def ebind_eq_Inr)

lemmas yields_intros = yields_guard yields_ok_or yields_argument yields_then yields_return yields_fail yields_destroy

lemma dispatch_object_valid: "yields request_valid (dispatch_object ob opcode fds)"
  unfolding dispatch_object_def dispatch_display_def dispatch_registry_def dispatch_compositor_def
    dispatch_region_def dispatch_shm_def dispatch_shm_pool_def dispatch_destroy_only_def
    dispatch_seat_def dispatch_pointer_def dispatch_release_def dispatch_xdg_wm_base_def
    dispatch_xdg_surface_def dispatch_surface_def dispatch_xdg_toplevel_def
  by (cases "ob_interface ob")
    (auto intro!: yields_intros split: list.splits dest!: ArgumentReader_string_text simp: not_less find_Some_iff)

lemma dispatch_valid:
  assumes "Connection_dispatch bytes fds c = (Inr (request, rest), c')"
  shows "request_valid request"
proof -
  from assms obtain ob opcode s s' where "dispatch_object ob opcode fds s = (Inr request, s')"
    by (auto simp: Connection_dispatch_def ebind_query split: sum.splits prod.splits if_splits elim!: rbind.elims)
  then show ?thesis using dispatch_object_valid unfolding yields_def by blast
qed

text \<open>\<^bold>\<open>C29\<close>. Dispatch is type-safe. From a well-formed object map, \<open>dispatch\<close> leaves a well-formed
  one whether or not it accepts the bytes. A request that it accepts names only live objects, each of
  the interface the request is about, carries values in the protocol's ranges (positive sizes, UTF-8
  text without zero bytes, a global that is advertised with that interface and at least that
  version), and changes the map by exactly its effect: a new object is bound under a fresh identifier
  to the interface it is created with, a destroyed object is retired and keeps its interface, and
  every other identifier keeps its binding. The frame is consumed whole.\<close>

theorem dispatch_is_type_safe:
  assumes "wf_objects (cn_objects c)" and "Connection_dispatch bytes fds c = (result, c')"
  shows "wf_objects (cn_objects c')
    \<and> (\<forall>request rest. result = Inr (request, rest) \<longrightarrow>
        (\<forall>(i, f)\<in>request_uses request. live_as (cn_objects c) i f)
        \<and> request_valid request
        \<and> request_effect (cn_objects c) request (cn_objects c')
        \<and> (\<exists>n\<ge>8. n mod 4 = 0 \<and> n \<le> length bytes \<and> rest = drop n bytes))"
  using dispatch_keeps_wf [OF assms] dispatch_typed [OF assms(1)] dispatch_valid assms(2) by blast

theorem dispatch_is_type_safe_witness:
  "\<exists>c c'. Connection_new 2 = Inr c
    \<and> Connection_dispatch [1, 0, 0, 0, 1, 0, 12, 0, 2, 0, 0, 0] [] c = (Inr (GetRegistry 2, []), c')
    \<and> wf_objects (cn_objects c') \<and> object_view (cn_objects c') 1 = Some ((Display, 1), True)"
proof -
  let ?c = "\<lparr>cn_objects = \<lparr>om_slots = [\<lparr>ob_id = 1, ob_interface = Display, ob_version = 1, ob_state = Active\<rparr>,
    Object_EMPTY]\<rparr>\<rparr>"
  let ?c' = "\<lparr>cn_objects = \<lparr>om_slots = [\<lparr>ob_id = 1, ob_interface = Display, ob_version = 1, ob_state = Active\<rparr>,
    \<lparr>ob_id = 2, ob_interface = Registry, ob_version = 1, ob_state = Active\<rparr>]\<rparr>\<rparr>"
  have new: "Connection_new 2 = Inr ?c" by (simp add: Connection_new_def ObjectMap_new_def DISPLAY_OBJECT_ID_def numeral_2_eq_2)
  then have wf: "wf_objects (cn_objects ?c)"
    using ObjectMap_new_wf(1) [of 2] by (auto simp: Connection_new_def elim!: rbind.elims)
  have run: "Connection_dispatch [1, 0, 0, 0, 1, 0, 12, 0, 2, 0, 0, 0] [] ?c = (Inr (GetRegistry 2, []), ?c')"
    by code_simp
  from dispatch_is_type_safe [OF wf run] have "wf_objects (cn_objects ?c')" by blast
  with new run show ?thesis by (auto simp: wf_objects_def DISPLAY_OBJECT_ID_def)
qed

end
