(* ===== verification/Wayland_Session_Proofs.thy ===== *)
theory Wayland_Session_Proofs
  imports Wayland_Session Wayland_Proofs
begin

text \<open>
  The session keeps its promises over every sequence of accepted batches and presentations: its
  slots name live objects of the right interfaces, the buffer geometry is consistent, the texts are
  valid UTF-8, and the phases advance in the protocol's order. The service keeps a session only
  when its batch was accepted (it works on a clone), so a step of the session is a successful one.
\<close>

section \<open>The invariant\<close>

definition slot_live :: "SingleSurfaceSession \<Rightarrow> u32 option \<Rightarrow> Interface \<Rightarrow> bool" where
  "slot_live s slot f \<longleftrightarrow> (\<forall>i. slot = Some i \<longrightarrow> live_as (cn_objects (ss_connection s)) i f)"

definition slots_typed :: "SingleSurfaceSession \<Rightarrow> bool" where
  "slots_typed s \<longleftrightarrow> slot_live s (ss_registry s) Registry \<and> slot_live s (ss_compositor s) Compositor
    \<and> slot_live s (ss_shm s) Shm \<and> slot_live s (ss_seat s) Seat \<and> slot_live s (ss_pointer s) Pointer
    \<and> slot_live s (ss_keyboard s) Keyboard \<and> slot_live s (ss_output s) Output
    \<and> slot_live s (ss_wm_base s) XdgWmBase \<and> slot_live s (ss_surface s) Surface
    \<and> slot_live s (ss_pool s) ShmPool \<and> slot_live s (map_option bf_id (ss_buffer s)) Buffer
    \<and> slot_live s (ss_xdg_surface s) XdgSurface \<and> slot_live s (ss_toplevel s) XdgToplevel
    \<and> slot_live s (ss_frame_callback s) Callback"

definition buffer_ok :: "BufferState \<Rightarrow> bool" where
  "buffer_ok b \<longleftrightarrow> bf_format b = 1 \<and> 0 < unat (bf_width b) \<and> 0 < unat (bf_height b)
    \<and> unat (bf_stride b) = 4 * unat (bf_width b) \<and> unat (bf_stride b) * unat (bf_height b) < 2 ^ 32"

definition surface_text_ok :: "SurfaceText \<Rightarrow> bool" where
  "surface_text_ok t \<longleftrightarrow> text_ok (SurfaceText_as_str t) \<and> length (SurfaceText_as_str t) = unat (tx_length t)
    \<and> unat (tx_length t) \<le> MAX_SURFACE_METADATA_LENGTH"

definition bootstrapped :: "SingleSurfaceSession \<Rightarrow> bool" where
  "bootstrapped s \<longleftrightarrow> ss_compositor s \<noteq> None \<and> ss_shm s \<noteq> None \<and> ss_seat s \<noteq> None \<and> ss_pointer s \<noteq> None
    \<and> ss_keyboard s \<noteq> None \<and> ss_output s \<noteq> None \<and> ss_wm_base s \<noteq> None \<and> ss_surface s \<noteq> None
    \<and> ss_xdg_surface s \<noteq> None \<and> ss_toplevel s \<noteq> None \<and> tx_length (ss_title s) \<noteq> 0 \<and> tx_length (ss_app_id s) \<noteq> 0"

definition ready :: "SingleSurfaceSession \<Rightarrow> bool" where
  "ready s \<longleftrightarrow> ss_configure_acked s \<and> ss_attached s \<and> ss_damaged s \<and> ss_window_geometry s
    \<and> ss_frame_callback s \<noteq> None \<and> ss_buffer s \<noteq> None"

definition configured :: "SurfacePhase \<Rightarrow> bool" where
  "configured p \<longleftrightarrow> p = AwaitConfiguredCommit \<or> p = PhaseCommitted"

definition session_inv :: "SingleSurfaceSession \<Rightarrow> bool" where
  "session_inv s \<longleftrightarrow> wf_objects (cn_objects (ss_connection s)) \<and> slots_typed s
    \<and> (\<forall>b. ss_buffer s = Some b \<longrightarrow> buffer_ok b)
    \<and> surface_text_ok (ss_title s) \<and> surface_text_ok (ss_app_id s)
    \<and> (configured (ss_phase s) \<longrightarrow> bootstrapped s)
    \<and> (ss_initial_committed s \<longrightarrow> ss_phase s = AwaitInitialCommit)
    \<and> (ss_committed s \<longrightarrow> configured (ss_phase s) \<and> ready s)
    \<and> ss_configure_serial s \<noteq> 0"

definition idle :: "SingleSurfaceSession \<Rightarrow> bool" where
  "idle s \<longleftrightarrow> session_inv s \<and> \<not> ss_initial_committed s \<and> (ss_committed s \<longleftrightarrow> ss_phase s = PhaseCommitted)"

text \<open>While a batch of \<open>n\<close> pixel bytes runs: a commit matched the buffer against \<open>n\<close>.\<close>

definition batch_inv :: "nat \<Rightarrow> SingleSurfaceSession \<Rightarrow> bool" where
  "batch_inv n s \<longleftrightarrow> session_inv s
    \<and> (ss_committed s \<longrightarrow> (\<forall>b. ss_buffer s = Some b \<longrightarrow> unat (bf_stride b) * unat (bf_height b) = n))"

section \<open>Texts and buffers\<close>

lemma SurfaceText_parse_ok:
  assumes "SurfaceText_parse val = Inr t" and "text_ok val"
  shows "surface_text_ok t" and "tx_length t \<noteq> 0" and "SurfaceText_as_str t = val"
proof -
  from assms(1) have v: "val \<noteq> []" "length val \<le> 31"
    and t: "t = \<lparr>tx_bytes = copy_at (replicate 31 0) 0 val, tx_length = word_of_nat (length val)\<rparr>"
    by (auto simp: SurfaceText_parse_def SurfaceText_EMPTY_def MAX_SURFACE_METADATA_LENGTH_def split: if_splits)
  have n: "unat (tx_length t) = length val" using v(2) by (simp add: t unat_of_nat)
  then show str: "SurfaceText_as_str t = val" by (simp add: SurfaceText_as_str_def) (simp add: t copy_at_def)
  with n v assms(2) show "surface_text_ok t" by (simp add: surface_text_ok_def MAX_SURFACE_METADATA_LENGTH_def)
  from n v(1) show "tx_length t \<noteq> 0" by (auto simp: unat_eq_zero)
qed

lemma SurfaceText_EMPTY_ok: "surface_text_ok SurfaceText_EMPTY"
  by (simp add: surface_text_ok_def SurfaceText_as_str_def SurfaceText_EMPTY_def text_ok_def)

lemma sint_pos_unat: "0 < sint (w :: i32) \<Longrightarrow> 0 < unat w"
  by (cases "w = 0") (auto simp: unat_gt_0)

lemma make_buffer_ok:
  assumes "make_buffer buffer offset width height stride format n = Inr b"
    and "0 < sint width" and "0 < sint height"
  shows "buffer_ok b" and "bf_id b = buffer" and "unat (bf_stride b) * unat (bf_height b) = n"
proof -
  from assms(1) obtain row total where b: "b = \<lparr>bf_id = buffer, bf_width = width, bf_height = height, bf_stride = stride, bf_format = 1\<rparr>"
    and row: "checked_mul width 4 = Some row" "stride = row" and total: "checked_mul stride height = Some total" "unat total = n"
    by (cases "checked_mul width 4"; cases "checked_mul stride height")
      (auto simp: make_buffer_def u32_try_from_def split: if_splits)
  from row have r: "unat stride = 4 * unat width" by (simp add: checked_mul_unat)
  have t: "unat total = unat stride * unat height" using total(1) by (rule checked_mul_unat)
  have "unat total < 2 ^ 32" using unsigned_less [of total] by simp
  with t have lim: "unat stride * unat height < 2 ^ 32" by simp
  show "buffer_ok b" using b r lim assms(2,3) by (simp add: buffer_ok_def sint_pos_unat)
  show "bf_id b = buffer" and "unat (bf_stride b) * unat (bf_height b) = n" using b t total(2) by simp_all
qed

section \<open>One request\<close>

text \<open>Accepted requests other than destruction keep every live object alive.\<close>

lemma live_as_kept:
  assumes "request_effect om request om'" and "\<forall>j g. request \<noteq> Destroy j g" and "live_as om i f"
  shows "live_as om' i f"
  using assms by (cases request) (auto simp: request_effect_def live_as_def fun_upd_def split: if_splits)

lemma live_as_created:
  assumes "request_effect om request om'" and "request_creates request = Some (i, f)"
  shows "live_as om' i f"
  using assms by (cases request) (auto simp: request_effect_def live_as_def)

lemma apply_phase: "SingleSurfaceSession_apply request d n s = (r, s') \<Longrightarrow> ss_phase s' = ss_phase s"
  by (cases request)
    (auto simp: SingleSurfaceSession_apply_def apply_registry_def apply_initial_def apply_configured_def
      set_once_def fail_with_def modify_def ebind_query
      split: SurfacePhase.splits if_splits Interface.splits sum.splits)

text \<open>What dispatch promises of the request that is applied, in the session it left.\<close>

definition offered :: "Request \<Rightarrow> SingleSurfaceSession \<Rightarrow> bool" where
  "offered request s \<longleftrightarrow> request_valid request
    \<and> (\<forall>i f. request_creates request = Some (i, f) \<longrightarrow> live_as (cn_objects (ss_connection s)) i f)"

lemmas inv_defs = batch_inv_def session_inv_def slots_typed_def slot_live_def bootstrapped_def ready_def configured_def

lemma apply_registry_inv:
  assumes "apply_registry request s = (Inr (), s')" and "batch_inv n s" and "offered request s"
    and "ss_phase s = AwaitRegistry"
  shows "batch_inv n s'"
  using assms
  by (cases request) (auto simp: apply_registry_def set_once_def fail_with_def offered_def inv_defs split: if_splits)

text \<open>The requests each phase accepts, and the field each one sets.\<close>

definition initial_update :: "Request \<Rightarrow> SingleSurfaceSession \<Rightarrow> SingleSurfaceSession \<Rightarrow> bool" where
  "initial_update request s s' =
    (case request of
       Bind _ _ interface _ i \<Rightarrow> interface = Compositor \<and> s' = s\<lparr>ss_compositor := Some i\<rparr>
         \<or> interface = Shm \<and> s' = s\<lparr>ss_shm := Some i\<rparr> \<or> interface = Seat \<and> s' = s\<lparr>ss_seat := Some i\<rparr>
         \<or> interface = Output \<and> s' = s\<lparr>ss_output := Some i\<rparr>
         \<or> interface = XdgWmBase \<and> s' = s\<lparr>ss_wm_base := Some i\<rparr>
     | SeatGetPointer _ i \<Rightarrow> s' = s\<lparr>ss_pointer := Some i\<rparr>
     | SeatGetKeyboard _ i \<Rightarrow> s' = s\<lparr>ss_keyboard := Some i\<rparr>
     | CreateSurface _ i \<Rightarrow> s' = s\<lparr>ss_surface := Some i\<rparr>
     | XdgGetSurface _ i _ \<Rightarrow> s' = s\<lparr>ss_xdg_surface := Some i\<rparr>
     | XdgGetToplevel _ i \<Rightarrow> s' = s\<lparr>ss_toplevel := Some i\<rparr>
     | ToplevelSetTitle _ t \<Rightarrow> (\<exists>v. SurfaceText_parse t = Inr v \<and> s' = s\<lparr>ss_title := v\<rparr>)
     | ToplevelSetAppId _ t \<Rightarrow> (\<exists>v. SurfaceText_parse t = Inr v \<and> s' = s\<lparr>ss_app_id := v\<rparr>)
     | SurfaceCommit _ \<Rightarrow> s' = s\<lparr>ss_initial_committed := True\<rparr>
     | _ \<Rightarrow> False)"

definition configured_update :: "nat \<Rightarrow> Request \<Rightarrow> SingleSurfaceSession \<Rightarrow> SingleSurfaceSession \<Rightarrow> bool" where
  "configured_update n request s s' =
    (case request of
       ShmCreatePool _ i _ _ \<Rightarrow> s' = s\<lparr>ss_pool := Some i\<rparr>
     | ShmPoolCreateBuffer _ i offset width height stride format \<Rightarrow>
         (\<exists>b. make_buffer i offset width height stride format n = Inr b \<and> s' = s\<lparr>ss_buffer := Some b\<rparr>)
     | XdgAckConfigure _ _ \<Rightarrow> s' = s\<lparr>ss_configure_acked := True\<rparr>
     | XdgSetWindowGeometry _ _ _ _ _ \<Rightarrow> s' = s\<lparr>ss_window_geometry := True\<rparr>
     | SurfaceAttach _ _ _ _ \<Rightarrow> s' = s\<lparr>ss_attached := True\<rparr>
     | SurfaceDamage _ _ _ _ _ _ \<Rightarrow> s' = s\<lparr>ss_damaged := True\<rparr>
     | SurfaceFrame _ i \<Rightarrow> s' = s\<lparr>ss_frame_callback := Some i\<rparr>
     | SurfaceCommit _ \<Rightarrow> commit_ready n s = Inr () \<and> s' = s\<lparr>ss_committed := True\<rparr>
     | _ \<Rightarrow> False)"

lemma bind_update:
  "apply_initial (Bind registry global interface version i) s = (Inr (), s') \<Longrightarrow>
    initial_update (Bind registry global interface version i) s s'"
  by (cases interface) (simp_all add: apply_initial_def initial_update_def set_once_def fail_with_def split: if_splits)

lemma apply_initial_update:
  assumes "apply_initial request s = (Inr (), s')"
  shows "initial_update request s s'"
proof (cases "\<exists>registry global interface version i. request = Bind registry global interface version i")
  case True
  with assms bind_update show ?thesis by blast
next
  case False
  with assms show ?thesis
    by (cases request)
      (simp_all add: apply_initial_def initial_update_def set_once_def fail_with_def modify_def ebind_query
        split: if_splits sum.splits)
qed

text \<open>Each update keeps the invariant.\<close>

lemma slot_update_inv:
  assumes "batch_inv n s"
  shows "live_as (cn_objects (ss_connection s)) i Compositor \<Longrightarrow> batch_inv n (s\<lparr>ss_compositor := Some i\<rparr>)"
    and "live_as (cn_objects (ss_connection s)) i Shm \<Longrightarrow> batch_inv n (s\<lparr>ss_shm := Some i\<rparr>)"
    and "live_as (cn_objects (ss_connection s)) i Seat \<Longrightarrow> batch_inv n (s\<lparr>ss_seat := Some i\<rparr>)"
    and "live_as (cn_objects (ss_connection s)) i Output \<Longrightarrow> batch_inv n (s\<lparr>ss_output := Some i\<rparr>)"
    and "live_as (cn_objects (ss_connection s)) i XdgWmBase \<Longrightarrow> batch_inv n (s\<lparr>ss_wm_base := Some i\<rparr>)"
    and "live_as (cn_objects (ss_connection s)) i Pointer \<Longrightarrow> batch_inv n (s\<lparr>ss_pointer := Some i\<rparr>)"
    and "live_as (cn_objects (ss_connection s)) i Keyboard \<Longrightarrow> batch_inv n (s\<lparr>ss_keyboard := Some i\<rparr>)"
    and "live_as (cn_objects (ss_connection s)) i Surface \<Longrightarrow> batch_inv n (s\<lparr>ss_surface := Some i\<rparr>)"
    and "live_as (cn_objects (ss_connection s)) i XdgSurface \<Longrightarrow> batch_inv n (s\<lparr>ss_xdg_surface := Some i\<rparr>)"
    and "live_as (cn_objects (ss_connection s)) i XdgToplevel \<Longrightarrow> batch_inv n (s\<lparr>ss_toplevel := Some i\<rparr>)"
    and "live_as (cn_objects (ss_connection s)) i ShmPool \<Longrightarrow> batch_inv n (s\<lparr>ss_pool := Some i\<rparr>)"
  using assms by (simp_all add: inv_defs)

lemma initial_field_inv:
  assumes "batch_inv n s" and "ss_phase s = AwaitInitialCommit"
  shows "surface_text_ok t \<Longrightarrow> batch_inv n (s\<lparr>ss_title := t\<rparr>)" and "surface_text_ok t \<Longrightarrow> batch_inv n (s\<lparr>ss_app_id := t\<rparr>)"
    and "batch_inv n (s\<lparr>ss_initial_committed := True\<rparr>)"
  using assms by (simp_all add: inv_defs)

lemma configured_field_inv:
  assumes "batch_inv n s" and "ss_phase s = AwaitConfiguredCommit" and "\<not> ss_committed s"
  shows "buffer_ok b \<Longrightarrow> live_as (cn_objects (ss_connection s)) (bf_id b) Buffer \<Longrightarrow> batch_inv n (s\<lparr>ss_buffer := Some b\<rparr>)"
    and "live_as (cn_objects (ss_connection s)) i Callback \<Longrightarrow> batch_inv n (s\<lparr>ss_frame_callback := Some i\<rparr>)"
    and "batch_inv n (s\<lparr>ss_configure_acked := True\<rparr>)" and "batch_inv n (s\<lparr>ss_window_geometry := True\<rparr>)"
    and "batch_inv n (s\<lparr>ss_attached := True\<rparr>)" and "batch_inv n (s\<lparr>ss_damaged := True\<rparr>)"
  using assms by (simp_all add: inv_defs)

lemma initial_update_inv:
  assumes "initial_update request s s'" and inv: "batch_inv n s" and "offered request s" and ph: "ss_phase s = AwaitInitialCommit"
  shows "batch_inv n s'"
  using assms(1,3)
  by (cases request)
    (auto simp: initial_update_def offered_def SurfaceText_parse_ok slot_update_inv [OF inv] initial_field_inv [OF inv ph])

lemma apply_configured_update: "apply_configured request d n s = (Inr (), s') \<Longrightarrow> configured_update n request s s'"
  by (cases request)
    (simp_all add: apply_configured_def configured_update_def set_once_def fail_with_def modify_def ebind_query
      split: if_splits sum.splits)

lemma commit_ready_Inr:
  assumes "commit_ready n s = Inr ()"
  shows "ready s" and "\<forall>b. ss_buffer s = Some b \<longrightarrow> unat (bf_stride b) * unat (bf_height b) = n"
proof -
  from assms obtain b where b: "ss_buffer s = Some b" by (cases "ss_buffer s") (auto simp: commit_ready_def)
  with assms obtain total where t: "checked_mul (bf_stride b) (bf_height b) = Some total" "unat total = n"
    and "ready s"
    by (cases "checked_mul (bf_stride b) (bf_height b)") (auto simp: commit_ready_def ready_def split: if_splits)
  then show "ready s" by simp
  from t have "unat (bf_stride b) * unat (bf_height b) = n" by (simp add: checked_mul_unat)
  with b show "\<forall>b. ss_buffer s = Some b \<longrightarrow> unat (bf_stride b) * unat (bf_height b) = n" by simp
qed

lemma commit_inv:
  assumes "batch_inv n s" and "ss_phase s = AwaitConfiguredCommit" and "commit_ready n s = Inr ()"
  shows "batch_inv n (s\<lparr>ss_committed := True\<rparr>)"
  using assms(1,2) commit_ready_Inr [OF assms(3)] by (simp add: inv_defs)

lemma configured_update_inv:
  assumes "configured_update n request s s'" and inv: "batch_inv n s" and "offered request s"
    and ph: "ss_phase s = AwaitConfiguredCommit" and nc: "\<not> ss_committed s"
  shows "batch_inv n s'"
  using assms(1,3)
  by (cases request)
    (auto simp: configured_update_def offered_def make_buffer_ok slot_update_inv [OF inv] commit_inv [OF inv ph]
      intro!: configured_field_inv [OF inv ph nc])

lemma apply_inv:
  assumes "SingleSurfaceSession_apply request d n s = (Inr (), s')" and "batch_inv n s" and "offered request s"
    and "\<not> ss_committed s"
  shows "batch_inv n s'"
  using assms by (auto simp: SingleSurfaceSession_apply_def fail_with_def split: SurfacePhase.splits
      intro: apply_registry_inv initial_update_inv [OF apply_initial_update] configured_update_inv [OF apply_configured_update])

lemma apply_not_destroy: "SingleSurfaceSession_apply (Destroy i f) d n s \<noteq> (Inr (), s')"
  by (auto simp: SingleSurfaceSession_apply_def apply_registry_def apply_initial_def apply_configured_def fail_with_def
      split: SurfacePhase.splits)

section \<open>Frames and batches\<close>

lemma batch_inv_connection:
  assumes inv: "batch_inv n s" and wf: "wf_objects (cn_objects c)"
    and kept: "\<And>i f. live_as (cn_objects (ss_connection s)) i f \<Longrightarrow> live_as (cn_objects c) i f"
  shows "batch_inv n (s\<lparr>ss_connection := c\<rparr>)"
  using assms by (auto simp: inv_defs)

lemma accept_frame_Inr:
  assumes "accept_frame wire fd n s = (Inr rest, s')"
  obtains request c fds d where "\<not> ss_initial_committed s" "\<not> ss_committed s"
    "Connection_dispatch wire fds (ss_connection s) = (Inr (request, rest), c)"
    "SingleSurfaceSession_apply request d n (s\<lparr>ss_connection := c\<rparr>) = (Inr (), s')"
  using assms
  by (auto simp: accept_frame_def ebind_eq_Inr query_def on_connection_def return_ok_def Let_def
      split: if_splits sum.splits prod.splits elim!: map_err.elims)

lemma accept_frame_inv:
  assumes "accept_frame wire fd n s = (Inr rest, s')" and inv: "batch_inv n s"
  shows "batch_inv n s' \<and> ss_phase s' = ss_phase s"
proof -
  obtain request c fds d where nc: "\<not> ss_committed s"
    and disp: "Connection_dispatch wire fds (ss_connection s) = (Inr (request, rest), c)"
    and run: "SingleSurfaceSession_apply request d n (s\<lparr>ss_connection := c\<rparr>) = (Inr (), s')"
    using assms(1) by (rule accept_frame_Inr)
  from inv have wf: "wf_objects (cn_objects (ss_connection s))" by (simp add: inv_defs)
  from dispatch_typed [OF wf disp] have eff: "request_effect (cn_objects (ss_connection s)) request (cn_objects c)" by blast
  have nd: "\<forall>j g. request \<noteq> Destroy j g" using run apply_not_destroy by blast
  have inv': "batch_inv n (s\<lparr>ss_connection := c\<rparr>)"
    using inv dispatch_keeps_wf [OF wf disp] live_as_kept [OF eff nd] by (rule batch_inv_connection)
  have "offered request (s\<lparr>ss_connection := c\<rparr>)"
    using dispatch_valid [OF disp] live_as_created [OF eff] by (simp add: offered_def)
  from apply_inv [OF run inv' this] nc apply_phase [OF run] show ?thesis by simp
qed

lemma accept_loop_inv:
  "accept_loop wire fd n s = (Inr (), s') \<Longrightarrow> batch_inv n s \<Longrightarrow> batch_inv n s' \<and> ss_phase s' = ss_phase s"
proof (induction wire fd n s rule: accept_loop.induct)
  case (1 wire fd n s)
  show ?case
  proof (cases "wire = []")
    case True
    with "1.prems" show ?thesis by (simp add: accept_loop.simps)
  next
    case False
    with "1.prems"(1) obtain rest s1 where f: "accept_frame wire fd n s = (Inr rest, s1)"
      and l: "accept_loop rest fd n s1 = (Inr (), s')"
      by (simp add: accept_loop.simps [of wire] split: prod.splits sum.splits)
    from accept_frame_inv [OF f "1.prems"(2)] "1.IH" [OF False f [symmetric] refl l] show ?thesis by simp
  qed
qed

lemma batch_inv_idle: "idle s \<Longrightarrow> ss_phase s \<noteq> PhaseCommitted \<Longrightarrow> batch_inv n s"
  by (simp add: idle_def batch_inv_def)

lemma accept_batch_Inr:
  assumes "accept_batch wire fd n s = (Inr ev, s')" and "idle s"
  obtains s1 where "batch_inv n s1" "ss_phase s1 = ss_phase s" "ss_phase s \<noteq> PhaseCommitted" "finish_batch s1 = (Inr ev, s')"
proof -
  from assms(1) obtain s1 where p: "ss_phase s \<noteq> PhaseCommitted" and l: "accept_loop wire fd n s = (Inr (), s1)"
    and f: "finish_batch s1 = (Inr ev, s')"
    by (auto simp: accept_batch_def ebind_eq_Inr query_def split: if_splits)
  from accept_loop_inv [OF l batch_inv_idle [OF assms(2) p]] p f that show ?thesis by blast
qed

lemma rbind_ok_or: "rbind (ok_or e x) f = Inr y \<longleftrightarrow> (\<exists>v. x = Some v \<and> f v = Inr y)"
  by (cases x) auto

text \<open>The fields of the record a committed session reports.\<close>

lemma snapshot_Inr:
  assumes "SingleSurfaceSession_snapshot s = Inr c"
  shows "\<exists>b. ss_buffer s = Some b \<and> ss_surface s = Some (co_surface c) \<and> bf_id b = co_buffer c
    \<and> ss_xdg_surface s = Some (co_xdg_surface c) \<and> ss_toplevel s = Some (co_toplevel c)
    \<and> ss_frame_callback s = Some (co_frame_callback c) \<and> ss_seat s = Some (co_seat c)
    \<and> ss_pointer s = Some (co_pointer c) \<and> ss_keyboard s = Some (co_keyboard c) \<and> ss_output s = Some (co_output c)
    \<and> bf_width b = co_width c \<and> bf_height b = co_height c \<and> bf_stride b = co_stride c \<and> bf_format b = co_format c
    \<and> ss_title s = co_title c \<and> ss_app_id s = co_app_id c"
  using assms unfolding SingleSurfaceSession_snapshot_def rbind_ok_or by auto

lemma finish_batch_inv:
  assumes "finish_batch s = (Inr ev, s')" and "batch_inv n s"
  shows "idle s'"
proof (cases "ss_phase s")
  case AwaitRegistry
  with assms show ?thesis by (auto simp: finish_batch_def idle_def inv_defs split: option.splits)
next
  case AwaitInitialCommit
  with assms(1) have "s' = s\<lparr>ss_initial_committed := False, ss_phase := AwaitConfiguredCommit\<rparr>" and "bootstrapped s"
    by (simp_all add: finish_batch_def bootstrapped_def Let_def split: if_splits)
  with assms(2) AwaitInitialCommit show ?thesis by (auto simp: idle_def inv_defs)
next
  case AwaitConfiguredCommit
  with assms(1) have "s' = s\<lparr>ss_phase := PhaseCommitted\<rparr>" and "ss_committed s"
    by (simp_all add: finish_batch_def Let_def split: if_splits)
  with assms(2) AwaitConfiguredCommit show ?thesis by (auto simp: idle_def inv_defs)
next
  case PhaseCommitted
  with assms(1) show ?thesis by (simp add: finish_batch_def)
qed

lemma accept_batch_idle: "accept_batch wire fd n s = (Inr ev, s') \<Longrightarrow> idle s \<Longrightarrow> idle s'"
  by (metis accept_batch_Inr finish_batch_inv)

section \<open>Presentation\<close>

lemma ObjectMap_retire_live:
  assumes "wf_objects om" and "object_view om i = Some (fv, True)" and "i \<noteq> DISPLAY_OBJECT_ID"
  shows "\<exists>om'. ObjectMap_retire i om = (Inr (), om')"
proof -
  from assms(1,2) obtain k where "k < length (om_slots om)" "ob_id (om_slots om ! k) = i" "is_active (om_slots om ! k)"
    by (auto simp: wf_objects_def object_view_Some entry_def)
  then have "position (\<lambda>slot. ob_id slot = i \<and> is_active slot) (om_slots om) \<noteq> None"
    by (auto simp: position_None)
  with assms(3) show ?thesis by (auto simp: ObjectMap_retire_def edit_early update_first_def)
qed

lemma ObjectMap_delete_retired:
  assumes "wf_objects om" and "object_view om i = Some (fv, False)"
  shows "\<exists>om'. ObjectMap_delete_id_sent i om = (Inr (), om')"
proof -
  from assms obtain k where k: "k < length (om_slots om)" "ob_id (om_slots om ! k) = i" "i \<noteq> 0" "\<not> is_active (om_slots om ! k)"
    by (auto simp: wf_objects_def object_view_Some entry_def)
  then have "is_retired (om_slots om ! k)"
    using assms(1) by (cases "ob_state (om_slots om ! k)") (auto simp: wf_objects_def wf_slots_def is_retired_def is_active_def)
  with k have "position (\<lambda>slot. ob_id slot = i \<and> is_retired slot) (om_slots om) \<noteq> None"
    by (auto simp: position_None)
  then show ?thesis by (auto simp: ObjectMap_delete_id_sent_def update_first_def)
qed

text \<open>The session as \<open>present\<close> leaves it, with the frame callback released.\<close>

definition presented :: "ObjectMap \<Rightarrow> SingleSurfaceSession \<Rightarrow> SingleSurfaceSession" where
  "presented om s = s\<lparr>ss_connection := \<lparr>cn_objects = om\<rparr>, ss_attached := False, ss_damaged := False,
     ss_frame_callback := None, ss_committed := False, ss_phase := AwaitConfiguredCommit\<rparr>"

lemma present_runs:
  assumes "idle s" and "ss_phase s = PhaseCommitted" and "SingleSurfaceSession_snapshot s = Inr c"
  shows "\<exists>om. session_present s = (Inr \<lparr>pr_surface = co_surface c, pr_buffer = co_buffer c,
      pr_frame_callback = co_frame_callback c, pr_pointer = co_pointer c, pr_keyboard = co_keyboard c\<rparr>, presented om s)
    \<and> wf_objects om \<and> object_view om = (object_view (cn_objects (ss_connection s)))(co_frame_callback c := None)"
proof -
  let ?om = "cn_objects (ss_connection s)" and ?i = "co_frame_callback c"
  from snapshot_Inr [OF assms(3)] obtain b where c: "ss_buffer s = Some b" "ss_surface s = Some (co_surface c)"
    "bf_id b = co_buffer c" "ss_frame_callback s = Some ?i" "ss_pointer s = Some (co_pointer c)"
    "ss_keyboard s = Some (co_keyboard c)" by blast
  from assms(1) c(4) have wf: "wf_objects ?om" and "live_as ?om ?i Callback" by (auto simp: idle_def inv_defs)
  then obtain v where v: "object_view ?om ?i = Some ((Callback, v), True)" by (auto simp: live_as_def)
  with wf have "?i \<noteq> DISPLAY_OBJECT_ID" by (auto simp: wf_objects_def)
  from ObjectMap_retire_live [OF wf v this] obtain om1 where r1: "ObjectMap_retire ?i ?om = (Inr (), om1)" by blast
  from ObjectMap_retire_Inr [OF wf r1] v have wf1: "wf_objects om1"
    and v1: "object_view om1 = (object_view ?om)(?i \<mapsto> ((Callback, v), False))" by auto
  from ObjectMap_delete_retired [OF wf1, of ?i] v1 obtain om2 where r2: "ObjectMap_delete_id_sent ?i om1 = (Inr (), om2)" by auto
  from ObjectMap_delete_Inr [OF wf1 r2] v1 have "wf_objects om2" and "object_view om2 = (object_view ?om)(?i := None)" by auto
  moreover have "session_present s = (Inr \<lparr>pr_surface = co_surface c, pr_buffer = co_buffer c,
      pr_frame_callback = ?i, pr_pointer = co_pointer c, pr_keyboard = co_keyboard c\<rparr>, presented om2 s)"
    using assms(2) c r1 r2
    by (cases "ss_connection s") (simp add: session_present_def query_def ebind_def on_connection_def on_objects_def presented_def)
  ultimately show ?thesis by blast
qed

lemma idle_snapshot:
  assumes "idle s" and "ss_phase s = PhaseCommitted"
  shows "\<exists>c. SingleSurfaceSession_snapshot s = Inr c"
  using assms by (auto simp: idle_def inv_defs SingleSurfaceSession_snapshot_def)

lemma idle_presented:
  assumes "idle s" and "ss_phase s = PhaseCommitted" and "ss_frame_callback s = Some i" and "wf_objects om"
    and "object_view om = (object_view (cn_objects (ss_connection s)))(i := None)"
  shows "idle (presented om s)"
proof -
  have typed: "live_as om j f" if "live_as (cn_objects (ss_connection s)) j f" "f \<noteq> Callback" for j f
    using that assms by (auto simp: live_as_def idle_def inv_defs)
  with assms show ?thesis by (auto simp: presented_def idle_def inv_defs)
qed

section \<open>The session as a protocol machine\<close>

datatype SessionStep = Batch SurfaceSessionEvent | Presented PresentedSurface

text \<open>The sessions a service can hold: a new one, and what accepted batches and presentations make of it.\<close>

inductive session_trace :: "nat \<Rightarrow> u32 \<Rightarrow> SessionStep list \<Rightarrow> SingleSurfaceSession \<Rightarrow> bool" where
  start: "SingleSurfaceSession_new capacity serial = Inr s \<Longrightarrow> session_trace capacity serial [] s"
| batch: "session_trace capacity serial steps s \<Longrightarrow> accept_batch wire fd n s = (Inr ev, s')
    \<Longrightarrow> session_trace capacity serial (steps @ [Batch ev]) s'"
| present: "session_trace capacity serial steps s \<Longrightarrow> session_present s = (Inr p, s')
    \<Longrightarrow> session_trace capacity serial (steps @ [Presented p]) s'"

fun next_phase :: "SurfacePhase \<Rightarrow> SessionStep \<Rightarrow> SurfacePhase option" where
  "next_phase AwaitRegistry (Batch (EvRegistry _)) = Some AwaitInitialCommit"
| "next_phase AwaitInitialCommit (Batch (EvConfigure _ _ _ _ _ _ _ _)) = Some AwaitConfiguredCommit"
| "next_phase AwaitConfiguredCommit (Batch (EvCommitted _)) = Some PhaseCommitted"
| "next_phase PhaseCommitted (Presented _) = Some AwaitConfiguredCommit"
| "next_phase _ _ = None"

fun phase_after :: "SurfacePhase \<Rightarrow> SessionStep list \<Rightarrow> SurfacePhase option" where
  "phase_after p [] = Some p"
| "phase_after p (st # sts) = (case next_phase p st of None \<Rightarrow> None | Some q \<Rightarrow> phase_after q sts)"

lemma phase_after_append:
  "phase_after p (xs @ [x]) = (case phase_after p xs of None \<Rightarrow> None | Some q \<Rightarrow> next_phase q x)"
  by (induction xs arbitrary: p) (auto split: option.splits)

lemma new_idle:
  assumes "SingleSurfaceSession_new capacity serial = Inr s"
  shows "idle s" and "ss_phase s = AwaitRegistry" and "ss_configure_serial s = serial"
proof -
  from assms obtain om where om: "ObjectMap_new capacity = Inr om" and serial: "serial \<noteq> 0"
    by (cases "ObjectMap_new capacity") (auto simp: SingleSurfaceSession_new_def Connection_new_def split: if_splits)
  with assms ObjectMap_new_wf(1) [OF om] show "idle s" and "ss_phase s = AwaitRegistry" and "ss_configure_serial s = serial"
    by (auto simp: SingleSurfaceSession_new_def Connection_new_def idle_def inv_defs SurfaceText_EMPTY_ok)
qed

lemma configure_event_Inr:
  assumes "configure_event s = Inr ev"
  shows "\<exists>shm seat pointer keyboard output_id xdg_surface toplevel.
    ev = EvConfigure shm seat pointer keyboard output_id xdg_surface toplevel (ss_configure_serial s)"
  using assms unfolding configure_event_def rbind_ok_or by auto

lemma finish_batch_phase:
  assumes "finish_batch s = (Inr ev, s')"
  shows "next_phase (ss_phase s) (Batch ev) = Some (ss_phase s')"
proof (cases "ss_phase s")
  case AwaitRegistry
  with assms show ?thesis by (auto simp: finish_batch_def split: option.splits)
next
  case AwaitInitialCommit
  with assms configure_event_Inr [of _ ev] show ?thesis by (fastforce simp: finish_batch_def Let_def split: if_splits)
next
  case AwaitConfiguredCommit
  with assms show ?thesis
    by (cases "SingleSurfaceSession_snapshot (s\<lparr>ss_phase := PhaseCommitted\<rparr>)")
      (auto simp: finish_batch_def Let_def split: if_splits)
next
  case PhaseCommitted
  with assms show ?thesis by (simp add: finish_batch_def)
qed

lemma session_present_Inr:
  assumes "session_present s = (Inr p, s')" and "idle s"
  shows "idle s'" and "next_phase (ss_phase s) (Presented p) = Some (ss_phase s')"
proof -
  from assms(1) have ph: "ss_phase s = PhaseCommitted" by (auto simp: session_present_def ebind_query split: if_splits)
  from idle_snapshot [OF assms(2) ph] obtain c where c: "SingleSurfaceSession_snapshot s = Inr c" by blast
  from present_runs [OF assms(2) ph c] assms(1) obtain om where s': "s' = presented om s"
    and om: "wf_objects om" "object_view om = (object_view (cn_objects (ss_connection s)))(co_frame_callback c := None)"
    by auto
  from snapshot_Inr [OF c] have "ss_frame_callback s = Some (co_frame_callback c)" by blast
  from idle_presented [OF assms(2) ph this om] show "idle s'" by (simp add: s')
  show "next_phase (ss_phase s) (Presented p) = Some (ss_phase s')" by (simp add: s' ph presented_def)
qed

lemma session_trace_idle:
  "session_trace capacity serial steps s \<Longrightarrow> idle s \<and> phase_after AwaitRegistry steps = Some (ss_phase s)"
proof (induction rule: session_trace.induct)
  case (start capacity serial s)
  then show ?case by (simp add: new_idle)
next
  case (batch capacity serial steps s wire fd n ev s')
  then obtain s1 where "ss_phase s1 = ss_phase s" "finish_batch s1 = (Inr ev, s')" by (metis accept_batch_Inr)
  with finish_batch_phase [of s1 ev s'] batch show ?case by (auto simp: phase_after_append accept_batch_idle)
next
  case (present capacity serial steps s p s')
  then show ?case by (auto simp: phase_after_append session_present_Inr)
qed

text \<open>\<^bold>\<open>C30\<close>. A session follows the staged protocol and keeps its invariant. Along every
  sequence of accepted batches and presentations the events come in the order registry, configure,
  then commit and presentation in turn, and the phase is the one that order prescribes. The
  invariant \<open>idle\<close> holds between batches: every recorded slot names a live object of the slot's
  interface, the buffer's stride is four bytes per pixel with a positive size below four gigabytes,
  the title and the application identifier are valid UTF-8 of at most 31 bytes (as the unchecked
  conversion in \<open>as_str\<close> requires), a session that awaits its configured commit or has committed
  has completed its bootstrap, and a committed one has acknowledged the configuration and has a
  damaged, attached buffer and a frame callback.\<close>

theorem session_follows_protocol:
  assumes "session_trace capacity serial steps s"
  shows "phase_after AwaitRegistry steps = Some (ss_phase s) \<and> idle s"
  using session_trace_idle [OF assms] by simp

definition committed_uses :: "CommittedSurface \<Rightarrow> (u32 \<times> Interface) set" where
  "committed_uses c = {(co_surface c, Surface), (co_buffer c, Buffer), (co_xdg_surface c, XdgSurface),
    (co_toplevel c, XdgToplevel), (co_frame_callback c, Callback), (co_seat c, Seat), (co_pointer c, Pointer),
    (co_keyboard c, Keyboard), (co_output c, Output)}"

lemma committed_batch:
  assumes "idle s" and "accept_batch wire fd n s = (Inr (EvCommitted c), s')"
  shows "idle s'" and "ss_phase s' = PhaseCommitted" and "SingleSurfaceSession_snapshot s' = Inr c" and "batch_inv n s'"
proof -
  from assms obtain s1 where s1: "batch_inv n s1" "ss_phase s1 = ss_phase s" "finish_batch s1 = (Inr (EvCommitted c), s')"
    by (metis accept_batch_Inr)
  from finish_batch_phase [OF s1(3)] have ph: "ss_phase s1 = AwaitConfiguredCommit" and ph': "ss_phase s' = PhaseCommitted"
    by (cases "ss_phase s1"; auto)+
  then have s': "s' = s1\<lparr>ss_phase := PhaseCommitted\<rparr>" and snap: "SingleSurfaceSession_snapshot s' = Inr c"
    using s1(3)
    by (cases "SingleSurfaceSession_snapshot (s1\<lparr>ss_phase := PhaseCommitted\<rparr>)";
        auto simp: finish_batch_def Let_def split: if_splits)+
  show "idle s'" using s1(3,1) by (rule finish_batch_inv)
  show "ss_phase s' = PhaseCommitted" and "SingleSurfaceSession_snapshot s' = Inr c" by (fact ph', fact snap)
  show "batch_inv n s'" using s1(1) ph by (auto simp: s' inv_defs)
qed

text \<open>\<^bold>\<open>C31\<close>. A committed surface is consistent with the pixels that came with it and can always be
  presented. In a session that satisfies the invariant between batches, when a batch with \<open>n\<close> pixel bytes commits, the reported geometry covers exactly those
  bytes (stride four times the width, stride times height equal to \<open>n\<close>, both sizes positive, format
  1), every reported identifier is a live object of its interface, and both texts are non-empty.
  Presentation then succeeds, reports the same surface, buffer, callback, pointer and keyboard, frees
  the callback's identifier and no other, and leaves the session awaiting the next commit.\<close>

theorem committed_surface_presents:
  assumes "idle s" and "accept_batch wire fd n s = (Inr (EvCommitted c), s1)"
  shows "unat (co_stride c) = 4 * unat (co_width c) \<and> unat (co_stride c) * unat (co_height c) = n
    \<and> 0 < unat (co_width c) \<and> 0 < unat (co_height c) \<and> co_format c = 1
    \<and> tx_length (co_title c) \<noteq> 0 \<and> tx_length (co_app_id c) \<noteq> 0
    \<and> (\<forall>(i, f)\<in>committed_uses c. live_as (cn_objects (ss_connection s1)) i f)
    \<and> (\<exists>s2. session_present s1 = (Inr \<lparr>pr_surface = co_surface c, pr_buffer = co_buffer c,
          pr_frame_callback = co_frame_callback c, pr_pointer = co_pointer c, pr_keyboard = co_keyboard c\<rparr>, s2)
        \<and> ss_phase s2 = AwaitConfiguredCommit \<and> ss_frame_callback s2 = None
        \<and> object_view (cn_objects (ss_connection s2)) =
            (object_view (cn_objects (ss_connection s1)))(co_frame_callback c := None))"
proof -
  note b = committed_batch [OF assms]
  from snapshot_Inr [OF b(3)] obtain buf where buf: "ss_buffer s1 = Some buf"
    and f: "bf_width buf = co_width c" "bf_height buf = co_height c" "bf_stride buf = co_stride c" "bf_format buf = co_format c"
      "bf_id buf = co_buffer c" and t: "ss_title s1 = co_title c" "ss_app_id s1 = co_app_id c"
    and slots: "ss_surface s1 = Some (co_surface c)" "ss_xdg_surface s1 = Some (co_xdg_surface c)"
      "ss_toplevel s1 = Some (co_toplevel c)" "ss_frame_callback s1 = Some (co_frame_callback c)"
      "ss_seat s1 = Some (co_seat c)" "ss_pointer s1 = Some (co_pointer c)" "ss_keyboard s1 = Some (co_keyboard c)"
      "ss_output s1 = Some (co_output c)" by blast
  from b(1,2,4) buf have ok: "buffer_ok buf" "unat (bf_stride buf) * unat (bf_height buf) = n" and boot: "bootstrapped s1"
    and typed: "slots_typed s1"
    by (auto simp: idle_def batch_inv_def session_inv_def configured_def)
  have live: "\<forall>(i, f)\<in>committed_uses c. live_as (cn_objects (ss_connection s1)) i f"
    using typed buf f(5) slots by (auto simp: committed_uses_def slots_typed_def slot_live_def)
  from present_runs [OF b(1-3)] ok boot live show ?thesis
    by (auto simp: buffer_ok_def f t [symmetric] bootstrapped_def presented_def)
qed

section \<open>A client that reaches its first frame\<close>

lemma wf_slots_distinct: "distinct (map ob_id xs) \<Longrightarrow> list_all (\<lambda>ob. ob_state ob = Active \<and> ob_id ob \<noteq> 0) xs \<Longrightarrow> wf_slots xs"
  by (auto simp: wf_slots_def list_all_length distinct_conv_nth)

text \<open>A session that has one frame ready: objects 2 to 15 are bound, the two by two pixel buffer 14 is
  attached and damaged, the frame callback is 15; and the bytes of \<open>wl_surface.commit\<close>.\<close>

definition demo_objects :: "Object list" where
  "demo_objects = map (\<lambda>(i, f, v). \<lparr>ob_id = i, ob_interface = f, ob_version = v, ob_state = Active\<rparr>)
    [(1, Display, 1), (2, Registry, 1), (3, Compositor, 4), (4, Shm, 1), (5, Seat, 1), (6, Output, 1),
     (7, XdgWmBase, 1), (8, Pointer, 1), (9, Keyboard, 1), (10, Surface, 4), (11, XdgSurface, 1),
     (12, XdgToplevel, 1), (13, ShmPool, 1), (14, Buffer, 1), (15, Callback, 1)]"

definition demo_text :: SurfaceText where
  "demo_text = \<lparr>tx_bytes = 116 # replicate 30 0, tx_length = 1\<rparr>"

definition demo_session :: SingleSurfaceSession where
  "demo_session =
    \<lparr>ss_connection = \<lparr>cn_objects = \<lparr>om_slots = demo_objects\<rparr>\<rparr>, ss_phase = AwaitConfiguredCommit,
     ss_configure_serial = 9, ss_registry = Some 2, ss_compositor = Some 3, ss_shm = Some 4, ss_seat = Some 5,
     ss_pointer = Some 8, ss_keyboard = Some 9, ss_output = Some 6, ss_wm_base = Some 7, ss_surface = Some 10,
     ss_pool = Some 13,
     ss_buffer = Some \<lparr>bf_id = 14, bf_width = 2, bf_height = 2, bf_stride = 8, bf_format = 1\<rparr>,
     ss_xdg_surface = Some 11, ss_toplevel = Some 12, ss_attached = True, ss_damaged = True,
     ss_frame_callback = Some 15, ss_title = demo_text, ss_app_id = demo_text, ss_initial_committed = False,
     ss_configure_acked = True, ss_window_geometry = True, ss_committed = False\<rparr>"

definition demo_commit :: "u8 list" where
  "demo_commit = [10, 0, 0, 0, 6, 0, 8, 0]"

lemma demo_live:
  "live_as \<lparr>om_slots = demo_objects\<rparr> 2 Registry" "live_as \<lparr>om_slots = demo_objects\<rparr> 3 Compositor"
  "live_as \<lparr>om_slots = demo_objects\<rparr> 4 Shm" "live_as \<lparr>om_slots = demo_objects\<rparr> 5 Seat"
  "live_as \<lparr>om_slots = demo_objects\<rparr> 6 Output" "live_as \<lparr>om_slots = demo_objects\<rparr> 7 XdgWmBase"
  "live_as \<lparr>om_slots = demo_objects\<rparr> 8 Pointer" "live_as \<lparr>om_slots = demo_objects\<rparr> 9 Keyboard"
  "live_as \<lparr>om_slots = demo_objects\<rparr> 10 Surface" "live_as \<lparr>om_slots = demo_objects\<rparr> 11 XdgSurface"
  "live_as \<lparr>om_slots = demo_objects\<rparr> 12 XdgToplevel" "live_as \<lparr>om_slots = demo_objects\<rparr> 13 ShmPool"
  "live_as \<lparr>om_slots = demo_objects\<rparr> 14 Buffer" "live_as \<lparr>om_slots = demo_objects\<rparr> 15 Callback"
  by (simp_all add: live_as_def object_view_def demo_objects_def entry_def is_active_def)

lemma demo_idle: "idle demo_session"
proof -
  have "wf_slots demo_objects" by (rule wf_slots_distinct) (simp_all add: demo_objects_def)
  then have "wf_objects \<lparr>om_slots = demo_objects\<rparr>"
    by (simp add: wf_objects_def object_view_def demo_objects_def entry_def is_active_def DISPLAY_OBJECT_ID_def)
  moreover have "surface_text_ok demo_text"
    by (simp add: surface_text_ok_def demo_text_def SurfaceText_as_str_def text_ok_def MAX_SURFACE_METADATA_LENGTH_def)
  moreover have "tx_length demo_text \<noteq> 0" by (simp add: demo_text_def)
  ultimately show ?thesis
    by (simp add: idle_def inv_defs demo_session_def demo_live buffer_ok_def)
qed

lemma demo_commit_runs:
  "\<exists>c s. accept_batch demo_commit None 16 demo_session = (Inr (EvCommitted c), s) \<and> co_width c = 2 \<and> co_frame_callback c = 15"
proof -
  have "(case fst (accept_batch demo_commit None 16 demo_session) of
      Inr (EvCommitted c) \<Rightarrow> co_width c = 2 \<and> co_frame_callback c = 15 | _ \<Rightarrow> False)"
    by code_simp
  then show ?thesis
    by (cases "accept_batch demo_commit None 16 demo_session")
      (auto split: sum.splits SurfaceSessionEvent.splits)
qed

theorem committed_surface_presents_witness:
  "\<exists>c s1 s2 p. accept_batch demo_commit None 16 demo_session = (Inr (EvCommitted c), s1)
    \<and> unat (co_stride c) = 8 \<and> session_present s1 = (Inr p, s2) \<and> pr_frame_callback p = 15
    \<and> object_view (cn_objects (ss_connection s2)) 15 = None"
proof -
  from demo_commit_runs obtain c s1 where c: "accept_batch demo_commit None 16 demo_session = (Inr (EvCommitted c), s1)"
    and g: "co_width c = 2" "co_frame_callback c = 15" by auto
  from committed_surface_presents [OF demo_idle c] g c show ?thesis by fastforce
qed

text \<open>The first batch, \<open>wl_display.get_registry\<close>, on a new session.\<close>

theorem session_follows_protocol_witness:
  "\<exists>s s'. SingleSurfaceSession_new 4 9 = Inr s
    \<and> accept_batch [1, 0, 0, 0, 1, 0, 12, 0, 2, 0, 0, 0] None 0 s = (Inr (EvRegistry 2), s')
    \<and> ss_phase s' = AwaitInitialCommit \<and> slots_typed s'"
proof -
  let ?wire = "[1, 0, 0, 0, 1, 0, 12, 0, 2, 0, 0, 0] :: u8 list"
  have "(case SingleSurfaceSession_new 4 9 of Inr s \<Rightarrow> fst (accept_batch ?wire None 0 s) = Inr (EvRegistry 2) | _ \<Rightarrow> False)"
    by code_simp
  then obtain s s' where new: "SingleSurfaceSession_new 4 9 = Inr s"
    and run: "accept_batch ?wire None 0 s = (Inr (EvRegistry 2), s')"
    by (auto simp: prod_eq_iff split: sum.splits)
  from session_follows_protocol [OF session_trace.batch [OF session_trace.start [OF new] run]] new run
  show ?thesis by (auto simp: idle_def session_inv_def)
qed

end
