(* ===== verification/Spec2Isabelle.thy ===== *)
theory Spec2Isabelle
  imports Ebpf_Sound Ipc_Properties Process_Properties Initial_Stack Elf_Proofs Shared_Memory_Proofs Acpi_Proofs Pci_Proofs Virtio
    Desktop_Protocol_Proofs Ext4_Journal Ext4_Inode_Allocation Ext4_Directory_Proofs Wayland_Session_Proofs
begin

text \<open>
  \<^bold>\<open>SlopOS: a verification library of the kernel's support crates and of its memory management.\<close>

  \<^bold>\<open>The program.\<close> SlopOS is a small x86-64 operating system in Rust. A UEFI loader
  (\<^verbatim>\<open>src/boot\<close>) passes a boot description (\<^verbatim>\<open>src/crates/boot-protocol\<close>) to the kernel
  (\<^verbatim>\<open>src/kernel\<close>). The kernel keeps its decisions in crates without input and output: the frame
  allocator hands out pages, the ACPI and PCI crates read what the firmware and the buses report, the
  virtio crate lays out the queues of the block device, the ext4 crate decides which bytes of its blocks
  change, the vfs, process and ipc crates hold the tables behind the system calls, the elf crate
  validates what is executed, the ebpf crate verifies and runs filter programs, the desktop-protocol
  crate encodes what the desktop processes exchange, and the wayland crate serves the surface of one
  client. The drivers and services of the kernel call these crates under spin locks.

  \<^bold>\<open>Conventions.\<close> Machine integers are words of their width (\<open>u8\<close> to \<open>u64\<close>, \<open>i16\<close>, \<open>i32\<close>);
  \<open>+\<close> on them wraps, and \<open>checked_add\<close>, \<open>saturating_sub\<close> and the like are the operations of the same
  name in the source. A \<open>usize\<close> is a \<open>nat\<close> with the 64-bit limit written out where the source checks
  it (\<open>usize_add\<close>), and a word in the allocator and the heap, where the source mixes it with addresses. Arrays are
  lists. A \<open>Result\<close> is a sum with the error on the left; an operation on \<open>&mut self\<close> returns its result
  and the new state. Loops over a range are folds over the list of its indices (\<open>fold_result\<close> where
  the body can return early). The shared definitions are in \<^verbatim>\<open>Slop_Prelude\<close>. \<^verbatim>\<open>Buffer_Edit\<close> adds the
  combinators for fallible code on a mutable borrow, which keeps what it changed before it failed: a
  state-and-error monad, used on byte buffers by the ext4 theories and on readers, builders,
  connections and sessions by the wayland theories.

  \<^bold>\<open>Theories and what they model.\<close>

  \<^item> \<^verbatim>\<open>Ebpf\<close> (\<^verbatim>\<open>src/ebpf/src/lib.rs\<close>): the instruction format, \<open>verify\<close> with its per-instruction
    abstract interpretation of initialised registers, and \<open>execute\<close>; the helper registry is a
    parameter. \<^verbatim>\<open>Ebpf_Sound\<close> proves that the verifier is sound: accepted programs terminate without a fault,
    call allowed helpers only and, when these do not inspect the register file, do not depend on uninitialised
    registers.
  \<^item> \<^verbatim>\<open>Ipc\<close> (\<^verbatim>\<open>src/crates/ipc/src/lib.rs\<close>): the table of local stream sockets, its byte rings, accept queues
    and every operation. \<^verbatim>\<open>Byte_Stream\<close> is the contract of a bounded byte queue (locale
    \<open>byte_stream\<close>), which \<^verbatim>\<open>Ipc_Proofs\<close> interprets on a ring and on a connected pair;
    \<^verbatim>\<open>Handle_Table\<close> is the contract of generation-checked handles (locale \<open>generation_table\<close>).
    \<^verbatim>\<open>Ipc_Properties\<close> has the reachability relation, the invariant and the properties.
  \<^item> \<^verbatim>\<open>Vfs\<close> (\<^verbatim>\<open>src/crates/vfs/src/lib.rs\<close>): path normalisation, the mount table and the descriptor table.
    \<^verbatim>\<open>Handle_Map\<close> is the contract of a lowest-free-slot table (locale \<open>handle_map\<close>);
    \<^verbatim>\<open>Vfs_Proofs\<close> refines the mount table to a finite map, resolution to longest-prefix search, and
    bounds the read, write and append windows.
  \<^item> \<^verbatim>\<open>Process\<close> and \<^verbatim>\<open>Initial_Stack\<close> (\<^verbatim>\<open>src/crates/process/src/lib.rs\<close>): the process table with its life
    cycle, descriptor operations and scheduling order, and the builder of the initial user stack.
    \<^verbatim>\<open>Process_Proofs\<close> and \<^verbatim>\<open>Process_Properties\<close> show the invariant, the life cycle, the isolation of
    processes and the fairness of the scheduling order.
  \<^item> \<^verbatim>\<open>Elf\<close> (\<^verbatim>\<open>src/crates/elf/src/lib.rs\<close>): header and segment validation and the segment iterator;
    \<^verbatim>\<open>Elf_Proofs\<close> shows which segments are accepted and what an accepted executable guarantees.
  \<^item> \<^verbatim>\<open>Frames\<close> (\<^verbatim>\<open>src/kernel/src/memory.rs\<close>, \<^verbatim>\<open>heap.rs\<close>): the frame allocator, its initialisation from the
    memory map, and the bump heap. \<^verbatim>\<open>Frame_Owner\<close> is the contract of an allocator of frames (locale
    \<open>frame_owner\<close>); \<^verbatim>\<open>Frames_Proofs\<close> interprets it on the allocator.
  \<^item> \<^verbatim>\<open>Shared_Memory\<close> (\<^verbatim>\<open>src/kernel/src/shared_memory_service.rs\<close>): reference-counted one-page objects on the
    modelled allocator and a byte-addressed memory; \<^verbatim>\<open>Shared_Memory_Proofs\<close> instantiates the
    handle contract a third time and uses the ownership of frames, and shows that the last release returns the frame
    unless the allocator's recycling list is full.
  \<^item> \<^verbatim>\<open>Acpi\<close> (\<^verbatim>\<open>src/crates/acpi/src/lib.rs\<close>): root pointer, description tables, MADT; \<^verbatim>\<open>Acpi_Proofs\<close>.
  \<^item> \<^verbatim>\<open>Pci\<close> (\<^verbatim>\<open>src/crates/pci/src/lib.rs\<close>): the bus scan and the capability walk in the state monad, with
    the configuration access as a parameter; \<^verbatim>\<open>Pci_Proofs\<close> shows that the walk is complete and its table consistent,
    and that the scan lists the functions of all 256 buses in order.
  \<^item> \<^verbatim>\<open>Virtio\<close> (\<^verbatim>\<open>src/crates/virtio/src/lib.rs\<close>): queue sizes and layout and the chains of block requests.
  \<^item> \<^verbatim>\<open>Desktop_Protocol\<close> (\<^verbatim>\<open>src/crates/desktop-protocol/src/lib.rs\<close>): the messages between desktop processes.
    \<^verbatim>\<open>Codec\<close> is the contract of an encoder and its decoder (locales \<open>codec\<close> and \<open>header_codec\<close>), which
    \<^verbatim>\<open>Desktop_Protocol_Proofs\<close> interprets on the five message types.
  \<^item> \<^verbatim>\<open>Ext4\<close>, \<^verbatim>\<open>Ext4_Journal\<close>, \<^verbatim>\<open>Ext4_Allocation\<close>, \<^verbatim>\<open>Ext4_Directory\<close> (\<^verbatim>\<open>src/crates/ext4/src/lib.rs\<close>):
    superblock, block groups, inodes with their extents, the checksums, the journal's blocks, the
    bitmaps and counters of allocation, and linear directory blocks. \<^verbatim>\<open>Ext4_Proofs\<close> and
    \<^verbatim>\<open>Ext4_Inode_Proofs\<close> show that the edits of superblocks and inodes are exact and undo each other and
    that extent lookup finds the covering extent; \<^verbatim>\<open>Ext4_Block_Allocation\<close> and
    \<^verbatim>\<open>Ext4_Inode_Allocation\<close> that an allocation flips one bit and moves the counters in step on descriptors of at
    least 64 bytes, and that none succeeds on the 32-byte ones;
    \<^verbatim>\<open>Ext4_Directory_Records\<close> and \<^verbatim>\<open>Ext4_Directory_Proofs\<close> that a directory block implements a finite
    map from names; \<^verbatim>\<open>Ext4_Journal\<close> that transactions parse back.
  \<^item> \<^verbatim>\<open>Wayland_Wire\<close>, \<^verbatim>\<open>Wayland\<close>, \<^verbatim>\<open>Wayland_Session\<close> (\<^verbatim>\<open>src/crates/wayland/src/lib.rs\<close>): the wire
    format with its argument reader, message builder and event encoders; the object map and the
    dispatch of requests on it; the staged session of one surface. \<^verbatim>\<open>Wayland_Wire_Proofs\<close> shows that
    every event reads back; \<^verbatim>\<open>Object_Lifecycle\<close> is the contract of identifiers that are bound, retired
    and released (locale \<open>object_lifecycle\<close>), which \<^verbatim>\<open>Wayland_Proofs\<close> interprets on the object map and
    builds the type safety of dispatch on; \<^verbatim>\<open>Wayland_Session_Proofs\<close> has the trace relation of a session,
    its invariant, the order of its phases and the presentation of what was committed.

  \<^bold>\<open>Bounds and fuel.\<close> The only recursions that do not follow the data are the interpreter loop of
  the ebpf crate, which recurses on the number of steps left and is shown to end before the source's own step limit for
  accepted programs; the capability walk of the pci crate, whose 48 rounds are the source's constant and
  are shown to be enough on every hardware; the walk of a descriptor chain in the virtio
  properties, which is bounded by the number of descriptors given; the loops over the records of a
  directory block, which are \<open>None\<close> where a record of length zero would keep the source from
  returning and are shown to return on every validated block; and the loop over the frames of a
  Wayland batch, which ends because every frame has at least eight bytes.

  \<^bold>\<open>Not modelled.\<close> Spin locks (each operation is atomic here), interrupt and context-switch code in inline
  assembly, port and memory-mapped input and output (serial, PS/2, APIC, framebuffer, the virtio
  transport), page-table walks through raw pointers, the futures of the executor, which the compiler generates, the
  UEFI loader and the user programs. The kernel's file-system service is asynchronous glue around the
  modelled ext4 operations; the block device it awaits is outside the model. The shell crate (window
  layout, configuration parsers, image decoding and rendering) and the keymap asset of the wayland
  crate are not modelled.
\<close>

end
